(* ===== verification/Prelude.thy ===== *)
theory Prelude
  imports Main "HOL-Library.Word" "HOL-Library.List_Lexorder" "HOL-Library.Char_ord"
    "HOL-Library.Sublist"
begin

text \<open>
  The vocabulary shared by all components of the storage worker model.

  \<^item> Byte vectors, \<open>std::string\<close> and the machine integers of the source.
  \<^item> \<open>std::map\<close> and \<open>std::unordered_map\<close> as association lists kept in key order
    (\<open>om_put\<close>, \<open>om_del\<close>, lookup by \<open>map_of\<close>), and \<open>std::set\<close> as a sorted list of distinct
    elements (\<open>insort_insert\<close>, \<open>remove1\<close> of the library).
  \<^item> \<open>std::vector::insert\<close> and \<open>std::vector::erase\<close> at a position.
  \<^item> \<open>std::to_string\<close>.

  \<open>std::string\<close> compares bytes as unsigned characters, which is the lexicographic order that
  List\_Lexorder and Char\_ord put on \<^typ>\<open>string\<close>.
\<close>

named_theorems file_simps \<open>equations for reading and writing the fields of a file entry\<close>
named_theorems inv_intros \<open>the operations keep the invariants of the workload\<close>
named_theorems frame_simps \<open>fields an operation leaves alone\<close>

type_synonym byte = "8 word"
type_synonym bytes = "byte list"
type_synonym size_t = "64 word"

section \<open>Strings and bytes\<close>

definition str_bytes :: "string \<Rightarrow> bytes" where
  "str_bytes s = map of_char s"

definition bytes_str :: "bytes \<Rightarrow> string" where
  "bytes_str bs = map (\<lambda>b. char_of (unat b)) bs"

lemma length_str_bytes [simp]: "length (str_bytes s) = length s"
  by (simp add: str_bytes_def)

lemma str_bytes_append [simp]: "str_bytes (s @ t) = str_bytes s @ str_bytes t"
  by (simp add: str_bytes_def)

lemma str_bytes_Nil [simp]: "str_bytes [] = []"
  by (simp add: str_bytes_def)

lemma str_bytes_Cons [simp]: "str_bytes (c # s) = of_char c # str_bytes s"
  by (simp add: str_bytes_def)

lemma unat_of_char [simp]: "unat (of_char c :: byte) = of_char c"
proof -
  have "unat (of_nat (of_char c) :: byte) = (of_char c :: nat)"
    by (simp add: unat_of_nat)
  then show ?thesis by (simp add: of_nat_of_char)
qed

lemma bytes_str_str_bytes [simp]: "bytes_str (str_bytes s) = s"
  by (induction s) (simp_all add: bytes_str_def)

lemma str_bytes_inject [simp]: "str_bytes s = str_bytes t \<longleftrightarrow> s = t"
  by (metis bytes_str_str_bytes)

section \<open>Ordered maps\<close>

text \<open>An association list sorted by key, as an iteration over \<open>std::map\<close> visits it.\<close>

fun om_put :: "'k::linorder \<Rightarrow> 'v \<Rightarrow> ('k \<times> 'v) list \<Rightarrow> ('k \<times> 'v) list" where
  "om_put k v [] = [(k, v)]"
| "om_put k v (e # m) =
     (if k < fst e then (k, v) # e # m
      else if k = fst e then (k, v) # m
      else e # om_put k v m)"

definition om_del :: "'k \<Rightarrow> ('k \<times> 'v) list \<Rightarrow> ('k \<times> 'v) list" where
  "om_del k m = filter (\<lambda>e. fst e \<noteq> k) m"

definition om_sorted :: "('k::linorder \<times> 'v) list \<Rightarrow> bool" where
  "om_sorted m \<longleftrightarrow> sorted_wrt (<) (map fst m)"

lemma map_of_om_put [simp]: "map_of (om_put k v m) = (map_of m)(k \<mapsto> v)"
  by (induction m) (auto simp: fun_eq_iff)

lemma map_of_om_del [simp]: "map_of (om_del k m) = (map_of m)(k := None)"
  by (induction m) (auto simp: fun_eq_iff om_del_def)

lemma keys_om_put [simp]: "fst ` set (om_put k v m) = insert k (fst ` set m)"
  by (induction m) auto

lemma keys_om_del [simp]: "fst ` set (om_del k m) = fst ` set m - {k}"
  by (auto simp: om_del_def)

lemma om_put_not_Nil [simp]: "om_put k v m \<noteq> []"
  by (cases m) auto

lemma om_sorted_put: "om_sorted m \<Longrightarrow> om_sorted (om_put k v m)"
proof (induction m)
  case Nil
  then show ?case by (simp add: om_sorted_def)
next
  case (Cons e m)
  then have IH: "om_sorted (om_put k v m)" by (simp add: om_sorted_def)
  have "\<forall>x \<in> fst ` set m. fst e < x" using Cons.prems by (simp add: om_sorted_def)
  then have "\<not> k < fst e \<Longrightarrow> k \<noteq> fst e \<Longrightarrow> \<forall>x \<in> fst ` set (om_put k v m). fst e < x"
    by (auto simp del: image_iff)
  with IH Cons.prems show ?case
    by (auto simp: om_sorted_def image_iff)
qed

lemma om_sorted_del: "om_sorted m \<Longrightarrow> om_sorted (om_del k m)"
  unfolding om_sorted_def om_del_def
  by (metis sorted_wrt_filter sorted_wrt_map)

lemma om_sorted_distinct: "om_sorted m \<Longrightarrow> distinct (map fst m)"
  by (simp add: om_sorted_def strict_sorted_iff)

lemma length_om_put:
  "om_sorted m \<Longrightarrow> length (om_put k v m) = (if k \<in> fst ` set m then length m else Suc (length m))"
proof (induction m)
  case (Cons e m)
  then have "k < fst e \<Longrightarrow> k \<notin> fst ` set m" by (auto simp: om_sorted_def)
  with Cons show ?case by (auto simp: om_sorted_def)
qed simp

lemma om_put_id:
  "om_sorted m \<Longrightarrow> map_of m k = Some v \<Longrightarrow> om_put k v m = m"
proof (induction m)
  case (Cons e m)
  have "fst e < k" if "k \<noteq> fst e"
  proof -
    have "map_of m k = Some v" using that Cons.prems(2) by (cases e) auto
    then have "k \<in> fst ` set m" by (rule map_of_SomeD [THEN imageI, of _ _ _ fst, simplified])
    with Cons.prems(1) show ?thesis by (auto simp: om_sorted_def)
  qed
  moreover have "k \<noteq> fst e \<Longrightarrow> map_of m k = Some v" and "k = fst e \<Longrightarrow> e = (k, v)"
    using Cons.prems(2) by (cases e; auto)+
  ultimately show ?case using Cons by (auto simp: om_sorted_def)
qed simp

section \<open>Positions in a vector\<close>

definition vec_insert :: "nat \<Rightarrow> 'a \<Rightarrow> 'a list \<Rightarrow> 'a list" where
  "vec_insert pos x xs = take pos xs @ x # drop pos xs"

definition vec_erase :: "nat \<Rightarrow> 'a list \<Rightarrow> 'a list" where
  "vec_erase pos xs = take pos xs @ drop (Suc pos) xs"

lemma length_vec_insert [simp]: "pos \<le> length xs \<Longrightarrow> length (vec_insert pos x xs) = Suc (length xs)"
  by (simp add: vec_insert_def)

lemma length_vec_erase [simp]: "pos < length xs \<Longrightarrow> length (vec_erase pos xs) = length xs - 1"
  by (simp add: vec_erase_def)

lemma set_vec_insert [simp]: "set (vec_insert pos x xs) = insert x (set xs)"
  by (metis append_take_drop_id list.simps(15) set_append Un_insert_right vec_insert_def)

lemma set_vec_erase_subset: "set (vec_erase pos xs) \<subseteq> set xs"
  by (auto simp: vec_erase_def dest: in_set_takeD in_set_dropD)

lemma map_vec_insert: "map f (vec_insert pos x xs) = vec_insert pos (f x) (map f xs)"
  by (simp add: vec_insert_def take_map drop_map)

lemma map_vec_erase: "map f (vec_erase pos xs) = vec_erase pos (map f xs)"
  by (simp add: vec_erase_def take_map drop_map)

lemma vec_erase_insert [simp]:
  "pos \<le> length xs \<Longrightarrow> vec_erase pos (vec_insert pos x xs) = xs"
  by (simp add: vec_insert_def vec_erase_def)

lemma sorted_wrt_vec_erase: "sorted_wrt P xs \<Longrightarrow> sorted_wrt P (vec_erase pos xs)"
proof (cases "pos < length xs")
  case True
  assume "sorted_wrt P xs"
  then have "sorted_wrt P (take pos xs @ xs ! pos # drop (Suc pos) xs)"
    using id_take_nth_drop [OF True] by simp
  then show ?thesis by (simp add: vec_erase_def sorted_wrt_append)
qed (simp add: vec_erase_def)

lemma set_vec_erase_distinct:
  assumes "distinct xs" and "pos < length xs"
  shows "set (vec_erase pos xs) = set xs - {xs ! pos}"
proof -
  have xs: "xs = take pos xs @ xs ! pos # drop (Suc pos) xs"
    using assms(2) by (rule id_take_nth_drop)
  with assms(1) have "distinct (take pos xs @ xs ! pos # drop (Suc pos) xs)" by simp
  then show ?thesis
    by (subst (2) xs) (auto simp: vec_erase_def)
qed

lemma map_of_vec_insert:
  assumes "k \<notin> fst ` set xs"
  shows "map_of (vec_insert pos (k, v) xs) = (map_of xs)(k \<mapsto> v)"
proof -
  have "k \<notin> fst ` set (take pos xs)" using assms by (auto dest: in_set_takeD)
  then have "map_of (take pos xs) k = None" by (simp add: map_of_eq_None_iff)
  moreover have "map_of xs = map_of (drop pos xs) ++ map_of (take pos xs)"
    by (metis append_take_drop_id map_of_append)
  ultimately show ?thesis
    by (auto simp: vec_insert_def fun_eq_iff map_add_def split: option.splits)
qed

lemma map_of_vec_erase:
  assumes "distinct (map fst xs)" and "pos < length xs"
  shows "map_of (vec_erase pos xs) = (map_of xs)(fst (xs ! pos) := None)"
proof -
  have xs: "xs = take pos xs @ xs ! pos # drop (Suc pos) xs"
    using assms(2) by (rule id_take_nth_drop)
  have "distinct (map fst (take pos xs @ xs ! pos # drop (Suc pos) xs))" using assms(1) xs by simp
  then have n: "fst (xs ! pos) \<notin> fst ` set (take pos xs)" "fst (xs ! pos) \<notin> fst ` set (drop (Suc pos) xs)"
    by auto
  have "map_of xs = (map_of (drop (Suc pos) xs))(fst (xs ! pos) \<mapsto> snd (xs ! pos)) ++ map_of (take pos xs)"
    by (subst xs) (simp add: map_of_eq_None_iff [symmetric] map_upd_upds_conv_if [symmetric] del: take_map)
  then show ?thesis using n
    by (auto simp: vec_erase_def fun_eq_iff map_add_def map_of_eq_None_iff [symmetric] split: option.splits)
qed

lemma map_of_list_update:
  assumes "distinct (map fst xs)" and "pos < length xs" and "fst y = fst (xs ! pos)"
  shows "map_of (xs[pos := y]) = (map_of xs)(fst y \<mapsto> snd y)"
  using assms
proof (induction xs arbitrary: pos)
  case (Cons x xs)
  show ?case
  proof (cases pos)
    case 0
    with Cons.prems show ?thesis by (cases y; cases x) (auto simp: fun_eq_iff)
  next
    case (Suc n)
    then have "xs ! n \<in> set xs" using Cons.prems by simp
    then have "fst (xs ! n) \<in> fst ` set xs" by (rule imageI)
    then have "fst x \<noteq> fst y" using Cons.prems Suc by auto
    with Cons Suc show ?thesis by (auto simp: fun_eq_iff)
  qed
qed simp

lemma nths_vec_erase:
  assumes "A \<subseteq> {..<i}" and "i < length xs"
  shows "nths (vec_erase i xs) (- A) = nths xs (- insert i A)"
proof -
  have xs: "xs = take i xs @ xs ! i # drop (Suc i) xs" using assms(2) by (rule id_take_nth_drop)
  have "{j. j + i \<in> - A} = UNIV" and all: "{j. Suc j + i \<in> - insert i A} = UNIV" using assms(1) by auto
  moreover have "nths (take i xs) (- insert i A) = nths (take i xs) (- A)"
  proof -
    have "length (take i xs) = i" using assms(2) by simp
    then show ?thesis by (auto simp: nths_def intro!: arg_cong [where f = "map fst"] filter_cong dest: set_zip_rightD)
  qed
  ultimately show ?thesis
    using assms(2) by (subst xs) (simp add: vec_erase_def nths_append nths_Cons all)
qed

lemma filter_vec_erase:
  assumes "i < length xs"
  shows "length (filter P (vec_erase i xs)) = length (filter P xs) - (if P (xs ! i) then 1 else 0)"
proof -
  have xs: "xs = take i xs @ xs ! i # drop (Suc i) xs" using assms by (rule id_take_nth_drop)
  show ?thesis by (subst (2) xs) (simp add: vec_erase_def)
qed

section \<open>Strictly sorted lists\<close>

text \<open>The number of elements below a key is where the key belongs.\<close>

definition lower_bound :: "'a::linorder \<Rightarrow> 'a list \<Rightarrow> nat" where
  "lower_bound k xs = length (filter (\<lambda>x. x < k) xs)"

lemma lower_bound_le [simp]: "lower_bound k xs \<le> length xs"
  by (simp add: lower_bound_def)

lemma sorted_nth_less_iff:
  fixes xs :: "'a::linorder list"
  assumes "sorted_wrt (<) xs" and "i < length xs" and "j < length xs"
  shows "xs ! i < xs ! j \<longleftrightarrow> i < j"
proof
  assume lt: "xs ! i < xs ! j"
  show "i < j"
  proof (rule ccontr)
    assume "\<not> i < j"
    then have "xs ! j \<le> xs ! i"
      using sorted_wrt_nth_less [OF assms(1), of j i] assms(2) by (cases "j = i") auto
    with lt show False by simp
  qed
qed (use assms sorted_wrt_nth_less in blast)

lemma lower_bound_split:
  assumes "sorted_wrt (<) xs" and "pos \<le> length xs"
    and "\<And>i. i < pos \<Longrightarrow> xs ! i < k" and "\<And>i. pos \<le> i \<Longrightarrow> i < length xs \<Longrightarrow> k \<le> xs ! i"
  shows "lower_bound k xs = pos"
proof -
  have "filter (\<lambda>x. x < k) (take pos xs) = take pos xs"
    using assms(2,3) by (auto simp: filter_id_conv in_set_conv_nth)
  moreover have "filter (\<lambda>x. x < k) (drop pos xs) = []"
  proof (rule ccontr)
    assume "filter (\<lambda>x. x < k) (drop pos xs) \<noteq> []"
    then obtain x where "x \<in> set (drop pos xs)" and "x < k" by (auto simp: filter_empty_conv)
    then obtain j where "j < length xs - pos" and "xs ! (pos + j) < k"
      by (auto simp: in_set_conv_nth)
    moreover from this(1) have "pos + j < length xs" by arith
    ultimately show False using assms(4) [of "pos + j"] by auto
  qed
  ultimately have "filter (\<lambda>x. x < k) xs = take pos xs"
    by (metis append_Nil2 append_take_drop_id filter_append)
  with assms(2) show ?thesis by (simp add: lower_bound_def)
qed

lemma nth_lower_bound:
  assumes "sorted_wrt (<) xs"
  shows "i < lower_bound k xs \<Longrightarrow> xs ! i < k"
    and "lower_bound k xs \<le> i \<Longrightarrow> i < length xs \<Longrightarrow> k \<le> xs ! i"
proof -
  have "lower_bound k xs = length (takeWhile (\<lambda>x. x < k) xs)"
    using assms unfolding lower_bound_def
  proof (induction xs)
    case (Cons a xs)
    have "\<forall>x \<in> set xs. \<not> x < k" if "\<not> a < k" using Cons.prems that by auto
    then have "filter (\<lambda>x. x < k) xs = []" if "\<not> a < k" using that by (simp add: filter_empty_conv)
    with Cons show ?case by simp
  qed simp
  note lb = this
  show "i < lower_bound k xs \<Longrightarrow> xs ! i < k"
    using lb by (metis nth_mem set_takeWhileD takeWhile_nth)
  show "k \<le> xs ! i" if "lower_bound k xs \<le> i" and "i < length xs"
  proof -
    have "lower_bound k xs < length xs" using that by simp
    then have "k \<le> xs ! lower_bound k xs"
      using lb nth_length_takeWhile [of "\<lambda>x. x < k" xs] by (simp add: not_less)
    also have "\<dots> \<le> xs ! i"
      using assms that by (metis order_le_less sorted_wrt_nth_less)
    finally show ?thesis .
  qed
qed

lemma sorted_vec_insert:
  assumes "sorted_wrt (<) xs" and "k \<notin> set xs"
  shows "sorted_wrt (<) (vec_insert (lower_bound k xs) k xs)"
proof -
  let ?p = "lower_bound k xs"
  have lt: "\<forall>x \<in> set (take ?p xs). x < k"
    using nth_lower_bound(1) [OF assms(1)] by (auto simp: in_set_conv_nth)
  have gt: "\<forall>x \<in> set (drop ?p xs). k < x"
  proof
    fix x assume "x \<in> set (drop ?p xs)"
    then obtain j where "j < length xs - ?p" and "x = xs ! (?p + j)"
      by (auto simp: in_set_conv_nth)
    then have "k \<le> x" and "x \<in> set xs"
      using nth_lower_bound(2) [OF assms(1), of k "?p + j"] by auto
    with assms(2) show "k < x" by (metis order_le_less)
  qed
  have "sorted_wrt (<) (take ?p xs @ drop ?p xs)" using assms(1) by simp
  with lt gt show ?thesis
    unfolding vec_insert_def by (auto simp: sorted_wrt_append intro: order.strict_trans)
qed

section \<open>Machine integers\<close>

text \<open>
  A C++ \<open>long\<close> is read as an integer; additions that the source does not guard go through
  \<open>long_add\<close>, which wraps at 64 bits in two's complement.
\<close>

definition long_wrap :: "int \<Rightarrow> int" where
  "long_wrap x = (x + 2 ^ 63) mod 2 ^ 64 - 2 ^ 63"

definition long_add :: "int \<Rightarrow> int \<Rightarrow> int" where
  "long_add a b = long_wrap (a + b)"

lemma long_wrap_id: "- (2 ^ 63) \<le> x \<Longrightarrow> x < 2 ^ 63 \<Longrightarrow> long_wrap x = x"
  by (simp add: long_wrap_def)

lemma long_wrap_range: "- (2 ^ 63) \<le> long_wrap x \<and> long_wrap x < 2 ^ 63"
proof -
  have "0 \<le> (x + 2 ^ 63) mod 2 ^ 64" and "(x + 2 ^ 63) mod 2 ^ 64 < (2 ^ 64 :: int)"
    by simp_all
  then show ?thesis by (simp add: long_wrap_def)
qed

section \<open>Decimal numbers\<close>

text \<open>\<open>std::to_string\<close> on unsigned and signed integers.\<close>

fun nat_to_string :: "nat \<Rightarrow> string" where
  "nat_to_string n =
     (if n < 10 then [char_of (48 + n)]
      else nat_to_string (n div 10) @ [char_of (48 + n mod 10)])"

declare nat_to_string.simps [simp del]

definition int_to_string :: "int \<Rightarrow> string" where
  "int_to_string i = (if i < 0 then CHR ''-'' # nat_to_string (nat (- i)) else nat_to_string (nat i))"

end
