(* ===== verification/Status.thy ===== *)
theory Status
  imports Prelude
begin

text \<open>
  The status codes of \<open>src/src/enclave/include/CrustStatus.h\<close> and the constants of
  \<open>Parameter.h\<close> and \<open>EUtils.h\<close>. A status is the code that the macro \<open>SPACEX_MK_ERROR\<close> makes;
  the enumerators are abbreviations, so the simplifier tells two of them apart by their codes.
  Statuses are ordered by code, as the values of the C++ enumeration are.
\<close>

section \<open>Status codes\<close>

datatype spacex_status = SPACEX_MK_ERROR nat

primrec status_code :: "spacex_status \<Rightarrow> nat" where
  "status_code (SPACEX_MK_ERROR n) = n"

abbreviation (input) SPACEX_SUCCESS :: spacex_status where "SPACEX_SUCCESS \<equiv> SPACEX_MK_ERROR 0"
abbreviation (input) SPACEX_BLOCK_HEIGHT_EXPIRED :: spacex_status where "SPACEX_BLOCK_HEIGHT_EXPIRED \<equiv> SPACEX_MK_ERROR 0x2000"
abbreviation (input) SPACEX_FIRST_WORK_REPORT_AFTER_REPORT :: spacex_status where "SPACEX_FIRST_WORK_REPORT_AFTER_REPORT \<equiv> SPACEX_MK_ERROR 0x2001"
abbreviation (input) SPACEX_WORK_REPORT_NOT_VALIDATED :: spacex_status where "SPACEX_WORK_REPORT_NOT_VALIDATED \<equiv> SPACEX_MK_ERROR 0x2002"
abbreviation (input) SPACEX_SERVICE_UNAVAILABLE :: spacex_status where "SPACEX_SERVICE_UNAVAILABLE \<equiv> SPACEX_MK_ERROR 0x2003"
abbreviation (input) SPACEX_MALLOC_FAILED :: spacex_status where "SPACEX_MALLOC_FAILED \<equiv> SPACEX_MK_ERROR 0x4000"
abbreviation (input) SPACEX_SEAL_DATA_FAILED :: spacex_status where "SPACEX_SEAL_DATA_FAILED \<equiv> SPACEX_MK_ERROR 0x4001"
abbreviation (input) SPACEX_UNSEAL_DATA_FAILED :: spacex_status where "SPACEX_UNSEAL_DATA_FAILED \<equiv> SPACEX_MK_ERROR 0x4002"
abbreviation (input) SPACEX_BAD_SEAL_DATA :: spacex_status where "SPACEX_BAD_SEAL_DATA \<equiv> SPACEX_MK_ERROR 0x4003"
abbreviation (input) SPACEX_SGX_FAILED :: spacex_status where "SPACEX_SGX_FAILED \<equiv> SPACEX_MK_ERROR 0x4004"
abbreviation (input) SPACEX_NOT_EQUAL :: spacex_status where "SPACEX_NOT_EQUAL \<equiv> SPACEX_MK_ERROR 0x4005"
abbreviation (input) SPACEX_SGX_SIGN_FAILED :: spacex_status where "SPACEX_SGX_SIGN_FAILED \<equiv> SPACEX_MK_ERROR 0x4006"
abbreviation (input) SPACEX_SGX_VERIFY_SIG_FAILED :: spacex_status where "SPACEX_SGX_VERIFY_SIG_FAILED \<equiv> SPACEX_MK_ERROR 0x4007"
abbreviation (input) SPACEX_UNEXPECTED_ERROR :: spacex_status where "SPACEX_UNEXPECTED_ERROR \<equiv> SPACEX_MK_ERROR 0x4008"
abbreviation (input) SPACEX_INVALID_MERKLETREE :: spacex_status where "SPACEX_INVALID_MERKLETREE \<equiv> SPACEX_MK_ERROR 0x4009"
abbreviation (input) SPACEX_MALWARE_DATA_BLOCK :: spacex_status where "SPACEX_MALWARE_DATA_BLOCK \<equiv> SPACEX_MK_ERROR 0x4010"
abbreviation (input) SPACEX_OPEN_FILE_FAILED :: spacex_status where "SPACEX_OPEN_FILE_FAILED \<equiv> SPACEX_MK_ERROR 0x4011"
abbreviation (input) SPACEX_WRITE_FILE_FAILED :: spacex_status where "SPACEX_WRITE_FILE_FAILED \<equiv> SPACEX_MK_ERROR 0x4012"
abbreviation (input) SPACEX_DELETE_FILE_FAILED :: spacex_status where "SPACEX_DELETE_FILE_FAILED \<equiv> SPACEX_MK_ERROR 0x4013"
abbreviation (input) SPACEX_RENAME_FILE_FAILED :: spacex_status where "SPACEX_RENAME_FILE_FAILED \<equiv> SPACEX_MK_ERROR 0x4014"
abbreviation (input) SPACEX_MKDIR_FAILED :: spacex_status where "SPACEX_MKDIR_FAILED \<equiv> SPACEX_MK_ERROR 0x4015"
abbreviation (input) SPACEX_ACCESS_FILE_FAILED :: spacex_status where "SPACEX_ACCESS_FILE_FAILED \<equiv> SPACEX_MK_ERROR 0x4016"
abbreviation (input) SPACEX_INVALID_META_DATA :: spacex_status where "SPACEX_INVALID_META_DATA \<equiv> SPACEX_MK_ERROR 0x4017"
abbreviation (input) SPACEX_INIT_QUOTE_FAILED :: spacex_status where "SPACEX_INIT_QUOTE_FAILED \<equiv> SPACEX_MK_ERROR 0x4018"
abbreviation (input) SPACEX_SRD_NUMBER_EXCEED :: spacex_status where "SPACEX_SRD_NUMBER_EXCEED \<equiv> SPACEX_MK_ERROR 0x4019"
abbreviation (input) SPACEX_FILE_NUMBER_EXCEED :: spacex_status where "SPACEX_FILE_NUMBER_EXCEED \<equiv> SPACEX_MK_ERROR 0x4020"
abbreviation (input) SPACEX_DEVICE_ERROR :: spacex_status where "SPACEX_DEVICE_ERROR \<equiv> SPACEX_MK_ERROR 0x4021"
abbreviation (input) SPACEX_OCALL_NO_ENOUGH_BUFFER :: spacex_status where "SPACEX_OCALL_NO_ENOUGH_BUFFER \<equiv> SPACEX_MK_ERROR 0x4022"
abbreviation (input) SPACEX_JSON_ARRAY_ERROR :: spacex_status where "SPACEX_JSON_ARRAY_ERROR \<equiv> SPACEX_MK_ERROR 0x5001"
abbreviation (input) SPACEX_JSON_OBJECT_ERROR :: spacex_status where "SPACEX_JSON_OBJECT_ERROR \<equiv> SPACEX_MK_ERROR 0x5002"
abbreviation (input) SPACEX_JSON_STRING_ERROR :: spacex_status where "SPACEX_JSON_STRING_ERROR \<equiv> SPACEX_MK_ERROR 0x5003"
abbreviation (input) SPACEX_JSON_BOOL_ERROR :: spacex_status where "SPACEX_JSON_BOOL_ERROR \<equiv> SPACEX_MK_ERROR 0x5004"
abbreviation (input) SPACEX_JSON_NULL_ERROR :: spacex_status where "SPACEX_JSON_NULL_ERROR \<equiv> SPACEX_MK_ERROR 0x5005"
abbreviation (input) SPACEX_JSON_NUMBER_ERROR :: spacex_status where "SPACEX_JSON_NUMBER_ERROR \<equiv> SPACEX_MK_ERROR 0x5006"
abbreviation (input) SPACEX_JSON_STARTING_ERROR :: spacex_status where "SPACEX_JSON_STARTING_ERROR \<equiv> SPACEX_MK_ERROR 0x5007"
abbreviation (input) SPACEX_PERSIST_ADD_FAILED :: spacex_status where "SPACEX_PERSIST_ADD_FAILED \<equiv> SPACEX_MK_ERROR 0x6001"
abbreviation (input) SPACEX_PERSIST_DEL_FAILED :: spacex_status where "SPACEX_PERSIST_DEL_FAILED \<equiv> SPACEX_MK_ERROR 0x6002"
abbreviation (input) SPACEX_PERSIST_SET_FAILED :: spacex_status where "SPACEX_PERSIST_SET_FAILED \<equiv> SPACEX_MK_ERROR 0x6003"
abbreviation (input) SPACEX_PERSIST_GET_FAILED :: spacex_status where "SPACEX_PERSIST_GET_FAILED \<equiv> SPACEX_MK_ERROR 0x6004"
abbreviation (input) SPACEX_IAS_QUERY_FAILED :: spacex_status where "SPACEX_IAS_QUERY_FAILED \<equiv> SPACEX_MK_ERROR 0x7001"
abbreviation (input) SPACEX_IAS_OK :: spacex_status where "SPACEX_IAS_OK \<equiv> SPACEX_MK_ERROR 0x7002"
abbreviation (input) SPACEX_IAS_VERIFY_FAILED :: spacex_status where "SPACEX_IAS_VERIFY_FAILED \<equiv> SPACEX_MK_ERROR 0x7003"
abbreviation (input) SPACEX_IAS_BADREQUEST :: spacex_status where "SPACEX_IAS_BADREQUEST \<equiv> SPACEX_MK_ERROR 0x7004"
abbreviation (input) SPACEX_IAS_UNAUTHORIZED :: spacex_status where "SPACEX_IAS_UNAUTHORIZED \<equiv> SPACEX_MK_ERROR 0x7005"
abbreviation (input) SPACEX_IAS_NOT_FOUND :: spacex_status where "SPACEX_IAS_NOT_FOUND \<equiv> SPACEX_MK_ERROR 0x7006"
abbreviation (input) SPACEX_IAS_UNEXPECTED_ERROR :: spacex_status where "SPACEX_IAS_UNEXPECTED_ERROR \<equiv> SPACEX_MK_ERROR 0x7007"
abbreviation (input) SPACEX_IAS_SERVER_ERR :: spacex_status where "SPACEX_IAS_SERVER_ERR \<equiv> SPACEX_MK_ERROR 0x7008"
abbreviation (input) SPACEX_IAS_UNAVAILABLE :: spacex_status where "SPACEX_IAS_UNAVAILABLE \<equiv> SPACEX_MK_ERROR 0x7009"
abbreviation (input) SPACEX_IAS_INTERNAL_ERROR :: spacex_status where "SPACEX_IAS_INTERNAL_ERROR \<equiv> SPACEX_MK_ERROR 0x7010"
abbreviation (input) SPACEX_IAS_BAD_CERTIFICATE :: spacex_status where "SPACEX_IAS_BAD_CERTIFICATE \<equiv> SPACEX_MK_ERROR 0x7011"
abbreviation (input) SPACEX_IAS_BAD_SIGNATURE :: spacex_status where "SPACEX_IAS_BAD_SIGNATURE \<equiv> SPACEX_MK_ERROR 0x7012"
abbreviation (input) SPACEX_IAS_BAD_BODY :: spacex_status where "SPACEX_IAS_BAD_BODY \<equiv> SPACEX_MK_ERROR 0x7013"
abbreviation (input) SPACEX_IAS_REPORTDATA_NE :: spacex_status where "SPACEX_IAS_REPORTDATA_NE \<equiv> SPACEX_MK_ERROR 0x7014"
abbreviation (input) SPACEX_IAS_GET_REPORT_FAILED :: spacex_status where "SPACEX_IAS_GET_REPORT_FAILED \<equiv> SPACEX_MK_ERROR 0x7015"
abbreviation (input) SPACEX_IAS_BADMEASUREMENT :: spacex_status where "SPACEX_IAS_BADMEASUREMENT \<equiv> SPACEX_MK_ERROR 0x7016"
abbreviation (input) SPACEX_IAS_GETPUBKEY_FAILED :: spacex_status where "SPACEX_IAS_GETPUBKEY_FAILED \<equiv> SPACEX_MK_ERROR 0x7017"
abbreviation (input) SPACEX_SIGN_PUBKEY_FAILED :: spacex_status where "SPACEX_SIGN_PUBKEY_FAILED \<equiv> SPACEX_MK_ERROR 0x7018"
abbreviation (input) SPACEX_GET_ACCOUNT_ID_BYTE_FAILED :: spacex_status where "SPACEX_GET_ACCOUNT_ID_BYTE_FAILED \<equiv> SPACEX_MK_ERROR 0x7019"
abbreviation (input) SPACEX_STORAGE_UPGRADE_NEEDED :: spacex_status where "SPACEX_STORAGE_UPGRADE_NEEDED \<equiv> SPACEX_MK_ERROR 0x7020"
abbreviation (input) SPACEX_STORAGE_SER_MERKLETREE_FAILED :: spacex_status where "SPACEX_STORAGE_SER_MERKLETREE_FAILED \<equiv> SPACEX_MK_ERROR 0x8001"
abbreviation (input) SPACEX_STORAGE_UPDATE_FILE_FAILED :: spacex_status where "SPACEX_STORAGE_UPDATE_FILE_FAILED \<equiv> SPACEX_MK_ERROR 0x8002"
abbreviation (input) SPACEX_STORAGE_UNSEAL_FILE_FAILED :: spacex_status where "SPACEX_STORAGE_UNSEAL_FILE_FAILED \<equiv> SPACEX_MK_ERROR 0x8003"
abbreviation (input) SPACEX_STORAGE_UNEXPECTED_FILE_BLOCK :: spacex_status where "SPACEX_STORAGE_UNEXPECTED_FILE_BLOCK \<equiv> SPACEX_MK_ERROR 0x8004"
abbreviation (input) SPACEX_STORAGE_NEW_FILE_NOTFOUND :: spacex_status where "SPACEX_STORAGE_NEW_FILE_NOTFOUND \<equiv> SPACEX_MK_ERROR 0x8005"
abbreviation (input) SPACEX_STORAGE_NEW_FILE_SIZE_ERROR :: spacex_status where "SPACEX_STORAGE_NEW_FILE_SIZE_ERROR \<equiv> SPACEX_MK_ERROR 0x8006"
abbreviation (input) SPACEX_STORAGE_EMPTY_BLOCK :: spacex_status where "SPACEX_STORAGE_EMPTY_BLOCK \<equiv> SPACEX_MK_ERROR 0x8007"
abbreviation (input) SPACEX_STORAGE_IPFS_BLOCK_GET_ERROR :: spacex_status where "SPACEX_STORAGE_IPFS_BLOCK_GET_ERROR \<equiv> SPACEX_MK_ERROR 0x8008"
abbreviation (input) SPACEX_STORAGE_IPFS_CAT_ERROR :: spacex_status where "SPACEX_STORAGE_IPFS_CAT_ERROR \<equiv> SPACEX_MK_ERROR 0x8009"
abbreviation (input) SPACEX_STORAGE_IPFS_ADD_ERROR :: spacex_status where "SPACEX_STORAGE_IPFS_ADD_ERROR \<equiv> SPACEX_MK_ERROR 0x8010"
abbreviation (input) SPACEX_STORAGE_IPFS_DEL_ERROR :: spacex_status where "SPACEX_STORAGE_IPFS_DEL_ERROR \<equiv> SPACEX_MK_ERROR 0x8011"
abbreviation (input) SPACEX_STORAGE_FILE_DUP :: spacex_status where "SPACEX_STORAGE_FILE_DUP \<equiv> SPACEX_MK_ERROR 0x8012"
abbreviation (input) SPACEX_STORAGE_FILE_SEALING :: spacex_status where "SPACEX_STORAGE_FILE_SEALING \<equiv> SPACEX_MK_ERROR 0x8013"
abbreviation (input) SPACEX_STORAGE_FILE_DELETING :: spacex_status where "SPACEX_STORAGE_FILE_DELETING \<equiv> SPACEX_MK_ERROR 0x8014"
abbreviation (input) SPACEX_STORAGE_FILE_BLOCK_NOTFOUND :: spacex_status where "SPACEX_STORAGE_FILE_BLOCK_NOTFOUND \<equiv> SPACEX_MK_ERROR 0x8015"
abbreviation (input) SPACEX_STORAGE_NO_ENOUGH_SPACE :: spacex_status where "SPACEX_STORAGE_NO_ENOUGH_SPACE \<equiv> SPACEX_MK_ERROR 0x8016"
abbreviation (input) SPACEX_STORAGE_INCOMPLETE_BLOCK :: spacex_status where "SPACEX_STORAGE_INCOMPLETE_BLOCK \<equiv> SPACEX_MK_ERROR 0x8017"
abbreviation (input) SPACEX_VALIDATE_GET_REQUEST_FAILED :: spacex_status where "SPACEX_VALIDATE_GET_REQUEST_FAILED \<equiv> SPACEX_MK_ERROR 0x9001"
abbreviation (input) SPACEX_VALIDATE_HIGH_PRIORITY :: spacex_status where "SPACEX_VALIDATE_HIGH_PRIORITY \<equiv> SPACEX_MK_ERROR 0x9002"
abbreviation (input) SPACEX_UPGRADE_RESTORE_SRD_FAILED :: spacex_status where "SPACEX_UPGRADE_RESTORE_SRD_FAILED \<equiv> SPACEX_MK_ERROR 0x10001"
abbreviation (input) SPACEX_UPGRADE_RESTORE_FILE_FAILED :: spacex_status where "SPACEX_UPGRADE_RESTORE_FILE_FAILED \<equiv> SPACEX_MK_ERROR 0x10002"
abbreviation (input) SPACEX_UPGRADE_SEND_WORKREPORT_FAILED :: spacex_status where "SPACEX_UPGRADE_SEND_WORKREPORT_FAILED \<equiv> SPACEX_MK_ERROR 0x10003"
abbreviation (input) SPACEX_UPGRADE_INVALID_WORKREPORT :: spacex_status where "SPACEX_UPGRADE_INVALID_WORKREPORT \<equiv> SPACEX_MK_ERROR 0x10004"
abbreviation (input) SPACEX_UPGRADE_GET_BLOCK_HASH_FAILED :: spacex_status where "SPACEX_UPGRADE_GET_BLOCK_HASH_FAILED \<equiv> SPACEX_MK_ERROR 0x10005"
abbreviation (input) SPACEX_UPGRADE_GEN_WORKREPORT_FAILED :: spacex_status where "SPACEX_UPGRADE_GEN_WORKREPORT_FAILED \<equiv> SPACEX_MK_ERROR 0x10006"
abbreviation (input) SPACEX_UPGRADE_WAIT_FOR_NEXT_ERA :: spacex_status where "SPACEX_UPGRADE_WAIT_FOR_NEXT_ERA \<equiv> SPACEX_MK_ERROR 0x10007"
abbreviation (input) SPACEX_UPGRADE_BAD_SRD :: spacex_status where "SPACEX_UPGRADE_BAD_SRD \<equiv> SPACEX_MK_ERROR 0x10008"
abbreviation (input) SPACEX_UPGRADE_BAD_FILE :: spacex_status where "SPACEX_UPGRADE_BAD_FILE \<equiv> SPACEX_MK_ERROR 0x10009"
abbreviation (input) SPACEX_UPGRADE_IS_UPGRADING :: spacex_status where "SPACEX_UPGRADE_IS_UPGRADING \<equiv> SPACEX_MK_ERROR 0x10010"
abbreviation (input) SPACEX_UPGRADE_NEED_LEFT_DATA :: spacex_status where "SPACEX_UPGRADE_NEED_LEFT_DATA \<equiv> SPACEX_MK_ERROR 0x10011"
abbreviation (input) SPACEX_UPGRADE_BLOCK_EXPIRE :: spacex_status where "SPACEX_UPGRADE_BLOCK_EXPIRE \<equiv> SPACEX_MK_ERROR 0x10012"
abbreviation (input) SPACEX_UPGRADE_NO_VALIDATE :: spacex_status where "SPACEX_UPGRADE_NO_VALIDATE \<equiv> SPACEX_MK_ERROR 0x10013"
abbreviation (input) SPACEX_UPGRADE_RESTART :: spacex_status where "SPACEX_UPGRADE_RESTART \<equiv> SPACEX_MK_ERROR 0x10014"
abbreviation (input) SPACEX_UPGRADE_NO_FILE :: spacex_status where "SPACEX_UPGRADE_NO_FILE \<equiv> SPACEX_MK_ERROR 0x10015"
abbreviation (input) SPACEX_HTTP_INVALID_INPUT :: spacex_status where "SPACEX_HTTP_INVALID_INPUT \<equiv> SPACEX_MK_ERROR 0x11001"

instantiation spacex_status :: linorder
begin

definition less_eq_spacex_status :: "spacex_status \<Rightarrow> spacex_status \<Rightarrow> bool" where
  "less_eq_spacex_status a b \<longleftrightarrow> status_code a \<le> status_code b"

definition less_spacex_status :: "spacex_status \<Rightarrow> spacex_status \<Rightarrow> bool" where
  "less_spacex_status a b \<longleftrightarrow> status_code a < status_code b"

instance
proof
  fix a b :: spacex_status
  show "a \<le> b \<Longrightarrow> b \<le> a \<Longrightarrow> a = b"
    by (cases a; cases b) (simp add: less_eq_spacex_status_def)
qed (auto simp: less_eq_spacex_status_def less_spacex_status_def)

end

section \<open>Enumerations of Parameter.h\<close>

datatype enc_upgrade_status =
    ENC_UPGRADE_STATUS_NONE
  | ENC_UPGRADE_STATUS_PROCESS
  | ENC_UPGRADE_STATUS_SUCCESS

datatype store_type = STORE_TYPE_REG | STORE_TYPE_SRD | STORE_TYPE_FILE

datatype ocall_store_type =
    OCALL_FILE_INFO_ALL
  | OCALL_STORE_WORKREPORT
  | OCALL_STORE_UPGRADE_DATA

section \<open>Constants\<close>

abbreviation (input) EMPTY_BLOCK_CID :: string where "EMPTY_BLOCK_CID \<equiv> ''QmdfTbBqBPQ7VNxZEYEj14VmRuZBkqFbiwReogJgS1zR1n''"
abbreviation (input) EMPTY_BLOCK_FLAG :: string where "EMPTY_BLOCK_FLAG \<equiv> ''empty''"
abbreviation (input) ID_METADATA :: string where "ID_METADATA \<equiv> ''metadata''"
abbreviation (input) ID_FILE :: string where "ID_FILE \<equiv> ''files''"
abbreviation (input) ID_SRD :: string where "ID_SRD \<equiv> ''srd''"
abbreviation (input) ID_KEY_PAIR :: string where "ID_KEY_PAIR \<equiv> ''id_key_pair''"
abbreviation (input) ID_PRE_PUB_KEY :: string where "ID_PRE_PUB_KEY \<equiv> ''pre_pub_key''"
abbreviation (input) ID_REPORT_HEIGHT :: string where "ID_REPORT_HEIGHT \<equiv> ''report_height''"
abbreviation (input) ID_CHAIN_ACCOUNT_ID :: string where "ID_CHAIN_ACCOUNT_ID \<equiv> ''chain_account_id''"
abbreviation (input) FILE_META :: string where "FILE_META \<equiv> ''f_meta''"
abbreviation (input) FILE_CID :: string where "FILE_CID \<equiv> ''cid''"
abbreviation (input) FILE_HASH :: string where "FILE_HASH \<equiv> ''hash''"
abbreviation (input) FILE_SIZE :: string where "FILE_SIZE \<equiv> ''size''"
abbreviation (input) FILE_SEALED_SIZE :: string where "FILE_SEALED_SIZE \<equiv> ''s_size''"
abbreviation (input) FILE_BLOCK_NUM :: string where "FILE_BLOCK_NUM \<equiv> ''block_num''"
abbreviation (input) FILE_CHAIN_BLOCK_NUM :: string where "FILE_CHAIN_BLOCK_NUM \<equiv> ''c_block_num''"
abbreviation (input) FILE_LOST_INDEX :: string where "FILE_LOST_INDEX \<equiv> ''l_idx''"
abbreviation (input) FILE_STATUS :: string where "FILE_STATUS \<equiv> ''status''"
abbreviation (input) FILE_STATUS_UNVERIFIED :: char where "FILE_STATUS_UNVERIFIED \<equiv> CHR ''0''"
abbreviation (input) FILE_STATUS_VALID :: char where "FILE_STATUS_VALID \<equiv> CHR ''1''"
abbreviation (input) FILE_STATUS_LOST :: char where "FILE_STATUS_LOST \<equiv> CHR ''2''"
abbreviation (input) FILE_STATUS_DELETED :: char where "FILE_STATUS_DELETED \<equiv> CHR ''3''"
abbreviation (input) FILE_STATUS_PENDING :: char where "FILE_STATUS_PENDING \<equiv> CHR ''4''"
abbreviation (input) FILE_BLOCKS :: string where "FILE_BLOCKS \<equiv> ''blocks''"
abbreviation (input) IPFS_META :: string where "IPFS_META \<equiv> ''sbs''"
abbreviation (input) IPFS_META_PATH :: string where "IPFS_META_PATH \<equiv> ''path''"
abbreviation (input) CURRENT_STATUS :: nat where "CURRENT_STATUS \<equiv> 0"
abbreviation (input) WAITING_STATUS :: nat where "WAITING_STATUS \<equiv> 1"
abbreviation (input) ORIGIN_STATUS :: nat where "ORIGIN_STATUS \<equiv> 2"
abbreviation (input) FILE_NUMBER_UPPER_LIMIT :: nat where "FILE_NUMBER_UPPER_LIMIT \<equiv> 400000"
abbreviation (input) FILE_CAL_BUFFER_SIZE :: nat where "FILE_CAL_BUFFER_SIZE \<equiv> 7340032"
abbreviation (input) FILE_TYPE_PENDING :: string where "FILE_TYPE_PENDING \<equiv> ''pending''"
abbreviation (input) FILE_TYPE_UNVERIFIED :: string where "FILE_TYPE_UNVERIFIED \<equiv> ''unverified''"
abbreviation (input) FILE_TYPE_VALID :: string where "FILE_TYPE_VALID \<equiv> ''valid''"
abbreviation (input) FILE_TYPE_LOST :: string where "FILE_TYPE_LOST \<equiv> ''lost''"
abbreviation (input) FILE_TYPE_DELETED :: string where "FILE_TYPE_DELETED \<equiv> ''deleted''"
abbreviation (input) FILE_PENDING_LIMIT :: nat where "FILE_PENDING_LIMIT \<equiv> 500"
abbreviation (input) FILE_PENDING_STIME :: string where "FILE_PENDING_STIME \<equiv> ''start_second''"
abbreviation (input) FILE_PENDING_DOWNLOAD_TIME :: string where "FILE_PENDING_DOWNLOAD_TIME \<equiv> ''used_time''"
abbreviation (input) FILE_PENDING_SIZE :: string where "FILE_PENDING_SIZE \<equiv> ''sealed_size''"
abbreviation (input) CHAIN_BLOCK_NUMBER :: string where "CHAIN_BLOCK_NUMBER \<equiv> ''c_block_num''"
abbreviation (input) CHAIN_BLOCK_HASH :: string where "CHAIN_BLOCK_HASH \<equiv> ''c_block_hash''"
abbreviation (input) MT_CID :: string where "MT_CID \<equiv> ''cid''"
abbreviation (input) MT_HASH :: string where "MT_HASH \<equiv> ''hash''"
abbreviation (input) MT_DATA_HASH :: string where "MT_DATA_HASH \<equiv> ''d_hash''"
abbreviation (input) MT_LINKS :: string where "MT_LINKS \<equiv> ''links''"
abbreviation (input) MT_LINKS_NUM :: string where "MT_LINKS_NUM \<equiv> ''l_num''"
abbreviation (input) IAS_CERT :: string where "IAS_CERT \<equiv> ''ias_cert''"
abbreviation (input) IAS_SIG :: string where "IAS_SIG \<equiv> ''ias_sig''"
abbreviation (input) IAS_ISV_BODY :: string where "IAS_ISV_BODY \<equiv> ''isv_body''"
abbreviation (input) IAS_CHAIN_ACCOUNT_ID :: string where "IAS_CHAIN_ACCOUNT_ID \<equiv> ''account_id''"
abbreviation (input) IAS_REPORT_SIG :: string where "IAS_REPORT_SIG \<equiv> ''sig''"
abbreviation (input) IAS_ISV_BODY_TAG :: string where "IAS_ISV_BODY_TAG \<equiv> ''isvEnclaveQuoteBody''"
abbreviation (input) WORKREPORT_PUB_KEY :: string where "WORKREPORT_PUB_KEY \<equiv> ''pub_key''"
abbreviation (input) WORKREPORT_PRE_PUB_KEY :: string where "WORKREPORT_PRE_PUB_KEY \<equiv> ''pre_pub_key''"
abbreviation (input) WORKREPORT_BLOCK_HEIGHT :: string where "WORKREPORT_BLOCK_HEIGHT \<equiv> ''block_height''"
abbreviation (input) WORKREPORT_BLOCK_HASH :: string where "WORKREPORT_BLOCK_HASH \<equiv> ''block_hash''"
abbreviation (input) WORKREPORT_RESERVED :: string where "WORKREPORT_RESERVED \<equiv> ''reserved''"
abbreviation (input) WORKREPORT_FILES_SIZE :: string where "WORKREPORT_FILES_SIZE \<equiv> ''files_size''"
abbreviation (input) WORKREPORT_RESERVED_ROOT :: string where "WORKREPORT_RESERVED_ROOT \<equiv> ''reserved_root''"
abbreviation (input) WORKREPORT_FILES_ROOT :: string where "WORKREPORT_FILES_ROOT \<equiv> ''files_root''"
abbreviation (input) WORKREPORT_FILES_ADDED :: string where "WORKREPORT_FILES_ADDED \<equiv> ''added_files''"
abbreviation (input) WORKREPORT_FILES_DELETED :: string where "WORKREPORT_FILES_DELETED \<equiv> ''deleted_files''"
abbreviation (input) WORKREPORT_SIG :: string where "WORKREPORT_SIG \<equiv> ''sig''"
abbreviation (input) WORKREPORT_FILE_LIMIT :: nat where "WORKREPORT_FILE_LIMIT \<equiv> 300"
abbreviation (input) REPORT_SLOT :: nat where "REPORT_SLOT \<equiv> 1200"
abbreviation (input) BLOCK_INTERVAL :: nat where "BLOCK_INTERVAL \<equiv> 3"
abbreviation (input) REPORT_INTERVAL_BLCOK_NUMBER_UPPER_LIMIT :: nat where "REPORT_INTERVAL_BLCOK_NUMBER_UPPER_LIMIT \<equiv> 400"
abbreviation (input) REPORT_INTERVAL_BLCOK_NUMBER_LOWER_LIMIT :: nat where "REPORT_INTERVAL_BLCOK_NUMBER_LOWER_LIMIT \<equiv> 10"
abbreviation (input) WL_SRD :: string where "WL_SRD \<equiv> ''srd''"
abbreviation (input) WL_SRD_COMPLETE :: string where "WL_SRD_COMPLETE \<equiv> ''srd_complete''"
abbreviation (input) WL_SRD_ROOT_HASH :: string where "WL_SRD_ROOT_HASH \<equiv> ''root_hash''"
abbreviation (input) WL_SRD_SPACE :: string where "WL_SRD_SPACE \<equiv> ''space''"
abbreviation (input) WL_SRD_REMAINING_TASK :: string where "WL_SRD_REMAINING_TASK \<equiv> ''srd_remaining_task''"
abbreviation (input) WL_SRD_DETAIL :: string where "WL_SRD_DETAIL \<equiv> ''srd_detail''"
abbreviation (input) WL_FILES :: string where "WL_FILES \<equiv> ''files''"
abbreviation (input) WL_FILE_SEALED_SIZE :: string where "WL_FILE_SEALED_SIZE \<equiv> ''sealed_size''"
abbreviation (input) WL_FILE_STATUS :: string where "WL_FILE_STATUS \<equiv> ''status''"
abbreviation (input) WL_FILE_ROOT_HASH :: string where "WL_FILE_ROOT_HASH \<equiv> ''file_root_hash''"
abbreviation (input) WL_FILE_SPEC_INFO :: string where "WL_FILE_SPEC_INFO \<equiv> ''file_spec''"
abbreviation (input) SRD_MAX_INC_PER_TURN :: nat where "SRD_MAX_INC_PER_TURN \<equiv> 64"
abbreviation (input) SRD_MAX_DEC_PER_TURN :: nat where "SRD_MAX_DEC_PER_TURN \<equiv> 5000"
abbreviation (input) SRD_NUMBER_UPPER_LIMIT :: nat where "SRD_NUMBER_UPPER_LIMIT \<equiv> 512000"
abbreviation (input) SRD_VALIDATE_MIN_NUM :: nat where "SRD_VALIDATE_MIN_NUM \<equiv> 64"
abbreviation (input) MEANINGFUL_VALIDATE_MIN_NUM :: nat where "MEANINGFUL_VALIDATE_MIN_NUM \<equiv> 64"
abbreviation (input) MEANINGFUL_VALIDATE_MIN_BLOCK_NUM :: nat where "MEANINGFUL_VALIDATE_MIN_BLOCK_NUM \<equiv> 1"
abbreviation (input) MAX_BLOCK_SIZE :: nat where "MAX_BLOCK_SIZE \<equiv> 1048576"
abbreviation (input) SEALED_BLOCK_TAG_SIZE :: nat where "SEALED_BLOCK_TAG_SIZE \<equiv> 4"
abbreviation (input) BOUNDARY_SIZE_THRESHOLD :: nat where "BOUNDARY_SIZE_THRESHOLD \<equiv> 4194304"
abbreviation (input) HASH_LENGTH :: nat where "HASH_LENGTH \<equiv> 32"
abbreviation (input) CID_LENGTH :: nat where "CID_LENGTH \<equiv> 46"
abbreviation (input) UUID_LENGTH :: nat where "UUID_LENGTH \<equiv> 8"
abbreviation (input) FILE_DISK_LIMIT :: nat where "FILE_DISK_LIMIT \<equiv> 8"
abbreviation (input) LAYER_LENGTH :: nat where "LAYER_LENGTH \<equiv> 2"
abbreviation (input) ENCLAVE_MALLOC_TRYOUT :: nat where "ENCLAVE_MALLOC_TRYOUT \<equiv> 3"
abbreviation (input) UPGRADE_PUBLIC_KEY :: string where "UPGRADE_PUBLIC_KEY \<equiv> ''pub_key''"
abbreviation (input) UPGRADE_BLOCK_HEIGHT :: string where "UPGRADE_BLOCK_HEIGHT \<equiv> ''block_height''"
abbreviation (input) UPGRADE_BLOCK_HASH :: string where "UPGRADE_BLOCK_HASH \<equiv> ''block_hash''"
abbreviation (input) UPGRADE_SRD :: string where "UPGRADE_SRD \<equiv> ''upgrade_srd''"
abbreviation (input) UPGRADE_SRD_ROOT :: string where "UPGRADE_SRD_ROOT \<equiv> ''upgrade_srd_root''"
abbreviation (input) UPGRADE_FILE :: string where "UPGRADE_FILE \<equiv> ''upgrade_file''"
abbreviation (input) UPGRADE_FILE_ROOT :: string where "UPGRADE_FILE_ROOT \<equiv> ''upgrade_file_root''"
abbreviation (input) UPGRADE_MRENCLAVE :: string where "UPGRADE_MRENCLAVE \<equiv> ''upgrade_mrenclave''"
abbreviation (input) UPGRADE_SIG :: string where "UPGRADE_SIG \<equiv> ''upgrade_sig''"
abbreviation (input) UPGRADE_WAIT_BLOCK_MAX :: nat where "UPGRADE_WAIT_BLOCK_MAX \<equiv> 50"
abbreviation (input) UPGRADE_WAIT_BLOCK_MIN :: nat where "UPGRADE_WAIT_BLOCK_MIN \<equiv> 10"
abbreviation (input) SRD_LENGTH :: nat where "SRD_LENGTH \<equiv> 42"
abbreviation (input) FILE_ITEM_LENGTH :: nat where "FILE_ITEM_LENGTH \<equiv> 40"
abbreviation (input) SRD_RAND_DATA_LENGTH :: nat where "SRD_RAND_DATA_LENGTH \<equiv> 1048576"
abbreviation (input) SRD_RAND_DATA_NUM :: nat where "SRD_RAND_DATA_NUM \<equiv> 1024"
abbreviation (input) SRD_M_HASHS :: string where "SRD_M_HASHS \<equiv> ''m-hashs.bin''"
abbreviation (input) STORAGE_PRIVATE_TAG :: string where "STORAGE_PRIVATE_TAG \<equiv> ''&+SPACEXSTORAGEPRIVATE+&''"
abbreviation (input) VALIDATE_PROOF_MAX_NUM :: int where "VALIDATE_PROOF_MAX_NUM \<equiv> 2"
abbreviation (input) INT_MAX :: int where "INT_MAX \<equiv> 2147483647"

lemma srd_length_parts: "SRD_LENGTH = UUID_LENGTH + LAYER_LENGTH + HASH_LENGTH"
  by simp

lemma file_item_length_parts: "FILE_ITEM_LENGTH = UUID_LENGTH + HASH_LENGTH"
  by simp

end
