(* ===== verification/Json.thy ===== *)
theory Json
  imports Status
begin

text \<open>
  The dynamic value type of \<open>src/src/enclave/utils/Json.h\<close>: one constructor per \<open>Class\<close>, with the
  payload of the union member that the class selects. An \<open>std::map\<close> payload is an association
  list in key order. A \<open>double\<close> is kept as its 64-bit pattern; its conversion to text is an
  argument of the operations that print.

  A C++ reference \<open>j[k]\<close> is a read \<open>jget\<close> together with a write \<open>jset\<close>: \<open>j[k] = v\<close> is \<open>jset j k v\<close>
  and \<open>j[k].f()\<close> is \<open>jupd j k f\<close>. Reading an absent key through \<open>operator[]\<close> makes the C++ map hold
  a null value at that key; \<open>jget\<close> returns that null value, and the lemma \<open>jget_jset_touch\<close> shows
  that no later read can tell whether the null entry was made.
\<close>

section \<open>Values\<close>

datatype JSON =
    JNull
  | JObject "(string \<times> JSON) list"
  | JFIOObject "(string \<times> JSON) list"
  | JArray "JSON list"
  | JHash bytes
  | JBuffer bytes
  | JString string
  | JFloating "64 word"
  | JIntegral int
  | JBoolean bool

datatype json_class =
    CNull | CObject | CFIOObject | CArray | CHash | CBuffer | CString | CFloating | CIntegral | CBoolean

primrec JSONType :: "JSON \<Rightarrow> json_class" where
  "JSONType JNull = CNull"
| "JSONType (JObject m) = CObject"
| "JSONType (JFIOObject m) = CFIOObject"
| "JSONType (JArray xs) = CArray"
| "JSONType (JHash h) = CHash"
| "JSONType (JBuffer b) = CBuffer"
| "JSONType (JString s) = CString"
| "JSONType (JFloating d) = CFloating"
| "JSONType (JIntegral i) = CIntegral"
| "JSONType (JBoolean b) = CBoolean"

text \<open>The value a fresh payload of a class has (\<open>SetType\<close> on a value of another class).\<close>

primrec Make :: "json_class \<Rightarrow> JSON" where
  "Make CNull = JNull"
| "Make CObject = JObject []"
| "Make CFIOObject = JFIOObject []"
| "Make CArray = JArray []"
| "Make CHash = JHash (replicate 32 0)"
| "Make CBuffer = JBuffer []"
| "Make CString = JString []"
| "Make CFloating = JFloating 0"
| "Make CIntegral = JIntegral 0"
| "Make CBoolean = JBoolean False"

definition SetType :: "json_class \<Rightarrow> JSON \<Rightarrow> JSON" where
  "SetType c j = (if JSONType j = c then j else Make c)"

section \<open>Printing strings\<close>

definition json_escape_char :: "char \<Rightarrow> string" where
  "json_escape_char c =
     (if c = CHR 0x22 then [CHR 0x5C, CHR 0x22]
      else if c = CHR 0x5C then [CHR 0x5C, CHR 0x5C]
      else if c = CHR 0x08 then [CHR 0x5C, CHR ''b'']
      else if c = CHR 0x0C then [CHR 0x5C, CHR ''f'']
      else if c = CHR 0x0A then [CHR 0x5C, CHR ''n'']
      else if c = CHR 0x0D then [CHR 0x5C, CHR ''r'']
      else if c = CHR 0x09 then [CHR 0x5C, CHR ''t'']
      else [c])"

definition json_escape :: "string \<Rightarrow> string" where
  "json_escape s = concat (map json_escape_char s)"

text \<open>
  \<open>json_escape_pad\<close> also indents after a newline; before a final closing brace the indentation is
  two characters shorter.
\<close>

fun json_escape_pad :: "string \<Rightarrow> string \<Rightarrow> string" where
  "json_escape_pad [] pad = []"
| "json_escape_pad (c # s) pad =
     (if c = CHR 0x0A then
        (if 2 < length pad \<and> s = ''}'' then [CHR 0x5C, CHR ''n''] @ drop 2 pad
         else [CHR 0x5C, CHR ''n''] @ pad)
      else json_escape_char c) @ json_escape_pad s pad"

text \<open>The characters that \<open>json_escape\<close> rewrites.\<close>

definition json_plain :: "string \<Rightarrow> bool" where
  "json_plain s \<longleftrightarrow> list_all (\<lambda>c. json_escape_char c = [c]) s"

lemma json_escape_plain: "json_plain s \<Longrightarrow> json_escape s = s"
  by (induction s) (auto simp: json_plain_def json_escape_def)

text \<open>\<open>_hextable[src[i] >> 4]\<close> followed by \<open>_hextable[src[i] & 0xf]\<close>.\<close>

definition hextable :: string where
  "hextable = ''0123456789abcdef''"

definition hex_of_byte :: "byte \<Rightarrow> string" where
  "hex_of_byte b = [hextable ! (unat b div 16), hextable ! (unat b mod 16)]"

text \<open>\<open>_hexstring\<close> of Json.h; a failed allocation gives the empty string.\<close>

definition json_hexstring :: "bytes \<Rightarrow> string" where
  "json_hexstring bs = concat (map hex_of_byte bs)"

definition is_number :: "string \<Rightarrow> bool" where
  "is_number s \<longleftrightarrow> s \<noteq> [] \<and> list_all (\<lambda>c. CHR ''0'' \<le> c \<and> c \<le> CHR ''9'') s"

section \<open>Reading\<close>

primrec ToString :: "JSON \<Rightarrow> string" where
  "ToString JNull = []"
| "ToString (JObject m) = []"
| "ToString (JFIOObject m) = []"
| "ToString (JArray xs) = []"
| "ToString (JHash h) = json_hexstring h"
| "ToString (JBuffer b) = json_hexstring b"
| "ToString (JString s) = json_escape s"
| "ToString (JFloating d) = []"
| "ToString (JIntegral i) = int_to_string i"
| "ToString (JBoolean b) = []"

definition ToInt :: "JSON \<Rightarrow> int" where
  "ToInt j = (case j of JIntegral i \<Rightarrow> i | _ \<Rightarrow> 0)"

definition ToBool :: "JSON \<Rightarrow> bool" where
  "ToBool j = (case j of JBoolean b \<Rightarrow> b | _ \<Rightarrow> False)"

text \<open>\<open>ToBytes\<close> is a null pointer (\<open>None\<close>) unless the value is a hash or a buffer.\<close>

definition ToBytes :: "JSON \<Rightarrow> bytes option" where
  "ToBytes j = (case j of JHash h \<Rightarrow> Some h | JBuffer b \<Rightarrow> Some b | _ \<Rightarrow> None)"

definition get_char :: "JSON \<Rightarrow> nat \<Rightarrow> char" where
  "get_char j i = (case j of JString s \<Rightarrow> if i < length s then s ! i else CHR 0x00 | _ \<Rightarrow> CHR 0x00)"

definition json_size :: "JSON \<Rightarrow> int" where
  "json_size j =
     (case j of
        JObject m \<Rightarrow> int (length m)
      | JFIOObject m \<Rightarrow> int (length m)
      | JArray xs \<Rightarrow> int (length xs)
      | JHash h \<Rightarrow> 32
      | JBuffer b \<Rightarrow> int (length b)
      | JString s \<Rightarrow> int (length s)
      | _ \<Rightarrow> - 1)"

definition hasKey :: "JSON \<Rightarrow> string \<Rightarrow> bool" where
  "hasKey j k =
     (case j of
        JObject m \<Rightarrow> map_of m k \<noteq> None
      | JFIOObject m \<Rightarrow> map_of m k \<noteq> None
      | _ \<Rightarrow> False)"

text \<open>The elements an iteration over \<open>ObjectRange\<close> or \<open>ArrayRange\<close> visits.\<close>

definition ObjectRange :: "JSON \<Rightarrow> (string \<times> JSON) list" where
  "ObjectRange j = (case j of JObject m \<Rightarrow> m | _ \<Rightarrow> [])"

definition ArrayRange :: "JSON \<Rightarrow> JSON list" where
  "ArrayRange j = (case j of JArray xs \<Rightarrow> xs | _ \<Rightarrow> [])"

section \<open>References into a value\<close>

definition map_get :: "(string \<times> JSON) list \<Rightarrow> string \<Rightarrow> JSON" where
  "map_get m k = (case map_of m k of Some v \<Rightarrow> v | None \<Rightarrow> JNull)"

text \<open>
  A first-in-order object stores a value under a numbered key \<open>tag-key\<close> and the numbered key under
  \<open>key\<close>. A new key takes the successor of the last numeric tag in key order.
\<close>

definition fio_split :: "string \<Rightarrow> (string \<times> string) option" where
  "fio_split k =
     (if CHR ''-'' \<in> set k
      then Some (takeWhile (\<lambda>c. c \<noteq> CHR ''-'') k, tl (dropWhile (\<lambda>c. c \<noteq> CHR ''-'') k))
      else None)"

definition fio_next_tag :: "string \<Rightarrow> string" where
  "fio_next_tag tag =
     (if CHR ''9'' \<le> last tag then tag @ ''0''
      else butlast tag @ [char_of (of_char (last tag) + (1::nat))])"

fun fio_new_key :: "string list \<Rightarrow> string \<Rightarrow> string" where
  "fio_new_key [] key = ''0-'' @ key"
| "fio_new_key (t # ts) key =
     (case fio_split t of
        Some (tag, _) \<Rightarrow> if is_number tag then fio_next_tag tag @ ''-'' @ key else fio_new_key ts key
      | None \<Rightarrow> fio_new_key ts key)"

definition fio_rkey :: "(string \<times> JSON) list \<Rightarrow> string \<Rightarrow> string" where
  "fio_rkey m key =
     (case map_of m key of
        Some v \<Rightarrow> ToString v
      | None \<Rightarrow> fio_new_key (rev (map fst m)) key)"

definition jget :: "JSON \<Rightarrow> string \<Rightarrow> JSON" where
  "jget j k =
     (case j of
        JObject m \<Rightarrow> map_get m k
      | JFIOObject m \<Rightarrow> map_get m (fio_rkey m k)
      | _ \<Rightarrow> JNull)"

definition jset :: "JSON \<Rightarrow> string \<Rightarrow> JSON \<Rightarrow> JSON" where
  "jset j k v =
     (case j of
        JObject m \<Rightarrow> JObject (om_put k v m)
      | JFIOObject m \<Rightarrow>
          (let rkey = fio_rkey m k;
               m' = (if map_of m k = None then om_put k (JString rkey) m else m)
           in JFIOObject (om_put rkey v m'))
      | _ \<Rightarrow> JObject [(k, v)])"

definition jupd :: "JSON \<Rightarrow> string \<Rightarrow> (JSON \<Rightarrow> JSON) \<Rightarrow> JSON" where
  "jupd j k f = jset j k (f (jget j k))"

definition json_erase :: "JSON \<Rightarrow> string \<Rightarrow> JSON" where
  "json_erase j k =
     (case j of
        JObject m \<Rightarrow> JObject (om_del k m)
      | JFIOObject m \<Rightarrow>
          (case map_of m k of
             Some v \<Rightarrow> JFIOObject (om_del (ToString v) (om_del k m))
           | None \<Rightarrow> JFIOObject m)
      | _ \<Rightarrow> j)"

text \<open>\<open>operator[](unsigned)\<close>: an index past the end resizes the array with nulls.\<close>

definition jnth :: "JSON \<Rightarrow> nat \<Rightarrow> JSON" where
  "jnth j i = (case j of JArray xs \<Rightarrow> if i < length xs then xs ! i else JNull | _ \<Rightarrow> JNull)"

definition jset_nth :: "JSON \<Rightarrow> nat \<Rightarrow> JSON \<Rightarrow> JSON" where
  "jset_nth j i v =
     (let xs = ArrayRange (SetType CArray j)
      in JArray ((xs @ replicate (Suc i - length xs) JNull)[i := v]))"

section \<open>Updating a value in place\<close>

definition set_char :: "nat \<Rightarrow> char \<Rightarrow> JSON \<Rightarrow> JSON" where
  "set_char i c j =
     (case j of
        JString s \<Rightarrow> if length s < i then j else if i = length s then JString (s @ [c]) else JString (s[i := c])
      | _ \<Rightarrow> j)"

definition AppendStr :: "string \<Rightarrow> JSON \<Rightarrow> JSON" where
  "AppendStr str j = (case j of JNull \<Rightarrow> JString str | JString s \<Rightarrow> JString (s @ str) | _ \<Rightarrow> j)"

definition AppendChar :: "char \<Rightarrow> JSON \<Rightarrow> JSON" where
  "AppendChar c j = (case j of JNull \<Rightarrow> JString [c] | JString s \<Rightarrow> JString (s @ [c]) | _ \<Rightarrow> j)"

definition AppendBuffer :: "bytes \<Rightarrow> JSON \<Rightarrow> JSON" where
  "AppendBuffer d j = (case j of JNull \<Rightarrow> JBuffer d | JBuffer b \<Rightarrow> JBuffer (b @ d) | _ \<Rightarrow> j)"

definition FreeBuffer :: "JSON \<Rightarrow> JSON" where
  "FreeBuffer j = (case j of JBuffer b \<Rightarrow> JBuffer [] | _ \<Rightarrow> j)"

definition AddNum :: "int \<Rightarrow> JSON \<Rightarrow> JSON" where
  "AddNum n j =
     (case j of JNull \<Rightarrow> JIntegral (long_add 0 n) | JIntegral i \<Rightarrow> JIntegral (long_add i n) | _ \<Rightarrow> j)"

definition json_append :: "JSON \<Rightarrow> JSON \<Rightarrow> JSON" where
  "json_append v j = JArray (ArrayRange (SetType CArray j) @ [v])"

section \<open>Printing values\<close>

fun sep_by :: "'a list \<Rightarrow> 'a list list \<Rightarrow> 'a list" where
  "sep_by s [] = []"
| "sep_by s [x] = x"
| "sep_by s (x # y # xs) = x @ s @ sep_by s (y # xs)"

text \<open>The printed key of an entry of a first-in-order object; \<open>None\<close> for an entry that is skipped.\<close>

definition fio_print_key :: "string \<Rightarrow> string option" where
  "fio_print_key k =
     (case fio_split k of
        Some (tag, key) \<Rightarrow> if key \<noteq> [] \<and> is_number tag then Some key else None
      | None \<Rightarrow> None)"

definition quoted :: "string \<Rightarrow> string" where
  "quoted s = CHR 0x22 # s @ [CHR 0x22]"

abbreviation (input) HASH_TAG :: string where "HASH_TAG \<equiv> ''$&JT&$''"

text \<open>
  \<open>dump_vector\<close>. The argument \<open>fd\<close> is \<open>std::to_string\<close> on a double. A buffer is written as raw
  bytes, a hash in hexadecimal.
\<close>

fun dump_vector :: "(64 word \<Rightarrow> string) \<Rightarrow> JSON \<Rightarrow> bytes" where
  "dump_vector fd JNull = str_bytes ''null''"
| "dump_vector fd (JObject m) =
     str_bytes ''{'' @
     sep_by (str_bytes '','')
       (map (\<lambda>p. str_bytes (quoted (fst p) @ '':'') @ dump_vector fd (snd p)) m) @
     str_bytes ''}''"
| "dump_vector fd (JFIOObject m) =
     str_bytes ''{'' @
     sep_by (str_bytes '','')
       (map (\<lambda>p. str_bytes (quoted (the (fio_print_key (fst p))) @ '':'') @ dump_vector fd (snd p))
         (filter (\<lambda>p. fio_print_key (fst p) \<noteq> None) m)) @
     str_bytes ''}''"
| "dump_vector fd (JArray xs) =
     str_bytes ''['' @ sep_by (str_bytes '','') (map (dump_vector fd) xs) @ str_bytes '']''"
| "dump_vector fd (JHash h) = str_bytes (quoted (HASH_TAG @ json_hexstring h))"
| "dump_vector fd (JBuffer b) = str_bytes (CHR 0x22 # HASH_TAG) @ b @ str_bytes [CHR 0x22]"
| "dump_vector fd (JString s) = str_bytes (quoted (json_escape s))"
| "dump_vector fd (JFloating d) = str_bytes (fd d)"
| "dump_vector fd (JIntegral i) = str_bytes (int_to_string i)"
| "dump_vector fd (JBoolean b) = str_bytes (if b then ''true'' else ''false'')"

text \<open>\<open>dump\<close>, the indented form; \<open>depth\<close> starts at 1 and a tab is two blanks.\<close>

definition json_pad :: "nat \<Rightarrow> string" where
  "json_pad depth = concat (replicate depth ''  '')"

abbreviation (input) newline :: string where "newline \<equiv> [CHR 0x0A]"

fun dump :: "(64 word \<Rightarrow> string) \<Rightarrow> nat \<Rightarrow> JSON \<Rightarrow> string" where
  "dump fd depth JNull = ''null''"
| "dump fd depth (JObject m) =
     ''{'' @ newline @
     sep_by ('','' @ newline)
       (map (\<lambda>p. json_pad depth @ quoted (fst p) @ '' : '' @ dump fd (Suc depth) (snd p)) m) @
     newline @ drop 2 (json_pad depth) @ ''}''"
| "dump fd depth (JFIOObject m) =
     ''{'' @ newline @
     sep_by ('','' @ newline)
       (map (\<lambda>p. json_pad depth @ quoted (the (fio_print_key (fst p))) @ '' : '' @ dump fd (Suc depth) (snd p))
         (filter (\<lambda>p. fio_print_key (fst p) \<noteq> None) m)) @
     newline @ drop 2 (json_pad depth) @ ''}''"
| "dump fd depth (JArray xs) =
     ''['' @ newline @ json_pad depth @
     sep_by ('', '' @ newline @ json_pad depth) (map (dump fd (Suc depth)) xs) @
     newline @ drop 2 (json_pad depth) @ '']''"
| "dump fd depth (JHash h) = quoted (HASH_TAG @ json_hexstring h)"
| "dump fd depth (JBuffer b) = quoted (HASH_TAG @ json_hexstring b)"
| "dump fd depth (JString s) = quoted (json_escape_pad s (json_pad depth))"
| "dump fd depth (JFloating d) = fd d"
| "dump fd depth (JIntegral i) = int_to_string i"
| "dump fd depth (JBoolean b) = (if b then ''true'' else ''false'')"

section \<open>Laws of references\<close>

lemma JSONType_jset [simp]:
  "JSONType j \<noteq> CFIOObject \<Longrightarrow> JSONType (jset j k v) = CObject"
  by (cases j) (auto simp: jset_def)

lemma jget_jset [simp]:
  "JSONType j \<noteq> CFIOObject \<Longrightarrow> jget (jset j k v) k' = (if k' = k then v else jget j k')"
  by (cases j) (auto simp: jget_def jset_def map_get_def)

lemma JSONType_jupd [simp]:
  "JSONType j \<noteq> CFIOObject \<Longrightarrow> JSONType (jupd j k f) = CObject"
  by (simp add: jupd_def)

lemma jget_jupd [simp]:
  "JSONType j \<noteq> CFIOObject \<Longrightarrow> jget (jupd j k f) k' = (if k' = k then f (jget j k) else jget j k')"
  by (simp add: jupd_def)

lemma jget_jset_touch:
  "JSONType j \<noteq> CFIOObject \<Longrightarrow> jget (jset j k (jget j k)) k' = jget j k'"
  by simp

lemma jget_JNull [simp]: "jget JNull k = JNull"
  by (simp add: jget_def)

lemma jget_JObject_Nil [simp]: "jget (JObject []) k = JNull"
  by (simp add: jget_def map_get_def)

lemma hasKey_jset [simp]:
  "JSONType j \<noteq> CFIOObject \<Longrightarrow> hasKey (jset j k v) k' \<longleftrightarrow> k' = k \<or> hasKey j k'"
  by (cases j) (auto simp: hasKey_def jset_def)

lemma json_size_jset_pos: "JSONType j \<noteq> CFIOObject \<Longrightarrow> 0 < json_size (jset j k v)"
  by (cases j) (auto simp: json_size_def jset_def)

lemma get_char_set_char:
  "i < length s \<Longrightarrow> get_char (set_char i c (JString s)) i' = (if i' = i then c else get_char (JString s) i')"
  by (auto simp: get_char_def set_char_def)

lemma set_char_JString [simp]:
  "i < length s \<Longrightarrow> set_char i c (JString s) = JString (s[i := c])"
  by (simp add: set_char_def)

lemma get_char_JString [simp]:
  "i < length s \<Longrightarrow> get_char (JString s) i = s ! i"
  by (simp add: get_char_def)

lemma ToInt_simps [simp]:
  "ToInt (JIntegral i) = i" "ToInt JNull = 0" "ToInt (JString s) = 0"
  by (simp_all add: ToInt_def)

lemma AddNum_simps [simp]:
  "AddNum n JNull = JIntegral (long_wrap n)"
  "AddNum n (JIntegral i) = JIntegral (long_add i n)"
  by (simp_all add: AddNum_def long_add_def)

lemma ArrayRange_append [simp]:
  "ArrayRange (json_append v (JArray xs)) = xs @ [v]"
  by (simp add: json_append_def SetType_def ArrayRange_def)

end
