(* ===== verification/EUtils.thy ===== *)
theory EUtils
  imports Json
begin

text \<open>
  The helpers of \<open>src/src/enclave/utils/EUtils.cpp\<close> and \<open>PathHelper.cpp\<close>: allocation with retries,
  hexadecimal and base 58 text, content identifiers, and sealing.

  Everything that is not code of the repository (the heap, the SGX SDK, random numbers, the file
  system, the chain) is a field of the record \<open>env\<close>, an argument of the operations that use it.
\<close>

section \<open>The environment\<close>

text \<open>
  The calls that leave the enclave and only have an effect outside (\<open>src/src/app/ocalls/\<close>). The model
  keeps them in order as a trace; a chunked transfer is one event when its last chunk arrives.
\<close>

datatype ocall =
    Ocall_set_srd_info string
  | Ocall_store_file_info string string string
  | Ocall_delete_file_info string string
  | Ocall_change_file_type string string string
  | Ocall_delete_ipfs_file string
  | Ocall_ipfs_del_all string
  | Ocall_store2 ocall_store_type bytes
  | Ocall_create_dir string store_type
  | Ocall_rename_dir string string store_type
  | Ocall_save_file string bytes store_type
  | Ocall_delete_folder_or_file string store_type
  | Ocall_save_ipfs_block string bytes
  | Ocall_upload_workreport
  | Ocall_usleep int
  | Ocall_entry_network
  | Ocall_store_enclave_id_info string

text \<open>
  \<^item> \<open>malloc t n\<close>: the \<open>t\<close>-th attempt to allocate \<open>n\<close> bytes inside the enclave gives a buffer;
    \<open>app_malloc\<close>: the same outside;
  \<^item> \<open>sgx_sha256_msg\<close>, \<open>sgx_seal_data\<close>, \<open>sgx_seal_data_ex\<close>, \<open>sgx_unseal_data\<close>, \<open>sgx_ecdsa_sign\<close>: the
    SGX SDK; \<open>None\<close> is a status other than \<open>SGX_SUCCESS\<close>; the first argument of the two sealing
    functions numbers the call, because two seals of the same data differ;
    \<open>sgx_calc_sealed_data_size\<close> and \<open>sgx_get_encrypt_txt_len\<close> are its size functions;
  \<^item> \<open>double_to_string\<close>: \<open>std::to_string\<close> on a \<open>double\<close>;
  \<^item> \<open>rand_key n\<close>: the random key of the chunked transfer that starts after \<open>n\<close> calls;
    \<open>sgx_ocall_ok n\<close>: the transport of the chunk at offset \<open>n\<close> succeeds;
  \<^item> \<open>leveldb_ok n k\<close>: whether the \<open>n\<close>-th write to the database, to the key \<open>k\<close>, succeeds;
  \<^item> \<open>ocall_ret h c\<close>: the status that the call \<open>c\<close> gives after the calls \<open>h\<close>;
  \<^item> \<open>get_file\<close>: what a file on disk holds, with the status of reading it;
  \<^item> \<open>disk_uuid h\<close>: the 16 characters that \<open>ocall_save_ipfs_block\<close>, called after \<open>h\<close>, writes into its buffer;
  \<^item> \<open>chain_block_info h\<close>: what \<open>safe_ocall_get2(ocall_chain_get_block_info, ...)\<close> gives after \<open>h\<close>;
  \<^item> \<open>sgx_read_rand k n\<close>: the \<open>n\<close> random bytes that a call after \<open>k\<close> calls to the outside gives;
  \<^item> \<open>block_hash_at h n\<close>: what \<open>ocall_get_block_hash\<close> gives for the height \<open>n\<close>, 64 characters;
    \<open>sgx_ecdsa_verify\<close>: the check of a signature under a public key;
    \<open>sgx_ecc256_create_key_pair\<close>: a new pair of public and private key; \<open>sgx_create_report\<close>: the
    measurement of the enclave;
  \<^item> \<open>ipfs_online h\<close>: whether IPFS answers after the calls \<open>h\<close>; \<open>recall_ok i\<close>: whether the \<open>i\<close>-th call
    of \<open>ocall_recall_validate_file\<close> or \<open>ocall_recall_validate_srd\<close> in a round starts a task.
\<close>

record env =
  malloc :: "nat \<Rightarrow> nat \<Rightarrow> bool"
  app_malloc :: "nat \<Rightarrow> bool"
  sgx_sha256_msg :: "bytes \<Rightarrow> bytes"
  sgx_seal_data :: "nat \<Rightarrow> bytes \<Rightarrow> bytes option"
  sgx_seal_data_ex :: "nat \<Rightarrow> bytes \<Rightarrow> bytes option"
  sgx_unseal_data :: "bytes \<Rightarrow> bytes option"
  sgx_calc_sealed_data_size :: "nat \<Rightarrow> nat"
  sgx_get_encrypt_txt_len :: "bytes \<Rightarrow> nat"
  sgx_ecdsa_sign :: "bytes \<Rightarrow> bytes \<Rightarrow> bytes option"
  double_to_string :: "64 word \<Rightarrow> string"
  rand_key :: "nat \<Rightarrow> nat"
  sgx_ocall_ok :: "nat \<Rightarrow> bool"
  leveldb_ok :: "nat \<Rightarrow> string \<Rightarrow> bool"
  ocall_ret :: "ocall list \<Rightarrow> ocall \<Rightarrow> spacex_status"
  get_file :: "string \<Rightarrow> store_type \<Rightarrow> spacex_status \<times> bytes"
  disk_uuid :: "ocall list \<Rightarrow> string"
  chain_block_info :: "ocall list \<Rightarrow> spacex_status \<times> bytes"
  sgx_read_rand :: "nat \<Rightarrow> nat \<Rightarrow> bytes"
  block_hash_at :: "ocall list \<Rightarrow> size_t \<Rightarrow> spacex_status \<times> string"
  sgx_ecdsa_verify :: "bytes \<Rightarrow> bytes \<Rightarrow> bytes \<Rightarrow> bool"
  sgx_ecc256_create_key_pair :: "nat \<Rightarrow> (bytes \<times> bytes) option"
  sgx_create_report :: "bytes option"
  ipfs_online :: "ocall list \<Rightarrow> bool"
  recall_ok :: "nat \<Rightarrow> bool"

text \<open>\<open>enc_malloc\<close> tries three times and stops at the first buffer it gets.\<close>

definition enc_malloc :: "env \<Rightarrow> nat \<Rightarrow> bool" where
  "enc_malloc e sz = list_ex (\<lambda>t. malloc e t sz) [0..<ENCLAVE_MALLOC_TRYOUT]"

lemma enc_malloc_iff: "enc_malloc e sz \<longleftrightarrow> (\<exists>t < ENCLAVE_MALLOC_TRYOUT. malloc e t sz)"
  by (auto simp: enc_malloc_def list_ex_iff)

text \<open>
  What the code relies on: SHA-256 digests have 32 bytes, and unsealing inverts sealing. The heap
  assumption is only used where a theorem is about a run in which no allocation fails.
\<close>

definition sha256_length :: "env \<Rightarrow> bool" where
  "sha256_length e \<longleftrightarrow> (\<forall>d. length (sgx_sha256_msg e d) = HASH_LENGTH)"

definition rand_length :: "env \<Rightarrow> bool" where
  "rand_length e \<longleftrightarrow> (\<forall>k n. length (sgx_read_rand e k n) = n)"

definition heap_ok :: "env \<Rightarrow> bool" where
  "heap_ok e \<longleftrightarrow> (\<forall>n. enc_malloc e n)"

definition unseal_inverts :: "env \<Rightarrow> bool" where
  "unseal_inverts e \<longleftrightarrow>
     (\<forall>n d c. sgx_seal_data e n d = Some c \<longrightarrow> sgx_unseal_data e c = Some d) \<and>
     (\<forall>n d c. sgx_seal_data_ex e n d = Some c \<longrightarrow> sgx_unseal_data e c = Some d)"

section \<open>Hexadecimal text\<close>

definition char_to_int :: "char \<Rightarrow> int" where
  "char_to_int c =
     (if CHR ''0'' \<le> c \<and> c \<le> CHR ''9'' then of_char c - 48
      else if CHR ''A'' \<le> c \<and> c \<le> CHR ''F'' then of_char c - 65 + 10
      else if CHR ''a'' \<le> c \<and> c \<le> CHR ''f'' then of_char c - 97 + 10
      else 0)"

text \<open>\<open>hexstring_safe\<close> gives the empty string when its buffer cannot be allocated.\<close>

definition hexstring_safe :: "env \<Rightarrow> bytes \<Rightarrow> string" where
  "hexstring_safe e bs =
     (if enc_malloc e (length bs * 2)
      then concat (map (\<lambda>b. [hextable ! (unat b div 16), hextable ! (unat b mod 16)]) bs)
      else [])"

text \<open>The pairs of characters that the loop of \<open>hex_string_to_bytes\<close> reads.\<close>

fun hex_pairs :: "string \<Rightarrow> bytes" where
  "hex_pairs (a # b # s) = word_of_int (char_to_int a * 16 + char_to_int b) # hex_pairs s"
| "hex_pairs _ = []"

definition hex_string_to_bytes :: "env \<Rightarrow> string \<Rightarrow> bytes option" where
  "hex_string_to_bytes e s =
     (if length s mod 2 \<noteq> 0 \<or> length s = 0 then None
      else if enc_malloc e (length s div 2) then Some (hex_pairs s)
      else None)"

definition unsigned_char_to_hex :: "byte \<Rightarrow> string" where
  "unsigned_char_to_hex b =
     (let hi = unat b div 16; lo = unat b mod 16
      in [if hi < 10 then char_of (hi + 48) else char_of (hi - 10 + 97),
          if lo < 10 then char_of (lo + 48) else char_of (lo - 10 + 97)])"

definition unsigned_char_array_to_hex_string :: "bytes \<Rightarrow> string" where
  "unsigned_char_array_to_hex_string bs = concat (map unsigned_char_to_hex bs)"

lemma char_to_int_hextable: "n < 16 \<Longrightarrow> char_to_int (hextable ! n) = int n"
proof -
  have "list_all (\<lambda>n. char_to_int (hextable ! n) = int n) [0..<16]"
    by code_simp
  then show "n < 16 \<Longrightarrow> ?thesis" by (simp add: list_all_iff)
qed

lemma hextable_digit:
  "n < 16 \<Longrightarrow> hextable ! n = (if n < 10 then char_of (n + 48) else char_of (n - 10 + 97))"
proof -
  have "list_all (\<lambda>n. hextable ! n = (if n < 10 then char_of (n + 48) else char_of (n - 10 + 97))) [0..<16]"
    by code_simp
  then show "n < 16 \<Longrightarrow> ?thesis" by (simp add: list_all_iff)
qed

lemma unat_byte_less: "unat (b :: byte) < 256"
  using unsigned_less [of b] by simp

lemma byte_nibbles: "word_of_int (char_to_int (hextable ! (unat b div 16)) * 16 +
    char_to_int (hextable ! (unat b mod 16))) = (b :: byte)"
proof -
  have hi: "unat b div 16 < 16" using unat_byte_less [of b] by (simp add: less_mult_imp_div_less)
  have "char_to_int (hextable ! (unat b div 16)) * 16 + char_to_int (hextable ! (unat b mod 16)) =
      int (unat b div 16 * 16 + unat b mod 16)"
    by (simp only: char_to_int_hextable [OF hi] char_to_int_hextable [of "unat b mod 16"]
        mod_less_divisor zero_less_numeral of_nat_add of_nat_mult of_nat_numeral)
  also have "unat b div 16 * 16 + unat b mod 16 = unat b" by (rule div_mult_mod_eq)
  finally show ?thesis by simp
qed

lemma hex_pairs_hexstring:
  "hex_pairs (concat (map (\<lambda>b. [hextable ! (unat b div 16), hextable ! (unat b mod 16)]) bs)) = bs"
proof (induction bs)
  case (Cons b bs)
  have "hex_pairs (hextable ! (unat b div 16) # hextable ! (unat b mod 16) # t) = b # hex_pairs t" for t
    by (simp only: hex_pairs.simps byte_nibbles)
  with Cons show ?case by (simp del: hex_pairs.simps)
qed simp

lemma length_hex_concat [simp]:
  "length (concat (map (\<lambda>b. [f b, g b]) bs)) = 2 * length bs"
  by (induction bs) auto

lemma length_hexstring_safe: "enc_malloc e (length bs * 2) \<Longrightarrow> length (hexstring_safe e bs) = 2 * length bs"
  by (simp add: hexstring_safe_def)

lemma length_hex_pairs: "length (hex_pairs s) = length s div 2"
  by (induction s rule: hex_pairs.induct) auto

lemma hex_string_to_bytes_length:
  "hex_string_to_bytes e s = Some bs \<Longrightarrow> length bs = length s div 2"
  by (auto simp: hex_string_to_bytes_def length_hex_pairs split: if_splits)

lemma unsigned_char_array_to_hex_string_eq:
  "enc_malloc e (length bs * 2) \<Longrightarrow> unsigned_char_array_to_hex_string bs = hexstring_safe e bs"
proof -
  assume "enc_malloc e (length bs * 2)"
  moreover have "unsigned_char_to_hex b = [hextable ! (unat b div 16), hextable ! (unat b mod 16)]" for b
  proof -
    have "unat b div 16 < 16" using unat_byte_less [of b] by (simp add: less_mult_imp_div_less)
    then show ?thesis by (simp add: unsigned_char_to_hex_def Let_def hextable_digit)
  qed
  then have "unsigned_char_to_hex = (\<lambda>b. [hextable ! (unat b div 16), hextable ! (unat b mod 16)])"
    by (rule ext)
  ultimately show ?thesis
    by (simp add: unsigned_char_array_to_hex_string_def hexstring_safe_def)
qed

text \<open>The hexadecimal text without the allocation, which both printers produce when there is memory.\<close>

definition plain_hex :: "bytes \<Rightarrow> string" where
  "plain_hex bs = concat (map (\<lambda>b. [hextable ! (unat b div 16), hextable ! (unat b mod 16)]) bs)"

lemma hexstring_plain: "heap_ok e \<Longrightarrow> hexstring_safe e bs = plain_hex bs"
  by (simp add: hexstring_safe_def heap_ok_def plain_hex_def)

lemma json_plain_append: "json_plain (a @ b) \<longleftrightarrow> json_plain a \<and> json_plain b"
  by (simp add: json_plain_def)

lemma json_plain_hex: "json_plain (plain_hex bs)"
proof -
  have hx: "json_escape_char (hextable ! n) = [hextable ! n]" if "n < 16" for n
  proof -
    have "list_all (\<lambda>n. json_escape_char (hextable ! n) = [hextable ! n]) [0..<16]" by code_simp
    with that show ?thesis by (simp add: list_all_iff)
  qed
  have "unat (b :: byte) div 16 < 16" for b using unat_byte_less [of b] by (simp add: less_mult_imp_div_less)
  then show ?thesis by (induction bs) (simp_all add: json_plain_def plain_hex_def hx)
qed

lemma take_plain_hex: "take (2 * n) (plain_hex bs) = plain_hex (take n bs)"
proof (induction bs arbitrary: n)
  case (Cons b bs)
  then show ?case by (cases n) (simp_all add: plain_hex_def)
qed (simp add: plain_hex_def)

lemma length_plain_hex: "length (plain_hex bs) = 2 * length bs"
  by (simp add: plain_hex_def)

lemma hex_string_to_bytes_plain: "heap_ok e \<Longrightarrow> bs \<noteq> [] \<Longrightarrow> hex_string_to_bytes e (plain_hex bs) = Some bs"
  using hex_pairs_hexstring [of bs] by (simp add: hex_string_to_bytes_def length_plain_hex heap_ok_def plain_hex_def)

section \<open>Paths of srd files\<close>

definition get_m_hashs_file_path :: "string \<Rightarrow> string" where
  "get_m_hashs_file_path g_path = g_path @ ''/'' @ SRD_M_HASHS"

definition get_leaf_path :: "string \<Rightarrow> nat \<Rightarrow> bytes \<Rightarrow> string" where
  "get_leaf_path g_path now_index hash =
     g_path @ ''/'' @ nat_to_string (now_index + 1) @ ''-'' @ unsigned_char_array_to_hex_string (take 32 hash)"

definition get_g_path_with_hash :: "string \<Rightarrow> bytes \<Rightarrow> string" where
  "get_g_path_with_hash dir_path hash =
     dir_path @ ''/'' @ unsigned_char_array_to_hex_string (take HASH_LENGTH hash)"

definition get_g_path :: "string \<Rightarrow> nat \<Rightarrow> string" where
  "get_g_path dir_path now_index = dir_path @ ''/'' @ nat_to_string (now_index + 1)"

section \<open>Editing strings\<close>

definition remove_char :: "string \<Rightarrow> char \<Rightarrow> string" where
  "remove_char s c = filter (\<lambda>x. x \<noteq> c) s"

text \<open>
  \<open>replace\<close> scans from the left and continues after each replacement. With an empty pattern and an
  empty replacement the C++ loop finds the same position again and does not end; \<open>None\<close> stands for
  that, and for the other empty-pattern case, which also never ends.
\<close>

function replace_from :: "string \<Rightarrow> string \<Rightarrow> string \<Rightarrow> string" where
  "replace_from data org det =
     (if org = [] then data
      else if prefix org data then det @ replace_from (drop (length org) data) org det
      else case data of [] \<Rightarrow> [] | c # cs \<Rightarrow> c # replace_from cs org det)"
  by pat_completeness auto
termination
  by (relation "measure (\<lambda>(d, _, _). length d)") (auto simp: prefix_def)

definition replace_str :: "string \<Rightarrow> string \<Rightarrow> string \<Rightarrow> string option" where
  "replace_str data org det = (if org = [] then None else Some (replace_from data org det))"

section \<open>Sealing\<close>

text \<open>
  \<open>Sgx_seal_data\<close> and \<open>Sgx_seal_data_ex\<close> first check that a buffer of the sealed size can be
  allocated. The argument \<open>within\<close> is \<open>sgx_is_within_enclave\<close> on the input buffer: data outside the
  enclave is copied inside first.
\<close>

definition Sgx_seal_data_ex :: "env \<Rightarrow> nat \<Rightarrow> bytes \<Rightarrow> bytes option" where
  "Sgx_seal_data_ex e n src =
     (if enc_malloc e (sgx_calc_sealed_data_size e (length src)) then sgx_seal_data_ex e n src else None)"

definition Sgx_seal_data :: "env \<Rightarrow> nat \<Rightarrow> bytes \<Rightarrow> bytes option" where
  "Sgx_seal_data e n src =
     (if enc_malloc e (sgx_calc_sealed_data_size e (length src)) then sgx_seal_data e n src else None)"

definition seal_data_mrenclave :: "env \<Rightarrow> nat \<Rightarrow> bytes \<Rightarrow> spacex_status + bytes" where
  "seal_data_mrenclave e n src =
     (if \<not> enc_malloc e (sgx_calc_sealed_data_size e (length src)) then Inl SPACEX_MALLOC_FAILED
      else case Sgx_seal_data_ex e n src of
             None \<Rightarrow> Inl SPACEX_SEAL_DATA_FAILED
           | Some c \<Rightarrow> Inr c)"

definition seal_data_mrsigner :: "env \<Rightarrow> nat \<Rightarrow> bool \<Rightarrow> bytes \<Rightarrow> spacex_status + bytes" where
  "seal_data_mrsigner e n within src =
     (if \<not> enc_malloc e (sgx_calc_sealed_data_size e (length src)) then Inl SPACEX_MALLOC_FAILED
      else if \<not> within \<and> \<not> enc_malloc e (length src) then Inl SPACEX_MALLOC_FAILED
      else case Sgx_seal_data e n src of
             None \<Rightarrow> Inl SPACEX_SEAL_DATA_FAILED
           | Some c \<Rightarrow> Inr c)"

definition unseal_data_mrsigner :: "env \<Rightarrow> bool \<Rightarrow> bytes \<Rightarrow> spacex_status + bytes" where
  "unseal_data_mrsigner e within data =
     (if \<not> enc_malloc e (sgx_get_encrypt_txt_len e data) then Inl SPACEX_MALLOC_FAILED
      else if \<not> within \<and> \<not> enc_malloc e (length data) then Inl SPACEX_MALLOC_FAILED
      else case sgx_unseal_data e data of
             None \<Rightarrow> Inl SPACEX_UNSEAL_DATA_FAILED
           | Some d \<Rightarrow> Inr d)"

text \<open>What one of the two sealing functions wrote, unsealing reads back.\<close>

lemma seal_mrsigner_unseal:
  "unseal_inverts e \<Longrightarrow> heap_ok e \<Longrightarrow> seal_data_mrsigner e n w src = Inr c \<Longrightarrow>
   unseal_data_mrsigner e w' c = Inr src"
  by (auto simp: seal_data_mrsigner_def unseal_data_mrsigner_def Sgx_seal_data_def unseal_inverts_def
      heap_ok_def split: if_splits option.splits)

lemma seal_mrenclave_unseal:
  "unseal_inverts e \<Longrightarrow> seal_data_mrenclave e n src = Inr c \<Longrightarrow> sgx_unseal_data e c = Some src"
  by (auto simp: seal_data_mrenclave_def Sgx_seal_data_ex_def unseal_inverts_def
      split: if_splits option.splits)

end
