(* ===== verification/Base58.thy ===== *)
theory Base58
  imports EUtils
begin

text \<open>
  Base 58 text and IPFS content identifiers: \<open>base58_encode\<close> and \<open>hash_to_cid\<close> of
  \<open>src/src/enclave/utils/EUtils.cpp\<close>.

  The array \<open>b58\<close> of the code is filled from its end, so it is a list of digits with the least
  significant digit first. The code returns the literal 0 as a \<open>std::string\<close> when a carry is left
  over, which is undefined in C++; the model gives \<open>None\<close> there, and the theorems show that
  \<open>hash_to_cid\<close> never gets there. Unlike the usual base 58, a leading zero byte is not written as a
  leading \<open>1\<close>.
\<close>

section \<open>The conversion\<close>

definition BASE58_ALPHABET :: string where
  "BASE58_ALPHABET = ''123456789ABCDEFGHJKLMNPQRSTUVWXYZabcdefghijkmnopqrstuvwxyz''"

text \<open>
  \<open>1 + base58_ifactor * (double)len\<close> truncated to an int; the factor is the fraction whose
  denominator is \<open>2 ^ 49\<close> and which the double constant stands for.
\<close>

definition base58_size :: "nat \<Rightarrow> nat" where
  "base58_size len = 1 + (768797241082961 * len) div 562949953421312"

text \<open>The inner loop over the digits, starting at index \<open>i\<close>; it gives the new digits, the carry and \<open>i\<close>.\<close>

fun base58_carry :: "nat \<Rightarrow> nat \<Rightarrow> nat \<Rightarrow> nat list \<Rightarrow> nat list \<times> nat \<times> nat" where
  "base58_carry carry i len [] = ([], carry, i)"
| "base58_carry carry i len (d # ds) =
     (if carry \<noteq> 0 \<or> i < len
      then let c = carry + 256 * d; (ds', c', i') = base58_carry (c div 58) (Suc i) len ds
           in (c mod 58 # ds', c', i')
      else (d # ds, carry, i))"

fun base58_loop :: "nat list \<Rightarrow> nat \<Rightarrow> nat list \<Rightarrow> (nat list \<times> nat) option" where
  "base58_loop [] len ds = Some (ds, len)"
| "base58_loop (b # bs) len ds =
     (let (ds', c, i) = base58_carry b 0 len ds
      in if c \<noteq> 0 then None else base58_loop bs i ds')"

definition base58_text :: "nat list \<Rightarrow> string" where
  "base58_text ds = map (\<lambda>d. BASE58_ALPHABET ! d) ds"

text \<open>The used digits are read from the front and leading zeros are skipped.\<close>

definition base58_digits :: "nat list \<Rightarrow> nat list option" where
  "base58_digits input =
     (case base58_loop input 0 (replicate (base58_size (length input)) 0) of
        None \<Rightarrow> None
      | Some (ds, len) \<Rightarrow> Some (dropWhile (\<lambda>d. d = 0) (rev (take len ds))))"

definition base58_encode :: "bytes \<Rightarrow> string option" where
  "base58_encode input =
     (if input = [] then Some [] else map_option base58_text (base58_digits (map unat input)))"

definition hash_to_cid :: "bytes \<Rightarrow> string option" where
  "hash_to_cid hash = map_option base58_text (base58_digits (18 # 32 # map unat (take HASH_LENGTH hash)))"

section \<open>Values of digit lists\<close>

fun low_value :: "nat \<Rightarrow> nat list \<Rightarrow> nat" where
  "low_value b [] = 0"
| "low_value b (d # ds) = d + b * low_value b ds"

definition high_value :: "nat \<Rightarrow> nat list \<Rightarrow> nat" where
  "high_value b ds = foldl (\<lambda>n d. b * n + d) 0 ds"

lemma low_value_append: "low_value b (xs @ ys) = low_value b xs + b ^ length xs * low_value b ys"
  by (induction xs) (auto simp: algebra_simps)

lemma high_value_rev: "high_value b ds = low_value b (rev ds)"
  by (induction ds rule: rev_induct) (auto simp: high_value_def low_value_append)

lemma low_value_zeros: "list_all (\<lambda>d. d = 0) ds \<Longrightarrow> low_value b ds = 0"
  by (induction ds) auto

lemma high_value_dropWhile: "high_value b (dropWhile (\<lambda>d. d = 0) ds) = high_value b ds"
  by (induction ds) (auto simp: high_value_def)

lemma high_value_Cons: "high_value b (d # ds) = d * b ^ length ds + high_value b ds"
  by (simp add: high_value_rev low_value_append)

lemma high_value_append:
  "high_value b (xs @ ys) = high_value b xs * b ^ length ys + high_value b ys"
  by (simp add: high_value_rev low_value_append)

lemma high_value_less:
  "list_all (\<lambda>d. d < b) ds \<Longrightarrow> high_value b ds < b ^ length ds"
proof (induction ds)
  case (Cons d ds)
  then have "d * b ^ length ds + high_value b ds < (d + 1) * b ^ length ds" by simp
  also have "\<dots> \<le> b * b ^ length ds" using Cons.prems by (intro mult_right_mono) auto
  finally show ?case by (simp add: high_value_Cons)
qed (simp add: high_value_def)

lemma high_value_ge:
  "ds \<noteq> [] \<Longrightarrow> hd ds \<noteq> 0 \<Longrightarrow> b ^ (length ds - 1) \<le> high_value b ds"
  by (cases ds) (auto simp: high_value_Cons intro: trans_le_add1)

lemma high_value_inject:
  assumes "length xs = length ys" and "list_all (\<lambda>d. d < b) xs" and "list_all (\<lambda>d. d < b) ys"
    and "high_value b xs = high_value b ys"
  shows "xs = ys"
  using assms
proof (induction xs ys rule: list_induct2)
  case (Cons x xs y ys)
  have lt: "high_value b xs < b ^ length ys" "high_value b ys < b ^ length ys"
    using Cons high_value_less [of b xs] high_value_less [of b ys] by auto
  have eq: "x * b ^ length ys + high_value b xs = y * b ^ length ys + high_value b ys"
    using Cons by (simp add: high_value_Cons)
  then have "(x * b ^ length ys + high_value b xs) div b ^ length ys =
      (y * b ^ length ys + high_value b ys) div b ^ length ys" by simp
  moreover have "b ^ length ys \<noteq> 0" using lt by linarith
  ultimately have "x = y" using lt by (metis add.right_neutral div_less div_mult_self3)
  with eq Cons show ?case by simp
qed simp

section \<open>The conversion keeps the value\<close>

lemma base58_carry_cases:
  assumes "base58_carry c i len (d # ds) = (ds', c', i')"
  obtains (digit) es where "base58_carry ((c + 256 * d) div 58) (Suc i) len ds = (es, c', i')"
      and "ds' = (c + 256 * d) mod 58 # es"
    | (stop) "c = 0" and "len \<le> i" and "ds' = d # ds" and "c' = 0" and "i' = i"
proof (cases "c \<noteq> 0 \<or> i < len")
  case True
  obtain es k j where "base58_carry ((c + 256 * d) div 58) (Suc i) len ds = (es, k, j)"
    by (metis prod_cases3)
  with True assms have "base58_carry ((c + 256 * d) div 58) (Suc i) len ds = (es, c', i')"
    and "ds' = (c + 256 * d) mod 58 # es" by (simp_all add: Let_def)
  then show ?thesis by (rule digit)
next
  case False
  then have "base58_carry c i len (d # ds) = (d # ds, 0, i)" by simp
  with assms have "ds' = d # ds" and "c' = 0" and "i' = i" by simp_all
  with False show ?thesis by (intro stop) simp_all
qed

lemma base58_carry_length: "base58_carry c i len ds = (ds', c', i') \<Longrightarrow> length ds' = length ds"
proof (induction ds arbitrary: c i ds' c' i')
  case (Cons d ds)
  from Cons.prems show ?case by (cases rule: base58_carry_cases) (simp_all add: Cons.IH)
qed simp

lemma base58_carry_index: "base58_carry c i len ds = (ds', c', i') \<Longrightarrow> i \<le> i'"
proof (induction ds arbitrary: c i ds' c' i')
  case (Cons d ds)
  from Cons.prems show ?case
    by (cases rule: base58_carry_cases) (auto dest: Cons.IH simp del: base58_carry.simps)
qed simp

lemma zeros_tail:
  assumes "list_all (\<lambda>d. d = 0) (drop (len - i) (d # ds))"
  shows "list_all (\<lambda>d. d = 0) (drop (len - Suc i) ds)"
proof (cases "len - i")
  case (Suc n)
  then have "len - Suc i = n" by simp
  with assms Suc show ?thesis by simp
qed (use assms in simp)

lemma add_digit:
  "58 * a + x = 58 * (256 * l) + 58 * q \<Longrightarrow> r + 58 * q = c + 256 * d \<Longrightarrow>
   r + 58 * a + x = 256 * (d + 58 * l) + (c :: nat)"
  by presburger

lemma base58_carry_value:
  assumes "base58_carry c i len ds = (ds', c', i')" and "list_all (\<lambda>d. d = 0) (drop (len - i) ds)"
  shows "low_value 58 ds' + c' * 58 ^ length ds = 256 * low_value 58 ds + c"
  using assms
proof (induction ds arbitrary: c i ds' c' i')
  case (Cons d ds)
  from Cons.prems(1) show ?case
  proof (cases rule: base58_carry_cases)
    case (digit es)
    have "low_value 58 es + c' * 58 ^ length ds = 256 * low_value 58 ds + (c + 256 * d) div 58"
      using Cons.IH [OF digit(1) zeros_tail [OF Cons.prems(2)]] .
    then have "58 * low_value 58 es + c' * (58 * 58 ^ length ds) =
        58 * (256 * low_value 58 ds) + 58 * ((c + 256 * d) div 58)"
      by (simp add: algebra_simps)
    then have "(c + 256 * d) mod 58 + 58 * low_value 58 es + c' * (58 * 58 ^ length ds) =
        256 * (d + 58 * low_value 58 ds) + c"
      using mod_mult_div_eq [of "c + 256 * d" 58] by (rule add_digit)
    then show ?thesis by (simp add: digit(2))
  next
    case stop
    with Cons.prems(2) have "list_all (\<lambda>d. d = 0) (d # ds)" by simp
    with stop show ?thesis using low_value_zeros [of ds 58] by simp
  qed
qed auto

lemma base58_carry_digits:
  "base58_carry c i len ds = (ds', c', i') \<Longrightarrow> list_all (\<lambda>d. d < 58) ds \<Longrightarrow> list_all (\<lambda>d. d < 58) ds'"
proof (induction ds arbitrary: c i ds' c' i')
  case (Cons d ds)
  from Cons.prems(1) show ?case
    by (cases rule: base58_carry_cases) (use Cons.IH Cons.prems(2) in \<open>auto simp del: base58_carry.simps\<close>)
qed simp

lemma base58_carry_zeros:
  "base58_carry c i len ds = (ds', c', i') \<Longrightarrow> list_all (\<lambda>d. d = 0) (drop (len - i) ds) \<Longrightarrow>
   list_all (\<lambda>d. d = 0) (drop (i' - i) ds')"
proof (induction ds arbitrary: c i ds' c' i')
  case (Cons d ds)
  from Cons.prems(1) show ?case
  proof (cases rule: base58_carry_cases)
    case (digit es)
    have "list_all (\<lambda>d. d = 0) (drop (i' - Suc i) es)"
      using Cons.IH [OF digit(1) zeros_tail [OF Cons.prems(2)]] .
    moreover have "Suc i \<le> i'" using base58_carry_index [OF digit(1)] .
    ultimately show ?thesis by (simp add: digit(2) drop_Cons')
  next
    case stop
    with Cons.prems(2) show ?thesis by simp
  qed
qed auto

text \<open>What the outer loop keeps: the digits are below 58, and those from index \<open>len\<close> on are zero.\<close>

definition base58_ok :: "nat \<Rightarrow> nat list \<Rightarrow> bool" where
  "base58_ok len ds \<longleftrightarrow> list_all (\<lambda>d. d < 58) ds \<and> list_all (\<lambda>d. d = 0) (drop len ds)"

lemma base58_carry_ok:
  "base58_carry c 0 len ds = (ds', c', i') \<Longrightarrow> base58_ok len ds \<Longrightarrow> base58_ok i' ds'"
  using base58_carry_digits [of c 0 len ds ds' c' i'] base58_carry_zeros [of c 0 len ds ds' c' i']
  by (simp add: base58_ok_def)

lemma base58_carry_high:
  "base58_carry c 0 len ds = (ds', c', i') \<Longrightarrow> base58_ok len ds \<Longrightarrow>
   low_value 58 ds' + c' * 58 ^ length ds = 256 * low_value 58 ds + c"
  using base58_carry_value [of c 0 len ds ds' c' i'] by (simp add: base58_ok_def)

lemma base58_loop_ok:
  "base58_loop bs len ds = Some (ds', len') \<Longrightarrow> base58_ok len ds \<Longrightarrow>
   base58_ok len' ds' \<and> length ds' = length ds \<and>
   low_value 58 ds' = low_value 58 ds * 256 ^ length bs + high_value 256 bs"
proof (induction bs len ds arbitrary: ds' len' rule: base58_loop.induct)
  case (2 b bs len ds)
  obtain es c i where st: "base58_carry b 0 len ds = (es, c, i)" by (metis prod_cases3)
  with 2(2) have c: "c = 0" and rec: "base58_loop bs i es = Some (ds', len')"
    by (auto split: if_splits)
  have ok: "base58_ok i es" using base58_carry_ok [OF st 2(3)] .
  have "low_value 58 es = 256 * low_value 58 ds + b" using base58_carry_high [OF st 2(3)] c by simp
  then show ?case
    using 2(1) [OF refl st [symmetric]] c rec ok base58_carry_length [OF st]
    by (auto simp: high_value_Cons algebra_simps)
qed (simp add: high_value_def)

text \<open>The loop ends without a carry when the digits have room for the value.\<close>

lemma base58_loop_room:
  assumes "base58_ok len ds" and "low_value 58 ds * 256 ^ length bs + high_value 256 bs < 58 ^ length ds"
  shows "\<exists>ds' len'. base58_loop bs len ds = Some (ds', len')"
  using assms
proof (induction bs len ds rule: base58_loop.induct)
  case (2 b bs len ds)
  obtain es c i where st: "base58_carry b 0 len ds = (es, c, i)" by (metis prod_cases3)
  have eq: "low_value 58 es + c * 58 ^ length ds = 256 * low_value 58 ds + b"
    using base58_carry_high [OF st 2(2)] .
  have "(256 * low_value 58 ds + b) * 256 ^ length bs + high_value 256 bs < 58 ^ length ds"
    using 2(3) by (simp add: high_value_Cons algebra_simps)
  moreover have "256 * low_value 58 ds + b \<le> (256 * low_value 58 ds + b) * 256 ^ length bs" by simp
  ultimately have "256 * low_value 58 ds + b < 58 ^ length ds" by linarith
  then have c: "c = 0" using eq by (cases c) auto
  then have "low_value 58 es * 256 ^ length bs + high_value 256 bs < 58 ^ length es"
    using eq \<open>(256 * low_value 58 ds + b) * _ + _ < _\<close> base58_carry_length [OF st] by simp
  then show ?case using 2(1) [OF refl st [symmetric] refl] st c base58_carry_ok [OF st 2(2)] by auto
qed simp

lemma base58_ok_zero: "base58_ok 0 (replicate n 0)"
  by (simp add: base58_ok_def list_all_iff)

lemma low_value_replicate: "low_value b (replicate n 0) = 0"
  by (induction n) auto

lemma base58_digits_ok:
  assumes "base58_digits input = Some ds"
  shows "list_all (\<lambda>d. d < 58) ds" and "ds \<noteq> [] \<longrightarrow> hd ds \<noteq> 0"
    and "high_value 58 ds = high_value 256 input"
proof -
  obtain es len where lp: "base58_loop input 0 (replicate (base58_size (length input)) 0) = Some (es, len)"
    and ds: "ds = dropWhile (\<lambda>d. d = 0) (rev (take len es))"
    using assms by (auto simp: base58_digits_def split: option.splits)
  have ok: "base58_ok len es" and v: "low_value 58 es = high_value 256 input"
    using base58_loop_ok [OF lp base58_ok_zero] by (auto simp: low_value_replicate)
  have "low_value 58 (take len es) = low_value 58 (take len es @ drop len es)"
    using ok low_value_zeros [of "drop len es" 58] by (simp only: low_value_append base58_ok_def)
  then show "high_value 58 ds = high_value 256 input"
    unfolding ds high_value_dropWhile using v by (simp add: high_value_rev)
  show "list_all (\<lambda>d. d < 58) ds" unfolding ds
    using ok by (auto simp: base58_ok_def list_all_iff dest!: set_dropWhileD in_set_takeD)
  show "ds \<noteq> [] \<longrightarrow> hd ds \<noteq> 0" unfolding ds using hd_dropWhile by blast
qed

lemma base58_digits_room:
  assumes "high_value 256 input < 58 ^ base58_size (length input)"
  obtains ds where "base58_digits input = Some ds"
  using base58_loop_room [OF base58_ok_zero, of "base58_size (length input)" input] assms
  by (auto simp: base58_digits_def low_value_replicate)

section \<open>Reading base 58 text\<close>

definition base58_value :: "string \<Rightarrow> nat" where
  "base58_value s = high_value 58 (map (\<lambda>c. length (takeWhile (\<lambda>x. x \<noteq> c) BASE58_ALPHABET)) s)"

lemma base58_alphabet_index:
  "d < 58 \<Longrightarrow> length (takeWhile (\<lambda>x. x \<noteq> BASE58_ALPHABET ! d) BASE58_ALPHABET) = d"
proof -
  have "list_all (\<lambda>d. length (takeWhile (\<lambda>x. x \<noteq> BASE58_ALPHABET ! d) BASE58_ALPHABET) = d) [0..<58]"
    by code_simp
  then show "d < 58 \<Longrightarrow> ?thesis" by (simp add: list_all_iff)
qed

lemma base58_value_text: "list_all (\<lambda>d. d < 58) ds \<Longrightarrow> base58_value (base58_text ds) = high_value 58 ds"
proof -
  assume "list_all (\<lambda>d. d < 58) ds"
  then have "map (\<lambda>c. length (takeWhile (\<lambda>x. x \<noteq> c) BASE58_ALPHABET)) (base58_text ds) = ds"
    by (induction ds) (auto simp: base58_text_def base58_alphabet_index)
  then show ?thesis by (simp add: base58_value_def)
qed

lemma base58_encode_value:
  assumes "base58_encode input = Some s"
  shows "base58_value s = high_value 256 (map unat input)"
proof (cases "input = []")
  case False
  then obtain ds where "base58_digits (map unat input) = Some ds" and "s = base58_text ds"
    using assms by (auto simp: base58_encode_def)
  then show ?thesis using base58_digits_ok [of "map unat input" ds] by (simp add: base58_value_text)
qed (use assms in \<open>simp add: base58_encode_def base58_value_def high_value_def\<close>)

lemma hash_to_cid_input:
  assumes "length hash = HASH_LENGTH"
  shows "high_value 256 (18 # 32 # map unat hash) =
      4640 * 256 ^ 32 + high_value 256 (map unat hash)"
    and "high_value 256 (map unat (hash :: bytes)) < 256 ^ 32"
proof -
  show "high_value 256 (18 # 32 # map unat hash) = 4640 * 256 ^ 32 + high_value 256 (map unat hash)"
    using assms by (simp add: high_value_Cons)
  show "high_value 256 (map unat hash) < 256 ^ 32"
    using high_value_less [of 256 "map unat hash"] assms unat_byte_less by (simp add: list_all_iff)
qed

text \<open>A content identifier has 46 characters and encodes the prefix bytes 18, 32 and the hash.\<close>

lemma hash_to_cid_spec:
  assumes "length hash = HASH_LENGTH"
  obtains cid where "hash_to_cid hash = Some cid" and "length cid = CID_LENGTH"
    and "base58_value cid = 4640 * 256 ^ 32 + high_value 256 (map unat hash)"
proof -
  let ?in = "18 # 32 # map unat hash"
  let ?v = "4640 * 256 ^ 32 + high_value 256 (map unat hash)"
  have sz: "base58_size (length ?in) = 47" using assms by (simp add: base58_size_def)
  note v = hash_to_cid_input [OF assms]
  obtain ds where ds: "base58_digits ?in = Some ds"
    using base58_digits_room [of ?in] v sz by force
  note ok = base58_digits_ok [OF ds]
  have hi: "high_value 58 ds < 58 ^ 46" and lo: "58 ^ 45 \<le> high_value 58 ds" using ok(3) v by auto
  have "ds \<noteq> []" using lo by (auto simp: high_value_def)
  then have ge: "58 ^ (length ds - 1) \<le> high_value 58 ds" using ok(2) high_value_ge by blast
  have "(58::nat) ^ (length ds - 1) < 58 ^ 46" using ge hi by simp
  then have "length ds - 1 < 46" by (simp only: power_strict_increasing_iff)
  moreover have "(58::nat) ^ 45 < 58 ^ length ds" using lo high_value_less [OF ok(1)] by simp
  then have "45 < length ds" by (simp only: power_strict_increasing_iff)
  ultimately have "length ds = 46" by simp
  with ds ok v show ?thesis
    using assms that [of "base58_text ds"]
    by (simp add: hash_to_cid_def base58_value_text) (simp add: base58_text_def)
qed

lemma hash_to_cid_inject:
  assumes "length h1 = HASH_LENGTH" and "length h2 = HASH_LENGTH" and "hash_to_cid h1 = hash_to_cid h2"
  shows "h1 = h2"
proof -
  obtain c1 where c1: "hash_to_cid h1 = Some c1" "base58_value c1 = 4640 * 256 ^ 32 + high_value 256 (map unat h1)"
    using hash_to_cid_spec [OF assms(1)] by blast
  obtain c2 where c2: "hash_to_cid h2 = Some c2" "base58_value c2 = 4640 * 256 ^ 32 + high_value 256 (map unat h2)"
    using hash_to_cid_spec [OF assms(2)] by blast
  have "high_value 256 (map unat h1) = high_value 256 (map unat h2)" using c1 c2 assms(3) by simp
  then have "map unat h1 = map unat h2"
    using high_value_inject [of "map unat h1" "map unat h2" 256] assms(1,2) unat_byte_less
    by (simp add: list_all_iff)
  moreover have "inj (unat :: byte \<Rightarrow> nat)" by (simp add: inj_on_def word_unat_eq_iff)
  ultimately show ?thesis by (simp add: inj_map_eq_map)
qed

end
