(* ===== verification/JsonParse.thy ===== *)
theory JsonParse
  imports EUtils
begin

text \<open>
  The parser of \<open>src/src/enclave/utils/Json.h\<close> (\<open>JSON::Load\<close> and the functions \<open>parse_*\<close>).

  The parser walks an offset through a buffer whose length it does not know; the model walks a list
  of characters, the part of the buffer from the offset on. Three things can happen that are not a
  result: reading past the end of the buffer and an exception of \<open>std::stol\<close> or \<open>std::stod\<close>, both
  \<open>PUndef\<close>, and running out of fuel, \<open>PFuel\<close>. The fuel bounds the depth of the recursion; \<open>Load\<close>
  starts with more than twice the length of the input, and \<open>Load_fuel\<close> shows that this is enough.

  A \<open>std::string\<close> can be read at its size, where it has a null character, so parsing a string is
  parsing its characters followed by a null character. The status is sticky: it keeps the last error.
  Floating point values come from \<open>std::stod\<close> and \<open>std::pow\<close>; the record \<open>float_lib\<close> stands for them.
\<close>

record float_lib =
  stod_pow :: "string \<Rightarrow> int \<Rightarrow> (64 word) option"
  long_pow :: "int \<Rightarrow> int \<Rightarrow> 64 word"

datatype 'a presult = POk 'a | PUndef | PFuel

primrec pbind :: "'a presult \<Rightarrow> ('a \<Rightarrow> 'b presult) \<Rightarrow> 'b presult" where
  "pbind (POk x) f = f x"
| "pbind PUndef f = PUndef"
| "pbind PFuel f = PFuel"

type_synonym parsed = "(JSON \<times> spacex_status \<times> string) presult"

section \<open>Characters and literals\<close>

definition isspace :: "char \<Rightarrow> bool" where
  "isspace c \<longleftrightarrow> c \<in> set [CHR '' '', CHR 0x09, CHR 0x0A, CHR 0x0B, CHR 0x0C, CHR 0x0D]"

definition is_digit :: "char \<Rightarrow> bool" where
  "is_digit c \<longleftrightarrow> CHR ''0'' \<le> c \<and> c \<le> CHR ''9''"

definition is_hex :: "char \<Rightarrow> bool" where
  "is_hex c \<longleftrightarrow> is_digit c \<or> (CHR ''a'' \<le> c \<and> c \<le> CHR ''f'') \<or> (CHR ''A'' \<le> c \<and> c \<le> CHR ''F'')"

text \<open>\<open>consume_ws\<close> stops at a character that is no space, which has to exist.\<close>

definition consume_ws :: "string \<Rightarrow> string presult" where
  "consume_ws inp = (let r = dropWhile isspace inp in if r = [] then PUndef else POk r)"

text \<open>\<open>memcmp(p_data + offset, lit, n) == 0\<close>: a mismatch ends the comparison.\<close>

definition memcmp_eq :: "string \<Rightarrow> string \<Rightarrow> bool presult" where
  "memcmp_eq inp lit =
     (if prefix lit inp then POk True else if prefix inp lit then PUndef else POk False)"

section \<open>Strings\<close>

text \<open>
  The loop over the characters of a string, from the one after the opening quote. \<open>None\<close> in the
  result is the early return for a bad unicode escape, which leaves the offset on the \<open>u\<close>. A
  backslash before any other character stands for itself and swallows that character.
\<close>

definition simple_escape :: "char \<Rightarrow> char option" where
  "simple_escape d =
     (if d = CHR 0x22 \<or> d = CHR 0x5C \<or> d = CHR ''/'' then Some d
      else if d = CHR ''b'' then Some (CHR 0x08)
      else if d = CHR ''f'' then Some (CHR 0x0C)
      else if d = CHR ''n'' then Some (CHR 0x0A)
      else if d = CHR ''r'' then Some (CHR 0x0D)
      else if d = CHR ''t'' then Some (CHR 0x09)
      else None)"

fun string_loop :: "string \<Rightarrow> string \<Rightarrow> (string option \<times> string) presult" where
  "string_loop [] val = PUndef"
| "string_loop (c # cs) val =
     (if c = CHR 0x22 then POk (Some val, cs)
      else if c = CHR 0x5C then
        (case cs of
           [] \<Rightarrow> PUndef
         | d # ds \<Rightarrow>
             (case simple_escape d of
                Some x \<Rightarrow> string_loop ds (val @ [x])
              | None \<Rightarrow>
                  if d = CHR ''u'' then
                    (let h = takeWhile is_hex (take 4 ds)
                     in if length h = 4 then string_loop (drop 4 ds) (val @ [CHR 0x5C, CHR ''u''] @ h)
                        else if length h = length ds then PUndef
                        else POk (None, d # ds))
                  else string_loop ds (val @ [CHR 0x5C])))
      else string_loop cs (val @ [c]))"

text \<open>
  A string that starts with the tag is a hash when the rest decodes; the hash copies 32 bytes out
  of the decoded buffer, which is undefined when it has fewer. Otherwise the text without the tag is
  the value.
\<close>

definition string_value :: "env \<Rightarrow> string \<Rightarrow> JSON presult" where
  "string_value e val =
     (if prefix HASH_TAG val then
        (let v = drop (length HASH_TAG) val
         in case hex_string_to_bytes e v of
              Some h \<Rightarrow> if length h < HASH_LENGTH then PUndef else POk (JHash (take HASH_LENGTH h))
            | None \<Rightarrow> POk (JString v))
      else POk (JString val))"

definition parse_string :: "env \<Rightarrow> spacex_status \<Rightarrow> string \<Rightarrow> parsed" where
  "parse_string e st inp =
     pbind (string_loop (tl inp) [])
       (\<lambda>(val, rest).
          case val of
            None \<Rightarrow> POk (JString [], SPACEX_JSON_STRING_ERROR, rest)
          | Some v \<Rightarrow> pbind (string_value e v) (\<lambda>j. POk (j, st, rest)))"

section \<open>Numbers and literals\<close>

fun digits_val :: "string \<Rightarrow> int \<Rightarrow> int" where
  "digits_val [] n = n"
| "digits_val (c # cs) n = digits_val cs (10 * n + (of_char c - 48))"

text \<open>\<open>std::stol\<close> on a text of digits, signs and points: it reads a sign and the digits after it.\<close>

definition stol :: "string \<Rightarrow> int presult" where
  "stol s =
     (let (neg, t) = (case s of c # cs \<Rightarrow> if c = CHR ''-'' then (True, cs) else (False, s) | [] \<Rightarrow> (False, []));
          ds = takeWhile is_digit t;
          v = (if neg then - digits_val ds 0 else digits_val ds 0)
      in if ds = [] \<or> v < - (2 ^ 63) \<or> 2 ^ 63 \<le> v then PUndef else POk v)"

definition is_delim :: "char \<Rightarrow> bool" where
  "is_delim c \<longleftrightarrow> isspace c \<or> c = CHR '','' \<or> c = CHR '']'' \<or> c = CHR ''}''"

definition number_char :: "char \<Rightarrow> bool" where
  "number_char c \<longleftrightarrow> c = CHR ''-'' \<or> is_digit c \<or> c = CHR ''.''"

text \<open>
  The exponent. The character after the \<open>e\<close> is read and dropped, and when it is a minus sign one
  more character is skipped, as the code does.
\<close>

definition parse_exponent :: "string \<Rightarrow> ((string \<times> int) option \<times> string) presult" where
  "parse_exponent inp =
     (case inp of
        [] \<Rightarrow> PUndef
      | c # cs \<Rightarrow>
          (let rest = (if c = CHR ''-'' then tl cs else cs);
               sgn = (if c = CHR ''-'' then ''-'' else '''');
               exp_str = sgn @ takeWhile is_digit rest
           in case dropWhile is_digit rest of
                [] \<Rightarrow> PUndef
              | d # ds \<Rightarrow>
                  if \<not> is_delim d then POk (None, ds)
                  else pbind (stol exp_str) (\<lambda>n. POk (Some (exp_str, n), d # ds))))"

text \<open>What follows the digits \<open>val\<close> of a number.\<close>

fun number_tail :: "float_lib \<Rightarrow> spacex_status \<Rightarrow> string \<Rightarrow> string \<Rightarrow> parsed" where
  "number_tail fl st val [] = PUndef"
| "number_tail fl st val (c # cs) =
     (let isDouble = (CHR ''.'' \<in> set val)
      in if c = CHR ''E'' \<or> c = CHR ''e'' then
           pbind (parse_exponent cs)
             (\<lambda>(r, rest).
                case r of
                  None \<Rightarrow> POk (JNull, SPACEX_JSON_NUMBER_ERROR, rest)
                | Some (exp_str, n) \<Rightarrow>
                    if isDouble then
                      (case stod_pow fl val n of None \<Rightarrow> PUndef | Some d \<Rightarrow> POk (JFloating d, st, rest))
                    else if exp_str \<noteq> [] then
                      pbind (stol val) (\<lambda>v. POk (JFloating (long_pow fl v n), st, rest))
                    else pbind (stol val) (\<lambda>v. POk (JIntegral v, st, rest)))
         else if \<not> is_delim c then POk (JNull, SPACEX_JSON_NUMBER_ERROR, cs)
         else if isDouble then
           (case stod_pow fl val 0 of None \<Rightarrow> PUndef | Some d \<Rightarrow> POk (JFloating d, st, c # cs))
         else pbind (stol val) (\<lambda>v. POk (JIntegral v, st, c # cs)))"

definition parse_number :: "float_lib \<Rightarrow> spacex_status \<Rightarrow> string \<Rightarrow> parsed" where
  "parse_number fl st inp = number_tail fl st (takeWhile number_char inp) (dropWhile number_char inp)"

definition parse_bool :: "spacex_status \<Rightarrow> string \<Rightarrow> parsed" where
  "parse_bool st inp =
     pbind (memcmp_eq inp ''true'')
       (\<lambda>t. if t then POk (JBoolean True, st, drop 4 inp)
            else pbind (memcmp_eq inp ''false'')
              (\<lambda>f. if f then POk (JBoolean False, st, drop 5 inp)
                   else POk (JNull, SPACEX_JSON_BOOL_ERROR, inp)))"

definition parse_null :: "spacex_status \<Rightarrow> string \<Rightarrow> parsed" where
  "parse_null st inp =
     pbind (memcmp_eq inp ''null'')
       (\<lambda>t. if t then POk (JNull, st, drop 4 inp) else POk (JNull, SPACEX_JSON_NULL_ERROR, inp))"

section \<open>Values\<close>

text \<open>
  \<open>parse_next\<close> with the loops of \<open>parse_array\<close> and \<open>parse_object\<close>. An input that starts with an
  unknown character is not consumed.
\<close>

fun parse_next :: "env \<Rightarrow> float_lib \<Rightarrow> nat \<Rightarrow> spacex_status \<Rightarrow> string \<Rightarrow> parsed"
  and parse_array_loop :: "env \<Rightarrow> float_lib \<Rightarrow> nat \<Rightarrow> spacex_status \<Rightarrow> JSON list \<Rightarrow> string \<Rightarrow> parsed"
  and parse_object_loop :: "env \<Rightarrow> float_lib \<Rightarrow> nat \<Rightarrow> spacex_status \<Rightarrow> JSON \<Rightarrow> string \<Rightarrow> parsed" where
  "parse_next e fl 0 st inp = PFuel"
| "parse_next e fl (Suc n) st inp =
     pbind (consume_ws inp) (\<lambda>r.
       let c = hd r
       in if c = CHR ''['' then
            pbind (consume_ws (tl r)) (\<lambda>q.
              if hd q = CHR '']'' then POk (JArray [], st, tl q) else parse_array_loop e fl n st [] q)
          else if c = CHR ''{'' then
            pbind (consume_ws (tl r)) (\<lambda>q.
              if hd q = CHR ''}'' then POk (JObject [], st, tl q) else parse_object_loop e fl n st (JObject []) q)
          else if c = CHR 0x22 then parse_string e st r
          else if c = CHR ''t'' \<or> c = CHR ''f'' then parse_bool st r
          else if c = CHR ''n'' then parse_null st r
          else if is_digit c \<or> c = CHR ''-'' then parse_number fl st r
          else POk (JNull, SPACEX_JSON_STARTING_ERROR, r))"
| "parse_array_loop e fl 0 st acc inp = PFuel"
| "parse_array_loop e fl (Suc n) st acc inp =
     pbind (parse_next e fl n st inp) (\<lambda>(v, st', r).
       pbind (consume_ws r) (\<lambda>q.
         if hd q = CHR '','' then parse_array_loop e fl n st' (acc @ [v]) (tl q)
         else if hd q = CHR '']'' then POk (JArray (acc @ [v]), st', tl q)
         else POk (JArray [], SPACEX_JSON_ARRAY_ERROR, q)))"
| "parse_object_loop e fl 0 st obj inp = PFuel"
| "parse_object_loop e fl (Suc n) st obj inp =
     pbind (parse_next e fl n st inp) (\<lambda>(k, st1, r1).
       pbind (consume_ws r1) (\<lambda>q1.
         if hd q1 \<noteq> CHR '':'' then POk (obj, SPACEX_JSON_OBJECT_ERROR, q1)
         else pbind (consume_ws (tl q1)) (\<lambda>q2.
           pbind (parse_next e fl n st1 q2) (\<lambda>(v, st2, r2).
             let obj' = jset obj (ToString k) v
             in pbind (consume_ws r2) (\<lambda>q3.
                  if hd q3 = CHR '','' then parse_object_loop e fl n st2 obj' (tl q3)
                  else if hd q3 = CHR ''}'' then POk (obj', st2, tl q3)
                  else POk (obj', SPACEX_JSON_OBJECT_ERROR, q3))))))"

declare parse_next.simps [simp del] parse_array_loop.simps [simp del] parse_object_loop.simps [simp del]

text \<open>
  \<open>JSON::Load\<close> on a buffer and on a string: the value and the status. The parser writes the status of
  its caller only when it finds an error; \<open>st\<close> is what the caller had there before. Most callers pass a
  success.
\<close>

definition Load_status :: "env \<Rightarrow> float_lib \<Rightarrow> spacex_status \<Rightarrow> string \<Rightarrow> (JSON \<times> spacex_status) presult" where
  "Load_status e fl st inp =
     (if inp = [] then POk (JNull, st)
      else pbind (parse_next e fl (2 * length inp + 2) st inp) (\<lambda>(j, st', _). POk (j, st')))"

definition Load :: "env \<Rightarrow> float_lib \<Rightarrow> string \<Rightarrow> (JSON \<times> spacex_status) presult" where
  "Load e fl inp = Load_status e fl SPACEX_SUCCESS inp"

definition Load_string :: "env \<Rightarrow> float_lib \<Rightarrow> string \<Rightarrow> (JSON \<times> spacex_status) presult" where
  "Load_string e fl s =
     (if s = [] then POk (JNull, SPACEX_SUCCESS) else Load e fl (s @ [CHR 0x00]))"

section \<open>The fuel of Load is enough\<close>

lemma pbind_POk: "pbind m f = POk y \<longleftrightarrow> (\<exists>x. m = POk x \<and> f x = POk y)"
  by (cases m) auto

lemma pbind_PFuel: "pbind m f = PFuel \<longleftrightarrow> m = PFuel \<or> (\<exists>x. m = POk x \<and> f x = PFuel)"
  by (cases m) auto

lemmas pbind_iffs = pbind_POk pbind_PFuel

lemma consume_ws_length: "consume_ws inp = POk r \<Longrightarrow> 0 < length r \<and> length r \<le> length inp"
  by (auto simp: consume_ws_def Let_def length_dropWhile_le split: if_splits)

lemma consume_ws_fuel: "consume_ws inp \<noteq> PFuel"
  by (simp add: consume_ws_def Let_def)

lemma string_loop_cases:
  obtains (nil) "cs = []" | (quote) r where "cs = CHR 0x22 # r" | (cut) "cs = [CHR 0x5C]"
    | (simple) d ds x where "cs = CHR 0x5C # d # ds" and "simple_escape d = Some x"
    | (unicode) ds where "cs = CHR 0x5C # CHR ''u'' # ds"
    | (swallow) d ds where "cs = CHR 0x5C # d # ds" and "simple_escape d = None" and "d \<noteq> CHR ''u''"
    | (plain) c r where "cs = c # r" and "c \<noteq> CHR 0x22" and "c \<noteq> CHR 0x5C"
proof (cases cs)
  case (Cons c r)
  show ?thesis
  proof (cases "c = CHR 0x5C")
    case True
    show ?thesis
    proof (cases r)
      case Nil
      with Cons True show ?thesis by (intro cut) simp
    next
      case (Cons d ds)
      with \<open>cs = c # r\<close> True show ?thesis
        by (cases "simple_escape d"; cases "d = CHR ''u''") (auto intro: simple unicode swallow)
    qed
  next
    case False
    with Cons show ?thesis by (cases "c = CHR 0x22") (auto intro: quote plain)
  qed
qed (rule nil)

lemma simple_escape_u [simp]: "simple_escape (CHR ''u'') = None"
  by (simp add: simple_escape_def)

lemma string_loop_length: "string_loop cs val = POk (v, r) \<Longrightarrow> length r \<le> length cs"
proof (induction cs arbitrary: val rule: length_induct)
  case (1 cs)
  then have IH: "length ds < length cs \<Longrightarrow> string_loop ds val' = POk (v, r) \<Longrightarrow> length r \<le> length ds" for ds val'
    by blast
  show ?case
  proof (cases cs rule: string_loop_cases)
    case (simple d ds x)
    then show ?thesis using 1(2) IH [of ds "val @ [x]"] by simp
  next
    case (unicode ds)
    then show ?thesis using 1(2) IH [of "drop 4 ds"] by (fastforce simp: Let_def split: if_splits)
  next
    case (swallow d ds)
    then show ?thesis using 1(2) IH [of ds "val @ [CHR 0x5C]"] by simp
  next
    case (plain c cs')
    then show ?thesis using 1(2) IH [of cs' "val @ [c]"] by simp
  qed (use 1(2) in auto)
qed

lemma string_loop_fuel: "string_loop cs val \<noteq> PFuel"
proof (induction cs arbitrary: val rule: length_induct)
  case (1 cs)
  show ?case
    by (cases cs rule: string_loop_cases) (use 1 in \<open>auto simp: Let_def\<close>)
qed

lemma parse_string_length: "parse_string e st inp = POk (v, st', r) \<Longrightarrow> length r \<le> length inp"
  by (auto simp: parse_string_def pbind_iffs dest!: string_loop_length split: option.splits)

lemma parse_string_fuel: "parse_string e st inp \<noteq> PFuel"
  by (auto simp: parse_string_def pbind_iffs string_loop_fuel string_value_def Let_def
      split: option.splits if_splits)

lemma stol_fuel: "stol s \<noteq> PFuel"
  by (auto simp: stol_def Let_def split: prod.splits)

lemma parse_exponent_length: "parse_exponent inp = POk (x, r) \<Longrightarrow> length r \<le> length inp"
proof -
  assume ok: "parse_exponent inp = POk (x, r)"
  then obtain c cs where inp: "inp = c # cs" by (cases inp) (auto simp: parse_exponent_def)
  let ?rest = "if c = CHR ''-'' then tl cs else cs"
  have "length (dropWhile is_digit ?rest) \<le> length cs"
    using length_dropWhile_le [of is_digit ?rest] by (auto split: if_splits)
  then show ?thesis
    using ok by (auto simp: inp parse_exponent_def Let_def pbind_iffs split: list.splits if_splits)
qed

lemma parse_exponent_fuel: "parse_exponent inp \<noteq> PFuel"
  by (auto simp: parse_exponent_def Let_def pbind_iffs stol_fuel split: list.splits)

lemma number_tail_length: "number_tail fl st val rest = POk (v, st', r) \<Longrightarrow> length r \<le> length rest"
  by (cases rest)
    (auto simp: Let_def pbind_iffs le_Suc_eq dest!: parse_exponent_length split: if_splits option.splits)

lemma parse_number_length: "parse_number fl st inp = POk (v, st', r) \<Longrightarrow> length r \<le> length inp"
  using number_tail_length length_dropWhile_le le_trans unfolding parse_number_def by blast

lemma parse_number_fuel: "parse_number fl st inp \<noteq> PFuel"
proof -
  have "number_tail fl st val rest \<noteq> PFuel" for val rest
    by (cases rest) (auto simp: Let_def pbind_iffs stol_fuel parse_exponent_fuel split: option.splits if_splits)
  then show ?thesis by (simp add: parse_number_def)
qed

lemma parse_bool_length: "parse_bool st inp = POk (v, st', r) \<Longrightarrow> length r \<le> length inp"
  by (auto simp: parse_bool_def pbind_iffs split: if_splits)

lemma parse_null_length: "parse_null st inp = POk (v, st', r) \<Longrightarrow> length r \<le> length inp"
  by (auto simp: parse_null_def pbind_iffs split: if_splits)

lemma memcmp_fuel: "memcmp_eq inp lit \<noteq> PFuel"
  by (simp add: memcmp_eq_def)

lemma parse_bool_fuel: "parse_bool st inp \<noteq> PFuel"
  by (auto simp: parse_bool_def pbind_iffs memcmp_fuel)

lemma parse_null_fuel: "parse_null st inp \<noteq> PFuel"
  by (auto simp: parse_null_def pbind_iffs memcmp_fuel)

lemmas leaf_lengths = parse_string_length parse_number_length parse_bool_length parse_null_length
lemmas leaf_fuels = parse_string_fuel parse_number_fuel parse_bool_fuel parse_null_fuel consume_ws_fuel

text \<open>The three functions never lengthen the input.\<close>

abbreviation (input) next_shrinks :: "env \<Rightarrow> float_lib \<Rightarrow> nat \<Rightarrow> bool" where
  "next_shrinks e fl n \<equiv> \<forall>st inp v st' r. parse_next e fl n st inp = POk (v, st', r) \<longrightarrow> length r \<le> length inp"

abbreviation (input) array_shrinks :: "env \<Rightarrow> float_lib \<Rightarrow> nat \<Rightarrow> bool" where
  "array_shrinks e fl n \<equiv>
     \<forall>st acc inp v st' r. parse_array_loop e fl n st acc inp = POk (v, st', r) \<longrightarrow> length r \<le> length inp"

abbreviation (input) object_shrinks :: "env \<Rightarrow> float_lib \<Rightarrow> nat \<Rightarrow> bool" where
  "object_shrinks e fl n \<equiv>
     \<forall>st obj inp v st' r. parse_object_loop e fl n st obj inp = POk (v, st', r) \<longrightarrow> length r \<le> length inp"

lemma array_loop_length:
  assumes "next_shrinks e fl n"
    and "array_shrinks e fl n"
    and "parse_array_loop e fl (Suc n) st acc inp = POk (v, st', r)"
  shows "length r \<le> length inp"
proof -
  obtain w st1 r1 q where nx: "parse_next e fl n st inp = POk (w, st1, r1)" and q: "consume_ws r1 = POk q"
    and br: "(if hd q = CHR '','' then parse_array_loop e fl n st1 (acc @ [w]) (tl q)
      else if hd q = CHR '']'' then POk (JArray (acc @ [w]), st1, tl q)
      else POk (JArray [], SPACEX_JSON_ARRAY_ERROR, q)) = POk (v, st', r)"
    using assms(3) by (auto simp: parse_array_loop.simps pbind_iffs)
  have "length q \<le> length inp" using assms(1) [rule_format, OF nx] consume_ws_length [OF q] by simp
  moreover have "length r \<le> length q" using br assms(2) by (auto split: if_splits) (metis diff_le_self length_tl le_trans)+
  ultimately show ?thesis by simp
qed

lemma object_loop_length:
  assumes "next_shrinks e fl n"
    and "object_shrinks e fl n"
    and "parse_object_loop e fl (Suc n) st obj inp = POk (v, st', r)"
  shows "length r \<le> length inp"
proof -
  obtain k st1 r1 q1 where k: "parse_next e fl n st inp = POk (k, st1, r1)" and q1: "consume_ws r1 = POk q1"
    using assms(3) by (auto simp: parse_object_loop.simps pbind_iffs)
  have l1: "length q1 \<le> length inp" using assms(1) [rule_format, OF k] consume_ws_length [OF q1] by simp
  show ?thesis
  proof (cases "hd q1 = CHR '':''")
    case True
    obtain q2 w st2 r2 q3 where q2: "consume_ws (tl q1) = POk q2" and w: "parse_next e fl n st1 q2 = POk (w, st2, r2)"
      and q3: "consume_ws r2 = POk q3"
      and br: "(if hd q3 = CHR '','' then parse_object_loop e fl n st2 (jset obj (ToString k) w) (tl q3)
        else if hd q3 = CHR ''}'' then POk (jset obj (ToString k) w, st2, tl q3)
        else POk (jset obj (ToString k) w, SPACEX_JSON_OBJECT_ERROR, q3)) = POk (v, st', r)"
      using assms(3) k q1 True by (auto simp: parse_object_loop.simps pbind_iffs Let_def)
    have "length q3 \<le> length inp"
      using l1 consume_ws_length [OF q2] assms(1) [rule_format, OF w] consume_ws_length [OF q3] length_tl [of q1] by linarith
    moreover have "length r \<le> length q3" using br assms(2) by (auto split: if_splits) (metis diff_le_self length_tl le_trans)+
    ultimately show ?thesis by simp
  next
    case False
    then have "r = q1" using assms(3) k q1 by (simp add: parse_object_loop.simps)
    with l1 show ?thesis by simp
  qed
qed

lemma next_length:
  assumes "array_shrinks e fl n"
    and "object_shrinks e fl n"
    and "parse_next e fl (Suc n) st inp = POk (v, st', r)"
  shows "length r \<le> length inp"
proof -
  obtain q where q: "consume_ws inp = POk q" using assms(3) by (auto simp: parse_next.simps pbind_iffs)
  have "length r \<le> length q"
    using assms(3) q
    by (auto simp: parse_next.simps pbind_iffs Let_def dest!: assms(1,2) [rule_format] consume_ws_length leaf_lengths split: if_splits)
  with consume_ws_length [OF q] show ?thesis by simp
qed

lemma parse_length: "next_shrinks e fl n \<and> array_shrinks e fl n \<and> object_shrinks e fl n"
proof (induction n)
  case 0
  show ?case by (simp add: parse_next.simps parse_array_loop.simps parse_object_loop.simps)
next
  case (Suc n)
  then have A: "next_shrinks e fl n" and B: "array_shrinks e fl n" and C: "object_shrinks e fl n" by blast+
  show ?case
    using next_length [OF B C] array_loop_length [OF A B] object_loop_length [OF A C] by blast
qed

lemmas parse_next_length = parse_length [THEN conjunct1, rule_format]

text \<open>With fuel above twice the length, no call runs out of it.\<close>

lemma parse_fuel:
  "(\<forall>st inp. 2 * length inp + 1 \<le> n \<longrightarrow> parse_next e fl n st inp \<noteq> PFuel) \<and>
   (\<forall>st acc inp. 2 * length inp + 2 \<le> n \<longrightarrow> parse_array_loop e fl n st acc inp \<noteq> PFuel) \<and>
   (\<forall>st obj inp. 2 * length inp + 2 \<le> n \<longrightarrow> parse_object_loop e fl n st obj inp \<noteq> PFuel)"
proof (induction n)
  case (Suc n)
  then have A: "\<And>st inp. 2 * length inp + 1 \<le> n \<Longrightarrow> parse_next e fl n st inp \<noteq> PFuel"
    and B: "\<And>st acc inp. 2 * length inp + 2 \<le> n \<Longrightarrow> parse_array_loop e fl n st acc inp \<noteq> PFuel"
    and C: "\<And>st obj inp. 2 * length inp + 2 \<le> n \<Longrightarrow> parse_object_loop e fl n st obj inp \<noteq> PFuel"
    by blast+
  have "parse_next e fl (Suc n) st inp \<noteq> PFuel" if n: "2 * length inp + 1 \<le> Suc n" for st inp
  proof -
    have "2 * length q + 2 \<le> n" if "consume_ws inp = POk r" "consume_ws (tl r) = POk q" for r q
      using n consume_ws_length [OF that(1)] consume_ws_length [OF that(2)] length_tl [of r] by linarith
    then show ?thesis
      by (auto simp: parse_next.simps pbind_iffs Let_def leaf_fuels B C)
  qed
  moreover have "parse_array_loop e fl (Suc n) st acc inp \<noteq> PFuel" if n: "2 * length inp + 2 \<le> Suc n" for st acc inp
  proof -
    have "2 * length (tl q) + 2 \<le> n"
      if "parse_next e fl n st inp = POk (v, st', r)" "consume_ws r = POk q" for v st' r q
      using n parse_next_length [OF that(1)] consume_ws_length [OF that(2)] length_tl [of q] by linarith
    then show ?thesis using A [of inp st] B n
      by (auto simp: parse_array_loop.simps pbind_iffs consume_ws_fuel)
  qed
  moreover have "parse_object_loop e fl (Suc n) st obj inp \<noteq> PFuel" if n: "2 * length inp + 2 \<le> Suc n" for st obj inp
  proof
    assume f: "parse_object_loop e fl (Suc n) st obj inp = PFuel"
    have "parse_next e fl n st inp \<noteq> PFuel" using A n by simp
    with f obtain k st1 r1 q1 where k: "parse_next e fl n st inp = POk (k, st1, r1)"
      and q1: "consume_ws r1 = POk q1" and c: "hd q1 = CHR '':''"
      by (auto simp: parse_object_loop.simps pbind_iffs consume_ws_fuel split: if_splits)
    with f obtain q2 where q2: "consume_ws (tl q1) = POk q2"
      by (auto simp: parse_object_loop.simps pbind_iffs consume_ws_fuel)
    have l2: "length q2 + 1 \<le> length inp"
      using parse_next_length [OF k] consume_ws_length [OF q1] consume_ws_length [OF q2] length_tl [of q1] by linarith
    then have "parse_next e fl n st1 q2 \<noteq> PFuel" using A n by simp
    with f k q1 c q2 obtain w st2 r2 q3 where w: "parse_next e fl n st1 q2 = POk (w, st2, r2)"
      and q3: "consume_ws r2 = POk q3" and lp: "parse_object_loop e fl n st2 (jset obj (ToString k) w) (tl q3) = PFuel"
      by (auto simp: parse_object_loop.simps pbind_iffs consume_ws_fuel Let_def split: if_splits)
    have "2 * length (tl q3) + 2 \<le> n"
      using n l2 parse_next_length [OF w] consume_ws_length [OF q3] length_tl [of q3] by linarith
    with C lp show False by blast
  qed
  ultimately show ?case by blast
qed simp

lemma Load_status_fuel: "Load_status e fl st inp \<noteq> PFuel"
  using parse_fuel [of "2 * length inp + 2" e fl] by (auto simp: Load_status_def pbind_iffs)

lemma Load_fuel: "Load e fl inp \<noteq> PFuel"
  by (simp add: Load_def Load_status_fuel)

section \<open>Errors stay\<close>

text \<open>No function of the parser writes a success: an error in the status of the caller stays there.\<close>

lemma leaf_errors:
  assumes "st \<noteq> SPACEX_SUCCESS"
  shows "parse_string e st inp = POk (v, st', r) \<Longrightarrow> st' \<noteq> SPACEX_SUCCESS"
    and "parse_number fl st inp = POk (v, st', r) \<Longrightarrow> st' \<noteq> SPACEX_SUCCESS"
    and "parse_bool st inp = POk (v, st', r) \<Longrightarrow> st' \<noteq> SPACEX_SUCCESS"
    and "parse_null st inp = POk (v, st', r) \<Longrightarrow> st' \<noteq> SPACEX_SUCCESS"
proof -
  have "number_tail fl st val rest = POk (v, st', r) \<Longrightarrow> st' \<noteq> SPACEX_SUCCESS" for val rest
    using assms by (cases rest) (auto simp: Let_def pbind_iffs split: if_splits option.splits)
  then show "parse_number fl st inp = POk (v, st', r) \<Longrightarrow> st' \<noteq> SPACEX_SUCCESS" by (simp add: parse_number_def)
qed (use assms in \<open>auto simp: parse_string_def parse_bool_def parse_null_def pbind_iffs split: option.splits if_splits\<close>)

lemma parse_errors:
  "(\<forall>st inp v st' r. st \<noteq> SPACEX_SUCCESS \<longrightarrow> parse_next e fl n st inp = POk (v, st', r) \<longrightarrow> st' \<noteq> SPACEX_SUCCESS) \<and>
   (\<forall>st acc inp v st' r. st \<noteq> SPACEX_SUCCESS \<longrightarrow> parse_array_loop e fl n st acc inp = POk (v, st', r) \<longrightarrow> st' \<noteq> SPACEX_SUCCESS) \<and>
   (\<forall>st obj inp v st' r. st \<noteq> SPACEX_SUCCESS \<longrightarrow> parse_object_loop e fl n st obj inp = POk (v, st', r) \<longrightarrow> st' \<noteq> SPACEX_SUCCESS)"
proof (induction n)
  case 0
  show ?case by (simp add: parse_next.simps parse_array_loop.simps parse_object_loop.simps)
next
  case (Suc n)
  then have A: "\<And>st inp v st' r. st \<noteq> SPACEX_SUCCESS \<Longrightarrow> parse_next e fl n st inp = POk (v, st', r) \<Longrightarrow> st' \<noteq> SPACEX_SUCCESS"
    and B: "\<And>st acc inp v st' r. st \<noteq> SPACEX_SUCCESS \<Longrightarrow> parse_array_loop e fl n st acc inp = POk (v, st', r) \<Longrightarrow> st' \<noteq> SPACEX_SUCCESS"
    and C: "\<And>st obj inp v st' r. st \<noteq> SPACEX_SUCCESS \<Longrightarrow> parse_object_loop e fl n st obj inp = POk (v, st', r) \<Longrightarrow> st' \<noteq> SPACEX_SUCCESS"
    by blast+
  have "st' \<noteq> SPACEX_SUCCESS" if "st \<noteq> SPACEX_SUCCESS" "parse_next e fl (Suc n) st inp = POk (v, st', r)" for st inp v st' r
    using that(2)
    by (auto simp: parse_next.simps pbind_iffs Let_def that(1) split: if_splits
        dest: B [OF that(1)] C [OF that(1)] leaf_errors [OF that(1)])
  moreover have "st' \<noteq> SPACEX_SUCCESS"
    if ne: "st \<noteq> SPACEX_SUCCESS" and run: "parse_array_loop e fl (Suc n) st acc inp = POk (v, st', r)"
    for st acc inp v st' r
  proof -
    obtain w st1 r1 q where nx: "parse_next e fl n st inp = POk (w, st1, r1)"
      and br: "(if hd q = CHR '','' then parse_array_loop e fl n st1 (acc @ [w]) (tl q)
        else if hd q = CHR '']'' then POk (JArray (acc @ [w]), st1, tl q)
        else POk (JArray [], SPACEX_JSON_ARRAY_ERROR, q)) = POk (v, st', r)"
      using run by (auto simp: parse_array_loop.simps pbind_iffs)
    show ?thesis using br B A [OF ne nx] by (auto split: if_splits)
  qed
  moreover have "st' \<noteq> SPACEX_SUCCESS"
    if ne: "st \<noteq> SPACEX_SUCCESS" and run: "parse_object_loop e fl (Suc n) st obj inp = POk (v, st', r)"
    for st obj inp v st' r
  proof -
    obtain k st1 r1 q1 where k: "parse_next e fl n st inp = POk (k, st1, r1)" and q1: "consume_ws r1 = POk q1"
      using run by (auto simp: parse_object_loop.simps pbind_iffs)
    show ?thesis
    proof (cases "hd q1 = CHR '':''")
      case True
      obtain q2 w st2 r2 q3 where w: "parse_next e fl n st1 q2 = POk (w, st2, r2)"
        and br: "(if hd q3 = CHR '','' then parse_object_loop e fl n st2 (jset obj (ToString k) w) (tl q3)
          else if hd q3 = CHR ''}'' then POk (jset obj (ToString k) w, st2, tl q3)
          else POk (jset obj (ToString k) w, SPACEX_JSON_OBJECT_ERROR, q3)) = POk (v, st', r)"
        using run k q1 True by (auto simp: parse_object_loop.simps pbind_iffs Let_def)
      show ?thesis using br C A [OF A [OF ne k] w] by (auto split: if_splits)
    next
      case False
      then show ?thesis using run k q1 by (auto simp: parse_object_loop.simps)
    qed
  qed
  ultimately show ?case by blast
qed

lemmas parse_next_error = parse_errors [THEN conjunct1, rule_format]

lemma Load_status_error:
  assumes "Load_status e fl st inp = POk (j, st')" and "st \<noteq> SPACEX_SUCCESS"
  shows "st' \<noteq> SPACEX_SUCCESS"
proof (cases "inp = []")
  case False
  then obtain r where "parse_next e fl (2 * length inp + 2) st inp = POk (j, st', r)"
    using assms(1) by (auto simp: Load_status_def pbind_iffs)
  then show ?thesis by (rule parse_next_error [OF assms(2)])
qed (use assms in \<open>simp add: Load_status_def\<close>)

end
