(* ===== verification/JsonRoundtrip.thy ===== *)
theory JsonRoundtrip
  imports JsonParse
begin

text \<open>
  What \<open>dump_vector\<close> prints, \<open>Load\<close> reads back. The values this holds for are described by \<open>json_rt\<close>: no
  floating point number, no raw buffer and no first-in-order object, integers that fit a \<open>long\<close>,
  hashes of 32 bytes, text that does not start with the hash tag, and keys that need no escaping
  (keys are printed as they are).
\<close>

section \<open>The values and their text\<close>

fun json_rt :: "JSON \<Rightarrow> bool" where
  "json_rt JNull = True"
| "json_rt (JObject m) =
     (om_sorted m \<and> (\<forall>p \<in> set m. json_plain (fst p) \<and> \<not> prefix HASH_TAG (fst p) \<and> json_rt (snd p)))"
| "json_rt (JFIOObject m) = False"
| "json_rt (JArray xs) = (\<forall>x \<in> set xs. json_rt x)"
| "json_rt (JHash h) = (length h = HASH_LENGTH)"
| "json_rt (JBuffer b) = False"
| "json_rt (JString s) = (\<not> prefix HASH_TAG s)"
| "json_rt (JFloating d) = False"
| "json_rt (JIntegral i) = (- (2 ^ 63) \<le> i \<and> i < 2 ^ 63)"
| "json_rt (JBoolean b) = True"

fun dump_str :: "JSON \<Rightarrow> string" where
  "dump_str JNull = ''null''"
| "dump_str (JObject m) =
     ''{'' @ sep_by '','' (map (\<lambda>p. quoted (fst p) @ '':'' @ dump_str (snd p)) m) @ ''}''"
| "dump_str (JFIOObject m) = []"
| "dump_str (JArray xs) = ''['' @ sep_by '','' (map dump_str xs) @ '']''"
| "dump_str (JHash h) = quoted (HASH_TAG @ plain_hex h)"
| "dump_str (JBuffer b) = []"
| "dump_str (JString s) = quoted (json_escape s)"
| "dump_str (JFloating d) = []"
| "dump_str (JIntegral i) = int_to_string i"
| "dump_str (JBoolean b) = (if b then ''true'' else ''false'')"

lemma str_bytes_sep_by: "str_bytes (sep_by s xs) = sep_by (str_bytes s) (map str_bytes xs)"
  by (induction s xs rule: sep_by.induct) auto

lemma json_hexstring_plain: "json_hexstring bs = plain_hex bs"
  by (simp add: json_hexstring_def plain_hex_def hex_of_byte_def [abs_def])

lemma dump_vector_str: "json_rt j \<Longrightarrow> dump_vector fd j = str_bytes (dump_str j)"
proof (induction j rule: json_rt.induct)
  case (2 m)
  then have "\<forall>p \<in> set m. dump_vector fd (snd p) = str_bytes (dump_str (snd p))" by simp
  then show ?case
    by (auto simp: str_bytes_sep_by intro!: arg_cong [where f = "sep_by _"])
next
  case (4 xs)
  then have "\<forall>x \<in> set xs. dump_vector fd x = str_bytes (dump_str x)" by simp
  then show ?case
    by (auto simp: str_bytes_sep_by intro!: arg_cong [where f = "sep_by _"])
qed (simp_all add: json_hexstring_plain)

section \<open>Strings\<close>

lemma escape_cases:
  obtains "json_escape_char c = [c]" and "c \<noteq> CHR 0x22" and "c \<noteq> CHR 0x5C"
    | d where "json_escape_char c = [CHR 0x5C, d]" and "simple_escape d = Some c"
proof (cases "c \<in> set [CHR 0x22, CHR 0x5C, CHR 0x08, CHR 0x0C, CHR 0x0A, CHR 0x0D, CHR 0x09]")
  case True
  then have "\<exists>d. json_escape_char c = [CHR 0x5C, d] \<and> simple_escape d = Some c"
    by (auto simp: json_escape_char_def simple_escape_def)
  with that(2) show ?thesis by blast
next
  case False
  then show ?thesis by (intro that(1)) (auto simp: json_escape_char_def)
qed

lemma string_loop_escaped:
  "string_loop (json_escape s @ CHR 0x22 # rest) val = POk (Some (val @ s), rest)"
proof (induction s arbitrary: val)
  case Nil
  then show ?case by (simp add: json_escape_def)
next
  case (Cons c s)
  have esc: "json_escape (c # s) = json_escape_char c @ json_escape s" by (simp add: json_escape_def)
  show ?case by (cases c rule: escape_cases) (use Cons in \<open>simp_all add: esc\<close>)
qed

lemma parse_string_escaped:
  assumes "\<not> prefix HASH_TAG s"
  shows "parse_string e st (quoted (json_escape s) @ rest) = POk (JString s, st, rest)"
  using assms string_loop_escaped [of s rest "[]"]
  by (simp add: parse_string_def quoted_def string_value_def)

lemma parse_string_hash:
  assumes "heap_ok e" and "length h = HASH_LENGTH"
  shows "parse_string e st (quoted (HASH_TAG @ plain_hex h) @ rest) = POk (JHash h, st, rest)"
proof -
  have "json_plain (HASH_TAG @ plain_hex h)"
    using json_plain_hex by (simp add: json_plain_append json_plain_def json_escape_char_def)
  then have "json_escape (HASH_TAG @ plain_hex h) = HASH_TAG @ plain_hex h" by (rule json_escape_plain)
  then have "string_loop ((HASH_TAG @ plain_hex h) @ CHR 0x22 # rest) [] = POk (Some (HASH_TAG @ plain_hex h), rest)"
    using string_loop_escaped [of "HASH_TAG @ plain_hex h" rest "[]"] by simp
  moreover have "hex_string_to_bytes e (plain_hex h) = Some h"
    using assms by (intro hex_string_to_bytes_plain) auto
  ultimately show ?thesis
    using assms(2) by (simp add: parse_string_def quoted_def string_value_def)
qed

section \<open>Numbers\<close>

lemma nat_to_string_digits: "list_all is_digit (nat_to_string n) \<and> nat_to_string n \<noteq> []"
proof (induction n rule: nat_to_string.induct)
  case (1 n)
  have dig: "is_digit (char_of (48 + k))" if "k < 10" for k :: nat
  proof -
    have "list_all (\<lambda>k. is_digit (char_of (48 + k))) [0..<10]" by code_simp
    with that show ?thesis by (simp add: list_all_iff)
  qed
  show ?case
    by (subst (1 2) nat_to_string.simps) (use 1 dig [of n] dig [of "n mod 10"] in simp)
qed

lemma digits_val_append: "digits_val (s @ t) n = digits_val t (digits_val s n)"
  by (induction s n rule: digits_val.induct) auto

lemma digits_val_nat: "digits_val (nat_to_string n) 0 = int n"
proof (induction n rule: nat_to_string.induct)
  case (1 n)
  have dig: "of_char (char_of (48 + k) :: char) = (48 + k)" if "k < 10" for k :: nat
    using that by (simp add: of_char_of)
  have dig': "of_char (char_of (48 + k) :: char) = (48 + int k)" if "k < 10" for k :: nat
    using dig [OF that] by (metis of_nat_of_char of_nat_add of_nat_numeral)
  have "10 * int (n div 10) + int (n mod 10) = int n"
    by (metis mult_div_mod_eq of_nat_add of_nat_mult of_nat_numeral)
  then show ?case
    by (subst nat_to_string.simps) (use 1 dig' [of n] dig' [of "n mod 10"] in \<open>simp add: digits_val_append\<close>)
qed

lemma digit_number_char: "is_digit c \<Longrightarrow> number_char c"
  by (simp add: number_char_def)

lemma takeWhile_digits: "list_all is_digit s \<Longrightarrow> takeWhile is_digit s = s"
  by (simp add: list_all_iff takeWhile_eq_all_conv)

lemma stol_int: "- (2 ^ 63) \<le> i \<Longrightarrow> i < 2 ^ 63 \<Longrightarrow> stol (int_to_string i) = POk i"
proof -
  assume r: "- (2 ^ 63) \<le> i" "i < 2 ^ 63"
  have hd: "nat_to_string n = c # cs \<Longrightarrow> c \<noteq> CHR ''-''" for n c cs
    using nat_to_string_digits [of n] by (auto simp: is_digit_def)
  show ?thesis
  proof (cases "i < 0")
    case True
    then show ?thesis
      using r nat_to_string_digits [of "nat (- i)"] digits_val_nat [of "nat (- i)"]
      by (simp add: stol_def int_to_string_def takeWhile_digits)
  next
    case False
    obtain c cs where s: "nat_to_string (nat i) = c # cs" using nat_to_string_digits [of "nat i"]
      by (cases "nat_to_string (nat i)") auto
    show ?thesis
      using False r nat_to_string_digits [of "nat i"] digits_val_nat [of "nat i"] hd [OF s] s
      by (simp add: stol_def int_to_string_def takeWhile_digits)
  qed
qed

lemma int_to_string_chars:
  "list_all number_char (int_to_string i)" "CHR ''.'' \<notin> set (int_to_string i)" "int_to_string i \<noteq> []"
  using nat_to_string_digits [of "nat i"] nat_to_string_digits [of "nat (- i)"]
  by (auto simp: int_to_string_def number_char_def list_all_iff is_digit_def)

lemma delim_not_number: "is_delim c \<Longrightarrow> \<not> number_char c \<and> c \<noteq> CHR ''E'' \<and> c \<noteq> CHR ''e''"
  by (auto simp: is_delim_def number_char_def isspace_def is_digit_def)

lemma parse_number_int:
  assumes "- (2 ^ 63) \<le> i" and "i < 2 ^ 63" and "rest \<noteq> []" and "is_delim (hd rest)"
  shows "parse_number fl st (int_to_string i @ rest) = POk (JIntegral i, st, rest)"
proof -
  obtain c cs where rest: "rest = c # cs" using assms(3) by (cases rest) auto
  note d = delim_not_number [OF assms(4)]
  have "takeWhile number_char (int_to_string i @ rest) = int_to_string i"
    and "dropWhile number_char (int_to_string i @ rest) = rest"
    using int_to_string_chars(1) [of i] d rest by (auto simp: takeWhile_append dropWhile_append list_all_iff)
  then show ?thesis
    using d assms rest int_to_string_chars(2) [of i] stol_int [OF assms(1,2)]
    by (simp add: parse_number_def)
qed

section \<open>Values\<close>

text \<open>A number needs a delimiter after it; every other value ends by itself.\<close>

definition rest_ok :: "JSON \<Rightarrow> string \<Rightarrow> bool" where
  "rest_ok j rest \<longleftrightarrow> (JSONType j = CIntegral \<longrightarrow> rest \<noteq> [] \<and> is_delim (hd rest))"

definition reads_back :: "env \<Rightarrow> float_lib \<Rightarrow> JSON \<Rightarrow> bool" where
  "reads_back e fl j \<longleftrightarrow>
     (\<forall>n st rest. rest_ok j rest \<longrightarrow> 2 * length (dump_str j @ rest) + 1 \<le> n \<longrightarrow>
        parse_next e fl n st (dump_str j @ rest) = POk (j, st, rest))"

lemma reads_backD:
  "reads_back e fl j \<Longrightarrow> rest_ok j rest \<Longrightarrow> 2 * length (dump_str j @ rest) + 1 \<le> n \<Longrightarrow>
   parse_next e fl n st (dump_str j @ rest) = POk (j, st, rest)"
  by (simp add: reads_back_def)

lemma reads_backI:
  assumes "\<And>k st rest. parse_next e fl (Suc k) st (dump_str j @ rest) = POk (j, st, rest)"
  shows "reads_back e fl j"
  unfolding reads_back_def
proof (intro allI impI)
  fix n st rest assume "2 * length (dump_str j @ rest) + 1 \<le> n"
  then obtain k where "n = Suc k" by (cases n) auto
  with assms show "parse_next e fl n st (dump_str j @ rest) = POk (j, st, rest)" by simp
qed

lemma rest_ok_delim: "is_delim c \<Longrightarrow> rest_ok j (c # rest)"
  by (simp add: rest_ok_def)

lemma delims: "is_delim (CHR '','')" "is_delim (CHR '']'')" "is_delim (CHR ''}'')"
  by (simp_all add: is_delim_def)

lemma consume_ws_Cons: "\<not> isspace c \<Longrightarrow> consume_ws (c # cs) = POk (c # cs)"
  by (simp add: consume_ws_def)

lemma not_space: "\<not> isspace (CHR '','')" "\<not> isspace (CHR '']'')" "\<not> isspace (CHR ''}'')"
  "\<not> isspace (CHR '':'')" "\<not> isspace (CHR 0x22)" "\<not> isspace (CHR ''['')" "\<not> isspace (CHR ''{'')"
  by (simp_all add: isspace_def)

definition starts_value :: "string \<Rightarrow> bool" where
  "starts_value s \<longleftrightarrow> (\<exists>c cs. s = c # cs \<and> \<not> isspace c \<and> c \<noteq> CHR '']'' \<and> c \<noteq> CHR ''}'')"

lemma int_to_string_start:
  obtains c cs where "int_to_string i = c # cs" and "is_digit c \<or> c = CHR ''-''"
proof (cases "int_to_string i")
  case (Cons c cs)
  have "number_char c" "c \<noteq> CHR ''.''" using int_to_string_chars(1,2) [of i] Cons by auto
  with Cons show ?thesis by (intro that) (auto simp: number_char_def)
qed (simp add: int_to_string_chars)

lemma dump_starts: "json_rt j \<Longrightarrow> starts_value (dump_str j @ rest)"
proof (cases j)
  case (JIntegral i)
  obtain c cs where "int_to_string i = c # cs" and "is_digit c \<or> c = CHR ''-''" by (rule int_to_string_start)
  then show ?thesis by (auto simp: JIntegral starts_value_def isspace_def is_digit_def)
qed (auto simp: starts_value_def isspace_def quoted_def)

lemma consume_ws_dump: "json_rt j \<Longrightarrow> consume_ws (dump_str j @ rest) = POk (dump_str j @ rest)"
  using dump_starts [of j rest] by (auto simp: starts_value_def consume_ws_Cons)

lemma array_reads_back:
  assumes "xs \<noteq> []" and "\<forall>x \<in> set xs. json_rt x \<and> reads_back e fl x"
    and "2 * length (sep_by '','' (map dump_str xs) @ '']'' @ rest) + 2 \<le> n"
  shows "parse_array_loop e fl n st acc (sep_by '','' (map dump_str xs) @ '']'' @ rest) =
    POk (JArray (acc @ xs), st, rest)"
  using assms
proof (induction xs arbitrary: n acc rule: list_nonempty_induct)
  case (single x)
  then obtain m where n: "n = Suc m" by (cases n) auto
  have "parse_next e fl m st (dump_str x @ '']'' @ rest) = POk (x, st, '']'' @ rest)"
    using single n by (intro reads_backD) (auto intro: rest_ok_delim delims)
  then show ?case by (simp add: n parse_array_loop.simps consume_ws_Cons not_space)
next
  case (cons x xs)
  then obtain y ys where xs: "xs = y # ys" by (cases xs) auto
  obtain m where n: "n = Suc m" using cons by (cases n) auto
  let ?tail = "sep_by '','' (map dump_str xs) @ '']'' @ rest"
  have split: "sep_by '','' (map dump_str (x # xs)) @ '']'' @ rest = dump_str x @ '','' @ ?tail" by (simp add: xs)
  have "parse_next e fl m st (dump_str x @ '','' @ ?tail) = POk (x, st, '','' @ ?tail)"
    using cons.prems n unfolding split by (intro reads_backD) (auto intro: rest_ok_delim delims)
  moreover have "parse_array_loop e fl m st (acc @ [x]) ?tail = POk (JArray ((acc @ [x]) @ xs), st, rest)"
    using cons.prems n unfolding split by (intro cons.IH) auto
  ultimately show ?case
    unfolding split by (simp add: n parse_array_loop.simps consume_ws_Cons not_space)
qed

lemma om_put_last: "om_sorted (m @ (k, v) # m') \<Longrightarrow> om_put k v m = m @ [(k, v)]"
  by (induction m) (auto simp: om_sorted_def)

abbreviation (input) dump_entry :: "string \<times> JSON \<Rightarrow> string" where
  "dump_entry p \<equiv> quoted (fst p) @ '':'' @ dump_str (snd p)"

lemma parse_key:
  assumes "json_plain k" and "\<not> prefix HASH_TAG k" and "0 < n"
  shows "parse_next e fl n st (quoted k @ rest) = POk (JString k, st, rest)"
proof -
  obtain m where n: "n = Suc m" using assms(3) by (cases n) auto
  have "parse_string e st (quoted k @ rest) = POk (JString k, st, rest)"
    using parse_string_escaped [OF assms(2), of e st rest] by (simp add: json_escape_plain [OF assms(1)])
  then show ?thesis
    by (simp add: n parse_next.simps quoted_def consume_ws_Cons not_space Let_def)
qed

definition entry_rt :: "env \<Rightarrow> float_lib \<Rightarrow> string \<times> JSON \<Rightarrow> bool" where
  "entry_rt e fl p \<longleftrightarrow> json_plain (fst p) \<and> \<not> prefix HASH_TAG (fst p) \<and> json_rt (snd p) \<and> reads_back e fl (snd p)"

text \<open>One entry of an object, followed by a comma or a closing brace.\<close>

lemma entry_reads_back:
  assumes "entry_rt e fl p" and "is_delim c" and "2 * length (dump_entry p @ c # rest) + 1 \<le> m"
    and "om_sorted (m0 @ p # m')" and "\<not> isspace c"
  shows "parse_object_loop e fl (Suc m) st (JObject m0) (dump_entry p @ c # rest) =
    (if c = CHR '','' then parse_object_loop e fl m st (JObject (m0 @ [p])) rest
     else if c = CHR ''}'' then POk (JObject (m0 @ [p]), st, rest)
     else POk (JObject (m0 @ [p]), SPACEX_JSON_OBJECT_ERROR, c # rest))"
proof -
  obtain k v where p: "p = (k, v)" by (cases p)
  have k: "parse_next e fl m st (quoted k @ '':'' @ dump_str v @ c # rest) = POk (JString k, st, '':'' @ dump_str v @ c # rest)"
    using assms(1,3) by (intro parse_key) (auto simp: p entry_rt_def)
  have v: "parse_next e fl m st (dump_str v @ c # rest) = POk (v, st, c # rest)"
    using assms(1,2,3) by (intro reads_backD) (auto simp: p entry_rt_def intro: rest_ok_delim)
  have "json_escape k = k" using assms(1) by (auto simp: p entry_rt_def json_escape_plain)
  moreover have "om_put k v m0 = m0 @ [(k, v)]" using om_put_last assms(4) by (simp add: p)
  moreover have "json_rt v" using assms(1) by (simp add: p entry_rt_def)
  ultimately show ?thesis
    using k v assms(5) by (simp add: p parse_object_loop.simps consume_ws_Cons not_space consume_ws_dump jset_def)
qed

lemma object_reads_back:
  assumes "m \<noteq> []" and "\<forall>p \<in> set m. entry_rt e fl p" and "om_sorted (m0 @ m)"
    and "2 * length (sep_by '','' (map dump_entry m) @ ''}'' @ rest) + 2 \<le> n"
  shows "parse_object_loop e fl n st (JObject m0) (sep_by '','' (map dump_entry m) @ ''}'' @ rest) =
    POk (JObject (m0 @ m), st, rest)"
  using assms
proof (induction m arbitrary: n m0 rule: list_nonempty_induct)
  case (single p)
  then obtain k where n: "n = Suc k" by (cases n) auto
  have "parse_object_loop e fl (Suc k) st (JObject m0) (dump_entry p @ CHR ''}'' # rest) = POk (JObject (m0 @ [p]), st, rest)"
    using single n entry_reads_back [of e fl p "CHR ''}''" rest k m0 "[]" st] by (simp add: delims not_space)
  then show ?case by (simp add: n)
next
  case (cons p ps)
  then obtain y ys where ps: "ps = y # ys" by (cases ps) auto
  obtain k where n: "n = Suc k" using cons by (cases n) auto
  let ?tail = "sep_by '','' (map dump_entry ps) @ ''}'' @ rest"
  have split: "sep_by '','' (map dump_entry (p # ps)) @ ''}'' @ rest = dump_entry p @ CHR '','' # ?tail" by (simp add: ps)
  have "parse_object_loop e fl (Suc k) st (JObject m0) (dump_entry p @ CHR '','' # ?tail) =
      parse_object_loop e fl k st (JObject (m0 @ [p])) ?tail"
    using cons.prems n entry_reads_back [of e fl p "CHR '',''" ?tail k m0 ps st]
    unfolding split by (simp add: delims not_space)
  moreover have "parse_object_loop e fl k st (JObject (m0 @ [p])) ?tail = POk (JObject ((m0 @ [p]) @ ps), st, rest)"
    using cons.prems n unfolding split by (intro cons.IH) auto
  ultimately show ?case unfolding split by (simp add: n)
qed

lemma json_reads_back: "heap_ok e \<Longrightarrow> json_rt j \<Longrightarrow> reads_back e fl j"
proof (induction j rule: json_rt.induct)
  case (2 m)
  show ?case unfolding reads_back_def
  proof (intro allI impI)
    fix n st rest assume f: "2 * length (dump_str (JObject m) @ rest) + 1 \<le> n"
    then obtain k where n: "n = Suc k" by (cases n) auto
    show "parse_next e fl n st (dump_str (JObject m) @ rest) = POk (JObject m, st, rest)"
    proof (cases "m = []")
      case True
      then show ?thesis by (simp add: n parse_next.simps consume_ws_Cons not_space)
    next
      case False
      then obtain p ps where m: "m = p # ps" by (cases m) auto
      have "\<forall>p \<in> set m. entry_rt e fl p" using 2 by (auto simp: entry_rt_def)
      then have "parse_object_loop e fl k st (JObject []) (sep_by '','' (map dump_entry m) @ ''}'' @ rest) =
          POk (JObject ([] @ m), st, rest)"
        using False 2(3) f n by (intro object_reads_back) auto
      moreover have "\<exists>t. sep_by '','' (map dump_entry m) @ ''}'' @ rest = CHR 0x22 # t"
        by (cases ps) (auto simp: m quoted_def)
      ultimately show ?thesis
        by (auto simp: n parse_next.simps consume_ws_Cons not_space)
    qed
  qed
next
  case (4 xs)
  show ?case unfolding reads_back_def
  proof (intro allI impI)
    fix n st rest assume f: "2 * length (dump_str (JArray xs) @ rest) + 1 \<le> n"
    then obtain k where n: "n = Suc k" by (cases n) auto
    show "parse_next e fl n st (dump_str (JArray xs) @ rest) = POk (JArray xs, st, rest)"
    proof (cases xs)
      case Nil
      then show ?thesis by (simp add: n parse_next.simps consume_ws_Cons not_space)
    next
      case (Cons y ys)
      have "parse_array_loop e fl k st [] (sep_by '','' (map dump_str xs) @ '']'' @ rest) =
          POk (JArray ([] @ xs), st, rest)"
        using Cons 4 f n by (intro array_reads_back) auto
      moreover have "\<exists>s. sep_by '','' (map dump_str xs) @ '']'' @ rest = dump_str y @ s"
        by (cases ys) (auto simp: Cons)
      then have "starts_value (sep_by '','' (map dump_str xs) @ '']'' @ rest)"
        using dump_starts [of y] 4(3) Cons by auto
      ultimately show ?thesis
        by (auto simp: n parse_next.simps consume_ws_Cons not_space starts_value_def)
    qed
  qed
next
  case (9 i)
  show ?case unfolding reads_back_def
  proof (intro allI impI)
    fix n st rest assume "rest_ok (JIntegral i) rest" "2 * length (dump_str (JIntegral i) @ rest) + 1 \<le> n"
    then obtain k where n: "n = Suc k" and r: "rest \<noteq> []" "is_delim (hd rest)" by (cases n) (auto simp: rest_ok_def)
    obtain c cs where i: "int_to_string i = c # cs" and c: "is_digit c \<or> c = CHR ''-''" by (rule int_to_string_start)
    have "parse_number fl st (int_to_string i @ rest) = POk (JIntegral i, st, rest)"
      using 9 r by (intro parse_number_int) auto
    moreover have "\<not> isspace c" "c \<notin> set [CHR ''['', CHR ''{'', CHR 0x22, CHR ''t'', CHR ''f'', CHR ''n'']"
      using c by (auto simp: isspace_def is_digit_def)
    ultimately show "parse_next e fl n st (dump_str (JIntegral i) @ rest) = POk (JIntegral i, st, rest)"
      using i c by (simp add: n parse_next.simps consume_ws_Cons Let_def)
  qed
next
  case (5 h)
  then show ?case
    using parse_string_hash [of e h]
    by (intro reads_backI) (simp add: parse_next.simps quoted_def consume_ws_Cons not_space Let_def)
next
  case (7 s)
  then show ?case
    using parse_string_escaped [of s e]
    by (intro reads_backI) (simp add: parse_next.simps quoted_def consume_ws_Cons not_space Let_def)
next
  case (10 b)
  show ?case
    by (intro reads_backI)
      (simp add: parse_next.simps consume_ws_Cons isspace_def Let_def parse_bool_def memcmp_eq_def)
next
  case 1
  show ?case
    by (intro reads_backI)
      (simp add: parse_next.simps consume_ws_Cons isspace_def Let_def parse_null_def memcmp_eq_def)
qed simp_all

text \<open>An object that was dumped is read back by \<open>Load\<close>, whatever follows it in the buffer.\<close>

lemma Load_dump_vector:
  assumes "heap_ok e" and "json_rt j" and "JSONType j \<noteq> CIntegral"
  shows "Load e fl (bytes_str (dump_vector fd j) @ rest) = POk (j, SPACEX_SUCCESS)"
proof -
  have "reads_back e fl j" using assms json_reads_back by blast
  then have "parse_next e fl (2 * length (dump_str j @ rest) + 2) SPACEX_SUCCESS (dump_str j @ rest) =
      POk (j, SPACEX_SUCCESS, rest)"
    using assms(3) by (intro reads_backD) (auto simp: rest_ok_def)
  moreover have "dump_str j \<noteq> []" using dump_starts [OF assms(2), of "[]"] by (auto simp: starts_value_def)
  ultimately show ?thesis
    by (simp add: Load_def Load_status_def dump_vector_str [OF assms(2)])
qed

end
