(* ===== verification/Boundary.thy ===== *)
theory Boundary
  imports EUtils
begin

text \<open>
  The boundary between the enclave and the untrusted application: the trace of calls, the chunked
  transfer of large data (\<open>safe_ocall_store2\<close> in \<open>src/src/enclave/utils/EUtils.cpp\<close> with
  \<open>ocall_safe_store2\<close> in \<open>src/src/app/ocalls/OCalls.cpp\<close>), and persistence
  (\<open>src/src/enclave/persistence/Persistence.cpp\<close>, \<open>src/src/app/ocalls/PersistOCalls.cpp\<close>,
  \<open>src/src/app/database/DataBase.cpp\<close>).

  The state record \<open>boundary\<close> is extended by the components, so each operation here works on any
  state that has these fields. A buffer of the enclave is shorter than \<open>2 ^ 31\<close> bytes, the heap size of
  \<open>Enclave.config.xml\<close>, so the casts of sizes to \<open>uint32_t\<close> in the loops do not lose bits.
\<close>

record boundary =
  ocalls :: "ocall list"
  db :: "string \<Rightarrow> bytes option"
  db_ops :: nat
  ocall_buffer_pool :: "nat \<Rightarrow> bytes option"

definition emit :: "ocall \<Rightarrow> 'a boundary_scheme \<Rightarrow> 'a boundary_scheme" where
  "emit c s = s\<lparr>ocalls := ocalls s @ [c]\<rparr>"

text \<open>An ocall with a status: what it returns, then the trace with it.\<close>

definition ocall_do :: "env \<Rightarrow> ocall \<Rightarrow> 'a boundary_scheme \<Rightarrow> spacex_status \<times> 'a boundary_scheme" where
  "ocall_do e c s = (ocall_ret e (ocalls s) c, emit c s)"

section \<open>Chunks\<close>

text \<open>\<open>memcpy(buf + offset, data, n)\<close> into a buffer with room for it.\<close>

definition buf_write :: "nat \<Rightarrow> bytes \<Rightarrow> bytes \<Rightarrow> bytes" where
  "buf_write offset data buf = take offset buf @ data @ drop (offset + length data) buf"

lemma length_buf_write:
  "offset + length data \<le> length buf \<Longrightarrow> length (buf_write offset data buf) = length buf"
  by (simp add: buf_write_def)

lemma take_buf_write:
  "offset \<le> length xs \<Longrightarrow> take offset buf = take offset xs \<Longrightarrow> offset + length data \<le> length buf \<Longrightarrow>
   data = take (length data) (drop offset xs) \<Longrightarrow>
   take (offset + length data) (buf_write offset data buf) = take (offset + length data) xs"
  by (simp add: buf_write_def take_add)

text \<open>A part of at most \<open>n\<close> bytes at an offset.\<close>

definition chunk_at :: "nat \<Rightarrow> nat \<Rightarrow> bytes \<Rightarrow> bytes" where
  "chunk_at n offset data = take (min (length data - offset) n) (drop offset data)"

lemma length_chunk_at: "length (chunk_at n offset data) = min (length data - offset) n"
  by (simp add: chunk_at_def)

section \<open>Storing large data outside\<close>

text \<open>
  \<open>ocall_safe_store2\<close>, on the application side. The handlers of the table \<open>g_ocall_store2_func_m\<close> all
  store the data and return success, so the delivery is one event of the trace.
\<close>

definition ocall_safe_store2 ::
  "env \<Rightarrow> ocall_store_type \<Rightarrow> bytes \<Rightarrow> nat \<Rightarrow> nat \<Rightarrow> nat \<Rightarrow>
   'a boundary_scheme \<Rightarrow> spacex_status \<times> 'a boundary_scheme" where
  "ocall_safe_store2 e t part total_size offset key s =
     (if offset < total_size then
        (case (case ocall_buffer_pool s key of
                 Some b \<Rightarrow> Some b
               | None \<Rightarrow> if app_malloc e total_size then Some (replicate total_size 0) else None) of
           None \<Rightarrow> (SPACEX_MALLOC_FAILED, s\<lparr>ocall_buffer_pool := (ocall_buffer_pool s)(key := None)\<rparr>)
         | Some b \<Rightarrow>
             (let b' = buf_write offset part b
              in if offset + length part < total_size
                 then (SPACEX_SUCCESS, s\<lparr>ocall_buffer_pool := (ocall_buffer_pool s)(key \<mapsto> b')\<rparr>)
                 else (SPACEX_SUCCESS,
                       emit (Ocall_store2 t (take total_size b'))
                         (s\<lparr>ocall_buffer_pool := (ocall_buffer_pool s)(key := None)\<rparr>))))
      else (SPACEX_SUCCESS,
            emit (Ocall_store2 t (take total_size (case ocall_buffer_pool s key of Some b \<Rightarrow> b | None \<Rightarrow> [])))
              (s\<lparr>ocall_buffer_pool := (ocall_buffer_pool s)(key := None)\<rparr>)))"

text \<open>The loop of \<open>safe_ocall_store2\<close>; \<open>n\<close> is \<open>BOUNDARY_SIZE_THRESHOLD\<close>, which is positive.\<close>

function store2_loop ::
  "env \<Rightarrow> nat \<Rightarrow> ocall_store_type \<Rightarrow> bytes \<Rightarrow> nat \<Rightarrow> nat \<Rightarrow>
   'a boundary_scheme \<Rightarrow> spacex_status \<times> 'a boundary_scheme" where
  "store2_loop e n t data key offset s =
     (if n = 0 \<or> length data \<le> offset then (SPACEX_SUCCESS, s)
      else if \<not> sgx_ocall_ok e offset then (SPACEX_SGX_FAILED, s)
      else let part = chunk_at n offset data;
               (st, s') = ocall_safe_store2 e t part (length data) offset key s
           in if st \<noteq> SPACEX_SUCCESS then (st, s')
              else store2_loop e n t data key (offset + length part) s')"
  by pat_completeness auto
termination
  by (relation "measure (\<lambda>(_, _, _, data, _, offset, _). length data - offset)")
    (auto simp: length_chunk_at)

declare store2_loop.simps [simp del]

definition safe_ocall_store2 ::
  "env \<Rightarrow> ocall_store_type \<Rightarrow> bytes \<Rightarrow> 'a boundary_scheme \<Rightarrow> spacex_status \<times> 'a boundary_scheme" where
  "safe_ocall_store2 e t data s =
     store2_loop e BOUNDARY_SIZE_THRESHOLD t data (rand_key e (length (ocalls s))) 0 s"

section \<open>The database\<close>

text \<open>\<open>DataBase::add\<close> joins a new val in front of an old one with a semicolon.\<close>

definition DataBase_put :: "env \<Rightarrow> spacex_status \<Rightarrow> string \<Rightarrow> bytes \<Rightarrow> 'a boundary_scheme \<Rightarrow> spacex_status \<times> 'a boundary_scheme" where
  "DataBase_put e err k v s =
     (if leveldb_ok e (db_ops s) k
      then (SPACEX_SUCCESS, s\<lparr>db := (db s)(k \<mapsto> v), db_ops := Suc (db_ops s)\<rparr>)
      else (err, s\<lparr>db_ops := Suc (db_ops s)\<rparr>))"

definition DataBase_add :: "env \<Rightarrow> string \<Rightarrow> bytes \<Rightarrow> 'a boundary_scheme \<Rightarrow> spacex_status \<times> 'a boundary_scheme" where
  "DataBase_add e k v s =
     (let old = (case db s k of Some o' \<Rightarrow> o' | None \<Rightarrow> [])
      in DataBase_put e SPACEX_PERSIST_ADD_FAILED k (if old \<noteq> [] then v @ str_bytes '';'' @ old else v) s)"

definition DataBase_del :: "env \<Rightarrow> string \<Rightarrow> 'a boundary_scheme \<Rightarrow> spacex_status \<times> 'a boundary_scheme" where
  "DataBase_del e k s =
     (if leveldb_ok e (db_ops s) k
      then (SPACEX_SUCCESS, s\<lparr>db := (db s)(k := None), db_ops := Suc (db_ops s)\<rparr>)
      else (SPACEX_PERSIST_DEL_FAILED, s\<lparr>db_ops := Suc (db_ops s)\<rparr>))"

definition DataBase_set :: "env \<Rightarrow> string \<Rightarrow> bytes \<Rightarrow> 'a boundary_scheme \<Rightarrow> spacex_status \<times> 'a boundary_scheme" where
  "DataBase_set e k v s = DataBase_put e SPACEX_PERSIST_SET_FAILED k v s"

definition DataBase_get :: "string \<Rightarrow> 'a boundary_scheme \<Rightarrow> spacex_status \<times> bytes" where
  "DataBase_get k s =
     (case db s k of Some v \<Rightarrow> (SPACEX_SUCCESS, v) | None \<Rightarrow> (SPACEX_PERSIST_GET_FAILED, []))"

section \<open>Persistence\<close>

text \<open>\<open>ocall_persist_set\<close>; \<open>buf\<close> is what \<open>*total_buf\<close> points to.\<close>

definition ocall_persist_set ::
  "env \<Rightarrow> string \<Rightarrow> bytes \<Rightarrow> nat \<Rightarrow> bytes option \<Rightarrow> nat \<Rightarrow>
   'a boundary_scheme \<Rightarrow> spacex_status \<times> bytes option \<times> 'a boundary_scheme" where
  "ocall_persist_set e key val total_size buf offset s =
     (if length val < total_size then
        (let b = buf_write offset val (case buf of Some b \<Rightarrow> b | None \<Rightarrow> replicate total_size 0)
         in if offset + length val < total_size then (SPACEX_SUCCESS, Some b, s)
            else let (st, s') = DataBase_set e key b s in (st, None, s'))
      else let (st, s') = DataBase_set e key val s in (st, buf, s'))"

function persist_parts ::
  "env \<Rightarrow> nat \<Rightarrow> string \<Rightarrow> bytes \<Rightarrow> bytes option \<Rightarrow> nat \<Rightarrow>
   'a boundary_scheme \<Rightarrow> spacex_status \<times> 'a boundary_scheme" where
  "persist_parts e n key data buf offset s =
     (if n = 0 \<or> length data \<le> offset then (SPACEX_SUCCESS, s)
      else let part = chunk_at n offset data;
               (st, buf', s') = ocall_persist_set e key part (length data) buf offset s
           in if st \<noteq> SPACEX_SUCCESS then (st, s')
              else persist_parts e n key data buf' (offset + length part) s')"
  by pat_completeness auto
termination
  by (relation "measure (\<lambda>(_, _, _, data, _, offset, _). length data - offset)")
    (auto simp: length_chunk_at)

declare persist_parts.simps [simp del]

definition persist_set_unsafe ::
  "env \<Rightarrow> string \<Rightarrow> bytes \<Rightarrow> 'a boundary_scheme \<Rightarrow> spacex_status \<times> 'a boundary_scheme" where
  "persist_set_unsafe e key val s =
     (if length val > BOUNDARY_SIZE_THRESHOLD
      then persist_parts e BOUNDARY_SIZE_THRESHOLD key val None 0 s
      else let (st, _, s') = ocall_persist_set e key val (length val) None 0 s in (st, s'))"

definition persist_set ::
  "env \<Rightarrow> string \<Rightarrow> bytes \<Rightarrow> 'a boundary_scheme \<Rightarrow> spacex_status \<times> 'a boundary_scheme" where
  "persist_set e key val s =
     (case seal_data_mrenclave e (db_ops s) val of
        Inl err \<Rightarrow> (err, s)
      | Inr c \<Rightarrow>
          if length c > BOUNDARY_SIZE_THRESHOLD
          then persist_parts e BOUNDARY_SIZE_THRESHOLD key c None 0 s
          else let (st, _, s') = ocall_persist_set e key c (length c) None 0 s in (st, s'))"

definition persist_add ::
  "env \<Rightarrow> string \<Rightarrow> bytes \<Rightarrow> 'a boundary_scheme \<Rightarrow> spacex_status \<times> 'a boundary_scheme" where
  "persist_add e key val s =
     (case seal_data_mrenclave e (db_ops s) val of
        Inl err \<Rightarrow> (err, s)
      | Inr c \<Rightarrow> DataBase_add e key c s)"

definition persist_del :: "env \<Rightarrow> string \<Rightarrow> 'a boundary_scheme \<Rightarrow> spacex_status \<times> 'a boundary_scheme" where
  "persist_del e key s = DataBase_del e key s"

text \<open>\<open>inner_ocall_persist_get\<close>; freeing the outer buffer does not fail once it was filled.\<close>

definition inner_ocall_persist_get :: "env \<Rightarrow> string \<Rightarrow> 'a boundary_scheme \<Rightarrow> spacex_status \<times> bytes" where
  "inner_ocall_persist_get e key s =
     (let (st, v) = DataBase_get key s
      in if st \<noteq> SPACEX_SUCCESS then (st, [])
         else if \<not> enc_malloc e (length v) then (SPACEX_MALLOC_FAILED, [])
         else (SPACEX_SUCCESS, v))"

text \<open>
  \<open>persist_get\<close>: when the buffer for the plain data cannot be allocated, the code returns success and
  leaves the caller's pointer alone, here \<open>None\<close>.
\<close>

definition persist_get :: "env \<Rightarrow> string \<Rightarrow> 'a boundary_scheme \<Rightarrow> spacex_status \<times> bytes option" where
  "persist_get e key s =
     (let (st, c) = inner_ocall_persist_get e key s
      in if st \<noteq> SPACEX_SUCCESS then (SPACEX_PERSIST_GET_FAILED, None)
         else if \<not> enc_malloc e (sgx_get_encrypt_txt_len e c) then (SPACEX_SUCCESS, None)
         else case sgx_unseal_data e c of
                None \<Rightarrow> (SPACEX_UNSEAL_DATA_FAILED, None)
              | Some d \<Rightarrow> (SPACEX_SUCCESS, Some d))"

definition persist_get_unsafe :: "env \<Rightarrow> string \<Rightarrow> 'a boundary_scheme \<Rightarrow> spacex_status \<times> bytes" where
  "persist_get_unsafe e key s =
     (let (st, v) = inner_ocall_persist_get e key s
      in if st \<noteq> SPACEX_SUCCESS then (SPACEX_PERSIST_GET_FAILED, v) else (st, v))"

section \<open>The contract of a chunked transfer\<close>

text \<open>
  Both large transfers send a vector part by part to a receiver that keeps what it has. The receiver
  \<open>holds\<close> a prefix; a part that is not the last extends the prefix; the last part ends in \<open>fin\<close>.
\<close>

locale chunked =
  fixes data :: bytes and n :: nat
    and send :: "bytes \<Rightarrow> nat \<Rightarrow> 'c \<Rightarrow> spacex_status \<times> 'c"
    and loop :: "nat \<Rightarrow> 'c \<Rightarrow> spacex_status \<times> 'r"
    and out :: "'c \<Rightarrow> 'r"
    and holds :: "nat \<Rightarrow> 'c \<Rightarrow> bool"
    and fin :: "spacex_status \<Rightarrow> 'r \<Rightarrow> bool"
  assumes part_pos: "0 < n"
    and loop_end: "length data \<le> off \<Longrightarrow> loop off c = (SPACEX_SUCCESS, out c)"
    and loop_step: "off < length data \<Longrightarrow> holds off c \<Longrightarrow>
      loop off c = (let part = chunk_at n off data; (st, c') = send part off c
                    in if st \<noteq> SPACEX_SUCCESS then (st, out c') else loop (off + length part) c')"
    and send_mid: "holds off c \<Longrightarrow> off + length (chunk_at n off data) < length data \<Longrightarrow>
      \<exists>c'. send (chunk_at n off data) off c = (SPACEX_SUCCESS, c') \<and> holds (off + length (chunk_at n off data)) c'"
    and send_last: "holds off c \<Longrightarrow> off < length data \<Longrightarrow> off + length (chunk_at n off data) = length data \<Longrightarrow>
      \<exists>st c'. send (chunk_at n off data) off c = (st, c') \<and> fin st (out c')"
begin

lemma loop_from:
  "holds off c \<Longrightarrow> off < length data \<Longrightarrow> \<exists>st r. loop off c = (st, r) \<and> fin st r"
proof (induction "length data - off" arbitrary: off c rule: less_induct)
  case less
  let ?part = "chunk_at n off data"
  have pos: "0 < length ?part" using part_pos less.prems(2) by (simp add: length_chunk_at)
  have le: "off + length ?part \<le> length data" using less.prems(2) by (simp add: length_chunk_at)
  note st = loop_step [OF less.prems(2) less.prems(1)]
  show ?case
  proof (cases "off + length ?part < length data")
    case True
    then obtain c' where "send ?part off c = (SPACEX_SUCCESS, c')" and "holds (off + length ?part) c'"
      using send_mid [OF less.prems(1)] by blast
    moreover from this(2) have "\<exists>st r. loop (off + length ?part) c' = (st, r) \<and> fin st r"
      by (rule less.hyps [rotated]) (use pos True in linarith)+
    ultimately show ?thesis by (simp add: st)
  next
    case False
    with le have eq: "off + length ?part = length data" by simp
    then obtain st c' where "send ?part off c = (st, c')" and "fin st (out c')"
      using send_last [OF less.prems] by blast
    then show ?thesis
      using loop_end [of "off + length ?part" c'] eq by (cases "st = SPACEX_SUCCESS") (simp_all add: st)
  qed
qed

end

section \<open>Both transfers meet the contract\<close>

text \<open>The receiver of \<open>safe_ocall_store2\<close> for a transfer that starts in \<open>s0\<close> with an unused key.\<close>

definition store2_ready :: "env \<Rightarrow> bytes \<Rightarrow> nat \<Rightarrow> 'a boundary_scheme \<Rightarrow> bool" where
  "store2_ready e data key s0 \<longleftrightarrow>
     ocall_buffer_pool s0 key = None \<and> app_malloc e (length data) \<and> (\<forall>off. sgx_ocall_ok e off)"

definition store2_holds :: "env \<Rightarrow> bytes \<Rightarrow> nat \<Rightarrow> 'a boundary_scheme \<Rightarrow> nat \<Rightarrow> 'a boundary_scheme \<Rightarrow> bool" where
  "store2_holds e data key s0 off s \<longleftrightarrow> store2_ready e data key s0 \<and>
     (off = 0 \<and> s = s0 \<or>
      (\<exists>b. s = s0\<lparr>ocall_buffer_pool := (ocall_buffer_pool s0)(key \<mapsto> b)\<rparr> \<and>
           length b = length data \<and> take off b = take off data))"

lemma chunk_at_self: "chunk_at n off data = take (length (chunk_at n off data)) (drop off data)"
  by (simp add: chunk_at_def)

lemma chunk_write:
  assumes "off < length data" and "length b = length data" and "take off b = take off data"
  shows "take (off + length (chunk_at n off data)) (buf_write off (chunk_at n off data) b) =
           take (off + length (chunk_at n off data)) data"
    and "length (buf_write off (chunk_at n off data) b) = length data"
proof -
  have le: "off + length (chunk_at n off data) \<le> length b" using assms by (simp add: length_chunk_at)
  then show "length (buf_write off (chunk_at n off data) b) = length data"
    using assms(2) by (simp add: length_buf_write)
  show "take (off + length (chunk_at n off data)) (buf_write off (chunk_at n off data) b) =
           take (off + length (chunk_at n off data)) data"
    using take_buf_write [OF _ assms(3) le chunk_at_self] assms(1) by simp
qed

lemma store2_buffer:
  assumes "store2_holds e data key s0 off s" and "off < length data"
  obtains b where "length b = length data" and "take off b = take off data"
    and "\<And>part. ocall_safe_store2 e t part (length data) off key s =
      (let b' = buf_write off part b
       in if off + length part < length data
          then (SPACEX_SUCCESS, s0\<lparr>ocall_buffer_pool := (ocall_buffer_pool s0)(key \<mapsto> b')\<rparr>)
          else (SPACEX_SUCCESS, emit (Ocall_store2 t (take (length data) b')) s0))"
proof (cases "off = 0 \<and> s = s0")
  case True
  with assms show ?thesis
    by (intro that [of "replicate (length data) 0"])
      (auto simp: ocall_safe_store2_def store2_holds_def store2_ready_def emit_def fun_upd_idem Let_def)
next
  case False
  with assms obtain b where b: "s = s0\<lparr>ocall_buffer_pool := (ocall_buffer_pool s0)(key \<mapsto> b)\<rparr>"
    "length b = length data" "take off b = take off data" and r: "ocall_buffer_pool s0 key = None"
    by (auto simp: store2_holds_def store2_ready_def)
  show ?thesis
    using assms(2) b r by (intro that [of b])
      (auto simp: ocall_safe_store2_def emit_def fun_upd_idem Let_def)
qed

interpretation store2: chunked data BOUNDARY_SIZE_THRESHOLD
    "\<lambda>part off s. ocall_safe_store2 e t part (length data) off key s"
    "\<lambda>off s. store2_loop e BOUNDARY_SIZE_THRESHOLD t data key off s"
    "\<lambda>s. s" "store2_holds e data key s0"
    "\<lambda>st s. st = SPACEX_SUCCESS \<and> s = emit (Ocall_store2 t data) s0"
  for e t data key s0
proof unfold_locales
  fix off and s :: "'a boundary_scheme"
  assume h: "store2_holds e data key s0 off s"
  show "store2_loop e BOUNDARY_SIZE_THRESHOLD t data key off s =
      (let part = chunk_at BOUNDARY_SIZE_THRESHOLD off data;
           (st, s') = ocall_safe_store2 e t part (length data) off key s
       in if st \<noteq> SPACEX_SUCCESS then (st, s')
          else store2_loop e BOUNDARY_SIZE_THRESHOLD t data key (off + length part) s')"
    if "off < length data"
    using h that by (subst store2_loop.simps) (auto simp: store2_holds_def store2_ready_def)
  let ?part = "chunk_at BOUNDARY_SIZE_THRESHOLD off data"
  show "\<exists>s'. ocall_safe_store2 e t ?part (length data) off key s = (SPACEX_SUCCESS, s') \<and>
      store2_holds e data key s0 (off + length ?part) s'"
    if mid: "off + length ?part < length data"
  proof -
    have lt: "off < length data" using mid by simp
    obtain b where b: "length b = length data" "take off b = take off data"
      and st: "\<And>part. ocall_safe_store2 e t part (length data) off key s =
        (let b' = buf_write off part b
         in if off + length part < length data
            then (SPACEX_SUCCESS, s0\<lparr>ocall_buffer_pool := (ocall_buffer_pool s0)(key \<mapsto> b')\<rparr>)
            else (SPACEX_SUCCESS, emit (Ocall_store2 t (take (length data) b')) s0))"
      using store2_buffer [OF h lt] by blast
    show ?thesis
      using h mid chunk_write [OF lt b] by (auto simp: st store2_holds_def Let_def)
  qed
  show "\<exists>st s'. ocall_safe_store2 e t ?part (length data) off key s = (st, s') \<and>
      (st = SPACEX_SUCCESS \<and> s' = emit (Ocall_store2 t data) s0)"
    if lt: "off < length data" and last: "off + length ?part = length data"
  proof -
    obtain b where b: "length b = length data" "take off b = take off data"
      and st: "\<And>part. ocall_safe_store2 e t part (length data) off key s =
        (let b' = buf_write off part b
         in if off + length part < length data
            then (SPACEX_SUCCESS, s0\<lparr>ocall_buffer_pool := (ocall_buffer_pool s0)(key \<mapsto> b')\<rparr>)
            else (SPACEX_SUCCESS, emit (Ocall_store2 t (take (length data) b')) s0))"
      using store2_buffer [OF h lt] by blast
    show ?thesis
      using last chunk_write [OF lt b, of BOUNDARY_SIZE_THRESHOLD] by (auto simp: st Let_def)
  qed
qed (auto simp: store2_loop.simps)

text \<open>The whole vector arrives in one piece, and the pool of buffers is as before.\<close>

lemma store2_delivers:
  assumes "store2_ready e data (rand_key e (length (ocalls s))) s" and "data \<noteq> []"
  shows "safe_ocall_store2 e t data s = (SPACEX_SUCCESS, emit (Ocall_store2 t data) s)"
proof -
  have "store2_holds e data (rand_key e (length (ocalls s))) s 0 s"
    using assms(1) by (simp add: store2_holds_def)
  then show ?thesis
    using store2.loop_from [of e data "rand_key e (length (ocalls s))" s 0 s t] assms(2)
    by (auto simp: safe_ocall_store2_def)
qed

text \<open>The receiver of the parts that \<open>persist_set\<close> and \<open>persist_set_unsafe\<close> send.\<close>

definition parts_holds :: "bytes \<Rightarrow> 's \<Rightarrow> nat \<Rightarrow> bytes option \<times> 's \<Rightarrow> bool" where
  "parts_holds data s0 off c \<longleftrightarrow> snd c = s0 \<and> BOUNDARY_SIZE_THRESHOLD < length data \<and>
     (off = 0 \<and> fst c = None \<or>
      (\<exists>b. fst c = Some b \<and> length b = length data \<and> take off b = take off data))"

definition parts_send :: "env \<Rightarrow> string \<Rightarrow> nat \<Rightarrow> bytes \<Rightarrow> nat \<Rightarrow> bytes option \<times> 'a boundary_scheme \<Rightarrow>
    spacex_status \<times> bytes option \<times> 'a boundary_scheme" where
  "parts_send e key total_size part off c = ocall_persist_set e key part total_size (fst c) off (snd c)"

lemma parts_send_chunk:
  assumes "parts_holds data s0 off c" and "off < length data"
  obtains b where "length b = length data" and "take (off + length part) b = take (off + length part) data"
    and "part = chunk_at BOUNDARY_SIZE_THRESHOLD off data \<Longrightarrow>
      parts_send e key (length data) part off c =
      (if off + length part < length data then (SPACEX_SUCCESS, Some b, s0)
       else let (st, s') = DataBase_set e key b s0 in (st, None, s'))"
proof (cases "part = chunk_at BOUNDARY_SIZE_THRESHOLD off data")
  case True
  let ?b = "case fst c of Some b \<Rightarrow> b | None \<Rightarrow> replicate (length data) 0"
  have b: "length ?b = length data" "take off ?b = take off data"
    using assms(1) by (auto simp: parts_holds_def)
  have "length part < length data"
    using assms(1) unfolding True length_chunk_at parts_holds_def by linarith
  then show ?thesis
    using assms(1) chunk_write [OF assms(2) b, of BOUNDARY_SIZE_THRESHOLD] True
    by (intro that [of "buf_write off part ?b"])
      (auto simp: parts_send_def ocall_persist_set_def parts_holds_def Let_def)
next
  case False
  then show ?thesis by (intro that [of data]) auto
qed

interpretation pparts: chunked data BOUNDARY_SIZE_THRESHOLD "parts_send e key (length data)"
    "\<lambda>off c. persist_parts e BOUNDARY_SIZE_THRESHOLD key data (fst c) off (snd c)"
    snd "parts_holds data s0" "\<lambda>st s. DataBase_set e key data s0 = (st, s)"
  for e key data s0
proof unfold_locales
  fix off and c :: "bytes option \<times> 'a boundary_scheme"
  assume h: "parts_holds data s0 off c"
  let ?part = "chunk_at BOUNDARY_SIZE_THRESHOLD off data"
  show "persist_parts e BOUNDARY_SIZE_THRESHOLD key data (fst c) off (snd c) =
      (let part = ?part; (st, c') = parts_send e key (length data) part off c
       in if st \<noteq> SPACEX_SUCCESS then (st, snd c')
          else persist_parts e BOUNDARY_SIZE_THRESHOLD key data (fst c') (off + length part) (snd c'))"
    if "off < length data"
    using that by (subst persist_parts.simps) (auto simp: parts_send_def Let_def split: prod.splits)
  show "\<exists>c'. parts_send e key (length data) ?part off c = (SPACEX_SUCCESS, c') \<and>
      parts_holds data s0 (off + length ?part) c'"
    if mid: "off + length ?part < length data"
  proof -
    have lt: "off < length data" using mid by simp
    show ?thesis
      using h mid by (rule_tac parts_send_chunk [OF h lt, of ?part e key]) (auto simp: parts_holds_def)
  qed
  show "\<exists>st c'. parts_send e key (length data) ?part off c = (st, c') \<and> DataBase_set e key data s0 = (st, snd c')"
    if lt: "off < length data" and last: "off + length ?part = length data"
    using last by (rule_tac parts_send_chunk [OF h lt, of ?part e key]) (auto split: prod.splits)
qed (auto simp: persist_parts.simps)

text \<open>Storing in parts has the effect of storing at once, for every length and with every status.\<close>

lemma persist_set_unsafe_eq: "persist_set_unsafe e key val s = DataBase_set e key val s"
proof (cases "BOUNDARY_SIZE_THRESHOLD < length val")
  case True
  then have "parts_holds val s 0 (None, s)" and "0 < length val" by (auto simp: parts_holds_def)
  from pparts.loop_from [OF this, of e key] True show ?thesis by (auto simp: persist_set_unsafe_def)
next
  case False
  then show ?thesis by (auto simp: persist_set_unsafe_def ocall_persist_set_def split: prod.splits)
qed

lemma persist_set_eq:
  "persist_set e key val s =
     (case seal_data_mrenclave e (db_ops s) val of
        Inl err \<Rightarrow> (err, s)
      | Inr c \<Rightarrow> DataBase_set e key c s)"
proof -
  have "(if length c > BOUNDARY_SIZE_THRESHOLD
          then persist_parts e BOUNDARY_SIZE_THRESHOLD key c None 0 s
          else let (st, _, s') = ocall_persist_set e key c (length c) None 0 s in (st, s')) =
      DataBase_set e key c s" for c
    using persist_set_unsafe_eq [of e key c s] by (simp add: persist_set_unsafe_def)
  then show ?thesis by (simp add: persist_set_def split: sum.splits)
qed

text \<open>What was set is read back, sealed or not.\<close>

lemma persist_unsafe_roundtrip:
  assumes "persist_set_unsafe e key val s = (SPACEX_SUCCESS, s')" and "enc_malloc e (length val)"
  shows "persist_get_unsafe e key s' = (SPACEX_SUCCESS, val)"
  using assms by (auto simp: persist_set_unsafe_eq DataBase_set_def DataBase_put_def persist_get_unsafe_def
      inner_ocall_persist_get_def DataBase_get_def split: if_splits)

lemma persist_roundtrip:
  assumes "persist_set e key val s = (SPACEX_SUCCESS, s')" and "unseal_inverts e" and "heap_ok e"
  shows "persist_get e key s' = (SPACEX_SUCCESS, Some val)"
proof -
  obtain c where c: "seal_data_mrenclave e (db_ops s) val = Inr c"
    and st: "DataBase_set e key c s = (SPACEX_SUCCESS, s')"
    using assms(1)
    by (auto simp: persist_set_eq seal_data_mrenclave_def split: sum.splits if_splits option.splits)
  have "db s' key = Some c" using st by (auto simp: DataBase_set_def DataBase_put_def split: if_splits)
  with assms(3) show ?thesis
    using seal_mrenclave_unseal [OF assms(2) c]
    by (simp add: persist_get_def inner_ocall_persist_get_def DataBase_get_def heap_ok_def)
qed

text \<open>What a component state keeps across these operations.\<close>

lemma more_boundary [frame_simps]:
  "boundary.more (emit c s) = boundary.more s"
  "boundary.more (snd (ocall_do e c s)) = boundary.more s"
  "boundary.more (snd (DataBase_set e k v s)) = boundary.more s"
  "boundary.more (snd (DataBase_del e k s)) = boundary.more s"
  by (simp_all add: emit_def ocall_do_def DataBase_set_def DataBase_put_def DataBase_del_def)

lemma more_store2_loop: "boundary.more (snd (store2_loop e n t data key off s)) = boundary.more s"
proof (induction e n t data key off s rule: store2_loop.induct)
  case (1 e n t data key off s)
  have "boundary.more (snd (ocall_safe_store2 e t p l off key s)) = boundary.more s" for p l
    by (auto simp: ocall_safe_store2_def emit_def Let_def split: option.splits)
  then have "ocall_safe_store2 e t p l off key s = (st, s') \<Longrightarrow> boundary.more s' = boundary.more s" for p l st s'
    by (metis snd_conv)
  with 1 show ?case
    by (subst store2_loop.simps) (auto simp: Let_def split: prod.splits)
qed

lemma more_persist [frame_simps]:
  "boundary.more (snd (safe_ocall_store2 e t data s)) = boundary.more s"
  "boundary.more (snd (persist_set_unsafe e k v s)) = boundary.more s"
  "boundary.more (snd (persist_set e k v s)) = boundary.more s"
  "boundary.more (snd (persist_del e k s)) = boundary.more s"
  by (simp_all add: safe_ocall_store2_def more_store2_loop persist_set_unsafe_eq persist_set_eq
      persist_del_def more_boundary split: sum.splits)

end
