(* ===== verification/Workload.thy ===== *)
theory Workload
  imports Boundary JsonParse
begin

text \<open>
  The class \<open>Workload\<close> of \<open>src/src/enclave/workload/Workload.cpp\<close> and \<open>Workload.h\<close>: the state that the
  enclave keeps about its random data (srd), its sealed files and its reports.

  The record has the fields of the class. \<open>sealed_files\<close> holds the JSON values the code holds; the
  accessors \<open>file_cid\<close>, \<open>file_status\<close> and \<open>file_size\<close> are the reads \<open>f[FILE_CID].ToString()\<close>,
  \<open>f[FILE_STATUS].get_char(i)\<close> and \<open>f[FILE_SIZE].ToInt()\<close>. The mutexes have no field: an operation here
  is what runs while its mutex is held. Allocation inside standard containers succeeds.
\<close>

section \<open>State\<close>

record workload = boundary +
  srd_hashs :: "bytes list"
  sealed_files :: "JSON list"
  reported_files_idx :: "string list"
  pre_pub_key :: bytes
  pending_files_um :: "(string \<times> JSON) list"
  account_id :: string
  id_key_pair :: "bytes \<times> bytes"
  is_set_key_pair :: bool
  mr_enclave :: bytes
  report_height :: size_t
  restart_flag :: int
  validated_srd_proof :: int
  validated_file_proof :: int
  report_files :: bool
  srd_info_json :: JSON
  upgrade :: bool
  upgrade_status :: enc_upgrade_status
  wl_file_spec :: JSON
  srd_del_idx_s :: "nat list"
  file_del_cid_s :: "string list"

text \<open>The map \<open>g_file_spec_status\<close> in the order in which it is iterated.\<close>

definition g_file_spec_status :: "(char \<times> string) list" where
  "g_file_spec_status =
     [(FILE_STATUS_VALID, FILE_TYPE_VALID), (FILE_STATUS_LOST, FILE_TYPE_LOST),
      (FILE_STATUS_PENDING, FILE_TYPE_PENDING)]"

definition file_status_2_name :: "(char \<times> string) list" where
  "file_status_2_name =
     [(FILE_STATUS_UNVERIFIED, FILE_TYPE_UNVERIFIED), (FILE_STATUS_VALID, FILE_TYPE_VALID),
      (FILE_STATUS_LOST, FILE_TYPE_LOST), (FILE_STATUS_DELETED, FILE_TYPE_DELETED),
      (FILE_STATUS_PENDING, FILE_TYPE_PENDING)]"

text \<open>The constructor \<open>Workload()\<close> with the in-class initial values.\<close>

definition file_spec_init :: JSON where
  "file_spec_init =
     fold (\<lambda>(_, name) j. jset j name (jset (jset (jget j name) ''num'' (JIntegral 0)) ''size'' (JIntegral 0)))
       g_file_spec_status JNull"

definition Workload_init :: workload where
  "Workload_init =
     \<lparr>ocalls = [], db = (\<lambda>_. None), db_ops = 0, ocall_buffer_pool = (\<lambda>_. None),
      srd_hashs = [], sealed_files = [], reported_files_idx = [], pre_pub_key = replicate 64 0,
      pending_files_um = [], account_id = [], id_key_pair = (replicate 64 0, replicate 32 0),
      is_set_key_pair = False, mr_enclave = replicate 32 0, report_height = 0, restart_flag = 0,
      validated_srd_proof = 0, validated_file_proof = 0, report_files = True, srd_info_json = JNull,
      upgrade = False, upgrade_status = ENC_UPGRADE_STATUS_NONE, wl_file_spec = file_spec_init,
      srd_del_idx_s = [], file_del_cid_s = []\<rparr>"

section \<open>Entries of the file table\<close>

definition file_cid :: "JSON \<Rightarrow> string" where
  "file_cid f = ToString (jget f FILE_CID)"

definition file_status :: "JSON \<Rightarrow> nat \<Rightarrow> char" where
  "file_status f i = get_char (jget f FILE_STATUS) i"

definition file_size :: "JSON \<Rightarrow> int" where
  "file_size f = ToInt (jget f FILE_SIZE)"

definition set_status :: "nat \<Rightarrow> char \<Rightarrow> JSON \<Rightarrow> JSON" where
  "set_status i c f = jupd f FILE_STATUS (set_char i c)"

definition upd_file :: "nat \<Rightarrow> (JSON \<Rightarrow> JSON) \<Rightarrow> 'a workload_scheme \<Rightarrow> 'a workload_scheme" where
  "upd_file pos g s = s\<lparr>sealed_files := (sealed_files s)[pos := g (sealed_files s ! pos)]\<rparr>"

text \<open>A hash read through \<open>ToBytes\<close>; a value that is no hash (a null pointer in C++) gives no bytes.\<close>

definition hash_bytes :: "JSON \<Rightarrow> bytes" where
  "hash_bytes j = (case ToBytes j of Some b \<Rightarrow> take HASH_LENGTH b | None \<Rightarrow> [])"

section \<open>Random data (srd)\<close>

definition dump_json :: "env \<Rightarrow> JSON \<Rightarrow> string" where
  "dump_json e j = dump (double_to_string e) 1 j"

definition clean_srd :: "env \<Rightarrow> 'a workload_scheme \<Rightarrow> 'a workload_scheme" where
  "clean_srd e s =
     emit (Ocall_set_srd_info (dump_json e (JObject []))) (s\<lparr>srd_hashs := [], srd_info_json := JObject []\<rparr>)"

definition set_srd_remaining_task :: "int \<Rightarrow> 'a workload_scheme \<Rightarrow> 'a workload_scheme" where
  "set_srd_remaining_task num s =
     s\<lparr>srd_info_json := jset (srd_info_json s) WL_SRD_REMAINING_TASK (JIntegral num)\<rparr>"

definition set_srd_info :: "string \<Rightarrow> int \<Rightarrow> 'a workload_scheme \<Rightarrow> 'a workload_scheme" where
  "set_srd_info uuid change s =
     (let j = jupd (srd_info_json s) WL_SRD_COMPLETE (AddNum change);
          j' = (if ToInt (jget j WL_SRD_COMPLETE) \<le> 0 then jset j WL_SRD_COMPLETE (JIntegral 0) else j)
      in s\<lparr>srd_info_json := jupd j' WL_SRD_DETAIL (\<lambda>d. jupd d uuid (AddNum change))\<rparr>)"

definition get_srd_info :: "'a workload_scheme \<Rightarrow> JSON \<times> 'a workload_scheme" where
  "get_srd_info s =
     (let j = (if json_size (srd_info_json s) \<le> 0 then JObject [] else srd_info_json s)
      in (j, s\<lparr>srd_info_json := j\<rparr>))"

text \<open>\<open>get_srd_info().dump()\<close> followed by \<open>ocall_set_srd_info\<close>, which many operations end with.\<close>

definition send_srd_info :: "env \<Rightarrow> 'a workload_scheme \<Rightarrow> 'a workload_scheme" where
  "send_srd_info e s = (let (j, s') = get_srd_info s in emit (Ocall_set_srd_info (dump_json e j)) s')"

text \<open>The loop of the template \<open>delete_srd_meta\<close> over the indexes from the last to the first.\<close>

fun delete_srd_loop :: "env \<Rightarrow> nat list \<Rightarrow> int \<Rightarrow> 'a workload_scheme \<Rightarrow> int \<times> 'a workload_scheme" where
  "delete_srd_loop e [] del_num s = (del_num, s)"
| "delete_srd_loop e (i # is) del_num s =
     (if i < length (srd_hashs s)
      then let uuid = hexstring_safe e (take UUID_LENGTH (srd_hashs s ! i));
               s' = set_srd_info uuid (- 1) s
           in delete_srd_loop e is (del_num + 1) (s'\<lparr>srd_hashs := vec_erase i (srd_hashs s')\<rparr>)
      else delete_srd_loop e is del_num s)"

definition delete_srd_meta :: "env \<Rightarrow> nat list \<Rightarrow> 'a workload_scheme \<Rightarrow> int \<times> 'a workload_scheme" where
  "delete_srd_meta e indexes s =
     (if indexes = [] then (0, s)
      else let (del_num, s') = delete_srd_loop e (rev indexes) 0 s in (del_num, send_srd_info e s'))"

definition add_srd_to_deleted_buffer :: "nat \<Rightarrow> 'a workload_scheme \<Rightarrow> bool \<times> 'a workload_scheme" where
  "add_srd_to_deleted_buffer i s =
     (i \<notin> set (srd_del_idx_s s), s\<lparr>srd_del_idx_s := insort_insert i (srd_del_idx_s s)\<rparr>)"

definition is_srd_in_deleted_buffer :: "nat \<Rightarrow> 'a workload_scheme \<Rightarrow> bool" where
  "is_srd_in_deleted_buffer i s \<longleftrightarrow> i \<in> set (srd_del_idx_s s)"

definition deal_deleted_srd :: "env \<Rightarrow> 'a workload_scheme \<Rightarrow> 'a workload_scheme" where
  "deal_deleted_srd e s = snd (delete_srd_meta e (srd_del_idx_s s) (s\<lparr>srd_del_idx_s := []\<rparr>))"

section \<open>The file table\<close>

text \<open>
  \<open>is_file_dup_nolock\<close> is a binary search with signed positions; \<open>pos\<close> is the reference parameter,
  which every caller sets to 0.
\<close>

function dup_search :: "string list \<Rightarrow> string \<Rightarrow> int \<Rightarrow> int \<Rightarrow> int \<Rightarrow> bool \<times> int" where
  "dup_search cids cid spos epos pos =
     (if spos \<le> epos \<and> 0 \<le> spos then
        let mpos = (spos + epos) div 2
        in if int (length cids) \<le> mpos then (False, pos)
           else if cids ! nat mpos < cid then
             dup_search cids cid (mpos + 1) epos (min (mpos + 1) (int (length cids)))
           else if cid < cids ! nat mpos then dup_search cids cid spos (mpos - 1) mpos
           else (True, mpos)
      else (False, pos))"
  by pat_completeness auto
termination
  by (relation "measure (\<lambda>(_, _, spos, epos, _). nat (epos - spos + 1))") auto

declare dup_search.simps [simp del]

definition is_file_dup_nolock :: "string \<Rightarrow> 'a workload_scheme \<Rightarrow> bool \<times> nat" where
  "is_file_dup_nolock cid s =
     (let (dup, pos) = dup_search (map file_cid (sealed_files s)) cid 0 (int (length (sealed_files s))) 0
      in (dup, nat pos))"

definition add_file_nolock_at :: "JSON \<Rightarrow> nat \<Rightarrow> 'a workload_scheme \<Rightarrow> 'a workload_scheme" where
  "add_file_nolock_at file pos s =
     (if pos \<le> length (sealed_files s) then s\<lparr>sealed_files := vec_insert pos file (sealed_files s)\<rparr> else s)"

definition add_file_nolock :: "JSON \<Rightarrow> 'a workload_scheme \<Rightarrow> 'a workload_scheme" where
  "add_file_nolock file s =
     (let (dup, pos) = is_file_dup_nolock (file_cid file) s
      in if dup then s else s\<lparr>sealed_files := vec_insert pos file (sealed_files s)\<rparr>)"

definition del_file_nolock_at :: "nat \<Rightarrow> 'a workload_scheme \<Rightarrow> 'a workload_scheme" where
  "del_file_nolock_at pos s =
     (if pos < length (sealed_files s) then s\<lparr>sealed_files := vec_erase pos (sealed_files s)\<rparr> else s)"

definition del_file_nolock :: "string \<Rightarrow> 'a workload_scheme \<Rightarrow> 'a workload_scheme" where
  "del_file_nolock cid s =
     (let (dup, pos) = is_file_dup_nolock cid s
      in if dup then s\<lparr>sealed_files := vec_erase pos (sealed_files s)\<rparr> else s)"

definition set_file_spec :: "char \<Rightarrow> int \<Rightarrow> 'a workload_scheme \<Rightarrow> 'a workload_scheme" where
  "set_file_spec st change s =
     (case map_of g_file_spec_status st of
        None \<Rightarrow> s
      | Some ws_name \<Rightarrow>
          s\<lparr>wl_file_spec :=
              jupd (wl_file_spec s) ws_name
                (\<lambda>j. jupd (jupd j ''num'' (AddNum (if change > 0 then 1 else - 1))) ''size'' (AddNum change))\<rparr>)"

definition add_to_deleted_file_buffer :: "string \<Rightarrow> 'a workload_scheme \<Rightarrow> bool \<times> 'a workload_scheme" where
  "add_to_deleted_file_buffer cid s =
     (cid \<notin> set (file_del_cid_s s), s\<lparr>file_del_cid_s := insort_insert cid (file_del_cid_s s)\<rparr>)"

definition is_in_deleted_file_buffer :: "string \<Rightarrow> 'a workload_scheme \<Rightarrow> bool" where
  "is_in_deleted_file_buffer cid s \<longleftrightarrow> cid \<in> set (file_del_cid_s s)"

definition recover_from_deleted_file_buffer :: "string \<Rightarrow> 'a workload_scheme \<Rightarrow> 'a workload_scheme" where
  "recover_from_deleted_file_buffer cid s = s\<lparr>file_del_cid_s := remove1 cid (file_del_cid_s s)\<rparr>"

text \<open>\<open>deal_deleted_file\<close>: the status is read as a string, whose terminator is a null character.\<close>

definition str_char :: "string \<Rightarrow> nat \<Rightarrow> char" where
  "str_char str i = (if i < length str then str ! i else CHR 0x00)"

definition removable :: "JSON \<Rightarrow> bool" where
  "removable f =
     (let status = ToString (jget f FILE_STATUS)
      in (str_char status CURRENT_STATUS = FILE_STATUS_DELETED \<and> str_char status ORIGIN_STATUS = FILE_STATUS_DELETED) \<or>
         (str_char status CURRENT_STATUS = FILE_STATUS_DELETED \<and> str_char status ORIGIN_STATUS = FILE_STATUS_UNVERIFIED) \<or>
         (str_char status CURRENT_STATUS = FILE_STATUS_DELETED \<and> str_char status ORIGIN_STATUS = FILE_STATUS_LOST))"

fun deal_deleted_loop :: "string list \<Rightarrow> string list \<Rightarrow> 'a workload_scheme \<Rightarrow> string list \<times> 'a workload_scheme" where
  "deal_deleted_loop [] left s = (left, s)"
| "deal_deleted_loop (cid # cids) left s =
     (let (dup, pos) = is_file_dup_nolock cid s
      in if dup \<and> removable (sealed_files s ! pos)
         then deal_deleted_loop cids (remove1 cid left) (s\<lparr>sealed_files := vec_erase pos (sealed_files s)\<rparr>)
         else deal_deleted_loop cids left s)"

definition deal_deleted_file :: "'a workload_scheme \<Rightarrow> 'a workload_scheme" where
  "deal_deleted_file s =
     (let tmp = file_del_cid_s s;
          (left, s') = deal_deleted_loop tmp tmp (s\<lparr>file_del_cid_s := []\<rparr>)
      in s'\<lparr>file_del_cid_s := fold insort_insert left (file_del_cid_s s')\<rparr>)"

section \<open>Recovering files after an illegal transfer\<close>

text \<open>\<open>recover_illegal_file\<close>; \<open>None\<close> when the parser reads past the data it is given.\<close>

definition recover_one :: "string \<Rightarrow> string \<Rightarrow> 'a workload_scheme \<Rightarrow> 'a workload_scheme" where
  "recover_one type cid s =
     (let (dup, pos) = is_file_dup_nolock cid s
      in if \<not> dup then s
         else if type = WORKREPORT_FILES_ADDED then upd_file pos (set_status ORIGIN_STATUS FILE_STATUS_VALID) s
         else let cur = file_status (sealed_files s ! pos) CURRENT_STATUS;
                  com = (if cur = FILE_STATUS_DELETED then FILE_STATUS_DELETED else FILE_STATUS_LOST)
              in upd_file pos (set_status ORIGIN_STATUS com) s)"

definition recover_files :: "JSON \<Rightarrow> 'a workload_scheme \<Rightarrow> 'a workload_scheme" where
  "recover_files commit_file s =
     fold (\<lambda>type s.
         if hasKey commit_file type \<and> JSONType (jget commit_file type) = CArray
         then fold (\<lambda>f s. recover_one type (ToString f) s) (ArrayRange (jget commit_file type)) s
         else s)
       [WORKREPORT_FILES_ADDED, WORKREPORT_FILES_DELETED] s"

definition recover_illegal_file ::
  "env \<Rightarrow> float_lib \<Rightarrow> bytes \<Rightarrow> 'a workload_scheme \<Rightarrow> (spacex_status \<times> 'a workload_scheme) option" where
  "recover_illegal_file e fl data s =
     (case Load e fl (bytes_str data) of
        POk (commit_file, st) \<Rightarrow> Some (st, if st \<noteq> SPACEX_SUCCESS then s else recover_files commit_file s)
      | _ \<Rightarrow> None)"

section \<open>Flags, counters and heights\<close>

definition set_report_file_flag :: "bool \<Rightarrow> 'a workload_scheme \<Rightarrow> 'a workload_scheme" where
  "set_report_file_flag flag s = s\<lparr>report_files := flag\<rparr>"

definition set_upgrade :: "bytes \<Rightarrow> 'a workload_scheme \<Rightarrow> 'a workload_scheme" where
  "set_upgrade pub_key s = s\<lparr>upgrade := True, pre_pub_key := pub_key\<rparr>"

definition unset_upgrade :: "'a workload_scheme \<Rightarrow> 'a workload_scheme" where
  "unset_upgrade s = s\<lparr>upgrade := False\<rparr>"

definition set_upgrade_status :: "enc_upgrade_status \<Rightarrow> 'a workload_scheme \<Rightarrow> 'a workload_scheme" where
  "set_upgrade_status st s = s\<lparr>upgrade_status := st\<rparr>"

definition set_account_id :: "string \<Rightarrow> 'a workload_scheme \<Rightarrow> 'a workload_scheme" where
  "set_account_id a s = s\<lparr>account_id := a\<rparr>"

definition set_key_pair :: "bytes \<times> bytes \<Rightarrow> 'a workload_scheme \<Rightarrow> 'a workload_scheme" where
  "set_key_pair kp s = s\<lparr>id_key_pair := kp, is_set_key_pair := True\<rparr>"

definition unset_key_pair :: "'a workload_scheme \<Rightarrow> 'a workload_scheme" where
  "unset_key_pair s = s\<lparr>is_set_key_pair := False\<rparr>"

definition set_mr_enclave :: "bytes \<Rightarrow> 'a workload_scheme \<Rightarrow> 'a workload_scheme" where
  "set_mr_enclave mr s = s\<lparr>mr_enclave := mr\<rparr>"

definition set_report_height :: "size_t \<Rightarrow> 'a workload_scheme \<Rightarrow> 'a workload_scheme" where
  "set_report_height h s = s\<lparr>report_height := h\<rparr>"

definition set_restart_flag :: "'a workload_scheme \<Rightarrow> 'a workload_scheme" where
  "set_restart_flag s = s\<lparr>restart_flag := 1\<rparr>"

definition reduce_restart_flag :: "'a workload_scheme \<Rightarrow> 'a workload_scheme" where
  "reduce_restart_flag s =
     (let f = restart_flag s - 1 in s\<lparr>restart_flag := (if f < 0 then 0 else f)\<rparr>)"

definition get_restart_flag :: "'a workload_scheme \<Rightarrow> bool" where
  "get_restart_flag s \<longleftrightarrow> restart_flag s > 0"

definition report_add_validated_srd_proof :: "'a workload_scheme \<Rightarrow> 'a workload_scheme" where
  "report_add_validated_srd_proof s =
     s\<lparr>validated_srd_proof :=
         (if validated_srd_proof s \<ge> VALIDATE_PROOF_MAX_NUM then VALIDATE_PROOF_MAX_NUM
          else validated_srd_proof s + 1)\<rparr>"

definition report_add_validated_file_proof :: "'a workload_scheme \<Rightarrow> 'a workload_scheme" where
  "report_add_validated_file_proof s =
     s\<lparr>validated_file_proof :=
         (if validated_file_proof s \<ge> VALIDATE_PROOF_MAX_NUM then VALIDATE_PROOF_MAX_NUM
          else validated_file_proof s + 1)\<rparr>"

definition report_reset_validated_proof :: "'a workload_scheme \<Rightarrow> 'a workload_scheme" where
  "report_reset_validated_proof s = s\<lparr>validated_srd_proof := 0, validated_file_proof := 0\<rparr>"

definition report_has_validated_proof :: "'a workload_scheme \<Rightarrow> bool" where
  "report_has_validated_proof s \<longleftrightarrow> validated_srd_proof s > 0 \<and> validated_file_proof s > 0"

definition can_report_work :: "size_t \<Rightarrow> 'a workload_scheme \<Rightarrow> spacex_status" where
  "can_report_work block_height s =
     (if block_height = 0 \<or>
         block_height < of_nat REPORT_SLOT + report_height s + of_nat REPORT_INTERVAL_BLCOK_NUMBER_LOWER_LIMIT
      then SPACEX_UPGRADE_BLOCK_EXPIRE
      else if \<not> report_has_validated_proof s then SPACEX_UPGRADE_NO_VALIDATE
      else if get_restart_flag s then SPACEX_UPGRADE_RESTART
      else SPACEX_SUCCESS)"

section \<open>Information for reports, upgrades and the metadata\<close>

definition zero_hash :: bytes where
  "zero_hash = replicate HASH_LENGTH 0"

text \<open>The root hash over all srd items, which needs one buffer for them.\<close>

definition srd_root_hash :: "env \<Rightarrow> bytes list \<Rightarrow> bytes option" where
  "srd_root_hash e hs =
     (if hs = [] then Some zero_hash
      else if \<not> enc_malloc e (length hs * SRD_LENGTH) then None
      else Some (sgx_sha256_msg e (concat (map (take SRD_LENGTH) hs))))"

definition not_pending :: "JSON \<Rightarrow> bool" where
  "not_pending f \<longleftrightarrow> file_status f CURRENT_STATUS \<noteq> FILE_STATUS_PENDING"

definition file_root_hash :: "env \<Rightarrow> JSON list \<Rightarrow> bytes" where
  "file_root_hash e fs =
     (if fs = [] then zero_hash
      else sgx_sha256_msg e (concat (map (\<lambda>f. hash_bytes (jget f FILE_HASH)) (filter not_pending fs))))"

definition gen_workload_info :: "env \<Rightarrow> 'a workload_scheme \<Rightarrow> spacex_status \<times> JSON" where
  "gen_workload_info e s =
     (case srd_root_hash e (srd_hashs s) of
        None \<Rightarrow> (SPACEX_MALLOC_FAILED, JNull)
      | Some root \<Rightarrow>
          (let ans = (if srd_hashs s = [] then JNull
                      else jset JNull WL_SRD_SPACE (JIntegral (int (length (srd_hashs s)) * 1024 * 1024 * 1024)));
               ans = jset ans WL_SRD_ROOT_HASH (JHash root)
           in (SPACEX_SUCCESS, jset ans WL_FILE_ROOT_HASH (JHash (file_root_hash e (sealed_files s))))))"

definition serialize_srd :: "env \<Rightarrow> 'a workload_scheme \<Rightarrow> JSON" where
  "serialize_srd e s = JArray (map (\<lambda>h. JString (hexstring_safe e (take SRD_LENGTH h))) (srd_hashs s))"

definition get_upgrade_srd_info :: "env \<Rightarrow> 'a workload_scheme \<Rightarrow> spacex_status \<times> JSON" where
  "get_upgrade_srd_info e s =
     (case srd_root_hash e (srd_hashs s) of
        None \<Rightarrow> (SPACEX_MALLOC_FAILED, JNull)
      | Some root \<Rightarrow>
          (SPACEX_SUCCESS, jset (jset JNull WL_SRD_ROOT_HASH (JHash root)) WL_SRD (serialize_srd e s)))"

text \<open>A pending entry is stored with its cid and status only.\<close>

definition serialize_entry :: "JSON \<Rightarrow> JSON" where
  "serialize_entry f =
     (if not_pending f then f
      else jset (jset JNull FILE_CID (JString (ToString (jget f FILE_CID))))
             FILE_STATUS (JString (ToString (jget f FILE_STATUS))))"

definition serialize_file :: "'a workload_scheme \<Rightarrow> JSON" where
  "serialize_file s = JArray (map serialize_entry (sealed_files s))"

definition get_upgrade_file_info :: "env \<Rightarrow> 'a workload_scheme \<Rightarrow> spacex_status \<times> JSON" where
  "get_upgrade_file_info e s =
     (SPACEX_SUCCESS,
      jset (jset JNull WL_FILE_ROOT_HASH (JHash (file_root_hash e (sealed_files s))))
        WL_FILES (JArray (filter not_pending (sealed_files s))))"

section \<open>Restoring\<close>

text \<open>The loop of \<open>restore_srd\<close>; \<open>False\<close> when an item cannot be decoded.\<close>

fun restore_srd_loop :: "env \<Rightarrow> JSON list \<Rightarrow> 'a workload_scheme \<Rightarrow> bool \<times> 'a workload_scheme" where
  "restore_srd_loop e [] s = (True, s)"
| "restore_srd_loop e (it # its) s =
     (let hex = ToString it
      in case hex_string_to_bytes e hex of
           None \<Rightarrow> (False, s)
         | Some g_hash \<Rightarrow>
             restore_srd_loop e its
               (s\<lparr>srd_hashs := srd_hashs s @ [g_hash],
                  srd_info_json := jupd (srd_info_json s) WL_SRD_DETAIL
                    (\<lambda>d. jupd d (take (UUID_LENGTH * 2) hex) (AddNum 1))\<rparr>))"

definition restore_srd :: "env \<Rightarrow> JSON \<Rightarrow> 'a workload_scheme \<Rightarrow> spacex_status \<times> 'a workload_scheme" where
  "restore_srd e g_hashs s =
     (if JSONType g_hashs \<noteq> CArray then (SPACEX_BAD_SEAL_DATA, s)
      else if json_size g_hashs = 0 then (SPACEX_SUCCESS, s)
      else let (ok, s') = restore_srd_loop e (ArrayRange g_hashs) (clean_srd e s)
           in if \<not> ok then (SPACEX_UNEXPECTED_ERROR, clean_srd e s')
              else (SPACEX_SUCCESS,
                    send_srd_info e
                      (s'\<lparr>srd_info_json :=
                           jset (srd_info_json s') WL_SRD_COMPLETE (JIntegral (int (length (srd_hashs s'))))\<rparr>)))"

definition clean_file :: "env \<Rightarrow> 'a workload_scheme \<Rightarrow> 'a workload_scheme" where
  "clean_file e s =
     snd (safe_ocall_store2 e OCALL_FILE_INFO_ALL (str_bytes ''{}'') (s\<lparr>sealed_files := [], wl_file_spec := JNull\<rparr>))"

text \<open>The text with sizes and block number that the application keeps for a file.\<close>

definition file_info_text :: "int \<Rightarrow> int \<Rightarrow> int \<Rightarrow> string" where
  "file_info_text sz sealed_sz block_num =
     ''{ '' @ quoted FILE_SIZE @ '' : '' @ int_to_string sz @
     '' , '' @ quoted FILE_SEALED_SIZE @ '' : '' @ int_to_string sealed_sz @
     '' , '' @ quoted FILE_CHAIN_BLOCK_NUM @ '' : '' @ int_to_string block_num @ '' }''"

definition file_info_json :: "JSON list \<Rightarrow> JSON" where
  "file_info_json fs =
     fold (\<lambda>(st, type) buf.
         fold (\<lambda>f buf.
             if st \<noteq> file_status f CURRENT_STATUS then buf
             else jupd buf type (json_append (jset JNull (file_cid f)
                    (JString (file_info_text (file_size f) (ToInt (jget f FILE_SEALED_SIZE))
                       (ToInt (jget f FILE_CHAIN_BLOCK_NUM)))))))
           fs buf)
       g_file_spec_status JNull"

definition restore_file_info :: "env \<Rightarrow> 'a workload_scheme \<Rightarrow> spacex_status \<times> 'a workload_scheme" where
  "restore_file_info e s =
     safe_ocall_store2 e OCALL_FILE_INFO_ALL
       (dump_vector (double_to_string e) (file_info_json (sealed_files s))) s"

fun restore_file_loop :: "env \<Rightarrow> JSON list \<Rightarrow> 'a workload_scheme \<Rightarrow> 'a workload_scheme" where
  "restore_file_loop e [] s = s"
| "restore_file_loop e (f # fs) s =
     (let st = file_status f CURRENT_STATUS
      in if st = FILE_STATUS_PENDING
         then restore_file_loop e fs (snd (persist_del e (file_cid f) (emit (Ocall_delete_ipfs_file (file_cid f)) s)))
         else restore_file_loop e fs (set_file_spec st (file_size f) (s\<lparr>sealed_files := sealed_files s @ [f]\<rparr>)))"

definition restore_file :: "env \<Rightarrow> JSON \<Rightarrow> 'a workload_scheme \<Rightarrow> spacex_status \<times> 'a workload_scheme" where
  "restore_file e file_json s =
     (if JSONType file_json \<noteq> CArray then (SPACEX_BAD_SEAL_DATA, s)
      else if json_size file_json = 0 then (SPACEX_SUCCESS, s)
      else (SPACEX_SUCCESS,
            snd (restore_file_info e (restore_file_loop e (ArrayRange file_json) (s\<lparr>sealed_files := []\<rparr>)))))"

definition restore_pre_pub_key :: "env \<Rightarrow> JSON \<Rightarrow> 'a workload_scheme \<Rightarrow> spacex_status \<times> 'a workload_scheme" where
  "restore_pre_pub_key e meta s =
     (if \<not> hasKey meta ID_PRE_PUB_KEY then (SPACEX_SUCCESS, s)
      else case hex_string_to_bytes e (ToString (jget meta ID_PRE_PUB_KEY)) of
             None \<Rightarrow> (SPACEX_UNEXPECTED_ERROR, s)
           | Some k \<Rightarrow> (SPACEX_SUCCESS, set_upgrade (take 64 k) s))"

definition clean_all :: "env \<Rightarrow> 'a workload_scheme \<Rightarrow> 'a workload_scheme" where
  "clean_all e s = unset_upgrade (unset_key_pair (clean_file e (clean_srd e s)))"

section \<open>The binary search\<close>

text \<open>What holds of the two ends and the position in each round.\<close>

definition search_inv :: "string list \<Rightarrow> string \<Rightarrow> int \<Rightarrow> int \<Rightarrow> int \<Rightarrow> bool" where
  "search_inv cids cid spos epos pos \<longleftrightarrow>
     0 \<le> spos \<and> spos \<le> epos + 1 \<and> spos \<le> int (length cids) \<and> epos \<le> int (length cids) \<and>
     (\<forall>i < nat spos. cids ! i < cid) \<and>
     (\<forall>i < length cids. epos < int i \<longrightarrow> cid < cids ! i) \<and>
     (pos = spos \<or> pos = epos + 1 \<and> epos < int (length cids))"

lemma search_inv_right:
  assumes inv: "search_inv cids cid spos epos pos" and le: "spos \<le> epos"
    and m: "m = (spos + epos) div 2" and mid: "m < int (length cids)"
    and srt: "sorted_wrt (<) cids" and lt: "cids ! nat m < cid"
  shows "search_inv cids cid (m + 1) epos (min (m + 1) (int (length cids)))"
proof -
  have b: "spos \<le> m" "m \<le> epos" "0 \<le> m" using inv le m by (auto simp: search_inv_def)
  have "cids ! i < cid" if "i < nat (m + 1)" for i
  proof (cases "i = nat m")
    case False
    then have "i < nat m" and "nat m < length cids" using that b mid by auto
    then have "cids ! i < cids ! nat m" using srt sorted_wrt_nth_less by blast
    with lt show ?thesis by simp
  qed (use lt in simp)
  with inv b mid show ?thesis by (auto simp: search_inv_def min_def)
qed

lemma search_inv_left:
  assumes inv: "search_inv cids cid spos epos pos" and le: "spos \<le> epos"
    and m: "m = (spos + epos) div 2" and mid: "m < int (length cids)"
    and srt: "sorted_wrt (<) cids" and lt: "cid < cids ! nat m"
  shows "search_inv cids cid spos (m - 1) m"
proof -
  have b: "spos \<le> m" "m \<le> epos" "0 \<le> m" using inv le m by (auto simp: search_inv_def)
  have "cid < cids ! i" if "i < length cids" "m - 1 < int i" for i
  proof (cases "i = nat m")
    case False
    then have "nat m < i" using that b by auto
    then have "cids ! nat m < cids ! i" using srt that sorted_wrt_nth_less by blast
    with lt show ?thesis by simp
  qed (use lt in simp)
  with inv b mid show ?thesis by (auto simp: search_inv_def)
qed

lemma search_inv_stop:
  assumes inv: "search_inv cids cid spos epos pos" and srt: "sorted_wrt (<) cids"
    and stop: "\<not> spos \<le> epos \<or> int (length cids) \<le> (spos + epos) div 2"
  shows "cid \<notin> set cids" and "pos = int (lower_bound cid cids)"
proof -
  have pos: "pos = spos" and below: "\<And>i. i < nat spos \<Longrightarrow> cids ! i < cid"
    and above: "\<And>i. nat spos \<le> i \<Longrightarrow> i < length cids \<Longrightarrow> cid < cids ! i"
    using inv stop by (auto simp: search_inv_def)
  then have "lower_bound cid cids = nat spos"
    using srt inv by (intro lower_bound_split) (auto simp: search_inv_def less_imp_le)
  with pos inv show "pos = int (lower_bound cid cids)" by (simp add: search_inv_def)
  show "cid \<notin> set cids"
  proof
    assume "cid \<in> set cids"
    then obtain i where "i < length cids" and "cids ! i = cid" by (auto simp: in_set_conv_nth)
    with below [of i] above [of i] show False by (cases "i < nat spos") auto
  qed
qed

lemma dup_search_correct:
  assumes "search_inv cids cid spos epos pos" and "sorted_wrt (<) cids"
  shows "dup_search cids cid spos epos pos = (cid \<in> set cids, int (lower_bound cid cids))"
  using assms
proof (induction cids cid spos epos pos rule: dup_search.induct)
  case (1 cids cid spos epos pos)
  let ?m = "(spos + epos) div 2"
  show ?case
  proof (cases "spos \<le> epos \<and> 0 \<le> spos \<and> ?m < int (length cids)")
    case False
    moreover have "0 \<le> spos" using "1.prems" by (simp add: search_inv_def)
    ultimately have stop: "\<not> spos \<le> epos \<or> int (length cids) \<le> ?m" by auto
    with search_inv_stop [OF "1.prems" stop] show ?thesis
      by (subst dup_search.simps) (auto simp: Let_def)
  next
    case True
    then have g: "spos \<le> epos \<and> 0 \<le> spos" "\<not> int (length cids) \<le> ?m" and m: "nat ?m < length cids" by auto
    consider "cids ! nat ?m < cid" | "cid < cids ! nat ?m" | "cid = cids ! nat ?m" by fastforce
    then show ?thesis
    proof cases
      case 1
      have "search_inv cids cid (?m + 1) epos (min (?m + 1) (int (length cids)))"
        using search_inv_right [OF "1.prems"(1) _ refl _ "1.prems"(2) 1] g by simp
      with "1.IH"(1) [OF g(1) refl g(2) 1] "1.prems"(2) g 1 show ?thesis
        by (subst dup_search.simps) (simp add: Let_def)
    next
      case 2
      then have n: "\<not> cids ! nat ?m < cid" by simp
      have "search_inv cids cid spos (?m - 1) ?m"
        using search_inv_left [OF "1.prems"(1) _ refl _ "1.prems"(2) 2] g by simp
      with "1.IH"(2) [OF g(1) refl g(2) n 2] "1.prems"(2) g n 2 show ?thesis
        by (subst dup_search.simps) (simp add: Let_def)
    next
      case 3
      have "lower_bound cid cids = nat ?m"
      proof (rule lower_bound_split [OF "1.prems"(2)])
        show "cids ! i < cid" if "i < nat ?m" for i
          using 3 m that sorted_wrt_nth_less [OF "1.prems"(2)] by simp
        show "cid \<le> cids ! i" if "nat ?m \<le> i" "i < length cids" for i
          using 3 m that sorted_wrt_nth_less [OF "1.prems"(2), of "nat ?m" i] by (cases "i = nat ?m") auto
      qed (use m in simp)
      moreover have "cid \<in> set cids" using 3 m by auto
      moreover have "dup_search cids cid spos epos pos = (True, ?m)"
        using g 3 by (subst dup_search.simps) (simp add: Let_def)
      ultimately show ?thesis using g by simp
    qed
  qed
qed

section \<open>The file table is a sorted table\<close>

abbreviation cids :: "'a workload_scheme \<Rightarrow> string list" where
  "cids s \<equiv> map file_cid (sealed_files s)"

definition files_sorted :: "'a workload_scheme \<Rightarrow> bool" where
  "files_sorted s \<longleftrightarrow> sorted_wrt (<) (cids s)"

lemma is_file_dup_sorted:
  assumes "files_sorted s"
  shows "is_file_dup_nolock cid s = (cid \<in> set (cids s), lower_bound cid (cids s))"
proof -
  have "search_inv (cids s) cid 0 (int (length (sealed_files s))) 0" by (simp add: search_inv_def)
  from dup_search_correct [OF this] assms show ?thesis
    by (simp add: is_file_dup_nolock_def files_sorted_def)
qed

lemma dup_position:
  assumes "files_sorted s" and "cid \<in> set (cids s)"
  shows "lower_bound cid (cids s) < length (sealed_files s)"
    and "file_cid (sealed_files s ! lower_bound cid (cids s)) = cid"
proof -
  obtain i where i: "i < length (sealed_files s)" "cids s ! i = cid"
    using assms(2) unfolding in_set_conv_nth by auto
  have "lower_bound cid (cids s) = i"
    using assms(1) i sorted_nth_less_iff [of "cids s"]
    by (intro lower_bound_split) (auto simp: files_sorted_def not_less [symmetric])
  with i show "lower_bound cid (cids s) < length (sealed_files s)"
    and "file_cid (sealed_files s ! lower_bound cid (cids s)) = cid" by auto
qed

definition files_of :: "'a workload_scheme \<Rightarrow> string \<Rightarrow> JSON option" where
  "files_of s = map_of (map (\<lambda>f. (file_cid f, f)) (sealed_files s))"

lemma dom_files_of: "files_of s cid \<noteq> None \<longleftrightarrow> cid \<in> set (cids s)"
  by (force simp: files_of_def map_of_eq_None_iff)

lemma files_of_cid: "files_of s cid = Some f \<Longrightarrow> file_cid f = cid \<and> f \<in> set (sealed_files s)"
  by (auto simp: files_of_def dest!: map_of_SomeD)

lemma files_of_mem: "files_sorted s \<Longrightarrow> f \<in> set (sealed_files s) \<Longrightarrow> files_of s (file_cid f) = Some f"
  by (auto simp: files_of_def files_sorted_def strict_sorted_iff o_def intro!: map_of_is_SomeI)

lemma files_of_position:
  assumes "files_sorted s" and "cid \<in> set (cids s)"
  shows "files_of s cid = Some (sealed_files s ! lower_bound cid (cids s))"
  using files_of_mem [OF assms(1) nth_mem [OF dup_position(1) [OF assms]]] dup_position(2) [OF assms] by simp

lemma files_insert:
  assumes "files_sorted s" and "file_cid f \<notin> set (cids s)" and "t = lower_bound (file_cid f) (cids s)"
  shows "files_sorted (s\<lparr>sealed_files := vec_insert t f (sealed_files s)\<rparr>)"
    and "files_of (s\<lparr>sealed_files := vec_insert t f (sealed_files s)\<rparr>) = (files_of s)(file_cid f \<mapsto> f)"
  using assms sorted_vec_insert [of "cids s" "file_cid f"]
  by (auto simp: files_sorted_def files_of_def map_vec_insert map_of_vec_insert image_image)

lemma files_erase:
  assumes "files_sorted s" and "pos < length (sealed_files s)"
  shows "files_sorted (s\<lparr>sealed_files := vec_erase pos (sealed_files s)\<rparr>)"
    and "files_of (s\<lparr>sealed_files := vec_erase pos (sealed_files s)\<rparr>) =
           (files_of s)(file_cid (sealed_files s ! pos) := None)"
proof -
  show "files_sorted (s\<lparr>sealed_files := vec_erase pos (sealed_files s)\<rparr>)"
    using assms(1) by (simp add: files_sorted_def map_vec_erase sorted_wrt_vec_erase)
  have "distinct (map fst (map (\<lambda>f. (file_cid f, f)) (sealed_files s)))"
    using assms(1) by (simp add: files_sorted_def strict_sorted_iff o_def)
  from map_of_vec_erase [OF this, of pos] assms(2)
  show "files_of (s\<lparr>sealed_files := vec_erase pos (sealed_files s)\<rparr>) =
      (files_of s)(file_cid (sealed_files s ! pos) := None)"
    by (simp add: files_of_def map_vec_erase)
qed

lemma files_update:
  assumes "files_sorted s" and "pos < length (sealed_files s)" and "file_cid f = file_cid (sealed_files s ! pos)"
  shows "files_sorted (s\<lparr>sealed_files := (sealed_files s)[pos := f]\<rparr>)"
    and "files_of (s\<lparr>sealed_files := (sealed_files s)[pos := f]\<rparr>) = (files_of s)(file_cid f \<mapsto> f)"
proof -
  have "map file_cid ((sealed_files s)[pos := f]) = cids s"
    using assms(2,3) by (simp add: map_update list_update_same_conv)
  then show "files_sorted (s\<lparr>sealed_files := (sealed_files s)[pos := f]\<rparr>)"
    using assms(1) by (simp add: files_sorted_def)
  have "distinct (map fst (map (\<lambda>f. (file_cid f, f)) (sealed_files s)))"
    using assms(1) by (simp add: files_sorted_def strict_sorted_iff o_def)
  from map_of_list_update [OF this, of pos "(file_cid f, f)"] assms(2,3)
  show "files_of (s\<lparr>sealed_files := (sealed_files s)[pos := f]\<rparr>) = (files_of s)(file_cid f \<mapsto> f)"
    by (simp add: files_of_def map_update)
qed

text \<open>
  What the rest of the enclave relies on: a table keyed by content identifiers. The laws say what a
  lookup gives after every operation; the lemmas are what the clients use.
\<close>

locale cid_table =
  fixes invar :: "'t \<Rightarrow> bool" and lookup :: "'t \<Rightarrow> string \<Rightarrow> JSON option"
    and find :: "'t \<Rightarrow> string \<Rightarrow> bool" and add :: "JSON \<Rightarrow> 't \<Rightarrow> 't" and del :: "string \<Rightarrow> 't \<Rightarrow> 't"
  assumes find_iff: "invar t \<Longrightarrow> find t cid \<longleftrightarrow> lookup t cid \<noteq> None"
    and lookup_add: "invar t \<Longrightarrow>
      lookup (add f t) = (if lookup t (file_cid f) = None then (lookup t)(file_cid f \<mapsto> f) else lookup t)"
    and lookup_del: "invar t \<Longrightarrow> lookup (del cid t) = (lookup t)(cid := None)"
    and invar_add: "invar t \<Longrightarrow> invar (add f t)"
    and invar_del: "invar t \<Longrightarrow> invar (del cid t)"
begin

lemma find_add: "invar t \<Longrightarrow> find (add f t) cid \<longleftrightarrow> cid = file_cid f \<or> find t cid"
  by (auto simp: find_iff invar_add lookup_add)

lemma find_del: "invar t \<Longrightarrow> find (del cid' t) cid \<longleftrightarrow> cid \<noteq> cid' \<and> find t cid"
  by (auto simp: find_iff invar_del lookup_del)

lemma del_add: "invar t \<Longrightarrow> \<not> find t (file_cid f) \<Longrightarrow> lookup (del (file_cid f) (add f t)) = lookup t"
  by (auto simp: find_iff invar_add lookup_add lookup_del fun_eq_iff)

lemma add_twice: "invar t \<Longrightarrow> file_cid f = file_cid g \<Longrightarrow> lookup (add g (add f t)) = lookup (add f t)"
  by (auto simp: invar_add lookup_add)

lemma add_commute:
  "invar t \<Longrightarrow> file_cid f \<noteq> file_cid g \<Longrightarrow> lookup (add f (add g t)) = lookup (add g (add f t))"
  by (auto simp: invar_add lookup_add fun_upd_twist)

end

interpretation files: cid_table files_sorted files_of "\<lambda>s cid. fst (is_file_dup_nolock cid s)"
    add_file_nolock del_file_nolock
proof unfold_locales
  fix s :: "'a workload_scheme" and cid f
  assume srt: "files_sorted s"
  show "fst (is_file_dup_nolock cid s) \<longleftrightarrow> files_of s cid \<noteq> None"
    using srt dom_files_of [of s cid] by (simp add: is_file_dup_sorted)
  have none: "files_of s (file_cid f) = None \<longleftrightarrow> file_cid f \<notin> set (cids s)"
    using dom_files_of [of s "file_cid f"] by blast
  show "files_of (add_file_nolock f s) =
      (if files_of s (file_cid f) = None then (files_of s)(file_cid f \<mapsto> f) else files_of s)"
    using files_insert(2) [OF srt _ refl, of f] srt
    by (simp add: none add_file_nolock_def is_file_dup_sorted)
  show "files_sorted (add_file_nolock f s)"
    using files_insert(1) [OF srt _ refl, of f] srt by (simp add: add_file_nolock_def is_file_dup_sorted)
  show "files_of (del_file_nolock cid s) = (files_of s)(cid := None)"
  proof (cases "cid \<in> set (cids s)")
    case True
    with files_erase(2) [OF srt dup_position(1) [OF srt True]] srt show ?thesis
      by (simp add: del_file_nolock_def is_file_dup_sorted dup_position(2))
  next
    case False
    with srt dom_files_of [of s cid] show ?thesis
      by (auto simp: del_file_nolock_def is_file_dup_sorted fun_upd_idem)
  qed
  show "files_sorted (del_file_nolock cid s)"
    using files_erase(1) [OF srt dup_position(1) [OF srt]] srt
    by (simp add: del_file_nolock_def is_file_dup_sorted)
qed

section \<open>Well-formed entries\<close>

text \<open>
  An entry is an object with a cid that needs no escaping and a status of three characters, the
  current, the waiting and the original status.
\<close>

definition status_chars :: string where
  "status_chars = [FILE_STATUS_UNVERIFIED, FILE_STATUS_VALID, FILE_STATUS_LOST, FILE_STATUS_DELETED, FILE_STATUS_PENDING]"

definition status_wf :: "JSON \<Rightarrow> bool" where
  "status_wf j = (case j of JString st \<Rightarrow> length st = 3 \<and> list_all (\<lambda>c. c \<in> set status_chars) st | _ \<Rightarrow> False)"

definition cid_wf :: "JSON \<Rightarrow> bool" where
  "cid_wf j = (case j of JString c \<Rightarrow> json_plain c | _ \<Rightarrow> False)"

definition file_wf :: "JSON \<Rightarrow> bool" where
  "file_wf f \<longleftrightarrow> JSONType f = CObject \<and> status_wf (jget f FILE_STATUS) \<and> cid_wf (jget f FILE_CID)"

lemma file_wf_status:
  assumes "file_wf f"
  obtains st where "jget f FILE_STATUS = JString st" and "length st = 3"
    and "\<forall>i < 3. st ! i \<in> set status_chars" and "\<forall>i < 3. file_status f i = st ! i"
  using assms that
  by (auto simp: file_wf_def status_wf_def file_status_def list_all_length split: JSON.splits)

lemma file_wf_type: "file_wf f \<Longrightarrow> JSONType f \<noteq> CFIOObject"
  by (simp add: file_wf_def)

lemma file_wf_cid: "file_wf f \<Longrightarrow> jget f FILE_CID = JString (file_cid f) \<and> json_plain (file_cid f)"
  by (auto simp: file_wf_def cid_wf_def file_cid_def json_escape_plain split: JSON.splits)

lemma file_status_mem: "file_wf f \<Longrightarrow> i < 3 \<Longrightarrow> file_status f i \<in> set status_chars"
  by (erule file_wf_status) auto

lemma set_status_other [file_simps]:
  assumes "file_wf f"
  shows "file_cid (set_status i c f) = file_cid f" and "file_size (set_status i c f) = file_size f"
    and "k \<noteq> FILE_STATUS \<Longrightarrow> jget (set_status i c f) k = jget f k"
  using file_wf_type [OF assms] by (simp_all add: set_status_def file_cid_def file_size_def)

lemma file_status_set [file_simps]:
  assumes "file_wf f" and "i < 3"
  shows "file_status (set_status i c f) i' = (if i' = i then c else file_status f i')"
proof -
  obtain st where st: "jget f FILE_STATUS = JString st" "length st = 3" using assms(1) by (rule file_wf_status)
  then show ?thesis
    using assms(2) file_wf_type [OF assms(1)] by (auto simp: set_status_def file_status_def get_char_def)
qed

lemma file_wf_set_status [inv_intros]:
  assumes "file_wf f" and "i < 3" and "c \<in> set status_chars"
  shows "file_wf (set_status i c f)"
proof -
  obtain st where st: "jget f FILE_STATUS = JString st" "length st = 3" using assms(1) by (rule file_wf_status)
  have "list_all (\<lambda>c. c \<in> set status_chars) st"
    using assms(1) st by (simp add: file_wf_def status_wf_def)
  then have "list_all (\<lambda>c. c \<in> set status_chars) (st[i := c])"
    using assms(3) by (auto simp: list_all_iff dest!: set_update_subset_insert [THEN subsetD])
  then show ?thesis
    using assms(1,2) st file_wf_type [OF assms(1)]
    by (simp add: set_status_def file_wf_def status_wf_def)
qed

lemma removable_iff:
  assumes "file_wf f"
  shows "removable f \<longleftrightarrow> file_status f CURRENT_STATUS = FILE_STATUS_DELETED \<and>
    file_status f ORIGIN_STATUS \<in> {FILE_STATUS_DELETED, FILE_STATUS_UNVERIFIED, FILE_STATUS_LOST}"
proof -
  obtain st where st: "jget f FILE_STATUS = JString st" "length st = 3"
    and mem: "\<forall>i < 3. st ! i \<in> set status_chars"
    and fs: "\<forall>i < 3. file_status f i = st ! i"
    using assms by (rule file_wf_status)
  have "json_plain st"
    using st(2) mem by (auto simp: json_plain_def list_all_length status_chars_def json_escape_char_def)
  with st fs [rule_format, of 0] fs [rule_format, of 2] show ?thesis
    by (auto simp: removable_def str_char_def json_escape_plain)
qed

section \<open>The invariant of the workload\<close>

definition wl_inv :: "'a workload_scheme \<Rightarrow> bool" where
  "wl_inv s \<longleftrightarrow> files_sorted s \<and> list_all file_wf (sealed_files s) \<and>
     sorted_wrt (<) (file_del_cid_s s) \<and> sorted_wrt (<) (srd_del_idx_s s) \<and>
     sorted_wrt (<) (reported_files_idx s) \<and> om_sorted (pending_files_um s) \<and>
     list_all (\<lambda>h. length h = SRD_LENGTH) (srd_hashs s) \<and>
     validated_srd_proof s \<in> {0..VALIDATE_PROOF_MAX_NUM} \<and>
     validated_file_proof s \<in> {0..VALIDATE_PROOF_MAX_NUM} \<and> restart_flag s \<in> {0..1}"

lemma wl_inv_init: "wl_inv Workload_init"
  by (simp add: wl_inv_def Workload_init_def files_sorted_def om_sorted_def)

lemma wl_inv_more:
  assumes "wl_inv s" and "boundary.more s' = boundary.more s"
  shows "wl_inv s'"
  using assms by (cases s; cases s') (simp add: wl_inv_def files_sorted_def)

lemma sorted_insort_insert: "sorted_wrt (<) xs \<Longrightarrow> sorted_wrt (<) (insort_insert (x :: 'b::linorder) xs)"
  by (simp add: strict_sorted_iff distinct_insort_insert sorted_insort_insert)

lemma sorted_remove1: "sorted_wrt (<) xs \<Longrightarrow> sorted_wrt (<) (remove1 (x :: 'b::linorder) xs)"
  by (simp add: strict_sorted_iff sorted_remove1)

lemma wl_inv_file_at:
  "wl_inv s \<Longrightarrow> pos < length (sealed_files s) \<Longrightarrow> file_wf (sealed_files s ! pos)"
  by (simp add: wl_inv_def list_all_length)

text \<open>Preservation by the operations on the table.\<close>

lemma wl_inv_upd_file [inv_intros]:
  assumes "wl_inv s" and "pos < length (sealed_files s)"
    and "\<And>f. file_wf f \<Longrightarrow> file_wf (g f) \<and> file_cid (g f) = file_cid f"
  shows "wl_inv (upd_file pos g s)"
proof -
  have f: "file_wf (sealed_files s ! pos)" using assms(1,2) by (rule wl_inv_file_at)
  have "files_sorted (upd_file pos g s)"
    unfolding upd_file_def using assms f by (intro files_update(1)) (auto simp: wl_inv_def)
  moreover have "list_all file_wf (sealed_files (upd_file pos g s))"
    using assms f by (auto simp: wl_inv_def upd_file_def list_all_iff dest!: set_update_subset_insert [THEN subsetD])
  ultimately show ?thesis using assms(1) by (simp add: wl_inv_def upd_file_def)
qed

lemma wl_inv_erase [inv_intros]:
  assumes "wl_inv s" and "pos < length (sealed_files s)"
  shows "wl_inv (s\<lparr>sealed_files := vec_erase pos (sealed_files s)\<rparr>)"
  using assms files_erase(1) [of s pos] set_vec_erase_subset [of pos "sealed_files s"]
  by (auto simp: wl_inv_def list_all_iff files_sorted_def)

lemma wl_inv_insert [inv_intros]:
  assumes "wl_inv s" and "file_cid f \<notin> set (cids s)" and "file_wf f"
  shows "wl_inv (s\<lparr>sealed_files := vec_insert (lower_bound (file_cid f) (cids s)) f (sealed_files s)\<rparr>)"
  using assms files_insert(1) [of s f, OF _ assms(2) refl]
  by (simp add: wl_inv_def list_all_iff files_sorted_def)

lemma wl_inv_del_file [inv_intros]: "wl_inv s \<Longrightarrow> wl_inv (del_file_nolock cid s)"
  using wl_inv_erase [of s "lower_bound cid (cids s)"] dup_position(1) [of s cid]
  by (auto simp: del_file_nolock_def is_file_dup_sorted wl_inv_def)

lemma wl_inv_add_file [inv_intros]: "wl_inv s \<Longrightarrow> file_wf f \<Longrightarrow> wl_inv (add_file_nolock f s)"
  using wl_inv_insert [of s f] by (auto simp: add_file_nolock_def is_file_dup_sorted wl_inv_def)

lemma wl_inv_fields [inv_intros]:
  assumes "wl_inv s"
  shows "wl_inv (set_file_spec c n s)" "wl_inv (set_srd_info u n s)" "wl_inv (set_srd_remaining_task n s)"
    "wl_inv (snd (get_srd_info s))" "wl_inv (set_report_file_flag b s)" "wl_inv (set_upgrade k s)"
    "wl_inv (unset_upgrade s)" "wl_inv (set_upgrade_status us s)" "wl_inv (set_account_id a s)"
    "wl_inv (set_key_pair kp s)" "wl_inv (unset_key_pair s)" "wl_inv (set_mr_enclave mr s)"
    "wl_inv (set_report_height h s)" "wl_inv (set_restart_flag s)"
  using assms
  by (simp_all add: wl_inv_def files_sorted_def set_file_spec_def set_srd_info_def set_srd_remaining_task_def
      get_srd_info_def set_report_file_flag_def set_upgrade_def unset_upgrade_def set_upgrade_status_def
      set_account_id_def set_key_pair_def unset_key_pair_def set_mr_enclave_def set_report_height_def
      set_restart_flag_def Let_def split: option.splits)

lemma wl_inv_counters [inv_intros]:
  assumes "wl_inv s"
  shows "wl_inv (report_add_validated_srd_proof s)" "wl_inv (report_add_validated_file_proof s)"
    "wl_inv (report_reset_validated_proof s)" "wl_inv (reduce_restart_flag s)"
  using assms
  by (auto simp: wl_inv_def files_sorted_def report_add_validated_srd_proof_def
      report_add_validated_file_proof_def report_reset_validated_proof_def reduce_restart_flag_def Let_def)

lemma wl_inv_emit [inv_intros]: "wl_inv s \<Longrightarrow> wl_inv (emit c s)"
  by (erule wl_inv_more) (simp add: frame_simps)

lemma wl_inv_boundary [inv_intros]:
  assumes "wl_inv s"
  shows "wl_inv (snd (safe_ocall_store2 e t data s))" "wl_inv (snd (persist_set_unsafe e k v s))"
    "wl_inv (snd (persist_set e k v s))" "wl_inv (snd (persist_del e k s))" "wl_inv (snd (ocall_do e c s))"
  using assms by (auto intro!: wl_inv_more [OF assms] simp: frame_simps)

lemma wl_inv_buffers [inv_intros]:
  assumes "wl_inv s"
  shows "wl_inv (snd (add_srd_to_deleted_buffer i s))" "wl_inv (snd (add_to_deleted_file_buffer cid s))"
    "wl_inv (recover_from_deleted_file_buffer cid s)"
  using assms
  by (simp_all add: wl_inv_def files_sorted_def add_srd_to_deleted_buffer_def add_to_deleted_file_buffer_def
      recover_from_deleted_file_buffer_def sorted_insort_insert sorted_remove1)

lemma wl_inv_send_srd_info [inv_intros]: "wl_inv s \<Longrightarrow> wl_inv (send_srd_info e s)"
  using wl_inv_fields(4) [of s] by (auto simp: send_srd_info_def intro: wl_inv_emit split: prod.splits)

section \<open>Deleting srd items\<close>

lemma srd_hashs_set_srd_info [frame_simps]: "srd_hashs (set_srd_info u n s) = srd_hashs s"
  by (simp add: set_srd_info_def Let_def)

lemma srd_hashs_send [frame_simps]: "srd_hashs (send_srd_info e s) = srd_hashs s"
  by (simp add: send_srd_info_def get_srd_info_def emit_def Let_def)

lemma delete_srd_loop_hashs:
  "sorted_wrt (>) is \<Longrightarrow>
   srd_hashs (snd (delete_srd_loop e is n s)) = nths (srd_hashs s) (- set is) \<and>
   fst (delete_srd_loop e is n s) = n + int (card (set is \<inter> {..<length (srd_hashs s)}))"
proof (induction e "is" n s rule: delete_srd_loop.induct)
  case (1 e n s)
  then show ?case by (simp add: nths_all)
next
  case (2 e i "is" n s)
  then have lt: "set is \<subseteq> {..<i}" and srt: "sorted_wrt (>) is" by auto
  show ?case
  proof (cases "i < length (srd_hashs s)")
    case True
    let ?s' = "set_srd_info (hexstring_safe e (take UUID_LENGTH (srd_hashs s ! i))) (- 1) s"
    have len: "set is \<inter> {..<length (srd_hashs s) - Suc 0} = set is"
      and ins: "insert i (set is) \<inter> {..<length (srd_hashs s)} = insert i (set is)"
      using lt True by auto
    have "i \<notin> set is" using lt by auto
    then have "card (insert i (set is)) = Suc (card (set is))" by simp
    with 2(1) [OF True refl refl srt] True show ?thesis
      using nths_vec_erase [OF lt True]
      by (simp add: Let_def frame_simps len ins)
  next
    case False
    then have "nths (srd_hashs s) (- insert i (set is)) = nths (srd_hashs s) (- set is)"
      unfolding nths_def by (intro arg_cong [where f = "map fst"] filter_cong) (auto dest: set_zip_rightD)
    moreover have "insert i (set is) \<inter> {..<length (srd_hashs s)} = set is \<inter> {..<length (srd_hashs s)}"
      using False by auto
    ultimately show ?thesis using 2(2) [OF False srt] False by simp
  qed
qed

lemma delete_srd_meta_hashs:
  assumes "sorted_wrt (<) is"
  shows "srd_hashs (snd (delete_srd_meta e is s)) = nths (srd_hashs s) (- set is)"
    and "fst (delete_srd_meta e is s) = int (card (set is \<inter> {..<length (srd_hashs s)}))"
proof -
  have "sorted_wrt (>) (rev is)" using assms by (simp add: sorted_wrt_rev)
  from delete_srd_loop_hashs [OF this, of e 0 s]
  show "srd_hashs (snd (delete_srd_meta e is s)) = nths (srd_hashs s) (- set is)"
    and "fst (delete_srd_meta e is s) = int (card (set is \<inter> {..<length (srd_hashs s)}))"
    by (auto simp: delete_srd_meta_def nths_all frame_simps split: prod.splits)
qed

lemma delete_srd_loop_inv: "wl_inv s \<Longrightarrow> wl_inv (snd (delete_srd_loop e is n s))"
proof (induction e "is" n s rule: delete_srd_loop.induct)
  case (2 e i "is" n s)
  let ?s' = "set_srd_info (hexstring_safe e (take UUID_LENGTH (srd_hashs s ! i))) (- 1) s"
  have "wl_inv (?s'\<lparr>srd_hashs := vec_erase i (srd_hashs ?s')\<rparr>)"
    using wl_inv_fields(2) [OF 2(3), of _ "- 1"] set_vec_erase_subset [of i "srd_hashs ?s'"]
    by (auto simp: wl_inv_def files_sorted_def list_all_iff)
  with 2 show ?case by (simp add: Let_def)
qed simp

lemma delete_srd_meta_inv [inv_intros]: "wl_inv s \<Longrightarrow> wl_inv (snd (delete_srd_meta e is s))"
  using delete_srd_loop_inv [of s e "rev is" 0]
  by (auto simp: delete_srd_meta_def intro: wl_inv_send_srd_info split: prod.splits)

lemma deal_deleted_srd_inv [inv_intros]: "wl_inv s \<Longrightarrow> wl_inv (deal_deleted_srd e s)"
  unfolding deal_deleted_srd_def by (intro delete_srd_meta_inv) (simp add: wl_inv_def files_sorted_def)

section \<open>The srd information\<close>

text \<open>
  The statistics in \<open>srd_info_json\<close> agree with the items: \<open>srd_complete\<close> is their number and
  \<open>srd_detail\<close> counts them by disk. A counter is null or an integer.
\<close>

definition num_wf :: "JSON \<Rightarrow> bool" where
  "num_wf j = (case j of JNull \<Rightarrow> True | JIntegral _ \<Rightarrow> True | _ \<Rightarrow> False)"

lemma AddNum_num: "num_wf j \<Longrightarrow> AddNum n j = JIntegral (long_wrap (ToInt j + n))"
  by (auto simp: num_wf_def AddNum_def long_add_def split: JSON.splits)

definition srd_uuid :: "bytes \<Rightarrow> string" where
  "srd_uuid h = plain_hex (take UUID_LENGTH h)"

definition srd_info_ok :: "JSON \<Rightarrow> bytes list \<Rightarrow> bool" where
  "srd_info_ok j hs \<longleftrightarrow>
     JSONType j \<in> {CNull, CObject} \<and> JSONType (jget j WL_SRD_DETAIL) \<in> {CNull, CObject} \<and>
     num_wf (jget j WL_SRD_COMPLETE) \<and> ToInt (jget j WL_SRD_COMPLETE) = int (length hs) \<and>
     (\<forall>u. num_wf (jget (jget j WL_SRD_DETAIL) u) \<and>
          ToInt (jget (jget j WL_SRD_DETAIL) u) = int (length (filter (\<lambda>h. srd_uuid h = u) hs)))"

definition srd_consistent :: "'a workload_scheme \<Rightarrow> bool" where
  "srd_consistent s \<longleftrightarrow> srd_info_ok (srd_info_json s) (srd_hashs s)"

lemma srd_consistent_init: "srd_consistent Workload_init"
  by (simp add: srd_consistent_def Workload_init_def srd_info_ok_def num_wf_def)

lemma srd_info_type: "srd_info_ok j hs \<Longrightarrow> JSONType j \<noteq> CFIOObject \<and> JSONType (jget j WL_SRD_DETAIL) \<noteq> CFIOObject"
  by (auto simp: srd_info_ok_def)

text \<open>The new JSON of \<open>set_srd_info\<close> as a function of the old one.\<close>

definition srd_info_step :: "string \<Rightarrow> int \<Rightarrow> JSON \<Rightarrow> JSON" where
  "srd_info_step u n j = srd_info_json (set_srd_info u n (Workload_init\<lparr>srd_info_json := j\<rparr>))"

lemma srd_info_set [frame_simps]: "srd_info_json (set_srd_info u n s) = srd_info_step u n (srd_info_json s)"
  by (simp add: srd_info_step_def set_srd_info_def Let_def)

lemma srd_info_step_ok:
  assumes ok: "srd_info_ok j hs" and len: "length hs < 2 ^ 62" "length hs' < 2 ^ 62"
    and n: "int (length hs') = int (length hs) + n"
    and cnt: "\<And>u'. int (length (filter (\<lambda>h. srd_uuid h = u') hs')) =
      int (length (filter (\<lambda>h. srd_uuid h = u') hs)) + (if u' = u then n else 0)"
  shows "srd_info_ok (srd_info_step u n j) hs'"
proof -
  note ty = srd_info_type [OF ok]
  have c: "num_wf (jget j WL_SRD_COMPLETE)" "ToInt (jget j WL_SRD_COMPLETE) = int (length hs)"
    using ok by (auto simp: srd_info_ok_def)
  have d: "num_wf (jget (jget j WL_SRD_DETAIL) u')"
    "ToInt (jget (jget j WL_SRD_DETAIL) u') = int (length (filter (\<lambda>h. srd_uuid h = u') hs))" for u'
    using ok by (auto simp: srd_info_ok_def)
  let ?j1 = "jupd j WL_SRD_COMPLETE (AddNum n)"
  let ?j2 = "if ToInt (jget ?j1 WL_SRD_COMPLETE) \<le> 0 then jset ?j1 WL_SRD_COMPLETE (JIntegral 0) else ?j1"
  have w1: "long_wrap (int (length hs) + n) = int (length hs')"
    using len n by (simp add: long_wrap_id)
  have w2: "long_wrap (int (length (filter (\<lambda>h. srd_uuid h = u) hs)) + n) =
      int (length (filter (\<lambda>h. srd_uuid h = u) hs'))"
  proof -
    have "length (filter (\<lambda>h. srd_uuid h = u) hs') < 2 ^ 62"
      using length_filter_le len(2) by (rule le_less_trans)
    then have "int (length (filter (\<lambda>h. srd_uuid h = u) hs')) < 2 ^ 63" by simp
    then show ?thesis using cnt [of u] by (simp add: long_wrap_id)
  qed
  have step: "srd_info_step u n j = jupd ?j2 WL_SRD_DETAIL (\<lambda>x. jupd x u (AddNum n))"
    by (simp add: srd_info_step_def set_srd_info_def Let_def)
  have t2: "JSONType ?j2 \<noteq> CFIOObject" and det2: "jget ?j2 WL_SRD_DETAIL = jget j WL_SRD_DETAIL"
    and com2: "jget ?j2 WL_SRD_COMPLETE = JIntegral (int (length hs'))"
    using ty c w1 by (auto simp: AddNum_num)
  have ty2: "JSONType ?j2 = CObject" using ty by auto
  show ?thesis
    unfolding srd_info_ok_def step
    using t2 ty ty2 det2 com2 d cnt w2 by (auto simp: num_wf_def AddNum_num)
qed

lemma srd_consistent_push:
  assumes "srd_consistent s" and "length (srd_hashs s) < 2 ^ 61" and "u = srd_uuid h"
  shows "srd_consistent (set_srd_info u 1 (s\<lparr>srd_hashs := srd_hashs s @ [h]\<rparr>))"
  using assms unfolding srd_consistent_def
  by (simp add: frame_simps) (rule srd_info_step_ok [of _ "srd_hashs s"], auto)

lemma srd_consistent_erase:
  assumes "srd_consistent s" and "length (srd_hashs s) < 2 ^ 61" and "i < length (srd_hashs s)"
    and "u = srd_uuid (srd_hashs s ! i)" and "s' = set_srd_info u (- 1) s"
  shows "srd_consistent (s'\<lparr>srd_hashs := vec_erase i (srd_hashs s')\<rparr>)"
proof -
  have "0 < length (filter (\<lambda>h. srd_uuid h = u) (srd_hashs s))"
    using assms(3,4) by (simp add: filter_empty_conv) (metis nth_mem)
  then obtain k where "length (filter (\<lambda>h. srd_uuid h = u) (srd_hashs s)) = Suc k"
    using gr0_implies_Suc by blast
  then have "srd_info_ok (srd_info_step u (- 1) (srd_info_json s)) (vec_erase i (srd_hashs s))"
    using assms by (intro srd_info_step_ok [of _ "srd_hashs s"])
      (auto simp: srd_consistent_def filter_vec_erase of_nat_diff)
  then show ?thesis using assms(5) by (simp add: srd_consistent_def frame_simps)
qed

lemma srd_info_ok_empty:
  assumes "srd_info_ok j hs" and "json_size j \<le> 0"
  shows "srd_info_ok (JObject []) hs"
proof -
  have "j = JNull \<or> j = JObject []"
    using assms by (cases j) (auto simp: srd_info_ok_def json_size_def)
  then show ?thesis
  proof
    assume "j = JNull"
    with assms(1) show ?thesis unfolding srd_info_ok_def by simp
  qed (use assms(1) in simp)
qed

lemma srd_consistent_send: "srd_consistent s \<Longrightarrow> srd_consistent (send_srd_info e s)"
  using srd_info_ok_empty [of "srd_info_json s" "srd_hashs s"]
  by (simp add: srd_consistent_def send_srd_info_def get_srd_info_def emit_def Let_def)

lemma srd_consistent_delete_loop:
  "heap_ok e \<Longrightarrow> srd_consistent s \<Longrightarrow> length (srd_hashs s) < 2 ^ 61 \<Longrightarrow>
   srd_consistent (snd (delete_srd_loop e is n s))"
proof (induction e "is" n s rule: delete_srd_loop.induct)
  case (2 e i "is" n s)
  show ?case
  proof (cases "i < length (srd_hashs s)")
    case True
    let ?s' = "set_srd_info (hexstring_safe e (take UUID_LENGTH (srd_hashs s ! i))) (- 1) s"
    have "srd_consistent (?s'\<lparr>srd_hashs := vec_erase i (srd_hashs ?s')\<rparr>)"
      using srd_consistent_erase [OF 2(4,5) True _ refl] 2(3) by (simp add: srd_uuid_def hexstring_plain)
    moreover have "length (vec_erase i (srd_hashs s)) < 2 ^ 61" using True 2(5) by simp
    ultimately show ?thesis using 2(1) [OF True refl refl 2(3)] True by (simp add: Let_def frame_simps)
  next
    case False
    then show ?thesis using 2 by simp
  qed
qed simp

lemma srd_consistent_delete_meta:
  assumes "heap_ok e" and "srd_consistent s" and "length (srd_hashs s) < 2 ^ 61"
  shows "srd_consistent (snd (delete_srd_meta e is s))"
  using srd_consistent_delete_loop [OF assms, of "rev is" 0] assms(2)
  by (auto simp: delete_srd_meta_def intro: srd_consistent_send split: prod.splits)

section \<open>Removing deleted files\<close>

definition removable_cids :: "'a workload_scheme \<Rightarrow> string set" where
  "removable_cids s = {cid. \<exists>f. files_of s cid = Some f \<and> removable f}"

lemma removable_cids_dup:
  assumes "files_sorted s"
  shows "cid \<in> removable_cids s \<longleftrightarrow>
    (let (dup, pos) = is_file_dup_nolock cid s in dup \<and> removable (sealed_files s ! pos))"
proof (cases "cid \<in> set (cids s)")
  case True
  with assms show ?thesis
    by (simp add: is_file_dup_sorted removable_cids_def files_of_position)
next
  case False
  moreover have "files_of s cid = None" using False dom_files_of [of s cid] by blast
  ultimately show ?thesis using assms by (simp add: is_file_dup_sorted removable_cids_def)
qed

lemma deal_deleted_loop_spec:
  assumes "wl_inv s" and "distinct cs" and "sorted_wrt (<) left" and "deal_deleted_loop cs left s = (left', s')"
  shows "wl_inv s' \<and> files_of s' = (\<lambda>c. if c \<in> set cs \<inter> removable_cids s then None else files_of s c) \<and>
    set left' = set left - (set cs \<inter> removable_cids s) \<and> sorted_wrt (<) left' \<and>
    s' = s\<lparr>sealed_files := sealed_files s'\<rparr>"
  using assms
proof (induction cs left s arbitrary: left' s' rule: deal_deleted_loop.induct)
  case (2 cid cids' left s)
  have srt: "files_sorted s" using 2(3) by (simp add: wl_inv_def)
  let ?pos = "lower_bound cid (cids s)"
  let ?s1 = "s\<lparr>sealed_files := vec_erase ?pos (sealed_files s)\<rparr>"
  show ?case
  proof (cases "cid \<in> removable_cids s")
    case True
    then have dup: "cid \<in> set (cids s)" and rem: "removable (sealed_files s ! ?pos)"
      using srt removable_cids_dup [of s cid] by (auto simp: is_file_dup_sorted)
    have f1: "files_of ?s1 = (files_of s)(cid := None)"
      using files_erase(2) [OF srt dup_position(1) [OF srt dup]] dup_position(2) [OF srt dup] by simp
    have r1: "removable_cids ?s1 = removable_cids s - {cid}"
      unfolding removable_cids_def f1 by auto
    have lp: "deal_deleted_loop cids' (remove1 cid left) ?s1 = (left', s')"
      using 2(6) dup rem srt by (simp add: is_file_dup_sorted)
    have w1: "wl_inv ?s1" using wl_inv_erase [OF 2(3) dup_position(1) [OF srt dup]] .
    have "set (remove1 cid left) = set left - {cid}" using 2(5) by (simp add: strict_sorted_iff)
    moreover have "sorted_wrt (<) (remove1 cid left)" using 2(5) by (rule sorted_remove1)
    ultimately show ?thesis
      using 2(1) [OF is_file_dup_sorted [OF srt, symmetric] refl _ w1 _ _ lp] 2(4) dup rem True
      by (auto simp: f1 r1 fun_eq_iff)
  next
    case False
    then have n: "\<not> (cid \<in> set (cids s) \<and> removable (sealed_files s ! ?pos))"
      using srt removable_cids_dup [of s cid] by (auto simp: is_file_dup_sorted)
    then have lp: "deal_deleted_loop cids' left s = (left', s')"
      using 2(6) srt by (auto simp: is_file_dup_sorted)
    show ?thesis
      using 2(2) [OF is_file_dup_sorted [OF srt, symmetric] refl n 2(3) _ 2(5) lp] 2(4) False
      by (auto simp: fun_eq_iff)
  qed
qed simp

lemma fold_insort_insert:
  "sorted_wrt (<) ys \<Longrightarrow>
   set (fold insort_insert xs ys) = set xs \<union> set ys \<and> sorted_wrt (<) (fold insort_insert xs (ys :: 'b::linorder list))"
  by (induction xs arbitrary: ys) (auto simp: set_insort_insert sorted_insort_insert)

lemma deal_deleted_file_spec:
  assumes "wl_inv s"
  shows "wl_inv (deal_deleted_file s)"
    and "files_of (deal_deleted_file s) =
      (\<lambda>c. if c \<in> set (file_del_cid_s s) \<inter> removable_cids s then None else files_of s c)"
    and "set (file_del_cid_s (deal_deleted_file s)) = set (file_del_cid_s s) - removable_cids s"
proof -
  let ?s0 = "s\<lparr>file_del_cid_s := []\<rparr>"
  obtain lf s' where lp: "deal_deleted_loop (file_del_cid_s s) (file_del_cid_s s) ?s0 = (lf, s')"
    by (cases "deal_deleted_loop (file_del_cid_s s) (file_del_cid_s s) ?s0")
  have f0: "files_of ?s0 = files_of s" "removable_cids ?s0 = removable_cids s"
    by (simp_all add: files_of_def removable_cids_def)
  have "wl_inv ?s0" using assms by (simp add: wl_inv_def files_sorted_def)
  then have r: "wl_inv s'" "files_of s' = (\<lambda>c. if c \<in> set (file_del_cid_s s) \<inter> removable_cids s then None else files_of s c)"
    "set lf = set (file_del_cid_s s) - removable_cids s" "sorted_wrt (<) lf" "file_del_cid_s s' = []"
    using deal_deleted_loop_spec [OF _ _ _ lp] assms f0 by (auto simp: wl_inv_def strict_sorted_iff)
      (metis (no_types, lifting) workload.select_convs(20) workload.surjective workload.update_convs)+
  have d: "deal_deleted_file s = s'\<lparr>file_del_cid_s := fold insort_insert lf []\<rparr>"
    using lp r(5) by (simp add: deal_deleted_file_def)
  show "wl_inv (deal_deleted_file s)"
    using r(1) fold_insort_insert [of "[] :: string list" lf] by (simp add: d wl_inv_def files_sorted_def)
  show "files_of (deal_deleted_file s) =
      (\<lambda>c. if c \<in> set (file_del_cid_s s) \<inter> removable_cids s then None else files_of s c)"
    using r(2) by (simp add: d files_of_def)
  show "set (file_del_cid_s (deal_deleted_file s)) = set (file_del_cid_s s) - removable_cids s"
    using r(3) fold_insort_insert [of "[] :: string list" lf] by (simp add: d)
qed

section \<open>Recovering, cleaning and restoring keep the invariant\<close>

lemma wl_inv_recover_one: "wl_inv s \<Longrightarrow> wl_inv (recover_one type cid s)"
proof -
  assume inv: "wl_inv s"
  then have srt: "files_sorted s" by (simp add: wl_inv_def)
  show ?thesis
  proof (cases "cid \<in> set (cids s)")
    case True
    have "wl_inv (upd_file (lower_bound cid (cids s)) (set_status ORIGIN_STATUS c) s)"
      if "c \<in> set status_chars" for c
      using inv dup_position(1) [OF srt True] that
      by (intro wl_inv_upd_file) (auto intro: file_wf_set_status simp: file_simps)
    with True srt show ?thesis
      by (simp add: recover_one_def is_file_dup_sorted Let_def status_chars_def)
  next
    case False
    with inv srt show ?thesis by (simp add: recover_one_def is_file_dup_sorted)
  qed
qed

lemma wl_inv_fold: "wl_inv s \<Longrightarrow> (\<And>x s. wl_inv s \<Longrightarrow> wl_inv (f x s)) \<Longrightarrow> wl_inv (fold f xs s)"
  by (induction xs arbitrary: s) auto

lemma wl_inv_recover_files: "wl_inv s \<Longrightarrow> wl_inv (recover_files j s)"
  unfolding recover_files_def by (intro wl_inv_fold) (auto intro!: wl_inv_fold wl_inv_recover_one)

lemma wl_inv_recover_illegal:
  "wl_inv s \<Longrightarrow> recover_illegal_file e fl data s = Some (st, s') \<Longrightarrow> wl_inv s'"
  using wl_inv_recover_files [of s]
  by (auto simp: recover_illegal_file_def split: presult.splits if_splits)

lemma wl_inv_clean_srd [inv_intros]: "wl_inv s \<Longrightarrow> wl_inv (clean_srd e s)"
  unfolding clean_srd_def by (intro wl_inv_emit) (simp add: wl_inv_def files_sorted_def)

lemma wl_inv_clean_file [inv_intros]: "wl_inv s \<Longrightarrow> wl_inv (clean_file e s)"
  unfolding clean_file_def by (intro wl_inv_boundary) (simp add: wl_inv_def files_sorted_def)

lemma wl_inv_clean_all [inv_intros]: "wl_inv s \<Longrightarrow> wl_inv (clean_all e s)"
  unfolding clean_all_def by (intro inv_intros)

lemma length_hex_srd: "hex_string_to_bytes e hex = Some b \<Longrightarrow> length hex = 2 * SRD_LENGTH \<Longrightarrow> length b = SRD_LENGTH"
  using hex_string_to_bytes_length by fastforce

text \<open>Restoring srd items: every item decodes, and the statistics are rebuilt with them.\<close>

definition srd_text :: "bytes \<Rightarrow> JSON" where
  "srd_text h = JString (plain_hex h)"

lemma serialize_srd_text:
  "heap_ok e \<Longrightarrow> list_all (\<lambda>h. length h = SRD_LENGTH) (srd_hashs s) \<Longrightarrow>
   serialize_srd e s = JArray (map srd_text (srd_hashs s))"
  by (simp add: serialize_srd_def srd_text_def hexstring_plain list_all_iff)

definition srd_detail_ok :: "JSON \<Rightarrow> bytes list \<Rightarrow> bool" where
  "srd_detail_ok j hs \<longleftrightarrow> JSONType j \<in> {CNull, CObject} \<and> JSONType (jget j WL_SRD_DETAIL) \<in> {CNull, CObject} \<and>
     (\<forall>u. num_wf (jget (jget j WL_SRD_DETAIL) u) \<and>
          ToInt (jget (jget j WL_SRD_DETAIL) u) = int (length (filter (\<lambda>h. srd_uuid h = u) hs)))"

lemma srd_detail_push:
  assumes "srd_detail_ok j hs" and "length hs < 2 ^ 62"
  shows "srd_detail_ok (jupd j WL_SRD_DETAIL (\<lambda>d. jupd d (srd_uuid h) (AddNum 1))) (hs @ [h])"
proof -
  have "length (filter (\<lambda>x. srd_uuid x = srd_uuid h) hs) < 2 ^ 62"
    using length_filter_le assms(2) by (rule le_less_trans)
  then have "long_wrap (int (length (filter (\<lambda>x. srd_uuid x = srd_uuid h) hs)) + 1) =
      int (length (filter (\<lambda>x. srd_uuid x = srd_uuid h) hs)) + 1"
    by (intro long_wrap_id) auto
  with assms(1) show ?thesis
    unfolding srd_detail_ok_def by (auto simp: AddNum_num num_wf_def)
qed

lemma restore_srd_loop_ok:
  assumes "heap_ok e" and "list_all (\<lambda>h. length h = SRD_LENGTH) hs"
    and "srd_detail_ok (srd_info_json s) (srd_hashs s)" and "length (srd_hashs s) + length hs < 2 ^ 62"
  shows "\<exists>j. restore_srd_loop e (map srd_text hs) s =
      (True, s\<lparr>srd_hashs := srd_hashs s @ hs, srd_info_json := j\<rparr>) \<and> srd_detail_ok j (srd_hashs s @ hs)"
  using assms
proof (induction hs arbitrary: s)
  case Nil
  then show ?case by (intro exI [of _ "srd_info_json s"]) simp
next
  case (Cons h hs)
  have h: "h \<noteq> []" "length h = SRD_LENGTH" using Cons.prems(2) by auto
  let ?s1 = "s\<lparr>srd_hashs := srd_hashs s @ [h], srd_info_json :=
      jupd (srd_info_json s) WL_SRD_DETAIL (\<lambda>d. jupd d (srd_uuid h) (AddNum 1))\<rparr>"
  have step: "restore_srd_loop e (map srd_text (h # hs)) s = restore_srd_loop e (map srd_text hs) ?s1"
    using hex_string_to_bytes_plain [OF Cons.prems(1) h(1)] take_plain_hex [of 8 h]
    by (simp add: srd_text_def json_escape_plain [OF json_plain_hex] srd_uuid_def)
  have "srd_detail_ok (srd_info_json ?s1) (srd_hashs ?s1)"
    using srd_detail_push Cons.prems(3,4) by simp
  with Cons.IH [of ?s1] Cons.prems obtain j where
    "restore_srd_loop e (map srd_text hs) ?s1 = (True, ?s1\<lparr>srd_hashs := srd_hashs ?s1 @ hs, srd_info_json := j\<rparr>)"
    "srd_detail_ok j (srd_hashs ?s1 @ hs)" by auto
  then show ?case unfolding step by auto
qed

lemma restore_srd_roundtrip:
  assumes "heap_ok e" and "list_all (\<lambda>h. length h = SRD_LENGTH) (srd_hashs s)" and "srd_hashs s \<noteq> []"
    and "length (srd_hashs s) < 2 ^ 61"
  shows "fst (restore_srd e (serialize_srd e s) s0) = SPACEX_SUCCESS"
    and "srd_hashs (snd (restore_srd e (serialize_srd e s) s0)) = srd_hashs s"
    and "srd_consistent (snd (restore_srd e (serialize_srd e s) s0))"
proof -
  let ?hs = "srd_hashs s"
  let ?c = "clean_srd e s0"
  have c: "srd_hashs ?c = []" "srd_info_json ?c = JObject []" by (simp_all add: clean_srd_def emit_def)
  have "srd_detail_ok (srd_info_json ?c) (srd_hashs ?c)"
    by (simp add: c srd_detail_ok_def num_wf_def)
  then obtain j where lp: "restore_srd_loop e (map srd_text ?hs) ?c = (True, ?c\<lparr>srd_hashs := ?hs, srd_info_json := j\<rparr>)"
    and j: "srd_detail_ok j ?hs"
    using restore_srd_loop_ok [OF assms(1,2), of ?c] assms(4) c by auto
  have r: "restore_srd e (serialize_srd e s) s0 =
      (SPACEX_SUCCESS, send_srd_info e (?c\<lparr>srd_hashs := ?hs,
         srd_info_json := jset j WL_SRD_COMPLETE (JIntegral (int (length ?hs)))\<rparr>))"
    using lp assms(3) by (simp add: restore_srd_def serialize_srd_text [OF assms(1,2)] json_size_def ArrayRange_def)
  show "fst (restore_srd e (serialize_srd e s) s0) = SPACEX_SUCCESS"
    and "srd_hashs (snd (restore_srd e (serialize_srd e s) s0)) = srd_hashs s"
    by (simp_all add: r frame_simps)
  have "srd_info_ok (jset j WL_SRD_COMPLETE (JIntegral (int (length ?hs)))) ?hs"
    using j by (auto simp: srd_info_ok_def srd_detail_ok_def num_wf_def)
  then have "srd_consistent (?c\<lparr>srd_hashs := ?hs,
      srd_info_json := jset j WL_SRD_COMPLETE (JIntegral (int (length ?hs)))\<rparr>)"
    by (simp add: srd_consistent_def)
  then show "srd_consistent (snd (restore_srd e (serialize_srd e s) s0))"
    unfolding r by (simp add: srd_consistent_send)
qed

text \<open>Restoring files: the entries that are not pending come back in their order.\<close>

lemma serialize_entry_status:
  assumes "file_wf f"
  shows "file_status (serialize_entry f) CURRENT_STATUS = file_status f CURRENT_STATUS"
proof (cases "not_pending f")
  case False
  obtain st where st: "jget f FILE_STATUS = JString st" "length st = 3" "file_status f 0 = st ! 0"
    using assms by (rule file_wf_status) auto
  have "hd (json_escape st) = st ! 0 \<and> json_escape st \<noteq> []"
  proof (cases st)
    case (Cons c cs)
    have "c = FILE_STATUS_PENDING" using False st Cons by (simp add: not_pending_def)
    with Cons show ?thesis by (simp add: json_escape_def json_escape_char_def)
  qed (use st in simp)
  with False st show ?thesis
    by (auto simp: serialize_entry_def file_status_def get_char_def hd_conv_nth)
qed (simp add: serialize_entry_def)

lemma sealed_files_more:
  "boundary.more s' = boundary.more s \<Longrightarrow> sealed_files s' = sealed_files s"
  by (cases s; cases s') simp

lemma restore_file_loop_files:
  "list_all file_wf fs \<Longrightarrow>
   sealed_files (restore_file_loop e (map serialize_entry fs) s) = sealed_files s @ filter not_pending fs"
proof (induction fs arbitrary: s)
  case (Cons f fs)
  have st: "file_status (serialize_entry f) CURRENT_STATUS = file_status f CURRENT_STATUS"
    using Cons.prems by (simp add: serialize_entry_status)
  show ?case
  proof (cases "not_pending f")
    case True
    then have "serialize_entry f = f" by (simp add: serialize_entry_def)
    with True Cons show ?thesis
      by (simp add: not_pending_def set_file_spec_def split: option.splits)
  next
    case False
    have "sealed_files (snd (persist_del e c (emit oc s))) = sealed_files s" for c oc
      by (rule sealed_files_more) (simp add: frame_simps)
    with False st Cons show ?thesis by (simp add: not_pending_def)
  qed
qed simp

lemma sealed_files_restore_info [frame_simps]: "sealed_files (snd (restore_file_info e s)) = sealed_files s"
  unfolding restore_file_info_def by (rule sealed_files_more) (simp add: frame_simps)

lemma restore_file_roundtrip:
  assumes "list_all file_wf (sealed_files s)" and "sealed_files s \<noteq> []"
  shows "fst (restore_file e (serialize_file s) s0) = SPACEX_SUCCESS"
    and "sealed_files (snd (restore_file e (serialize_file s) s0)) = filter not_pending (sealed_files s)"
  using assms
  by (simp_all add: restore_file_def serialize_file_def json_size_def ArrayRange_def frame_simps
      restore_file_loop_files)

end
