(* ===== verification/Storage.thy ===== *)
theory Storage
  imports Workload Base58
begin

text \<open>
  Sealing, unsealing and deleting files: \<open>src/src/enclave/storage/Storage.cpp\<close>.

  A handler holds a mutex only for parts of its run. Where it lets go of all of them, the model
  applies the argument \<open>other\<close>, any function on states that stands for what other threads did in the
  gap with that number; the sequential behaviour is the instance where it does nothing. The actions
  of \<open>Defer\<close> objects run at every return after they were set up.
\<close>

section \<open>Links of a block\<close>

text \<open>
  A variable-length integer. The code shifts an \<open>int\<close> by up to 63 bits; a shift by 32 or more is
  undefined, \<open>VUndef\<close>. \<open>VBad\<close> are the two early returns.
\<close>

datatype varint = VValue int nat | VBad | VUndef

function read_varint :: "bytes \<Rightarrow> nat \<Rightarrow> nat \<Rightarrow> 32 word \<Rightarrow> varint" where
  "read_varint blk i shift acc =
     (if 64 \<le> shift then VBad
      else if length blk \<le> i then VBad
      else if 32 \<le> shift then VUndef
      else let b = blk ! i;
               acc' = or acc (push_bit shift (ucast (and b 0x7F)))
           in if b < 0x80 then VValue (sint acc') (Suc i)
              else read_varint blk (Suc i) (shift + 7) acc')"
  by pat_completeness auto
termination
  by (relation "measure (\<lambda>(blk, i, _, _). length blk - i)") auto

declare read_varint.simps [simp del]

lemma read_varint_index: "read_varint blk i sh acc = VValue v j \<Longrightarrow> i < j \<and> j \<le> length blk"
  by (induction blk i sh acc rule: read_varint.induct, subst (asm) (2) read_varint.simps)
    (fastforce simp: Let_def split: if_splits)

text \<open>
  \<open>get_hashs_from_block\<close>: the links at the front of a block, one \<open>read_link\<close> for each round of its
  loop. \<open>LEnd\<close> is a break, \<open>LBad\<close> a return with \<open>is_err\<close> set, which empties the result. The sums of positions and sizes are
  taken without overflow; an \<open>int\<close> that overflowed would be caught by the same comparisons. \<open>None\<close>
  is an undefined shift or a read outside the block.
\<close>

definition at :: "bytes \<Rightarrow> int \<Rightarrow> byte option" where
  "at blk i = (if 0 \<le> i \<and> i < int (length blk) then Some (blk ! nat i) else None)"

datatype link_step = LEnd | LBad | LNoMem | LUndef | LLink bytes nat

definition read_link :: "env \<Rightarrow> bytes \<Rightarrow> nat \<Rightarrow> link_step" where
  "read_link e blk index =
     (if at blk (int index) \<noteq> Some 0x12 then LEnd
      else case read_varint blk (Suc index) 0 0 of
             VUndef \<Rightarrow> LUndef
           | VBad \<Rightarrow> LBad
           | VValue link_size i1 \<Rightarrow>
               if link_size < 0 \<or> int (length blk) \<le> int i1 + link_size then LBad
               else (case at blk (int i1) of
                       None \<Rightarrow> LUndef
                     | Some h \<Rightarrow>
                         if h \<noteq> 0x0a then LEnd
                         else (case read_varint blk (Suc i1) 0 0 of
                                 VUndef \<Rightarrow> LUndef
                               | VBad \<Rightarrow> LBad
                               | VValue hash_size i2 \<Rightarrow>
                                   let p = int i2 + hash_size
                                   in if hash_size < 0 \<or> p < int HASH_LENGTH + 2 \<or> int (length blk) \<le> p then LBad
                                      else (case (at blk (p - int HASH_LENGTH - 1), at blk (p - int HASH_LENGTH - 2)) of
                                              (Some a, Some b) \<Rightarrow>
                                                if a \<noteq> 0x20 \<or> b \<noteq> 0x12 then LBad
                                                else if \<not> enc_malloc e HASH_LENGTH then LNoMem
                                                else LLink (take HASH_LENGTH (drop (nat p - HASH_LENGTH) blk))
                                                       (i1 + nat link_size)
                                            | _ \<Rightarrow> LUndef))))"

lemma read_link_next:
  assumes "read_link e blk index = LLink h j"
  shows "index < j" and "length h = HASH_LENGTH"
  using assms
  by (auto simp: read_link_def Let_def dest!: read_varint_index split: if_splits varint.splits option.splits)

function hashs_loop :: "env \<Rightarrow> bytes \<Rightarrow> nat \<Rightarrow> bytes list \<Rightarrow> (spacex_status \<times> bytes list) option" where
  "hashs_loop e blk index hashs =
     (if length blk \<le> index then Some (SPACEX_SUCCESS, hashs)
      else case read_link e blk index of
             LEnd \<Rightarrow> Some (SPACEX_SUCCESS, hashs)
           | LBad \<Rightarrow> Some (SPACEX_SUCCESS, [])
           | LNoMem \<Rightarrow> Some (SPACEX_MALLOC_FAILED, [])
           | LUndef \<Rightarrow> None
           | LLink h j \<Rightarrow> hashs_loop e blk j (hashs @ [h]))"
  by pat_completeness auto
termination
  by (relation "measure (\<lambda>(_, blk, index, _). length blk - index)")
    (auto dest!: read_link_next(1))

declare hashs_loop.simps [simp del]

definition get_hashs_from_block :: "env \<Rightarrow> bytes \<Rightarrow> (spacex_status \<times> bytes list) option" where
  "get_hashs_from_block e blk = (if blk = [] then Some (SPACEX_SUCCESS, []) else hashs_loop e blk 0 [])"

section \<open>Pending files\<close>

definition pending_get :: "string \<Rightarrow> 'a workload_scheme \<Rightarrow> JSON" where
  "pending_get cid s = map_get (pending_files_um s) cid"

definition pending_upd :: "string \<Rightarrow> (JSON \<Rightarrow> JSON) \<Rightarrow> 'a workload_scheme \<Rightarrow> 'a workload_scheme" where
  "pending_upd cid g s = s\<lparr>pending_files_um := om_put cid (g (pending_get cid s)) (pending_files_um s)\<rparr>"

definition pending_has :: "string \<Rightarrow> 'a workload_scheme \<Rightarrow> bool" where
  "pending_has cid s \<longleftrightarrow> map_of (pending_files_um s) cid \<noteq> None"

definition pending_erase :: "string \<Rightarrow> 'a workload_scheme \<Rightarrow> 'a workload_scheme" where
  "pending_erase cid s = s\<lparr>pending_files_um := om_del cid (pending_files_um s)\<rparr>"

text \<open>\<open>file[FILE_BLOCKS][cid].AddNum(n)\<close>\<close>

definition add_block :: "string \<Rightarrow> int \<Rightarrow> JSON \<Rightarrow> JSON" where
  "add_block cid n file = jupd file FILE_BLOCKS (\<lambda>b. jupd b cid (AddNum n))"

section \<open>Starting to seal\<close>

definition pending_entry :: "string \<Rightarrow> JSON" where
  "pending_entry cid =
     jupd (jset JNull FILE_CID (JString cid)) FILE_STATUS
       (\<lambda>j. AppendChar FILE_STATUS_UNVERIFIED (AppendChar FILE_STATUS_UNVERIFIED (AppendChar FILE_STATUS_PENDING j)))"

definition check_seal_file_dup :: "string \<Rightarrow> 'a workload_scheme \<Rightarrow> spacex_status \<times> 'a workload_scheme" where
  "check_seal_file_dup cid s =
     (let (dup, pos) = is_file_dup_nolock cid s;
          cur_s = file_status (sealed_files s ! pos) CURRENT_STATUS;
          org_s = file_status (sealed_files s ! pos) ORIGIN_STATUS;
          (st, s') =
            (if \<not> dup then (SPACEX_SUCCESS, s)
             else if cur_s = FILE_STATUS_PENDING then (SPACEX_STORAGE_FILE_SEALING, s)
             else if cur_s = FILE_STATUS_DELETED then
               (if org_s = FILE_STATUS_DELETED \<or> org_s = FILE_STATUS_UNVERIFIED
                then (SPACEX_SUCCESS, del_file_nolock_at pos s)
                else (SPACEX_STORAGE_FILE_DELETING, s))
             else (SPACEX_STORAGE_FILE_DUP, s))
      in (st, if st = SPACEX_SUCCESS then add_file_nolock_at (pending_entry cid) pos s' else s'))"

definition storage_seal_file_start ::
  "(nat \<Rightarrow> 'a workload_scheme \<Rightarrow> 'a workload_scheme) \<Rightarrow> string \<Rightarrow> string \<Rightarrow>
   'a workload_scheme \<Rightarrow> spacex_status \<times> 'a workload_scheme" where
  "storage_seal_file_start other root root_b58 s =
     (if upgrade_status s \<noteq> ENC_UPGRADE_STATUS_NONE then (SPACEX_UPGRADE_IS_UPGRADING, s)
      else if FILE_NUMBER_UPPER_LIMIT \<le> length (sealed_files s) then (SPACEX_FILE_NUMBER_EXCEED, s)
      else let (st, s1) = check_seal_file_dup root s
           in if st \<noteq> SPACEX_SUCCESS then (st, s1)
              else let s2 = other 0 s1
                   in if FILE_PENDING_LIMIT < length (pending_files_um s2)
                      then (SPACEX_FILE_NUMBER_EXCEED, del_file_nolock root s2)
                      else (SPACEX_SUCCESS,
                            emit (Ocall_store_file_info root ''{}'' FILE_TYPE_PENDING)
                              (set_file_spec FILE_STATUS_PENDING 1
                                (pending_upd root (add_block root_b58 1) s2))))"

section \<open>Sealing a block\<close>

text \<open>Deleting the entry of a file while it is pending, which the \<open>Defer\<close> actions do.\<close>

definition drop_pending_entry :: "string \<Rightarrow> 'a workload_scheme \<Rightarrow> 'a workload_scheme" where
  "drop_pending_entry root s =
     (let (dup, pos) = is_file_dup_nolock root s
      in if dup \<and> file_status (sealed_files s ! pos) CURRENT_STATUS = FILE_STATUS_PENDING
         then set_file_spec FILE_STATUS_PENDING (- 1)
                (emit (Ocall_delete_file_info root FILE_TYPE_PENDING)
                  (s\<lparr>sealed_files := vec_erase pos (sealed_files s)\<rparr>))
         else s)"

definition seal_failed :: "string \<Rightarrow> 'a workload_scheme \<Rightarrow> 'a workload_scheme" where
  "seal_failed root s = drop_pending_entry root (emit (Ocall_delete_ipfs_file root) (pending_erase root s))"

definition storage_get_file :: "env \<Rightarrow> string \<Rightarrow> spacex_status \<times> bytes" where
  "storage_get_file e path =
     (let (st, data) = get_file e path STORE_TYPE_FILE
      in if st \<noteq> SPACEX_SUCCESS then (st, [])
         else if \<not> enc_malloc e (length data) then (SPACEX_MALLOC_FAILED, [])
         else (SPACEX_SUCCESS, data))"

text \<open>
  The loop over the paths of a link block. Its bound is the number of keys of the outer object.
\<close>

fun links_loop :: "env \<Rightarrow> JSON list \<Rightarrow> nat \<Rightarrow> nat \<Rightarrow> spacex_status \<times> bytes \<Rightarrow> spacex_status \<times> bytes" where
  "links_loop e arr i 0 r = r"
| "links_loop e arr i (Suc n) r =
     (let r' = storage_get_file e (ToString (jget (jnth (JArray arr) i) IPFS_META_PATH))
      in if fst r' = SPACEX_SUCCESS then r' else links_loop e arr (Suc i) n r')"

text \<open>
  The data of a link block: the JSON names paths of sealed blocks, the first readable one is
  unsealed. \<open>seal_ret\<close> starts as \<open>SPACEX_UNEXPECTED_ERROR\<close>, and the parser is given a pointer to it. The result has the status to return, the value of \<open>seal_ret\<close> at that point, and the
  data; a null pointer for an undefined parse.
\<close>

definition link_data :: "env \<Rightarrow> float_lib \<Rightarrow> bytes \<Rightarrow> (spacex_status \<times> spacex_status \<times> bytes) option" where
  "link_data e fl data =
     (case Load_status e fl SPACEX_UNEXPECTED_ERROR (bytes_str data) of
        POk (links, st) \<Rightarrow>
          Some (if st \<noteq> SPACEX_SUCCESS then (st, st, [])
                else if \<not> (JSONType links = CObject \<and> hasKey links IPFS_META \<and> JSONType (jget links IPFS_META) = CArray)
                then (SPACEX_UNEXPECTED_ERROR, SPACEX_SUCCESS, [])
                else let (st', sealed) = links_loop e (ArrayRange (jget links IPFS_META)) 0
                                           (nat (json_size links)) (SPACEX_SUCCESS, [])
                     in if st' \<noteq> SPACEX_SUCCESS then (st', st', [])
                        else case unseal_data_mrsigner e True sealed of
                               Inl err \<Rightarrow> (err, err, [])
                             | Inr d \<Rightarrow> (SPACEX_SUCCESS, SPACEX_SUCCESS, d))
      | _ \<Rightarrow> None)"

text \<open>The fields that a sealed block adds to the file it belongs to.\<close>

definition record_block :: "bytes \<Rightarrow> bytes \<Rightarrow> int \<Rightarrow> int \<Rightarrow> JSON \<Rightarrow> JSON" where
  "record_block uuid sealed_hash plain_sz sealed_sz file =
     jupd file FILE_META (\<lambda>m.
       jupd (jupd (jupd (jupd m FILE_HASH (\<lambda>h. AppendBuffer (take HASH_LENGTH sealed_hash) (AppendBuffer (take UUID_LENGTH uuid) h)))
         FILE_SIZE (AddNum plain_sz)) FILE_SEALED_SIZE (AddNum sealed_sz)) FILE_BLOCK_NUM (AddNum 1))"

text \<open>
  The part of \<open>storage_seal_file\<close> after the plain data is known. \<open>within\<close> says that the data is inside
  the enclave. Three of the returns happen while \<open>seal_ret\<close> is a success, so they skip the clean-up.
  \<open>None\<close> is undefined behaviour of the block parser or of \<open>hash_to_cid\<close>.
\<close>

definition seal_store ::
  "env \<Rightarrow> (nat \<Rightarrow> 'a workload_scheme \<Rightarrow> 'a workload_scheme) \<Rightarrow> string \<Rightarrow> bytes \<Rightarrow> bool \<Rightarrow>
   'a workload_scheme \<Rightarrow> spacex_status \<times> string \<times> 'a workload_scheme" where
  "seal_store e other root d within s =
     (case seal_data_mrsigner e (length (ocalls s)) within d of
        Inl err \<Rightarrow> (err, [], seal_failed root s)
      | Inr c \<Rightarrow>
          (let sealed_hash = sgx_sha256_msg e c;
               sealed_path = root @ ''/'' @ hexstring_safe e (take HASH_LENGTH sealed_hash)
           in if \<not> enc_malloc e (UUID_LENGTH * 2) then (SPACEX_MALLOC_FAILED, [], s)
              else let uuid = disk_uuid e (ocalls s);
                       (st, s1) = ocall_do e (Ocall_save_ipfs_block sealed_path c) s
                   in if st \<noteq> SPACEX_SUCCESS then (st, [], seal_failed root s1)
                      else case hex_string_to_bytes e uuid of
                             None \<Rightarrow> (SPACEX_UNEXPECTED_ERROR, [], s1)
                           | Some uuid_u \<Rightarrow>
                               (let s2 = other 3 s1
                                in if \<not> pending_has root s2
                                   then (SPACEX_STORAGE_NEW_FILE_NOTFOUND, uuid @ sealed_path, s2)
                                   else (SPACEX_SUCCESS, uuid @ sealed_path,
                                         pending_upd root
                                           (record_block uuid_u sealed_hash (int (length d)) (int (length c))) s2))))"

definition seal_block ::
  "env \<Rightarrow> (nat \<Rightarrow> 'a workload_scheme \<Rightarrow> 'a workload_scheme) \<Rightarrow> string \<Rightarrow> bytes \<Rightarrow> bool \<Rightarrow>
   'a workload_scheme \<Rightarrow> (spacex_status \<times> string \<times> 'a workload_scheme) option" where
  "seal_block e other root d within s =
     (case hash_to_cid (sgx_sha256_msg e d) of
        None \<Rightarrow> None
      | Some cur_cid \<Rightarrow>
          (let s1 = other 1 (pending_upd root (add_block cur_cid (- 1)) s)
           in case get_hashs_from_block e d of
                None \<Rightarrow> None
              | Some (st, children) \<Rightarrow>
                  if st \<noteq> SPACEX_SUCCESS then Some (st, [], seal_failed root s1)
                  else if \<not> pending_has root s1 then Some (SPACEX_STORAGE_NEW_FILE_NOTFOUND, [], s1)
                  else if None \<in> set (map hash_to_cid children) then None
                  else let s2 = fold (\<lambda>h. pending_upd root (add_block (the (hash_to_cid h)) 1)) children s1
                       in Some (seal_store e other root d within (other 2 s2))))"

definition storage_seal_file ::
  "env \<Rightarrow> float_lib \<Rightarrow> (nat \<Rightarrow> 'a workload_scheme \<Rightarrow> 'a workload_scheme) \<Rightarrow> string \<Rightarrow> bytes \<Rightarrow> bool \<Rightarrow>
   'a workload_scheme \<Rightarrow> (spacex_status \<times> string \<times> 'a workload_scheme) option" where
  "storage_seal_file e fl other root data is_link s =
     (if data = [] then
        (if \<not> pending_has root s then Some (SPACEX_STORAGE_NEW_FILE_NOTFOUND, [], s)
         else Some (SPACEX_SUCCESS, EMPTY_BLOCK_FLAG, pending_upd root (add_block EMPTY_BLOCK_CID (- 1)) s))
      else if upgrade_status s \<noteq> ENC_UPGRADE_STATUS_NONE
      then Some (SPACEX_UPGRADE_IS_UPGRADING, [], seal_failed root s)
      else if \<not> pending_has root s then Some (SPACEX_STORAGE_NEW_FILE_NOTFOUND, [], seal_failed root s)
      else if is_link then
        (case link_data e fl data of
           None \<Rightarrow> None
         | Some (ret, seal_ret, d) \<Rightarrow>
             (let s' = other 0 s
              in if ret \<noteq> SPACEX_SUCCESS
                 then Some (ret, [], if seal_ret \<noteq> SPACEX_SUCCESS then seal_failed root s' else s')
                 else seal_block e other root d True s'))
      else seal_block e other root data False s)"

section \<open>Finishing a file\<close>

text \<open>
  The entry of a finished file, from the data collected while its blocks were sealed.
\<close>

definition sealed_entry :: "string \<Rightarrow> bytes \<Rightarrow> size_t \<Rightarrow> JSON \<Rightarrow> JSON" where
  "sealed_entry root sealed_root chain_block_num meta =
     jupd (jset (jset (jset meta FILE_CID (JString root)) FILE_HASH (JHash sealed_root))
         FILE_CHAIN_BLOCK_NUM (JIntegral (sint chain_block_num)))
       FILE_STATUS (\<lambda>j. AppendChar FILE_STATUS_UNVERIFIED (AppendChar FILE_STATUS_UNVERIFIED (AppendChar FILE_STATUS_VALID j)))"

definition block_number :: "env \<Rightarrow> float_lib \<Rightarrow> spacex_status \<times> bytes \<Rightarrow> size_t option" where
  "block_number e fl info =
     (if fst info = SPACEX_SUCCESS
      then (case Load e fl (bytes_str (snd info)) of
              POk (j, _) \<Rightarrow> Some (of_int (ToInt (jget j CHAIN_BLOCK_NUMBER)))
            | _ \<Rightarrow> None)
      else Some (of_int INT_MAX))"

definition put_sealed_entry :: "string \<Rightarrow> JSON \<Rightarrow> 'a workload_scheme \<Rightarrow> 'a workload_scheme" where
  "put_sealed_entry root entry s =
     (let (dup, pos) = is_file_dup_nolock root s
      in if dup
         then upd_file pos (\<lambda>_. entry)
                (if file_status (sealed_files s ! pos) CURRENT_STATUS = FILE_STATUS_DELETED
                 then recover_from_deleted_file_buffer root s else s)
         else add_file_nolock_at entry pos s)"

definition finish_file :: "string \<Rightarrow> JSON \<Rightarrow> size_t \<Rightarrow> 'a workload_scheme \<Rightarrow> 'a workload_scheme" where
  "finish_file root entry chain_block_num s =
     (let s1 = set_file_spec FILE_STATUS_PENDING (- 1) (put_sealed_entry root entry s);
          s2 = set_file_spec FILE_STATUS_VALID (file_size entry) s1;
          info = file_info_text (file_size entry) (ToInt (jget entry FILE_SEALED_SIZE)) (uint chain_block_num)
      in emit (Ocall_store_file_info root info FILE_TYPE_VALID) s2)"

text \<open>
  \<open>storage_seal_file_end\<close> between the lookup and the \<open>Defer\<close> action: the status to return and the
  value of \<open>spacex_status\<close>. A file without a sealed block has a null pointer where the hashes should be;
  storing it is undefined (\<open>None\<close>).
\<close>

definition seal_end_body ::
  "env \<Rightarrow> float_lib \<Rightarrow> (nat \<Rightarrow> 'a workload_scheme \<Rightarrow> 'a workload_scheme) \<Rightarrow> string \<Rightarrow> JSON \<Rightarrow>
   'a workload_scheme \<Rightarrow> (spacex_status \<times> spacex_status \<times> 'a workload_scheme) option" where
  "seal_end_body e fl other root file_json s =
     (if upgrade_status s \<noteq> ENC_UPGRADE_STATUS_NONE
      then Some (SPACEX_UPGRADE_IS_UPGRADING, SPACEX_UNEXPECTED_ERROR, s)
      else if JSONType (jget file_json FILE_BLOCKS) \<noteq> CObject
      then Some (SPACEX_UNEXPECTED_ERROR, SPACEX_UNEXPECTED_ERROR, s)
      else if list_ex (\<lambda>m. ToInt (snd m) \<noteq> 0) (ObjectRange (jget file_json FILE_BLOCKS))
      then Some (SPACEX_STORAGE_INCOMPLETE_BLOCK, SPACEX_UNEXPECTED_ERROR, s)
      else if \<not> enc_malloc e 191 then Some (SPACEX_MALLOC_FAILED, SPACEX_UNEXPECTED_ERROR, s)
      else case block_number e fl (chain_block_info e (ocalls s)) of
             None \<Rightarrow> None
           | Some chain_block_num \<Rightarrow>
               (let meta = jget file_json FILE_META
                in case ToBytes (jget meta FILE_HASH) of
                     None \<Rightarrow> None
                   | Some hashs \<Rightarrow>
                       (let (st, s1) = persist_set_unsafe e root hashs s
                        in if st \<noteq> SPACEX_SUCCESS then Some (st, st, s1)
                           else Some (SPACEX_SUCCESS, SPACEX_SUCCESS,
                                  finish_file root (sealed_entry root (sgx_sha256_msg e hashs) chain_block_num meta)
                                    chain_block_num (other 1 s1)))))"

definition storage_seal_file_end ::
  "env \<Rightarrow> float_lib \<Rightarrow> (nat \<Rightarrow> 'a workload_scheme \<Rightarrow> 'a workload_scheme) \<Rightarrow> string \<Rightarrow>
   'a workload_scheme \<Rightarrow> (spacex_status \<times> 'a workload_scheme) option" where
  "storage_seal_file_end e fl other root s =
     (if \<not> pending_has root s then Some (SPACEX_STORAGE_NEW_FILE_NOTFOUND, s)
      else case seal_end_body e fl other root (pending_get root s) (other 0 s) of
             None \<Rightarrow> None
           | Some (ret, st, s') \<Rightarrow>
               Some (ret, drop_pending_entry root
                 (pending_erase root
                   (if st \<noteq> SPACEX_SUCCESS then emit (Ocall_delete_ipfs_file root) s' else s'))))"

section \<open>Unsealing and deleting\<close>

definition storage_unseal_file :: "env \<Rightarrow> string \<Rightarrow> spacex_status \<times> bytes" where
  "storage_unseal_file e path =
     (let (st, data) = storage_get_file e path
      in if st \<noteq> SPACEX_SUCCESS then (st, [])
         else case unseal_data_mrsigner e True data of
                Inl err \<Rightarrow> (err, [])
              | Inr d \<Rightarrow>
                  if prefix (str_bytes STORAGE_PRIVATE_TAG) d then (SPACEX_MALWARE_DATA_BLOCK, [])
                  else (SPACEX_SUCCESS, d))"

text \<open>\<open>ocall_ipfs_del_all\<close> also deletes the hashes of the file from the database.\<close>

definition ipfs_del_all :: "env \<Rightarrow> string \<Rightarrow> 'a workload_scheme \<Rightarrow> 'a workload_scheme" where
  "ipfs_del_all e cid s = snd (DataBase_del e cid (emit (Ocall_ipfs_del_all cid) s))"

definition storage_delete_file ::
  "env \<Rightarrow> float_lib \<Rightarrow> (nat \<Rightarrow> 'a workload_scheme \<Rightarrow> 'a workload_scheme) \<Rightarrow> string \<Rightarrow>
   'a workload_scheme \<Rightarrow> (spacex_status \<times> 'a workload_scheme) option" where
  "storage_delete_file e fl other cid s =
     (let (dup, pos) = is_file_dup_nolock cid s; f = sealed_files s ! pos
      in if \<not> dup then Some (SPACEX_STORAGE_NEW_FILE_NOTFOUND, s)
         else if file_status f CURRENT_STATUS = FILE_STATUS_DELETED then Some (SPACEX_SUCCESS, s)
         else let s1 = upd_file pos (set_status CURRENT_STATUS FILE_STATUS_DELETED) (snd (add_to_deleted_file_buffer cid s));
                  s2 = set_file_spec (file_status f CURRENT_STATUS) (- file_size f) (ipfs_del_all e (file_cid f) (other 2 s1))
              in if json_size f \<le> 0 then Some (SPACEX_STORAGE_NEW_FILE_NOTFOUND, other 2 s1)
                 else if file_status f CURRENT_STATUS = FILE_STATUS_PENDING
                 then (case storage_seal_file_end e fl other cid s2 of
                         None \<Rightarrow> None
                       | Some (_, s3) \<Rightarrow> Some (SPACEX_SUCCESS, s3))
                 else Some (SPACEX_SUCCESS, s2))"

section \<open>The block parser\<close>

text \<open>No run of five bytes in the block has all its continuation bits set.\<close>

definition short_varints :: "bytes \<Rightarrow> bool" where
  "short_varints blk \<longleftrightarrow> (\<forall>i < length blk. i + 5 \<le> length blk \<longrightarrow> (\<exists>j < 5. blk ! (i + j) < 0x80))"

lemma read_varint_defined:
  assumes "short_varints blk" and "k \<le> 5" and "k \<le> i" and "\<forall>j < k. \<not> blk ! (i - k + j) < 0x80"
    and "i \<le> length blk"
  shows "read_varint blk i (7 * k) acc \<noteq> VUndef"
  using assms
proof (induction "5 - k" arbitrary: k i acc)
  case 0
  then have k: "k = 5" by simp
  show ?case
  proof (cases "i < length blk")
    case True
    with 0 k have "i - 5 < length blk" "i - 5 + 5 \<le> length blk" by auto
    then have "\<exists>j < 5. blk ! (i - 5 + j) < 0x80" using 0 unfolding short_varints_def by blast
    with 0 k show ?thesis by blast
  next
    case False
    then show ?thesis by (subst read_varint.simps) simp
  qed
next
  case (Suc m)
  then have k: "k \<le> 4" by simp
  show ?case
  proof (cases "i < length blk \<and> \<not> blk ! i < 0x80")
    case True
    have "\<forall>j < Suc k. \<not> blk ! (Suc i - Suc k + j) < 0x80"
    proof (intro allI impI)
      fix j assume "j < Suc k"
      then show "\<not> blk ! (Suc i - Suc k + j) < 0x80"
        using Suc.prems(3,4) True by (cases "j = k") auto
    qed
    then have "read_varint blk (Suc i) (7 * Suc k) a \<noteq> VUndef" for a
      using Suc True k by (intro Suc.hyps) auto
    then show ?thesis using True k
      by (subst read_varint.simps) (simp add: Let_def add.commute)
  next
    case False
    then show ?thesis using k by (subst read_varint.simps) (auto simp: Let_def)
  qed
qed

lemma read_link_defined:
  assumes "short_varints blk"
  shows "read_link e blk index \<noteq> LUndef"
proof -
  have "read_varint blk (Suc i) 0 0 \<noteq> VUndef" if "i < length blk" for i
    using read_varint_defined [OF assms, of 0 "Suc i"] that by simp
  then show ?thesis
    by (auto simp: read_link_def Let_def at_def dest!: read_varint_index split: if_splits varint.splits option.splits)
qed

lemma hashs_loop_defined:
  assumes "short_varints blk" and "list_all (\<lambda>h. length h = HASH_LENGTH) hashs"
  shows "\<exists>st hs. hashs_loop e blk i hashs = Some (st, hs) \<and> list_all (\<lambda>h. length h = HASH_LENGTH) hs \<and>
    st \<in> {SPACEX_SUCCESS, SPACEX_MALLOC_FAILED}"
  using assms
proof (induction e blk i hashs rule: hashs_loop.induct)
  case (1 e blk i hashs)
  show ?case
  proof (cases "length blk \<le> i")
    case False
    show ?thesis
    proof (cases "read_link e blk i")
      case (LLink h j)
      then show ?thesis
        using False 1 read_link_next(2) [OF LLink] by (subst hashs_loop.simps) simp
    qed (use False 1(2,3) read_link_defined [OF 1(2)] in \<open>subst hashs_loop.simps, simp\<close>)+
  qed (use 1(3) in \<open>subst hashs_loop.simps, simp\<close>)
qed

text \<open>
  A block in the form that IPFS writes it: links of at most 127 bytes with a hash of 32 bytes, then
  the data. The parser finds exactly the hashes.
\<close>

definition pb_link :: "bytes \<times> bytes \<Rightarrow> bytes" where
  "pb_link l = [0x12, of_nat (36 + length (snd l)), 0x0a, 34, 0x12, 0x20] @ fst l @ snd l"

lemma read_varint_byte:
  assumes "i < length blk" and "blk ! i = of_nat n" and "n < 128"
  shows "read_varint blk i 0 0 = VValue (int n) (Suc i)"
proof -
  have b: "(of_nat n :: byte) < 0x80" using assms(3) by (simp add: word_less_nat_alt unat_of_nat)
  have "and (of_nat n :: byte) 0x7F = of_nat n"
  proof -
    have "and (of_nat n :: byte) (mask 7) = take_bit 7 (of_nat n)" by (simp add: take_bit_eq_mask)
    also have "\<dots> = of_nat n" using assms(3) by (simp add: take_bit_of_nat unat_of_nat take_bit_nat_eq_self)
    finally show ?thesis by (simp add: mask_eq_exp_minus_1)
  qed
  moreover have "ucast (of_nat n :: byte) = (of_nat n :: 32 word)"
    using assms(3) by (simp add: unsigned_of_nat take_bit_nat_eq_self)
  moreover have "sint (of_nat n :: 32 word) = int n"
    using assms(3) by (simp add: signed_of_nat signed_take_bit_int_eq_self)
  ultimately show ?thesis
    using assms(1,2) b by (subst read_varint.simps) (simp add: Let_def)
qed

lemma length_pb_link: "length (pb_link l) = 6 + length (fst l) + length (snd l)"
  by (simp add: pb_link_def)

lemma read_link_LLinkI:
  assumes "at b (int i) = Some 0x12" and "read_varint b (Suc i) 0 0 = VValue ls i1" and "0 \<le> ls"
    and "int i1 + ls < int (length b)" and "at b (int i1) = Some 0x0a"
    and "read_varint b (Suc i1) 0 0 = VValue hs i2" and "0 \<le> hs" and "int HASH_LENGTH + 2 \<le> int i2 + hs"
    and "int i2 + hs < int (length b)" and "at b (int i2 + hs - int HASH_LENGTH - 1) = Some 0x20"
    and "at b (int i2 + hs - int HASH_LENGTH - 2) = Some 0x12" and "enc_malloc e HASH_LENGTH"
  shows "read_link e b i = LLink (take HASH_LENGTH (drop (nat (int i2 + hs) - HASH_LENGTH) b)) (i1 + nat ls)"
  using assms by (simp add: read_link_def Let_def)

lemma read_link_pb:
  assumes "heap_ok e" and "length (fst l) = HASH_LENGTH" and "length (snd l) < 90" and "rest \<noteq> []"
  shows "read_link e (pre @ pb_link l @ rest) (length pre) = LLink (fst l) (length pre + length (pb_link l))"
proof -
  define b where "b = pre @ pb_link l @ rest"
  define L where "L = length pre"
  let ?n = "36 + length (snd l)"
  have len: "length b = L + 38 + length (snd l) + length rest"
    using assms(2) by (simp add: b_def L_def length_pb_link)
  have nth: "b ! (L + k) = (pb_link l) ! k" if "k < length (pb_link l)" for k
    using that by (simp add: b_def L_def nth_append)
  have at: "at b (int L + int k) = Some ((pb_link l) ! k)" if "k < length (pb_link l)" for k
    using that nth [OF that] len assms(2) by (simp add: at_def length_pb_link nat_add_distrib)
  have a: "at b (int L) = Some 0x12" "at b (int L + 2) = Some 0x0a" "at b (int L + 4) = Some 0x12"
    "at b (int L + 5) = Some 0x20"
    using at [of 0] at [of 2] at [of 4] at [of 5] by (simp_all add: pb_link_def)
  have b13: "b ! (L + 1) = of_nat ?n" "b ! (L + 3) = of_nat 34"
    using nth [of 1] nth [of 3] by (simp_all add: pb_link_def)
  have v1: "read_varint b (Suc L) 0 0 = VValue (int ?n) (L + 2)"
    using read_varint_byte [of "L + 1" b ?n] b13(1) len assms(3) by (simp add: numeral_2_eq_2)
  have v2: "read_varint b (Suc (L + 2)) 0 0 = VValue 34 (L + 4)"
    using read_varint_byte [of "L + 3" b 34] b13(2) len by (simp add: eval_nat_numeral)
  have "0 < length rest" using assms(4) by simp
  have h: "take HASH_LENGTH (drop (L + 6) b) = fst l"
    using assms(2) by (simp add: b_def L_def pb_link_def eval_nat_numeral)
  have e4: "int (L + 4) + 34 - int HASH_LENGTH - 1 = int L + 5" "int (L + 4) + 34 - int HASH_LENGTH - 2 = int L + 4"
    "int (L + 2) = int L + 2" "nat (int (L + 4) + 34) - HASH_LENGTH = L + 6" by auto
  have "read_link e b L = LLink (take HASH_LENGTH (drop (nat (int (L + 4) + 34) - HASH_LENGTH) b)) (L + 2 + nat (int ?n))"
  proof (rule read_link_LLinkI [OF a(1) v1 _ _ _ v2])
    show "int (L + 2) + int ?n < int (length b)" and "int (L + 4) + 34 < int (length b)"
      using len \<open>0 < length rest\<close> by linarith+
    show "enc_malloc e HASH_LENGTH" using assms(1) by (simp add: heap_ok_def)
    show "at b (int (L + 2)) = Some 0x0a" using a(2) by (simp only: e4)
    show "at b (int (L + 4) + 34 - int HASH_LENGTH - 1) = Some 0x20" using a(4) by (simp only: e4)
    show "at b (int (L + 4) + 34 - int HASH_LENGTH - 2) = Some 0x12" using a(3) by (simp only: e4)
  qed simp_all
  then show ?thesis using h assms(2) by (simp only: e4) (simp add: b_def L_def length_pb_link)
qed

lemma hashs_loop_pb:
  assumes "heap_ok e" and "\<forall>l \<in> set ls. length (fst l) = HASH_LENGTH \<and> length (snd l) < 90"
    and "data \<noteq> []" and "hd data \<noteq> 0x12"
  shows "hashs_loop e (pre @ concat (map pb_link ls) @ data) (length pre) hashs =
    Some (SPACEX_SUCCESS, hashs @ map fst ls)"
  using assms(2)
proof (induction ls arbitrary: pre hashs)
  case Nil
  have "at (pre @ data) (int (length pre)) = Some (hd data)"
    using assms(3) by (cases data) (auto simp: at_def nth_append)
  then have "read_link e (pre @ data) (length pre) = LEnd" using assms(4) by (simp add: read_link_def)
  with assms(3) show ?case by (subst hashs_loop.simps) simp
next
  case (Cons l ls)
  let ?rest = "concat (map pb_link ls) @ data"
  have "read_link e (pre @ pb_link l @ ?rest) (length pre) = LLink (fst l) (length pre + length (pb_link l))"
    using Cons.prems assms(1,3) by (intro read_link_pb) auto
  moreover have "hashs_loop e ((pre @ pb_link l) @ ?rest) (length (pre @ pb_link l)) (hashs @ [fst l]) =
      Some (SPACEX_SUCCESS, (hashs @ [fst l]) @ map fst ls)"
    using Cons.prems by (intro Cons.IH) auto
  ultimately show ?case using assms(3) by (subst hashs_loop.simps) (simp add: length_pb_link)
qed

section \<open>The invariant with the pending files\<close>

text \<open>
  A pending file is null or an object; so are its block counters and its collected data, which has
  no status yet.
\<close>

definition obj_wf :: "JSON \<Rightarrow> bool" where
  "obj_wf j \<longleftrightarrow> JSONType j \<in> {CNull, CObject}"

definition pend_wf :: "JSON \<Rightarrow> bool" where
  "pend_wf j \<longleftrightarrow> obj_wf j \<and> obj_wf (jget j FILE_BLOCKS) \<and> obj_wf (jget j FILE_META) \<and>
     jget (jget j FILE_META) FILE_STATUS = JNull"

definition st_inv :: "'a workload_scheme \<Rightarrow> bool" where
  "st_inv s \<longleftrightarrow> wl_inv s \<and> (\<forall>p \<in> set (pending_files_um s). pend_wf (snd p))"

lemma obj_wf_type: "obj_wf j \<Longrightarrow> JSONType j \<noteq> CFIOObject"
  by (auto simp: obj_wf_def)

lemma obj_wf_jset: "obj_wf j \<Longrightarrow> obj_wf (jset j k v)"
  using obj_wf_type [of j] by (simp add: obj_wf_def)

lemma obj_wf_jupd: "obj_wf j \<Longrightarrow> obj_wf (jupd j k f)"
  by (simp add: jupd_def obj_wf_jset)

lemma pend_wf_JNull: "pend_wf JNull"
  by (simp add: pend_wf_def obj_wf_def)

lemma pend_wf_add_block: "pend_wf j \<Longrightarrow> pend_wf (add_block cid n j)"
  by (auto simp: pend_wf_def add_block_def obj_wf_jupd dest: obj_wf_type)

lemma pend_wf_record_block: "pend_wf j \<Longrightarrow> pend_wf (record_block u h a b j)"
  by (simp add: pend_wf_def record_block_def obj_wf_jupd obj_wf_type)

lemma pend_wf_get: "st_inv s \<Longrightarrow> pend_wf (pending_get cid s)"
  by (force simp: st_inv_def pending_get_def map_get_def pend_wf_JNull dest!: map_of_SomeD split: option.splits)

lemma set_om_put: "set (om_put k v m) \<subseteq> insert (k, v) (set m)"
  by (induction m) auto

lemma st_inv_pending_upd:
  assumes "st_inv s" and "\<And>j. pend_wf j \<Longrightarrow> pend_wf (g j)"
  shows "st_inv (pending_upd cid g s)"
proof -
  have "pend_wf (g (pending_get cid s))" using assms pend_wf_get by blast
  then have "\<forall>p \<in> set (om_put cid (g (pending_get cid s)) (pending_files_um s)). pend_wf (snd p)"
    using assms(1) set_om_put [of cid "g (pending_get cid s)" "pending_files_um s"] by (auto simp: st_inv_def)
  moreover have "wl_inv (pending_upd cid g s)"
    using assms(1) by (simp add: st_inv_def pending_upd_def wl_inv_def files_sorted_def om_sorted_put)
  ultimately show ?thesis by (simp add: st_inv_def pending_upd_def)
qed

lemma st_inv_pending_erase: "st_inv s \<Longrightarrow> st_inv (pending_erase cid s)"
  by (auto simp: st_inv_def pending_erase_def wl_inv_def files_sorted_def om_sorted_del) (auto simp: om_del_def)

text \<open>An operation that leaves the pending files alone keeps \<open>st_inv\<close> when it keeps \<open>wl_inv\<close>.\<close>

lemma st_inv_wl: "st_inv s \<Longrightarrow> wl_inv s' \<Longrightarrow> pending_files_um s' = pending_files_um s \<Longrightarrow> st_inv s'"
  by (simp add: st_inv_def)

lemma pending_more: "boundary.more s' = boundary.more s \<Longrightarrow> pending_files_um s' = pending_files_um s"
  by (cases s; cases s') simp

lemma pending_frames [frame_simps]:
  "pending_files_um (set_file_spec c n s) = pending_files_um s"
  "pending_files_um (emit oc s) = pending_files_um s"
  "pending_files_um (upd_file pos g s) = pending_files_um s"
  "pending_files_um (del_file_nolock cid s) = pending_files_um s"
  "pending_files_um (del_file_nolock_at pos s) = pending_files_um s"
  "pending_files_um (add_file_nolock_at f pos s) = pending_files_um s"
  "pending_files_um (recover_from_deleted_file_buffer cid s) = pending_files_um s"
  "pending_files_um (snd (add_to_deleted_file_buffer cid s)) = pending_files_um s"
  by (simp_all add: set_file_spec_def emit_def upd_file_def del_file_nolock_def del_file_nolock_at_def
      add_file_nolock_at_def recover_from_deleted_file_buffer_def add_to_deleted_file_buffer_def
      split: option.splits prod.splits)

lemma st_inv_boundary:
  assumes "st_inv s"
  shows "st_inv (snd (ocall_do e c s))" "st_inv (snd (persist_set_unsafe e k v s))" "st_inv (ipfs_del_all e k s)"
proof -
  have "st_inv s'" if "boundary.more s' = boundary.more s" for s'
    using st_inv_wl [OF assms] wl_inv_more pending_more that assms by (metis st_inv_def)
  then show "st_inv (snd (ocall_do e c s))" "st_inv (snd (persist_set_unsafe e k v s))" "st_inv (ipfs_del_all e k s)"
    by (simp_all add: frame_simps ipfs_del_all_def)
qed

lemma st_inv_spec: "st_inv s \<Longrightarrow> st_inv (set_file_spec c n s)"
  by (simp add: st_inv_def frame_simps wl_inv_fields)

lemma st_inv_emit: "st_inv s \<Longrightarrow> st_inv (emit c s)"
  by (simp add: st_inv_def frame_simps wl_inv_emit)

lemma st_inv_del_file: "st_inv s \<Longrightarrow> st_inv (del_file_nolock cid s)"
  by (simp add: st_inv_def frame_simps wl_inv_del_file)

lemma st_inv_erase: "st_inv s \<Longrightarrow> pos < length (sealed_files s) \<Longrightarrow> st_inv (s\<lparr>sealed_files := vec_erase pos (sealed_files s)\<rparr>)"
  using wl_inv_erase [of s pos] by (simp add: st_inv_def)

lemma st_inv_sorted: "st_inv s \<Longrightarrow> files_sorted s"
  by (simp add: st_inv_def wl_inv_def)

lemma st_inv_drop_pending: "st_inv s \<Longrightarrow> st_inv (drop_pending_entry root s)"
  using dup_position(1) [of s root]
  by (auto simp: drop_pending_entry_def is_file_dup_sorted st_inv_sorted
      intro!: st_inv_spec st_inv_emit st_inv_erase)

lemma st_inv_seal_failed: "st_inv s \<Longrightarrow> st_inv (seal_failed root s)"
  unfolding seal_failed_def by (intro st_inv_drop_pending st_inv_emit st_inv_pending_erase)

lemma file_wf_pending_entry:
  assumes "json_plain cid"
  shows "file_wf (pending_entry cid)" and "file_cid (pending_entry cid) = cid"
    and "file_status (pending_entry cid) CURRENT_STATUS = FILE_STATUS_PENDING"
  using assms
  by (simp_all add: pending_entry_def file_wf_def status_wf_def cid_wf_def AppendChar_def file_cid_def
      status_chars_def json_escape_plain file_status_def get_char_def)

lemma file_wf_sealed_entry:
  assumes "json_plain root" and "obj_wf meta" and "jget meta FILE_STATUS = JNull"
  shows "file_wf (sealed_entry root h n meta)" and "file_cid (sealed_entry root h n meta) = root"
    and "file_size (sealed_entry root h n meta) = file_size meta"
    and "\<And>i. i < 3 \<Longrightarrow> file_status (sealed_entry root h n meta) i =
      (if i = CURRENT_STATUS then FILE_STATUS_VALID else FILE_STATUS_UNVERIFIED)"
proof -
  note t = obj_wf_type [OF assms(2)]
  show "file_wf (sealed_entry root h n meta)" "file_cid (sealed_entry root h n meta) = root"
    "file_size (sealed_entry root h n meta) = file_size meta"
    using assms t
    by (simp_all add: sealed_entry_def file_wf_def status_wf_def cid_wf_def AppendChar_def file_cid_def
        status_chars_def json_escape_plain file_size_def)
  show "file_status (sealed_entry root h n meta) i =
      (if i = CURRENT_STATUS then FILE_STATUS_VALID else FILE_STATUS_UNVERIFIED)" if "i < 3" for i
    using that assms t
    by (auto simp: sealed_entry_def file_status_def AppendChar_def get_char_def less_Suc_eq eval_nat_numeral)
qed

lemma st_inv_insert:
  assumes "st_inv s" and "file_cid f \<notin> set (cids s)" and "file_wf f"
  shows "st_inv (add_file_nolock_at f (lower_bound (file_cid f) (cids s)) s)"
proof -
  have "lower_bound (file_cid f) (cids s) \<le> length (sealed_files s)"
    using lower_bound_le [of "file_cid f" "cids s"] by simp
  then show ?thesis
    using assms wl_inv_insert [of s f] by (simp add: st_inv_def add_file_nolock_at_def)
qed

section \<open>Starting to seal\<close>

text \<open>When a file can be sealed: it is unknown, or it was deleted and never counted on the chain.\<close>

definition sealable :: "JSON option \<Rightarrow> bool" where
  "sealable f = (case f of
     None \<Rightarrow> True
   | Some f \<Rightarrow> file_status f CURRENT_STATUS = FILE_STATUS_DELETED \<and>
       file_status f ORIGIN_STATUS \<in> {FILE_STATUS_DELETED, FILE_STATUS_UNVERIFIED})"

definition dup_status :: "JSON option \<Rightarrow> spacex_status" where
  "dup_status f =
     (if sealable f then SPACEX_SUCCESS
      else if file_status (the f) CURRENT_STATUS = FILE_STATUS_PENDING then SPACEX_STORAGE_FILE_SEALING
      else if file_status (the f) CURRENT_STATUS = FILE_STATUS_DELETED then SPACEX_STORAGE_FILE_DELETING
      else SPACEX_STORAGE_FILE_DUP)"

lemma cids_erase:
  assumes "files_sorted s" and "cid \<in> set (cids s)" and "s' = s\<lparr>sealed_files := vec_erase (lower_bound cid (cids s)) (sealed_files s)\<rparr>"
  shows "cid \<notin> set (cids s')" and "lower_bound cid (cids s') = lower_bound cid (cids s)"
proof -
  let ?p = "lower_bound cid (cids s)"
  have p: "?p < length (cids s)" "cids s ! ?p = cid" using dup_position [OF assms(1,2)] by auto
  have c': "cids s' = vec_erase ?p (cids s)" by (simp add: assms(3) map_vec_erase)
  have srt: "sorted_wrt (<) (cids s)" using assms(1) by (simp add: files_sorted_def)
  show "cid \<notin> set (cids s')"
    using set_vec_erase_distinct [of "cids s" ?p] p srt by (simp add: c' strict_sorted_iff)
  show "lower_bound cid (cids s') = lower_bound cid (cids s)"
    using filter_vec_erase [OF p(1), of "\<lambda>x. x < cid"] p(2) unfolding c' lower_bound_def by simp
qed

lemma check_seal_file_dup_spec:
  assumes inv: "st_inv s" and plain: "json_plain cid"
  defines "r \<equiv> check_seal_file_dup cid s"
  shows "fst r = dup_status (files_of s cid)" and "st_inv (snd r)"
    and "files_of (snd r) = (if sealable (files_of s cid) then (files_of s)(cid \<mapsto> pending_entry cid) else files_of s)"
    and "pending_files_um (snd r) = pending_files_um s"
proof -
  have srt: "files_sorted s" using inv by (rule st_inv_sorted)
  note pe = file_wf_pending_entry [OF plain]
  let ?p = "lower_bound cid (cids s)"
  let ?s1 = "s\<lparr>sealed_files := vec_erase ?p (sealed_files s)\<rparr>"
  have ple: "?p \<le> length (sealed_files s)" using lower_bound_le [of cid "cids s"] by simp
  have add: "st_inv (add_file_nolock_at (pending_entry cid) ?p t) \<and>
      files_of (add_file_nolock_at (pending_entry cid) ?p t) = (files_of t)(cid \<mapsto> pending_entry cid)"
    if "st_inv t" "cid \<notin> set (cids t)" "lower_bound cid (cids t) = ?p" for t :: "'a workload_scheme"
  proof -
    have "?p \<le> length (sealed_files t)" using that(3) lower_bound_le [of cid "cids t"] by simp
    then show ?thesis
      using st_inv_insert [OF that(1), of "pending_entry cid"] that(2,3) pe
        files_insert(2) [OF st_inv_sorted [OF that(1)], of "pending_entry cid"]
      by (simp add: add_file_nolock_at_def)
  qed
  have "fst r = dup_status (files_of s cid) \<and> st_inv (snd r) \<and>
    files_of (snd r) = (if sealable (files_of s cid) then (files_of s)(cid \<mapsto> pending_entry cid) else files_of s) \<and>
    pending_files_um (snd r) = pending_files_um s"
  proof (cases "cid \<in> set (cids s)")
    case False
    then have "files_of s cid = None" using dom_files_of [of s cid] by blast
    with False add [OF inv False refl] srt show ?thesis
      by (simp add: r_def check_seal_file_dup_def is_file_dup_sorted dup_status_def sealable_def frame_simps)
  next
    case True
    have f: "files_of s cid = Some (sealed_files s ! ?p)" using files_of_position [OF srt True] .
    have p: "?p < length (sealed_files s)" "file_cid (sealed_files s ! ?p) = cid" using dup_position [OF srt True] .
    have "st_inv ?s1" using st_inv_erase [OF inv p(1)] .
    moreover have "files_of ?s1 = (files_of s)(cid := None)" using files_erase(2) [OF srt p(1)] p(2) by simp
    ultimately have "st_inv (add_file_nolock_at (pending_entry cid) ?p ?s1)"
      "files_of (add_file_nolock_at (pending_entry cid) ?p ?s1) = (files_of s)(cid \<mapsto> pending_entry cid)"
      using add [of ?s1] cids_erase [OF srt True refl] by auto
    moreover have "del_file_nolock_at ?p s = ?s1" using p(1) by (simp add: del_file_nolock_at_def)
    ultimately show ?thesis
      using True srt f inv
      by (auto simp: r_def check_seal_file_dup_def is_file_dup_sorted dup_status_def sealable_def frame_simps Let_def)
  qed
  then show "fst r = dup_status (files_of s cid)" and "st_inv (snd r)"
    and "files_of (snd r) = (if sealable (files_of s cid) then (files_of s)(cid \<mapsto> pending_entry cid) else files_of s)"
    and "pending_files_um (snd r) = pending_files_um s" by blast+
qed

definition keeps_inv :: "(nat \<Rightarrow> 'a workload_scheme \<Rightarrow> 'a workload_scheme) \<Rightarrow> bool" where
  "keeps_inv other \<longleftrightarrow> (\<forall>i s. st_inv s \<longrightarrow> st_inv (other i s))"

abbreviation (input) alone :: "nat \<Rightarrow> 'a workload_scheme \<Rightarrow> 'a workload_scheme" where
  "alone \<equiv> \<lambda>_ s. s"

lemma keeps_invD: "keeps_inv other \<Longrightarrow> st_inv s \<Longrightarrow> st_inv (other i s)"
  by (simp add: keeps_inv_def)

lemma keeps_inv_alone: "keeps_inv alone"
  by (simp add: keeps_inv_def)

lemma st_inv_seal_start:
  assumes "st_inv s" and "json_plain root" and "keeps_inv other"
  shows "st_inv (snd (storage_seal_file_start other root b58 s))"
proof -
  note c = check_seal_file_dup_spec(2) [OF assms(1,2)]
  have "st_inv (other 0 (snd (check_seal_file_dup root s)))" using c assms(3) by (simp add: keeps_inv_def)
  with c assms(1) show ?thesis
    by (auto simp: storage_seal_file_start_def Let_def split: prod.splits
        intro!: st_inv_del_file st_inv_emit st_inv_spec st_inv_pending_upd pend_wf_add_block)
qed

lemma files_of_frames [frame_simps]:
  "files_of (set_file_spec c n s) = files_of s" "files_of (emit oc s) = files_of s"
  "files_of (pending_upd cid g s) = files_of s" "files_of (pending_erase cid s) = files_of s"
  "files_of (recover_from_deleted_file_buffer cid s) = files_of s"
  "files_of (snd (add_to_deleted_file_buffer cid s)) = files_of s"
  "files_of (s\<lparr>pending_files_um := m\<rparr>) = files_of s"
  by (simp_all add: files_of_def set_file_spec_def emit_def pending_upd_def pending_erase_def
      recover_from_deleted_file_buffer_def add_to_deleted_file_buffer_def split: option.splits)

lemma files_of_more: "boundary.more s' = boundary.more s \<Longrightarrow> files_of s' = files_of s"
  using sealed_files_more [of s' s] by (simp add: files_of_def)

lemma seal_start_spec:
  fixes s :: "'a workload_scheme" and root b58 :: string
  assumes inv: "st_inv s" and plain: "json_plain root" and up: "upgrade_status s = ENC_UPGRADE_STATUS_NONE"
    and num: "length (sealed_files s) < FILE_NUMBER_UPPER_LIMIT"
  defines "r \<equiv> storage_seal_file_start alone root b58 s"
  shows "\<not> sealable (files_of s root) \<Longrightarrow> fst r = dup_status (files_of s root) \<and> files_of (snd r) = files_of s"
    and "sealable (files_of s root) \<Longrightarrow> FILE_PENDING_LIMIT < length (pending_files_um s) \<Longrightarrow>
      fst r = SPACEX_FILE_NUMBER_EXCEED \<and> files_of (snd r) = (files_of s)(root := None)"
    and "sealable (files_of s root) \<Longrightarrow> length (pending_files_um s) \<le> FILE_PENDING_LIMIT \<Longrightarrow>
      fst r = SPACEX_SUCCESS \<and> files_of (snd r) = (files_of s)(root \<mapsto> pending_entry root) \<and>
      map_of (pending_files_um (snd r)) = (map_of (pending_files_um s))(root \<mapsto> add_block b58 1 (pending_get root s))"
proof -
  note c = check_seal_file_dup_spec [OF inv plain]
  have ds: "dup_status f = SPACEX_SUCCESS \<longleftrightarrow> sealable f" for f by (simp add: dup_status_def)
  have srt: "files_sorted (snd (check_seal_file_dup root s))" using c(2) by (rule st_inv_sorted)
  show "\<not> sealable (files_of s root) \<Longrightarrow> fst r = dup_status (files_of s root) \<and> files_of (snd r) = files_of s"
    using up num c(1,3) ds [of "files_of s root"]
    by (auto simp: r_def storage_seal_file_start_def split: prod.splits)
  show "fst r = SPACEX_FILE_NUMBER_EXCEED \<and> files_of (snd r) = (files_of s)(root := None)"
    if "sealable (files_of s root)" "FILE_PENDING_LIMIT < length (pending_files_um s)"
  proof -
    have "files_of (del_file_nolock root (snd (check_seal_file_dup root s))) = (files_of s)(root := None)"
      using files.lookup_del [OF srt, of root] c(3) that(1) by simp
    with up num c(1,4) ds [of "files_of s root"] that show ?thesis
      by (auto simp: r_def storage_seal_file_start_def split: prod.splits)
  qed
  show "fst r = SPACEX_SUCCESS \<and> files_of (snd r) = (files_of s)(root \<mapsto> pending_entry root) \<and>
      map_of (pending_files_um (snd r)) = (map_of (pending_files_um s))(root \<mapsto> add_block b58 1 (pending_get root s))"
    if "sealable (files_of s root)" "length (pending_files_um s) \<le> FILE_PENDING_LIMIT"
    using up num c(1,3,4) ds [of "files_of s root"] that
    by (auto simp: r_def storage_seal_file_start_def frame_simps pending_upd_def pending_get_def split: prod.splits)
qed

section \<open>Sealing blocks\<close>

lemma st_inv_fold: "st_inv s \<Longrightarrow> (\<And>x s. st_inv s \<Longrightarrow> st_inv (f x s)) \<Longrightarrow> st_inv (fold f xs s)"
  by (induction xs arbitrary: s) auto

lemma st_inv_seal_store:
  assumes "st_inv s" and "keeps_inv other"
  shows "st_inv (snd (snd (seal_store e other root d w s)))"
proof -
  have "st_inv t \<and> st_inv (other 3 t)" if "ocall_do e c s = (x, t)" for c x t
    using that st_inv_boundary(1) [OF assms(1), of e c] assms(2) by (simp add: keeps_inv_def)
  with assms(1) show ?thesis
    by (auto simp: seal_store_def Let_def split: sum.splits prod.splits option.splits
        intro!: st_inv_seal_failed st_inv_pending_upd pend_wf_record_block)
qed

lemma st_inv_seal_block:
  assumes "st_inv s" and "keeps_inv other" and "seal_block e other root d w s = Some (st, path, s')"
  shows "st_inv s'"
proof -
  have s1: "st_inv (other 1 (pending_upd root (add_block c n) s))" for c n
    using assms(1) by (intro keeps_invD [OF assms(2)] st_inv_pending_upd pend_wf_add_block)
  have "st_inv (seal_failed root (other 1 (pending_upd root (add_block c n) s)))" for c n
    using s1 by (rule st_inv_seal_failed)
  moreover have "st_inv t" if "seal_store e other root d w (other 2 (fold (\<lambda>h. pending_upd root (add_block (g h) 1)) xs
      (other 1 (pending_upd root (add_block c n) s)))) = (x, p, t)" for g xs c n x p t
  proof -
    have "st_inv (other 2 (fold (\<lambda>h. pending_upd root (add_block (g h) 1)) xs
        (other 1 (pending_upd root (add_block c n) s))))"
      using assms(1) by (intro keeps_invD [OF assms(2)] st_inv_fold st_inv_pending_upd pend_wf_add_block)
    from st_inv_seal_store [OF this assms(2), of e root d w] that show ?thesis by simp
  qed
  ultimately show ?thesis
    using s1 assms(3)
    by (auto simp: seal_block_def Let_def split: option.splits if_splits prod.splits)
qed

lemma st_inv_seal_file:
  assumes "st_inv s" and "keeps_inv other" and "storage_seal_file e fl other root data is_link s = Some (st, path, s')"
  shows "st_inv s'"
proof -
  have o: "st_inv (other 0 s)" using assms(1,2) by (simp add: keeps_inv_def)
  then have "st_inv (seal_failed root (other 0 s))" by (rule st_inv_seal_failed)
  with o show ?thesis
    using assms st_inv_seal_failed [OF assms(1), of root] st_inv_seal_block [OF assms(1,2), of e root data False]
      st_inv_seal_block [OF o assms(2), of e root _ True]
    by (auto simp: storage_seal_file_def Let_def split: if_splits option.splits prod.splits
        intro: st_inv_pending_upd pend_wf_add_block)
qed

section \<open>Finishing a file\<close>

text \<open>What the \<open>Defer\<close> action does to the table: a pending entry of the file goes.\<close>

definition is_pending :: "JSON option \<Rightarrow> bool" where
  "is_pending f \<longleftrightarrow> (case f of Some f \<Rightarrow> file_status f CURRENT_STATUS = FILE_STATUS_PENDING | None \<Rightarrow> False)"

lemma files_of_drop_pending:
  assumes "files_sorted s"
  shows "files_of (drop_pending_entry root s) =
    (if is_pending (files_of s root) then (files_of s)(root := None) else files_of s)"
proof (cases "root \<in> set (cids s)")
  case True
  let ?p = "lower_bound root (cids s)"
  have "files_of s root = Some (sealed_files s ! ?p)" using files_of_position [OF assms True] .
  moreover have "files_of (s\<lparr>sealed_files := vec_erase ?p (sealed_files s)\<rparr>) = (files_of s)(root := None)"
    using files_erase(2) [OF assms dup_position(1) [OF assms True]] dup_position(2) [OF assms True] by simp
  ultimately show ?thesis
    using True assms by (simp add: drop_pending_entry_def is_file_dup_sorted is_pending_def frame_simps)
next
  case False
  then have "files_of s root = None" using dom_files_of [of s root] by blast
  with False assms show ?thesis by (simp add: drop_pending_entry_def is_file_dup_sorted is_pending_def)
qed

lemma put_sealed_entry_spec:
  assumes inv: "st_inv s" and "file_wf f" and "file_cid f = root"
  shows "st_inv (put_sealed_entry root f s)" and "files_of (put_sealed_entry root f s) = (files_of s)(root \<mapsto> f)"
    and "pending_files_um (put_sealed_entry root f s) = pending_files_um s"
proof -
  have srt: "files_sorted s" using inv by (rule st_inv_sorted)
  let ?p = "lower_bound root (cids s)"
  have "st_inv (put_sealed_entry root f s) \<and> files_of (put_sealed_entry root f s) = (files_of s)(root \<mapsto> f) \<and>
    pending_files_um (put_sealed_entry root f s) = pending_files_um s"
  proof (cases "root \<in> set (cids s)")
    case True
    note p = dup_position [OF srt True]
    let ?t = "if file_status (sealed_files s ! ?p) CURRENT_STATUS = FILE_STATUS_DELETED
              then recover_from_deleted_file_buffer root s else s"
    have t: "sealed_files ?t = sealed_files s" "wl_inv ?t" "files_sorted ?t" "files_of ?t = files_of s"
      "pending_files_um ?t = pending_files_um s"
      using inv srt by (auto simp: recover_from_deleted_file_buffer_def files_of_def files_sorted_def st_inv_def
          wl_inv_def sorted_remove1)
    have up: "upd_file ?p (\<lambda>_. f) ?t = ?t\<lparr>sealed_files := (sealed_files ?t)[?p := f]\<rparr>" by (simp add: upd_file_def)
    have "list_all file_wf ((sealed_files ?t)[?p := f])"
      using t(2) assms(2) by (auto simp: wl_inv_def list_all_iff dest!: set_update_subset_insert [THEN subsetD])
    moreover have "files_sorted (upd_file ?p (\<lambda>_. f) ?t)" and "files_of (upd_file ?p (\<lambda>_. f) ?t) = (files_of s)(root \<mapsto> f)"
      unfolding up using files_update [OF t(3), of ?p f] p assms(3) t(1,4) by simp_all
    ultimately have "st_inv (upd_file ?p (\<lambda>_. f) ?t)"
      using t(2,5) inv by (simp add: up st_inv_def wl_inv_def)
    with \<open>files_of (upd_file ?p (\<lambda>_. f) ?t) = _\<close> True srt t(5) show ?thesis
      by (simp add: put_sealed_entry_def is_file_dup_sorted frame_simps)
  next
    case False
    have le: "?p \<le> length (sealed_files s)" using lower_bound_le [of root "cids s"] by simp
    have n: "file_cid f \<notin> set (cids s)" using False assms(3) by simp
    show ?thesis
      using st_inv_insert [OF inv n assms(2)] files_insert(2) [OF srt n refl] False srt assms(3) le
      by (simp add: put_sealed_entry_def is_file_dup_sorted add_file_nolock_at_def)
  qed
  then show "st_inv (put_sealed_entry root f s)" and "files_of (put_sealed_entry root f s) = (files_of s)(root \<mapsto> f)"
    and "pending_files_um (put_sealed_entry root f s) = pending_files_um s" by blast+
qed

text \<open>The body: every error leaves the table to the other threads, a success stores the entry.\<close>

definition blocks_done :: "JSON \<Rightarrow> bool" where
  "blocks_done file \<longleftrightarrow> JSONType (jget file FILE_BLOCKS) = CObject \<and>
     list_all (\<lambda>m. ToInt (snd m) = 0) (ObjectRange (jget file FILE_BLOCKS))"

lemma seal_end_body_cases:
  assumes "seal_end_body e fl other root file s = Some (ret, st, s')"
  shows "s' = s \<and> ret \<noteq> SPACEX_SUCCESS \<and> st \<noteq> SPACEX_SUCCESS \<or>
    (\<exists>hashs. persist_set_unsafe e root hashs s = (ret, s') \<and> ret \<noteq> SPACEX_SUCCESS \<and> st = ret) \<or>
    (\<exists>hashs n s1. ret = SPACEX_SUCCESS \<and> st = SPACEX_SUCCESS \<and> blocks_done file \<and>
      upgrade_status s = ENC_UPGRADE_STATUS_NONE \<and> ToBytes (jget (jget file FILE_META) FILE_HASH) = Some hashs \<and>
      block_number e fl (chain_block_info e (ocalls s)) = Some n \<and>
      persist_set_unsafe e root hashs s = (SPACEX_SUCCESS, s1) \<and>
      s' = finish_file root (sealed_entry root (sgx_sha256_msg e hashs) n (jget file FILE_META)) n (other 1 s1))"
proof -
  have nz: "\<not> list_ex (\<lambda>m. ToInt (snd m) \<noteq> 0) xs \<longleftrightarrow> list_all (\<lambda>m. ToInt (snd m) = 0) xs" for xs :: "(string \<times> JSON) list"
    by (simp add: list_ex_iff list_all_iff)
  show ?thesis
    using assms unfolding seal_end_body_def Let_def blocks_done_def nz [symmetric]
    by (auto split: if_splits option.splits prod.splits)
qed

lemma finish_file_spec:
  fixes s :: "'a workload_scheme" and h n
  assumes "st_inv s" and "json_plain root" and "pend_wf file"
  defines "f \<equiv> sealed_entry root h n (jget file FILE_META)"
  shows "st_inv (finish_file root f n s)" and "files_of (finish_file root f n s) = (files_of s)(root \<mapsto> f)"
    and "pending_files_um (finish_file root f n s) = pending_files_um s"
    and "\<not> is_pending (Some f)"
proof -
  have m: "obj_wf (jget file FILE_META)" "jget (jget file FILE_META) FILE_STATUS = JNull"
    using assms(3) by (simp_all add: pend_wf_def)
  note w = file_wf_sealed_entry [OF assms(2) m]
  have "file_wf f" "file_cid f = root" using w(1,2) by (simp_all add: f_def)
  note p = put_sealed_entry_spec [OF assms(1) this]
  show "st_inv (finish_file root f n s)"
    unfolding finish_file_def Let_def by (intro st_inv_emit st_inv_spec p(1))
  show "files_of (finish_file root f n s) = (files_of s)(root \<mapsto> f)"
    and "pending_files_um (finish_file root f n s) = pending_files_um s"
    using p(2,3) by (simp_all add: finish_file_def Let_def frame_simps)
  show "\<not> is_pending (Some f)" using w(4) [of CURRENT_STATUS] by (simp add: is_pending_def f_def)
qed

text \<open>
  Whatever other threads do in the gaps, provided they keep the invariant, \<open>storage_seal_file_end\<close>
  leaves no trace of the pending file: neither its counters nor a pending entry.
\<close>

lemma seal_end_spec:
  fixes s :: "'a workload_scheme"
  assumes inv: "st_inv s" and plain: "json_plain root" and other: "keeps_inv other"
    and run: "storage_seal_file_end e fl other root s = Some (ret, s')"
  shows "st_inv s'" and "\<not> pending_has root s'" and "pending_has root s \<Longrightarrow> \<not> is_pending (files_of s' root)"
    and "ret = SPACEX_SUCCESS \<Longrightarrow> pending_has root s \<and> blocks_done (pending_get root s) \<and>
      (\<exists>hashs n. ToBytes (jget (jget (pending_get root s) FILE_META) FILE_HASH) = Some hashs \<and>
         files_of s' root = Some (sealed_entry root (sgx_sha256_msg e hashs) n (jget (pending_get root s) FILE_META)))"
proof -
  let ?file = "pending_get root s"
  have fin: "st_inv t \<and> \<not> pending_has root t \<and> \<not> is_pending (files_of t root) \<and>
      (\<not> is_pending (files_of u root) \<longrightarrow> files_of t = files_of u)"
    if "st_inv u" "t = drop_pending_entry root (pending_erase root u)" for t u :: "'a workload_scheme"
  proof -
    have e: "st_inv (pending_erase root u)" using that(1) by (rule st_inv_pending_erase)
    have "pending_files_um t = om_del root (pending_files_um u)"
      by (simp add: that(2) drop_pending_entry_def pending_erase_def frame_simps split: prod.splits)
    then show ?thesis
      using st_inv_drop_pending [OF e, of root] files_of_drop_pending [OF st_inv_sorted [OF e], of root]
      by (auto simp: that(2) pending_has_def frame_simps is_pending_def)
  qed
  define P where "P \<longleftrightarrow> (\<exists>hashs n. ToBytes (jget (jget ?file FILE_META) FILE_HASH) = Some hashs \<and>
         files_of s' root = Some (sealed_entry root (sgx_sha256_msg e hashs) n (jget ?file FILE_META)))"
  have "st_inv s' \<and> \<not> pending_has root s' \<and> (pending_has root s \<longrightarrow> \<not> is_pending (files_of s' root)) \<and>
    (ret = SPACEX_SUCCESS \<longrightarrow> pending_has root s \<and> blocks_done ?file \<and> P)"
  proof (cases "pending_has root s")
    case False
    with run inv show ?thesis by (auto simp: storage_seal_file_end_def)
  next
    case True
    obtain st t where body: "seal_end_body e fl other root ?file (other 0 s) = Some (ret, st, t)"
      and s': "s' = drop_pending_entry root (pending_erase root
        (if st \<noteq> SPACEX_SUCCESS then emit (Ocall_delete_ipfs_file root) t else t))"
      using run True by (auto simp: storage_seal_file_end_def split: option.splits prod.splits)
    have s0: "st_inv (other 0 s)" using inv by (rule keeps_invD [OF other])
    have pf: "pend_wf ?file" using inv by (rule pend_wf_get)
    note fail = fin [of "emit (Ocall_delete_ipfs_file root) t", OF st_inv_emit]
    from seal_end_body_cases [OF body] show ?thesis
    proof (elim disjE exE conjE)
      assume "t = other 0 s" "ret \<noteq> SPACEX_SUCCESS" "st \<noteq> SPACEX_SUCCESS"
      with fail [OF _ refl] s0 s' show ?thesis by simp
    next
      fix hashs assume a: "persist_set_unsafe e root hashs (other 0 s) = (ret, t)" "ret \<noteq> SPACEX_SUCCESS" "st = ret"
      then have "st_inv t" using st_inv_boundary(2) [OF s0, of e root hashs] by simp
      with fail [OF _ refl] s' a show ?thesis by simp
    next
      fix hashs n s1
      assume a: "ret = SPACEX_SUCCESS" "st = SPACEX_SUCCESS" "blocks_done ?file"
        "ToBytes (jget (jget ?file FILE_META) FILE_HASH) = Some hashs"
        "persist_set_unsafe e root hashs (other 0 s) = (SPACEX_SUCCESS, s1)"
        "t = finish_file root (sealed_entry root (sgx_sha256_msg e hashs) n (jget ?file FILE_META)) n (other 1 s1)"
      have "st_inv s1" using st_inv_boundary(2) [OF s0, of e root hashs] a(5) by simp
      then have "st_inv (other 1 s1)" by (rule keeps_invD [OF other])
      note f = finish_file_spec [OF this plain pf, of "sgx_sha256_msg e hashs" n, folded a(6)]
      from a(1-4) s' f(2,4) fin [OF f(1) refl] True show ?thesis by (auto simp: P_def)
    qed
  qed
  then show "st_inv s'" "\<not> pending_has root s'" "pending_has root s \<Longrightarrow> \<not> is_pending (files_of s' root)"
    "ret = SPACEX_SUCCESS \<Longrightarrow> pending_has root s \<and> blocks_done ?file \<and>
      (\<exists>hashs n. ToBytes (jget (jget ?file FILE_META) FILE_HASH) = Some hashs \<and>
         files_of s' root = Some (sealed_entry root (sgx_sha256_msg e hashs) n (jget ?file FILE_META)))"
    by (auto simp: P_def)
qed

text \<open>Run alone, it succeeds exactly when every counter is zero and the store works.\<close>

lemma seal_end_success:
  assumes inv: "st_inv s" and plain: "json_plain root" and pend: "pending_has root s"
    and up: "upgrade_status s = ENC_UPGRADE_STATUS_NONE" and zero: "blocks_done (pending_get root s)"
    and mem: "enc_malloc e 191" and num: "block_number e fl (chain_block_info e (ocalls s)) = Some n"
    and hashs: "ToBytes (jget (jget (pending_get root s) FILE_META) FILE_HASH) = Some hashs"
    and set: "persist_set_unsafe e root hashs s = (SPACEX_SUCCESS, s1)"
  obtains s' where "storage_seal_file_end e fl alone root s = Some (SPACEX_SUCCESS, s')"
    and "files_of s' = (files_of s)(root \<mapsto> sealed_entry root (sgx_sha256_msg e hashs) n (jget (pending_get root s) FILE_META))"
    and "st_inv s'" and "\<not> pending_has root s'"
proof -
  let ?f = "sealed_entry root (sgx_sha256_msg e hashs) n (jget (pending_get root s) FILE_META)"
  let ?s' = "drop_pending_entry root (pending_erase root (finish_file root ?f n s1))"
  have run: "storage_seal_file_end e fl alone root s = Some (SPACEX_SUCCESS, ?s')"
    using pend up zero mem num hashs set
    by (auto simp: storage_seal_file_end_def seal_end_body_def blocks_done_def list_ex_iff list_all_iff)
  have s1: "st_inv s1" using st_inv_boundary(2) [OF inv, of e root hashs] set by simp
  have m: "boundary.more s1 = boundary.more s" using more_persist(2) [of e root hashs s] set by simp
  note f = finish_file_spec [OF s1 plain pend_wf_get [OF inv], of "sgx_sha256_msg e hashs" n root]
  have "files_of ?s' = (files_of s)(root \<mapsto> ?f)"
    using f(2,4) files_of_drop_pending [OF st_inv_sorted [OF st_inv_pending_erase [OF f(1)]], of root root]
      files_of_more [OF m] by (simp add: frame_simps)
  with that [OF run] seal_end_spec(1,2) [OF inv plain keeps_inv_alone run] show ?thesis by blast
qed

lemma seal_end_incomplete:
  assumes inv: "st_inv s" and pend: "pending_has root s"
    and stop: "upgrade_status s \<noteq> ENC_UPGRADE_STATUS_NONE \<or> \<not> blocks_done (pending_get root s)"
  obtains ret s' where "storage_seal_file_end e fl alone root s = Some (ret, s')" and "ret \<noteq> SPACEX_SUCCESS"
    and "files_of s' = (if is_pending (files_of s root) then (files_of s)(root := None) else files_of s)"
    and "file_del_cid_s s' = file_del_cid_s s"
proof -
  let ?s' = "drop_pending_entry root (pending_erase root (emit (Ocall_delete_ipfs_file root) s))"
  have "\<exists>ret. storage_seal_file_end e fl alone root s = Some (ret, ?s') \<and> ret \<noteq> SPACEX_SUCCESS"
    using pend stop
    by (auto simp: storage_seal_file_end_def seal_end_body_def blocks_done_def list_ex_iff list_all_iff)
  moreover have "files_of ?s' = (if is_pending (files_of s root) then (files_of s)(root := None) else files_of s)"
    using files_of_drop_pending [OF st_inv_sorted [OF st_inv_pending_erase [OF st_inv_emit [OF inv]]]]
    by (simp add: frame_simps)
  moreover have "file_del_cid_s ?s' = file_del_cid_s s"
    by (simp add: drop_pending_entry_def pending_erase_def emit_def set_file_spec_def split: prod.splits option.splits)
  ultimately show ?thesis using that by blast
qed

section \<open>Deleting a file\<close>

definition mark_deleted :: "string \<Rightarrow> 'a workload_scheme \<Rightarrow> 'a workload_scheme" where
  "mark_deleted cid s = upd_file (lower_bound cid (cids s)) (set_status CURRENT_STATUS FILE_STATUS_DELETED)
     (snd (add_to_deleted_file_buffer cid s))"

abbreviation (input) deleted :: "JSON \<Rightarrow> JSON" where
  "deleted f \<equiv> set_status CURRENT_STATUS FILE_STATUS_DELETED f"

lemma mark_deleted_spec:
  assumes inv: "st_inv s" and f: "files_of s cid = Some f"
  shows "st_inv (mark_deleted cid s)" and "files_of (mark_deleted cid s) = (files_of s)(cid \<mapsto> deleted f)"
    and "cid \<in> set (file_del_cid_s (mark_deleted cid s))"
    and "pending_files_um (mark_deleted cid s) = pending_files_um s"
    and "upgrade_status (mark_deleted cid s) = upgrade_status s"
    and "ocalls (mark_deleted cid s) = ocalls s"
proof -
  have srt: "files_sorted s" using inv by (rule st_inv_sorted)
  have mem: "cid \<in> set (cids s)" using f dom_files_of [of s cid] by blast
  let ?p = "lower_bound cid (cids s)" and ?t = "snd (add_to_deleted_file_buffer cid s)"
  note p = dup_position [OF srt mem]
  have fp: "sealed_files s ! ?p = f" using files_of_position [OF srt mem] f by simp
  have sf: "sealed_files ?t = sealed_files s" by (simp add: add_to_deleted_file_buffer_def)
  have wf: "file_wf f" using wl_inv_file_at [of s ?p] p(1) inv fp by (simp add: st_inv_def)
  have t: "wl_inv ?t" using inv by (simp add: st_inv_def wl_inv_buffers)
  have "wl_inv (mark_deleted cid s)"
    unfolding mark_deleted_def using t p(1) sf
    by (intro wl_inv_upd_file) (auto simp: file_simps status_chars_def intro!: file_wf_set_status)
  then show "st_inv (mark_deleted cid s)"
    using inv by (simp add: st_inv_def mark_deleted_def frame_simps)
  have "files_sorted ?t" using t by (simp add: wl_inv_def)
  from files_update(2) [OF this, of ?p "deleted f"] wf p fp sf
  show "files_of (mark_deleted cid s) = (files_of s)(cid \<mapsto> deleted f)"
    by (simp add: mark_deleted_def upd_file_def file_simps frame_simps)
  show "cid \<in> set (file_del_cid_s (mark_deleted cid s))"
    by (simp add: mark_deleted_def upd_file_def add_to_deleted_file_buffer_def set_insort_insert)
  show "pending_files_um (mark_deleted cid s) = pending_files_um s" by (simp add: mark_deleted_def frame_simps)
  show "upgrade_status (mark_deleted cid s) = upgrade_status s" "ocalls (mark_deleted cid s) = ocalls s"
    by (simp_all add: mark_deleted_def upd_file_def add_to_deleted_file_buffer_def)
qed

lemma json_size_wf: "file_wf f \<Longrightarrow> 0 < json_size f"
  by (cases f) (auto simp: file_wf_def cid_wf_def json_size_def jget_def map_get_def)

text \<open>The run on a file that is not deleted yet, with its guards decided.\<close>

lemma delete_file_run:
  fixes s :: "'a workload_scheme" and e :: env
  assumes inv: "st_inv s" and f: "files_of s cid = Some f" and live: "file_status f CURRENT_STATUS \<noteq> FILE_STATUS_DELETED"
  defines "s2 \<equiv> \<lambda>other. set_file_spec (file_status f CURRENT_STATUS) (- file_size f)
    (ipfs_del_all e cid (other (2::nat) (mark_deleted cid s)))"
  shows "storage_delete_file e fl other cid s =
    (if file_status f CURRENT_STATUS = FILE_STATUS_PENDING
     then map_option (\<lambda>r. (SPACEX_SUCCESS, snd r)) (storage_seal_file_end e fl other cid (s2 other))
     else Some (SPACEX_SUCCESS, s2 other))"
proof -
  have srt: "files_sorted s" using inv by (rule st_inv_sorted)
  have mem: "cid \<in> set (cids s)" using f dom_files_of [of s cid] by blast
  have fp: "sealed_files s ! lower_bound cid (cids s) = f" using files_of_position [OF srt mem] f by simp
  have wf: "file_wf f" using wl_inv_file_at [of s] dup_position(1) [OF srt mem] inv fp by (auto simp: st_inv_def)
  have "file_cid f = cid" using files_of_cid [OF f] by simp
  with live json_size_wf [OF wf] fp srt mem show ?thesis
    by (auto simp: storage_delete_file_def is_file_dup_sorted mark_deleted_def s2_def Let_def
        split: option.splits prod.splits)
qed

lemma delete_file_none:
  assumes "st_inv s"
  shows "files_of s cid = None \<Longrightarrow> storage_delete_file e fl other cid s = Some (SPACEX_STORAGE_NEW_FILE_NOTFOUND, s)"
    and "files_of s cid = Some f \<Longrightarrow> file_status f CURRENT_STATUS = FILE_STATUS_DELETED \<Longrightarrow>
      storage_delete_file e fl other cid s = Some (SPACEX_SUCCESS, s)"
  using files_of_position [OF st_inv_sorted [OF assms], of cid] dom_files_of [of s cid] st_inv_sorted [OF assms]
  by (auto simp: storage_delete_file_def is_file_dup_sorted Let_def)

lemma delete_state_frames:
  fixes s :: "'a workload_scheme" and c n e cid
  defines "t \<equiv> \<lambda>s :: 'a workload_scheme. set_file_spec c n (ipfs_del_all e cid s)"
  shows "st_inv s \<Longrightarrow> st_inv (t s)" and "files_of (t s) = files_of s"
    and "file_del_cid_s (t s) = file_del_cid_s s" and "pending_files_um (t s) = pending_files_um s"
    and "upgrade_status (t s) = upgrade_status s"
proof -
  have m: "boundary.more (ipfs_del_all e cid s) = boundary.more s" by (simp add: ipfs_del_all_def frame_simps)
  then have u: "upgrade_status (ipfs_del_all e cid s) = upgrade_status s"
    "file_del_cid_s (ipfs_del_all e cid s) = file_del_cid_s s"
    by (cases s; cases "ipfs_del_all e cid s"; simp)+
  show "st_inv s \<Longrightarrow> st_inv (t s)" unfolding t_def by (intro st_inv_spec st_inv_boundary)
  show "files_of (t s) = files_of s" "pending_files_um (t s) = pending_files_um s"
    using files_of_more [OF m] pending_more [OF m] by (simp_all add: t_def frame_simps)
  show "file_del_cid_s (t s) = file_del_cid_s s" "upgrade_status (t s) = upgrade_status s"
    using u by (simp_all add: t_def set_file_spec_def split: option.splits)
qed

lemma st_inv_delete_file:
  assumes inv: "st_inv s" and plain: "json_plain cid" and other: "keeps_inv other"
    and run: "storage_delete_file e fl other cid s = Some (ret, s')"
  shows "st_inv s'"
proof (cases "files_of s cid")
  case None
  with run delete_file_none(1) [OF inv] inv show ?thesis by simp
next
  case (Some f)
  show ?thesis
  proof (cases "file_status f CURRENT_STATUS = FILE_STATUS_DELETED")
    case True
    with run delete_file_none(2) [OF inv Some] inv show ?thesis by simp
  next
    case False
    let ?s2 = "set_file_spec (file_status f CURRENT_STATUS) (- file_size f) (ipfs_del_all e cid (other 2 (mark_deleted cid s)))"
    have s2: "st_inv ?s2"
      by (intro delete_state_frames(1) keeps_invD [OF other] mark_deleted_spec(1) [OF inv Some])
    from run show ?thesis
      unfolding delete_file_run [OF inv Some False]
      using s2 seal_end_spec(1) [OF s2 plain other] by (auto split: if_splits)
  qed
qed

text \<open>Deleting, run alone: the entry is marked and queued, and a pending file is abandoned.\<close>

lemma delete_file_marks:
  assumes inv: "st_inv s" and f: "files_of s cid = Some f" and live: "file_status f CURRENT_STATUS \<noteq> FILE_STATUS_DELETED"
    and stop: "file_status f CURRENT_STATUS = FILE_STATUS_PENDING \<Longrightarrow> pending_has cid s \<Longrightarrow>
      upgrade_status s \<noteq> ENC_UPGRADE_STATUS_NONE \<or> \<not> blocks_done (pending_get cid s)"
  obtains s' where "storage_delete_file e fl alone cid s = Some (SPACEX_SUCCESS, s')"
    and "files_of s' = (files_of s)(cid \<mapsto> deleted f)" and "cid \<in> set (file_del_cid_s s')"
proof -
  let ?s2 = "set_file_spec (file_status f CURRENT_STATUS) (- file_size f) (ipfs_del_all e cid (mark_deleted cid s))"
  note m = mark_deleted_spec [OF inv f]
  note fr = delete_state_frames [where s = "mark_deleted cid s" and c = "file_status f CURRENT_STATUS" and n = "- file_size f" and e = e and cid = cid]
  note run = delete_file_run [OF inv f live, of e fl alone]
  have s2: "st_inv ?s2" by (rule fr(1) [OF m(1)])
  have pend: "pending_has cid ?s2 = pending_has cid s" "pending_get cid ?s2 = pending_get cid s"
    using m(4) fr(4) by (simp_all add: pending_has_def pending_get_def)
  have wf: "file_wf f" using files_of_cid [OF f] inv by (auto simp: st_inv_def wl_inv_def list_all_iff)
  have d: "\<not> is_pending (files_of ?s2 cid)" using m(2) fr(2) wf by (simp add: is_pending_def file_simps)
  show ?thesis
  proof (cases "file_status f CURRENT_STATUS = FILE_STATUS_PENDING")
    case False
    with that [of ?s2] run m(2,3) fr(2,3) show ?thesis by simp
  next
    case P: True
    show ?thesis
    proof (cases "pending_has cid s")
      case False
      then have "storage_seal_file_end e fl alone cid ?s2 = Some (SPACEX_STORAGE_NEW_FILE_NOTFOUND, ?s2)"
        using pend by (simp add: storage_seal_file_end_def)
      with that [of ?s2] run m(2,3) fr(2,3) P show ?thesis by simp
    next
      case True
      from seal_end_incomplete [OF s2, of cid e fl] True stop [OF P True] pend fr(5) m(5)
      obtain ret s' where r: "storage_seal_file_end e fl alone cid ?s2 = Some (ret, s')"
        "files_of s' = (if is_pending (files_of ?s2 cid) then (files_of ?s2)(cid := None) else files_of ?s2)"
        "file_del_cid_s s' = file_del_cid_s ?s2" by metis
      with that [of s'] run m(2,3) fr(2,3) P d show ?thesis by simp
    qed
  qed
qed

text \<open>
  A pending file whose counters are all zero: the call of \<open>storage_seal_file_end\<close> inside
  \<open>storage_delete_file\<close> finishes it, and the entry marked deleted becomes valid again.
\<close>

lemma delete_file_completes:
  fixes s :: "'a workload_scheme" and e :: env and f :: JSON
  assumes inv: "st_inv s" and plain: "json_plain cid" and f: "files_of s cid = Some f"
    and P: "file_status f CURRENT_STATUS = FILE_STATUS_PENDING" and pend: "pending_has cid s"
    and up: "upgrade_status s = ENC_UPGRADE_STATUS_NONE" and zero: "blocks_done (pending_get cid s)"
    and mem: "enc_malloc e 191" and num: "\<And>ocs. block_number e fl (chain_block_info e ocs) = Some n"
    and hashs: "ToBytes (jget (jget (pending_get cid s) FILE_META) FILE_HASH) = Some hashs"
    and set: "\<And>t :: 'a workload_scheme. fst (persist_set_unsafe e cid hashs t) = SPACEX_SUCCESS"
  obtains s' where "storage_delete_file e fl alone cid s = Some (SPACEX_SUCCESS, s')"
    and "files_of s' cid = Some (sealed_entry cid (sgx_sha256_msg e hashs) n (jget (pending_get cid s) FILE_META))"
proof -
  let ?s2 = "set_file_spec (file_status f CURRENT_STATUS) (- file_size f) (ipfs_del_all e cid (mark_deleted cid s))"
  note m = mark_deleted_spec [OF inv f]
  note fr = delete_state_frames [where s = "mark_deleted cid s" and c = "file_status f CURRENT_STATUS" and n = "- file_size f" and e = e and cid = cid]
  have pend2: "pending_has cid ?s2" "pending_get cid ?s2 = pending_get cid s"
    using m(4) fr(4) pend by (simp_all add: pending_has_def pending_get_def)
  have up2: "upgrade_status ?s2 = ENC_UPGRADE_STATUS_NONE" using fr(5) m(5) up by simp
  obtain s1 where "persist_set_unsafe e cid hashs ?s2 = (SPACEX_SUCCESS, s1)"
    using set [of ?s2] by (cases "persist_set_unsafe e cid hashs ?s2") auto
  from seal_end_success [OF fr(1) [OF m(1)] plain pend2(1) up2, unfolded pend2(2), OF zero mem num hashs this]
  obtain s' where "storage_seal_file_end e fl alone cid ?s2 = Some (SPACEX_SUCCESS, s')"
    "files_of s' = (files_of ?s2)(cid \<mapsto> sealed_entry cid (sgx_sha256_msg e hashs) n (jget (pending_get cid s) FILE_META))"
    by blast
  with that [of s'] delete_file_run [OF inv f, of e fl alone] P show ?thesis by simp
qed

section \<open>Link blocks\<close>

text \<open>
  The status that \<open>storage_seal_file\<close> hands to the parser is an error before the call, and the parser
  never writes a success there, so every link block is refused.
\<close>

lemma link_data_fails: "link_data e fl data = Some (ret, seal_ret, d) \<Longrightarrow> ret \<noteq> SPACEX_SUCCESS \<and> seal_ret = ret"
  using Load_status_error [of e fl "SPACEX_UNEXPECTED_ERROR" "bytes_str data"]
  by (fastforce simp: link_data_def split: presult.splits prod.splits if_splits)

lemma pending_has_seal_failed: "\<not> pending_has root (seal_failed root s)"
  by (simp add: seal_failed_def drop_pending_entry_def pending_has_def pending_erase_def frame_simps emit_def
      set_file_spec_def split: prod.splits option.splits)

lemma seal_link_fails:
  assumes "storage_seal_file e fl other root data True s = Some (ret, path, s')" and "data \<noteq> []"
  shows "ret \<noteq> SPACEX_SUCCESS" and "path = []" and "\<not> pending_has root s'"
  using assms pending_has_seal_failed
  by (auto simp: storage_seal_file_def Let_def split: if_splits option.splits prod.splits dest!: link_data_fails)

section \<open>Reading back what was sealed\<close>

lemma storage_unseal_sealed:
  assumes "unseal_inverts e" and "heap_ok e" and "seal_data_mrsigner e n w d = Inr c"
    and "get_file e path STORE_TYPE_FILE = (SPACEX_SUCCESS, c)" and "\<not> prefix (str_bytes STORAGE_PRIVATE_TAG) d"
  shows "storage_unseal_file e path = (SPACEX_SUCCESS, d)"
  using assms seal_mrsigner_unseal [OF assms(1,2,3), of True]
  by (simp add: storage_unseal_file_def storage_get_file_def heap_ok_def)

lemma st_inv_init: "st_inv Workload_init"
  by (simp add: st_inv_def wl_inv_init) (simp add: Workload_init_def)

end
