(* ===== verification/AppUtils.thy ===== *)
theory AppUtils
  imports JsonRoundtrip
begin

text \<open>
  Utilities of the application, \<open>src/src/app/utils/Common.cpp\<close> and \<open>src/src/app/utils/FormatUtils.cpp\<close>: the parser of
  URLs, the Merkle tree as JSON, waiting in steps, and the texts for durations and numbers.
\<close>

section \<open>Searching a string\<close>

text \<open>\<open>std::string::find(pat, pos)\<close>; \<open>None\<close> is \<open>npos\<close>.\<close>

fun find_first :: "string \<Rightarrow> string \<Rightarrow> nat \<Rightarrow> nat option" where
  "find_first pat [] i = (if pat = [] then Some i else None)"
| "find_first pat (c # cs) i = (if prefix pat (c # cs) then Some i else find_first pat cs (Suc i))"

definition str_find :: "string \<Rightarrow> string \<Rightarrow> nat \<Rightarrow> nat option" where
  "str_find s pat pos = (if pos \<le> length s then find_first pat (drop pos s) pos else None)"

text \<open>\<open>substr(pos, n)\<close> with \<open>pos\<close> in range.\<close>

definition substr :: "string \<Rightarrow> nat \<Rightarrow> nat \<Rightarrow> string" where
  "substr s pos n = take n (drop pos s)"

text \<open>\<open>std::atoi\<close> on a text whose value fits into an \<open>int\<close>.\<close>

definition port_atoi :: "string \<Rightarrow> int" where
  "port_atoi s =
     (let t = dropWhile isspace s
      in case t of
           [] \<Rightarrow> 0
         | c # cs \<Rightarrow>
             if c = CHR ''-'' then - digits_val (takeWhile is_digit cs) 0
             else if c = CHR ''+'' then digits_val (takeWhile is_digit cs) 0
             else digits_val (takeWhile is_digit t) 0)"

section \<open>URLs\<close>

record UrlEndPoint =
  ip :: string
  base :: string
  port :: int

definition get_url_end_point :: "string \<Rightarrow> UrlEndPoint" where
  "get_url_end_point url =
     (let (proto_type, spos) =
            (case str_find url ''://'' 0 of None \<Rightarrow> ([], 0) | Some epos \<Rightarrow> (substr url 0 epos, epos + 3))
      in case str_find url '':'' spos of
           None \<Rightarrow>
             (case str_find url ''/'' spos of
                None \<Rightarrow> \<lparr>ip = substr url spos (length url), base = [], port = - 1\<rparr>
              | Some epos \<Rightarrow>
                  \<lparr>ip = substr url spos (epos - spos), base = substr url epos (length url),
                   port = (if proto_type = ''https'' then 443 else if proto_type = ''http'' then 80 else - 1)\<rparr>)
         | Some epos \<Rightarrow>
             (case str_find url ''/'' (epos + 1) of
                None \<Rightarrow>
                  \<lparr>ip = substr url spos (epos - spos), base = [],
                   port = port_atoi (substr url (epos + 1) (length url))\<rparr>
              | Some epos' \<Rightarrow>
                  \<lparr>ip = substr url spos (epos - spos), base = substr url epos' (length url),
                   port = port_atoi (substr url (epos + 1) (epos' - (epos + 1)))\<rparr>))"

lemma find_first_skip:
  "c \<notin> set xs \<Longrightarrow> find_first (c # ps) (xs @ ys) i = find_first (c # ps) ys (i + length xs)"
  by (induction xs arbitrary: i) auto

lemma find_first_here: "find_first (c # ps) (c # ps @ ys) i = Some i"
  by simp

lemma find_first_absent: "c \<notin> set xs \<Longrightarrow> find_first (c # ps) xs i = None"
  by (induction xs arbitrary: i) auto

lemma str_find_at:
  assumes "c \<notin> set xs"
  shows "str_find (us @ xs @ (c # ps) @ ys) (c # ps) (length us) = Some (length us + length xs)"
  using find_first_skip [OF assms, of ps "(c # ps) @ ys" "length us"] by (simp add: str_find_def)

lemma str_find_none: "c \<notin> set xs \<Longrightarrow> str_find (us @ xs) (c # ps) (length us) = None"
  by (simp add: str_find_def find_first_absent)

lemma port_atoi_nat_to_string: "port_atoi (nat_to_string n) = int n"
proof -
  obtain c cs where s: "nat_to_string n = c # cs" using nat_to_string_digits [of n] by (cases "nat_to_string n") auto
  then have "is_digit c" using nat_to_string_digits [of n] by simp
  then have "\<not> isspace c" "c \<noteq> CHR ''-''" "c \<noteq> CHR ''+''" by (auto simp: is_digit_def isspace_def)
  then show ?thesis using nat_to_string_digits [of n] digits_val_nat [of n] by (simp add: port_atoi_def s takeWhile_digits)
qed

lemma not_digit_in_number: "\<not> is_digit c \<Longrightarrow> c \<notin> set (nat_to_string n)"
  using nat_to_string_digits [of n] by (auto simp: list_all_iff)

text \<open>A URL with a port is taken apart where it was put together.\<close>

lemma get_url_end_point_full:
  assumes "CHR '':'' \<notin> set proto" and "CHR '':'' \<notin> set host"
  shows "get_url_end_point (proto @ ''://'' @ host @ '':'' @ nat_to_string n @ ''/'' @ path) =
           \<lparr>ip = host, base = ''/'' @ path, port = int n\<rparr>"
proof -
  let ?u = "proto @ ''://'' @ host @ '':'' @ nat_to_string n @ ''/'' @ path"
  have 1: "str_find ?u ''://'' 0 = Some (length proto)"
    using str_find_at [OF assms(1), of "[]" "''//''" "host @ '':'' @ nat_to_string n @ ''/'' @ path"] by simp
  have 2: "str_find ?u '':'' (length proto + 3) = Some (length proto + 3 + length host)"
    using str_find_at [OF assms(2), of "proto @ ''://''" "[]" "nat_to_string n @ ''/'' @ path"]
    by (simp add: eval_nat_numeral add.commute)
  have 3: "str_find ?u ''/'' (length proto + 3 + length host + 1) =
      Some (length proto + 3 + length host + 1 + length (nat_to_string n))"
    using str_find_at [OF not_digit_in_number, of "CHR ''/''" "proto @ ''://'' @ host @ '':''" n "[]" path]
    by (simp add: is_digit_def eval_nat_numeral add.commute add.left_commute)
  show ?thesis
    by (simp only: get_url_end_point_def Let_def 1 2 3 option.case prod.case) (simp add: substr_def port_atoi_nat_to_string eval_nat_numeral)
qed

text \<open>Without a path no port is assigned, although the protocol names one.\<close>

lemma get_url_end_point_bare:
  assumes "CHR '':'' \<notin> set proto" and "CHR '':'' \<notin> set host" and "CHR ''/'' \<notin> set host"
  shows "get_url_end_point (proto @ ''://'' @ host) = \<lparr>ip = host, base = [], port = - 1\<rparr>"
proof -
  let ?u = "proto @ ''://'' @ host"
  have 1: "str_find ?u ''://'' 0 = Some (length proto)"
    using str_find_at [OF assms(1), of "[]" "''//''" host] by simp
  have 2: "str_find ?u '':'' (length proto + 3) = None" and 3: "str_find ?u ''/'' (length proto + 3) = None"
    using str_find_none [OF assms(2), of "proto @ ''://''" "[]"] str_find_none [OF assms(3), of "proto @ ''://''" "[]"]
    by (simp_all add: eval_nat_numeral)
  show ?thesis by (simp only: get_url_end_point_def Let_def 1 2 3 option.case prod.case) (simp add: substr_def)
qed

definition remove_chars_from_string :: "string \<Rightarrow> string \<Rightarrow> string" where
  "remove_chars_from_string str chars_to_remove = fold (\<lambda>c s. remove_char s c) chars_to_remove str"

lemma remove_chars_from_string_eq: "remove_chars_from_string str cs = filter (\<lambda>c. c \<notin> set cs) str"
  unfolding remove_chars_from_string_def
  by (induction cs arbitrary: str) (auto simp: remove_char_def intro!: filter_cong)

section \<open>The Merkle tree as JSON\<close>

text \<open>
  \<open>links_num\<close> is the number of links; the field \<open>size\<close> is written by neither function. A node that is not an
  object, or that has fewer links than it says, makes the whole tree a null pointer.
\<close>

datatype MerkleTree = MerkleTree (mt_hash: string) (mt_links: "MerkleTree list")

function deserialize_merkle_tree_from_json :: "JSON \<Rightarrow> MerkleTree option" where
  "deserialize_merkle_tree_from_json tree_json =
     (if JSONType tree_json \<noteq> CObject then None
      else let children = jget tree_json ''links'';
               n = nat (ToInt (jget tree_json ''links_num'') mod 2 ^ 64)
           in map_option (MerkleTree (ToString (jget tree_json ''hash'')))
                (those (map (\<lambda>i. deserialize_merkle_tree_from_json (jnth children i)) [0..<n])))"
  by pat_completeness auto

lemma size_map_get: "map_of m k = Some v \<Longrightarrow> size v < size (JObject m)"
proof -
  assume "map_of m k = Some v"
  then have "(k, v) \<in> set m" by (rule map_of_SomeD)
  then show ?thesis by (induction m) auto
qed

lemma size_jnth: "size (jnth j i) \<le> size j"
proof (cases j)
  case (JArray xs)
  have "i < length xs \<Longrightarrow> size (xs ! i) \<le> size_list size xs" by (rule size_list_estimation' [OF nth_mem order.refl])
  then show ?thesis using JArray by (auto simp: jnth_def)
qed (auto simp: jnth_def)

lemma size_child: "JSONType j = CObject \<Longrightarrow> size (jnth (jget j k) i) < size j"
  using size_jnth [of "jget j k" i] size_map_get [of _ k]
  by (cases j) (fastforce simp: jget_def map_get_def jnth_def split: option.splits)+

termination deserialize_merkle_tree_from_json
  by (relation "measure size") (auto simp: size_child)

declare deserialize_merkle_tree_from_json.simps [simp del]

fun serialize_merkletree_to_json :: "MerkleTree \<Rightarrow> JSON" where
  "serialize_merkletree_to_json (MerkleTree h links) =
     (let tree = jset (jset JNull ''hash'' (JString h)) ''links_num'' (JIntegral (int (length links)))
      in fold (\<lambda>(i, c) t. jset t ''links'' (jset_nth (jget t ''links'') i c))
           (enumerate 0 (map serialize_merkletree_to_json links)) tree)"

text \<open>The links fill the array one by one.\<close>

abbreviation (input) put_links :: "JSON list \<Rightarrow> nat \<Rightarrow> JSON \<Rightarrow> JSON" where
  "put_links cs n t \<equiv> fold (\<lambda>(i, c) t. jset t ''links'' (jset_nth (jget t ''links'') i c)) (enumerate n cs) t"

lemma put_links:
  "JSONType t = CObject \<Longrightarrow> jget t ''links'' = (if xs = [] then JNull else JArray xs) \<Longrightarrow>
    jget (put_links cs (length xs) t) ''links'' = (if xs @ cs = [] then JNull else JArray (xs @ cs)) \<and>
    (\<forall>k. k \<noteq> ''links'' \<longrightarrow> jget (put_links cs (length xs) t) k = jget t k) \<and>
    JSONType (put_links cs (length xs) t) = CObject"
proof (induction cs arbitrary: xs t)
  case (Cons c cs)
  let ?t = "jset t ''links'' (JArray (xs @ [c]))"
  have n: "jset_nth (jget t ''links'') (length xs) c = JArray (xs @ [c])"
    using Cons.prems(2) by (auto simp: jset_nth_def SetType_def ArrayRange_def Let_def)
  have "JSONType ?t = CObject" "jget ?t ''links'' = (if xs @ [c] = [] then JNull else JArray (xs @ [c]))"
    using Cons.prems(1) by simp_all
  from Cons.IH [OF this] show ?case using Cons.prems(1) by (simp add: n)
qed simp

lemma serialize_fields:
  "JSONType (serialize_merkletree_to_json (MerkleTree h ls)) = CObject"
  "jget (serialize_merkletree_to_json (MerkleTree h ls)) ''hash'' = JString h"
  "jget (serialize_merkletree_to_json (MerkleTree h ls)) ''links_num'' = JIntegral (int (length ls))"
  "jget (serialize_merkletree_to_json (MerkleTree h ls)) ''links'' =
     (if ls = [] then JNull else JArray (map serialize_merkletree_to_json ls))"
  using put_links [of "jset (jset JNull ''hash'' (JString h)) ''links_num'' (JIntegral (int (length ls)))" "[]"
      "map serialize_merkletree_to_json ls"]
  by (simp_all add: Let_def del: upt_Suc)

text \<open>A tree whose hashes need no escaping is read back.\<close>

fun tree_ok :: "MerkleTree \<Rightarrow> bool" where
  "tree_ok (MerkleTree h ls) \<longleftrightarrow> json_plain h \<and> length ls < 2 ^ 63 \<and> list_all tree_ok ls"

lemma those_map_Some: "(\<And>x. x \<in> set xs \<Longrightarrow> f x = Some (g x)) \<Longrightarrow> those (map f xs) = Some (map g xs)"
  by (induction xs) auto

lemma deserialize_serialize: "tree_ok t \<Longrightarrow> deserialize_merkle_tree_from_json (serialize_merkletree_to_json t) = Some t"
proof (induction t)
  case (MerkleTree h ls)
  let ?j = "serialize_merkletree_to_json (MerkleTree h ls)"
  have n: "nat (int (length ls) mod 2 ^ 64) = length ls" using MerkleTree.prems by simp
  have "those (map (\<lambda>i. deserialize_merkle_tree_from_json (jnth (jget ?j ''links'') i)) [0..<length ls]) =
      Some (map ((!) ls) [0..<length ls])"
  proof (rule those_map_Some)
    fix i assume "i \<in> set [0..<length ls]"
    then have i: "i < length ls" by simp
    then have "jnth (jget ?j ''links'') i = serialize_merkletree_to_json (ls ! i)"
      by (auto simp: serialize_fields jnth_def simp del: serialize_merkletree_to_json.simps)
    moreover have "tree_ok (ls ! i)" using MerkleTree.prems i by (simp add: list_all_length)
    ultimately show "deserialize_merkle_tree_from_json (jnth (jget ?j ''links'') i) = Some (ls ! i)"
      using MerkleTree.IH i by simp
  qed
  then show ?case
    using MerkleTree.prems
    by (subst deserialize_merkle_tree_from_json.simps)
      (simp add: serialize_fields n map_nth json_escape_plain Let_def del: serialize_merkletree_to_json.simps)
qed

section \<open>Waiting in steps\<close>

text \<open>\<open>sleep_interval\<close>: \<open>func i\<close> is what the function answers before the \<open>i\<close>-th second; also the seconds slept.\<close>

fun sleep_from :: "nat \<Rightarrow> (nat \<Rightarrow> bool) \<Rightarrow> nat \<Rightarrow> bool \<times> nat" where
  "sleep_from 0 func i = (True, i)"
| "sleep_from (Suc left) func i = (if \<not> func i then (False, i) else sleep_from left func (Suc i))"

definition sleep_interval :: "nat \<Rightarrow> (nat \<Rightarrow> bool) \<Rightarrow> bool \<times> nat" where
  "sleep_interval time func = sleep_from time func 0"

lemma sleep_from_result:
  "sleep_from n func i = (b, k) \<Longrightarrow>
    i \<le> k \<and> (\<forall>j \<in> {i..<k}. func j) \<and> (if b then k = i + n else k < i + n \<and> \<not> func k)"
proof (induction n func i rule: sleep_from.induct)
  case (2 left func i)
  show ?case
  proof (cases "func i")
    case True
    with 2(2) have r: "sleep_from left func (Suc i) = (b, k)" by simp
    have "\<not> \<not> func i" using True by simp
    note 2(1) [OF this r]
    moreover have "\<forall>j \<in> {i..<k}. j = i \<or> j \<in> {Suc i..<k}" by auto
    ultimately show ?thesis using True by (auto split: if_splits)
  qed (use 2(2) in auto)
qed auto

section \<open>Texts for durations and numbers\<close>

definition int32 :: "int \<Rightarrow> int" where
  "int32 n = (n + 2 ^ 31) mod 2 ^ 32 - 2 ^ 31"

text \<open>Days, hours, minutes and seconds. A duration is at most the age of the epoch, so the minutes fit into an \<open>int\<close>.\<close>

definition time_parts :: "int \<Rightarrow> int \<times> int \<times> int \<times> int" where
  "time_parts sec =
     (let (mit, sec) = (if sec \<ge> 60 then (int32 (sec div 60), sec mod 60) else (0, sec));
          (hor, mit) = (if mit \<ge> 60 then (mit div 60, mit mod 60) else (0, mit));
          (day, hor) = (if hor \<ge> 24 then (hor div 24, hor mod 24) else (0, hor))
      in (day, hor, mit, sec))"

definition get_time_diff_humanreadable :: "int \<Rightarrow> string" where
  "get_time_diff_humanreadable sec =
     (if sec = 0 then ''0s''
      else let (day, hor, mit, s) = time_parts sec; part = (\<lambda>n tag. if n > 0 then int_to_string n @ tag else [])
           in part day ''d'' @ part hor ''h'' @ part mit ''m'' @ part s ''s'')"

lemma div_mod_cases: "0 \<le> n \<Longrightarrow> 0 < k \<Longrightarrow> (if n \<ge> k then (n div k, n mod k) else (0, n)) = (n div k, n mod (k::int))"
  by simp

lemma time_parts_eq:
  assumes "0 \<le> sec" and "sec < 60 * 2 ^ 31"
  shows "time_parts sec = (sec div 60 div 60 div 24, sec div 60 div 60 mod 24, sec div 60 mod 60, sec mod 60)"
proof -
  have w: "int32 (sec div 60) = sec div 60" using assms by (simp add: int32_def)
  have p: "0 \<le> sec div 60" "0 \<le> sec div 60 div 60" using assms(1) by (simp_all add: pos_imp_zdiv_nonneg_iff)
  show ?thesis
    unfolding time_parts_def w div_mod_cases [OF assms(1), of 60, simplified]
    by (simp only: div_mod_cases [OF p(1), of 60, simplified] div_mod_cases [OF p(2), of 24, simplified] Let_def prod.case)
qed

lemma time_parts_exact:
  assumes "0 \<le> sec" and "sec < 60 * 2 ^ 31" and "time_parts sec = (day, hor, mit, s)"
  shows "sec = ((day * 24 + hor) * 60 + mit) * 60 + s \<and> 0 \<le> day \<and> 0 \<le> hor \<and> hor < 24 \<and> 0 \<le> mit \<and> mit < 60 \<and> 0 \<le> s \<and> s < 60"
proof -
  note e = time_parts_eq [OF assms(1,2), unfolded assms(3)]
  have p: "0 \<le> sec div 60 div 60 div 24" using assms(1) by (simp add: pos_imp_zdiv_nonneg_iff)
  have h: "day * 24 + hor = sec div 60 div 60" using e by (simp only: prod.inject div_mult_mod_eq)
  have m: "(day * 24 + hor) * 60 + mit = sec div 60" unfolding h using e by (simp only: prod.inject div_mult_mod_eq)
  have "((day * 24 + hor) * 60 + mit) * 60 + s = sec" unfolding m using e by (simp only: prod.inject div_mult_mod_eq)
  moreover have "0 \<le> day" using e p by simp
  moreover have "0 \<le> hor" "hor < 24" "0 \<le> mit" "mit < 60" "0 \<le> s" "s < 60" using e by simp_all
  ultimately show ?thesis by simp
qed

text \<open>\<open>float_to_string\<close>: trailing zeros are cut, and the point with them when nothing is left behind it.\<close>

definition trim_zeros :: "string \<Rightarrow> string" where
  "trim_zeros ans =
     (let kept = rev (dropWhile (\<lambda>c. c = CHR ''0'') (rev ans))
      in if kept = [] then ans else if last kept \<noteq> CHR ''.'' then kept else butlast kept)"

definition float_to_string :: "env \<Rightarrow> 64 word \<Rightarrow> string" where
  "float_to_string e num = trim_zeros (double_to_string e num)"

lemma trim_zeros_fraction:
  assumes "CHR ''.'' \<notin> set whole" and "whole \<noteq> []"
  shows "trim_zeros (whole @ ''.'' @ replicate n (CHR ''0'')) = whole"
    and "c \<noteq> CHR ''0'' \<Longrightarrow> c \<noteq> CHR ''.'' \<Longrightarrow>
      trim_zeros (whole @ ''.'' @ digits @ [c] @ replicate n (CHR ''0'')) = whole @ ''.'' @ digits @ [c]"
proof -
  have z: "dropWhile (\<lambda>c. c = CHR ''0'') (replicate n (CHR ''0'') @ ys) = dropWhile (\<lambda>c. c = CHR ''0'') ys" for ys
    by (induction n) auto
  show "trim_zeros (whole @ ''.'' @ replicate n (CHR ''0'')) = whole"
    by (simp add: trim_zeros_def z)
  show "c \<noteq> CHR ''0'' \<Longrightarrow> c \<noteq> CHR ''.'' \<Longrightarrow>
      trim_zeros (whole @ ''.'' @ digits @ [c] @ replicate n (CHR ''0'')) = whole @ ''.'' @ digits @ [c]"
    by (simp add: trim_zeros_def z)
qed

text \<open>\<open>num_to_hexstring\<close>: \<open>%lx\<close>.\<close>

fun hex_digits :: "nat \<Rightarrow> string" where
  "hex_digits n = (if n < 16 then [hextable ! n] else hex_digits (n div 16) @ [hextable ! (n mod 16)])"

declare hex_digits.simps [simp del]

definition num_to_hexstring :: "size_t \<Rightarrow> string" where
  "num_to_hexstring num = hex_digits (unat num)"

fun hex_value :: "string \<Rightarrow> int \<Rightarrow> int" where
  "hex_value [] n = n"
| "hex_value (c # cs) n = hex_value cs (16 * n + char_to_int c)"

lemma hex_value_append: "hex_value (xs @ ys) n = hex_value ys (hex_value xs n)"
  by (induction xs arbitrary: n) auto

lemma hex_value_digits: "hex_value (hex_digits n) 0 = int n"
proof (induction n rule: hex_digits.induct)
  case (1 n)
  have "16 * int (n div 16) + int (n mod 16) = int n" by (metis mult_div_mod_eq of_nat_add of_nat_mult of_nat_numeral)
  with 1 show ?case
    by (subst hex_digits.simps) (simp add: hex_value_append char_to_int_hextable)
qed

end
