(* ===== verification/EnclaveData.thy ===== *)
theory EnclaveData
  imports Storage AppUtils
begin

text \<open>
  What the application keeps about the enclave, \<open>src/src/app/process/EnclaveData.cpp\<close>: the identity, the last work report,
  the information about random data, the data and the state of an upgrade, the files by type, the sizes of
  files being sealed, and the two maps between disks and their identifiers.

  \<open>std::map\<close> is an association list in key order (\<open>om_put\<close>, \<open>om_del\<close>). An entry that is not in
  \<open>pending_file_size_um\<close> reads as 0 in the code, so that map is a function. Each function of the class takes one
  lock around what it does, so the operations are atomic; \<open>other\<close> is what happens where a lock is given
  up in between. A result \<open>None\<close> is a text on which the parser reads past the end.
\<close>

section \<open>State\<close>

datatype upgrade_status_t =
    UPGRADE_STATUS_NONE
  | UPGRADE_STATUS_STOP_WORKREPORT
  | UPGRADE_STATUS_PROCESS
  | UPGRADE_STATUS_END
  | UPGRADE_STATUS_COMPLETE
  | UPGRADE_STATUS_EXIT

record enclave_data =
  enclave_id_info :: string
  ed_upgrade_data :: string
  ed_upgrade_status :: upgrade_status_t
  sealed_file :: "(string \<times> (string \<times> string) list) list"
  pending_file_size_um :: "string \<Rightarrow> int"
  ed_srd_info :: JSON
  uuid_to_disk_path :: "string \<Rightarrow> string option"
  disk_path_to_uuid :: "string \<Rightarrow> string option"
  ed_workreport :: string

definition EnclaveData_init :: enclave_data where
  "EnclaveData_init =
     \<lparr>enclave_id_info = [], ed_upgrade_data = [], ed_upgrade_status = UPGRADE_STATUS_NONE, sealed_file = [],
      pending_file_size_um = (\<lambda>_. 0), ed_srd_info = JNull, uuid_to_disk_path = Map.empty,
      disk_path_to_uuid = Map.empty, ed_workreport = []\<rparr>"

text \<open>\<open>Load_unsafe\<close> on a string and on a buffer.\<close>

definition Load_unsafe :: "env \<Rightarrow> float_lib \<Rightarrow> string \<Rightarrow> JSON option" where
  "Load_unsafe e fl s = (case Load_string e fl s of POk (j, _) \<Rightarrow> Some j | _ \<Rightarrow> None)"

definition Load_unsafe_buffer :: "env \<Rightarrow> float_lib \<Rightarrow> bytes \<Rightarrow> JSON option" where
  "Load_unsafe_buffer e fl b = (case Load e fl (bytes_str b) of POk (j, _) \<Rightarrow> Some j | _ \<Rightarrow> None)"

section \<open>Identity, reports, random data and upgrade\<close>

definition set_enclave_id_info :: "string \<Rightarrow> 'a enclave_data_scheme \<Rightarrow> 'a enclave_data_scheme" where
  "set_enclave_id_info id_info d = d\<lparr>enclave_id_info := id_info\<rparr>"

text \<open>\<open>get_info\<close> is the call \<open>Ecall_id_get_info\<close>, whose handler stores the information here.\<close>

definition get_enclave_id_info ::
  "('a enclave_data_scheme \<Rightarrow> bool \<times> 'a enclave_data_scheme) \<Rightarrow> 'a enclave_data_scheme \<Rightarrow> string \<times> 'a enclave_data_scheme" where
  "get_enclave_id_info get_info d =
     (if enclave_id_info d = [] then
        (let (ok, d') = get_info d in if \<not> ok then ([], d') else (enclave_id_info d', d'))
      else (enclave_id_info d, d))"

definition set_workreport :: "bytes \<Rightarrow> 'a enclave_data_scheme \<Rightarrow> 'a enclave_data_scheme" where
  "set_workreport data d = d\<lparr>ed_workreport := bytes_str data\<rparr>"

definition get_workreport :: "'a enclave_data_scheme \<Rightarrow> string" where
  "get_workreport d = ed_workreport d"

definition set_srd_info_app :: "env \<Rightarrow> float_lib \<Rightarrow> bytes \<Rightarrow> 'a enclave_data_scheme \<Rightarrow> 'a enclave_data_scheme option" where
  "set_srd_info_app e fl data d = map_option (\<lambda>j. d\<lparr>ed_srd_info := j\<rparr>) (Load_unsafe_buffer e fl data)"

definition get_srd_info_app :: "'a enclave_data_scheme \<Rightarrow> JSON" where
  "get_srd_info_app d = ed_srd_info d"

definition set_upgrade_data :: "string \<Rightarrow> 'a enclave_data_scheme \<Rightarrow> 'a enclave_data_scheme" where
  "set_upgrade_data data d = d\<lparr>ed_upgrade_data := data\<rparr>"

definition get_upgrade_data :: "'a enclave_data_scheme \<Rightarrow> string" where
  "get_upgrade_data d = ed_upgrade_data d"

definition get_upgrade_status_app :: "'a enclave_data_scheme \<Rightarrow> upgrade_status_t" where
  "get_upgrade_status_app d = ed_upgrade_status d"

text \<open>The first component tells whether \<open>Ecall_disable_upgrade\<close> is called.\<close>

definition set_upgrade_status_app ::
  "('a enclave_data_scheme \<Rightarrow> 'a enclave_data_scheme) \<Rightarrow> upgrade_status_t \<Rightarrow> 'a enclave_data_scheme \<Rightarrow> bool \<times> 'a enclave_data_scheme" where
  "set_upgrade_status_app other status d =
     (if ed_upgrade_status d = status then (False, d)
      else let d' = other (d\<lparr>ed_upgrade_status := status\<rparr>)
           in (get_upgrade_status_app d' = UPGRADE_STATUS_NONE, d'))"

section \<open>Sizes of files being sealed\<close>

definition add_pending_file_size :: "string \<Rightarrow> int \<Rightarrow> 'a enclave_data_scheme \<Rightarrow> 'a enclave_data_scheme" where
  "add_pending_file_size cid sz d =
     d\<lparr>pending_file_size_um := (pending_file_size_um d)(cid := long_add (pending_file_size_um d cid) sz)\<rparr>"

definition get_pending_file_size :: "string \<Rightarrow> 'a enclave_data_scheme \<Rightarrow> int" where
  "get_pending_file_size cid d = pending_file_size_um d cid"

definition del_pending_file_size :: "string \<Rightarrow> 'a enclave_data_scheme \<Rightarrow> 'a enclave_data_scheme" where
  "del_pending_file_size cid d = d\<lparr>pending_file_size_um := (pending_file_size_um d)(cid := 0)\<rparr>"

section \<open>Files by type\<close>

text \<open>\<open>sealed_file[type]\<close>, which makes an empty map for a type that is not there.\<close>

definition files_of_type :: "string \<Rightarrow> 'a enclave_data_scheme \<Rightarrow> (string \<times> string) list" where
  "files_of_type type d = (case map_of (sealed_file d) type of None \<Rightarrow> [] | Some m \<Rightarrow> m)"

definition upd_type ::
  "string \<Rightarrow> ((string \<times> string) list \<Rightarrow> (string \<times> string) list) \<Rightarrow> 'a enclave_data_scheme \<Rightarrow> 'a enclave_data_scheme" where
  "upd_type type f d = d\<lparr>sealed_file := om_put type (f (files_of_type type d)) (sealed_file d)\<rparr>"

abbreviation (input) FILE_PENDING_STIME :: string where "FILE_PENDING_STIME \<equiv> ''start_second''"
abbreviation (input) FILE_PENDING_DOWNLOAD_TIME :: string where "FILE_PENDING_DOWNLOAD_TIME \<equiv> ''used_time''"
abbreviation (input) FILE_PENDING_SIZE :: string where "FILE_PENDING_SIZE \<equiv> ''sealed_size''"

definition pending_info :: "int \<Rightarrow> string" where
  "pending_info now = ''{ '' @ quoted FILE_PENDING_STIME @ '' : '' @ int_to_string now @ '' }''"

definition add_file_info :: "int \<Rightarrow> string \<Rightarrow> string \<Rightarrow> string \<Rightarrow> 'a enclave_data_scheme \<Rightarrow> 'a enclave_data_scheme" where
  "add_file_info now cid type info d =
     (let info' = (if type = FILE_TYPE_PENDING then pending_info now else info);
          d' = (if type = FILE_TYPE_VALID then del_pending_file_size cid (upd_type FILE_TYPE_PENDING (om_del cid) d) else d)
      in upd_type type (om_put cid info') d')"

definition change_file_type :: "string \<Rightarrow> string \<Rightarrow> string \<Rightarrow> 'a enclave_data_scheme \<Rightarrow> 'a enclave_data_scheme" where
  "change_file_type cid old_type new_type d =
     (if map_of (sealed_file d) old_type = None then d
      else case map_of (files_of_type old_type d) cid of
             None \<Rightarrow> d
           | Some info \<Rightarrow> upd_type old_type (om_del cid) (upd_type new_type (om_put cid info) d))"

definition del_file_info :: "string \<Rightarrow> 'a enclave_data_scheme \<Rightarrow> 'a enclave_data_scheme" where
  "del_file_info cid d =
     (let is_pending_file = map_of (files_of_type FILE_TYPE_PENDING d) cid \<noteq> None;
          d' = d\<lparr>sealed_file := map (\<lambda>(type, m). (type, om_del cid m)) (sealed_file d)\<rparr>
      in if is_pending_file then del_pending_file_size cid d' else d')"

definition del_file_info_type :: "string \<Rightarrow> string \<Rightarrow> 'a enclave_data_scheme \<Rightarrow> 'a enclave_data_scheme" where
  "del_file_info_type cid type d =
     (let d' = upd_type type (om_del cid) d
      in if type = FILE_TYPE_PENDING then del_pending_file_size cid d' else d')"

text \<open>The files in a list of one type, and all of them.\<close>

definition restore_item :: "string \<Rightarrow> JSON \<Rightarrow> 'a enclave_data_scheme \<Rightarrow> 'a enclave_data_scheme" where
  "restore_item type f d =
     (case f of
        JObject ((cid, info) # _) \<Rightarrow> upd_type type (om_put cid (remove_char (ToString info) (CHR 0x5C))) d
      | _ \<Rightarrow> d)"

definition restore_items :: "JSON \<Rightarrow> 'a enclave_data_scheme \<Rightarrow> 'a enclave_data_scheme" where
  "restore_items files_json d =
     fold (\<lambda>(type, fs) d. fold (restore_item type) (ArrayRange fs) d) (ObjectRange files_json) d"

definition restore_file_info_app :: "env \<Rightarrow> float_lib \<Rightarrow> bytes \<Rightarrow> 'a enclave_data_scheme \<Rightarrow> 'a enclave_data_scheme option" where
  "restore_file_info_app e fl data d = map_option (\<lambda>j. restore_items j d) (Load_unsafe_buffer e fl data)"

definition find_file_type_nolock :: "string \<Rightarrow> 'a enclave_data_scheme \<Rightarrow> string option" where
  "find_file_type_nolock cid d = map_option fst (find (\<lambda>(type, m). map_of m cid \<noteq> None) (sealed_file d))"

definition find_file_type :: "string \<Rightarrow> 'a enclave_data_scheme \<Rightarrow> string option" where
  "find_file_type cid d = find_file_type_nolock cid d"

section \<open>Information for the outside\<close>

definition get_file_info_item ::
  "env \<Rightarrow> float_lib \<Rightarrow> int \<Rightarrow> string \<Rightarrow> string \<Rightarrow> bool \<Rightarrow> 'a enclave_data_scheme \<Rightarrow> string option" where
  "get_file_info_item e fl now cid info raw d =
     (let data = remove_char info (CHR 0x5C)
      in map_option (\<lambda>data_json.
           let data' =
                 (if hasKey data_json FILE_PENDING_STIME
                  then ''{ '' @ quoted FILE_PENDING_DOWNLOAD_TIME @ '' : '' @
                       quoted (get_time_diff_humanreadable (now - ToInt (jget data_json FILE_PENDING_STIME))) @ '' , '' @
                       quoted FILE_PENDING_SIZE @ '' : '' @ quoted (int_to_string (get_pending_file_size cid d)) @ '' }''
                  else data)
           in if raw then quoted cid @ '' : '' @ data' else ''{ '' @ quoted cid @ '' : '' @ data' @ '' }'')
         (Load_unsafe e fl data))"

definition get_pending_files_size_all :: "'a enclave_data_scheme \<Rightarrow> size_t" where
  "get_pending_files_size_all d =
     fold (\<lambda>(cid, _) ans. ans + of_int (get_pending_file_size cid d)) (files_of_type FILE_TYPE_PENDING d) 0"

text \<open>The empty string stands for a file that is not known.\<close>

definition get_file_info :: "env \<Rightarrow> float_lib \<Rightarrow> int \<Rightarrow> string \<Rightarrow> 'a enclave_data_scheme \<Rightarrow> string option" where
  "get_file_info e fl now cid d =
     (case find_file_type_nolock cid d of
        None \<Rightarrow> Some []
      | Some type \<Rightarrow>
          (case get_file_info_item e fl now cid (the (map_of (files_of_type type d) cid)) False d of
             None \<Rightarrow> None
           | Some item \<Rightarrow>
               map_option (\<lambda>file. remove_char (dump_json e (jupd file cid (\<lambda>j. jset j ''type'' (JString type)))) (CHR 0x5C))
                 (Load_unsafe e fl item)))"

text \<open>The lines of one type, with the separators of \<open>_get_file_info_by_type\<close>.\<close>

definition get_file_info_by_type_pad ::
  "env \<Rightarrow> float_lib \<Rightarrow> int \<Rightarrow> string \<Rightarrow> string \<Rightarrow> bool \<Rightarrow> 'a enclave_data_scheme \<Rightarrow> string option" where
  "get_file_info_by_type_pad e fl now type pad raw d =
     (let pad2 = (if raw then pad else pad @ ''  '')
      in map_option (\<lambda>items.
           let body = sep_by ('','' @ newline) (map (\<lambda>i. pad2 @ i) items)
           in if raw then body
              else pad @ ''{'' @ (if items = [] then [] else newline @ body @ newline) @ pad @ ''}'')
         (those (map (\<lambda>(cid, info). get_file_info_item e fl now cid info True d) (files_of_type type d))))"

definition get_file_info_by_type :: "env \<Rightarrow> float_lib \<Rightarrow> int \<Rightarrow> string \<Rightarrow> 'a enclave_data_scheme \<Rightarrow> string option" where
  "get_file_info_by_type e fl now type d = get_file_info_by_type_pad e fl now type [] False d"

definition get_file_info_all :: "env \<Rightarrow> float_lib \<Rightarrow> int \<Rightarrow> 'a enclave_data_scheme \<Rightarrow> string option" where
  "get_file_info_all e fl now d =
     map_option (\<lambda>infos.
         let shown = filter (\<lambda>(type, info). info \<noteq> []) (zip (map fst (sealed_file d)) infos);
             parts = map (\<lambda>(type, info). newline @ ''  '' @ quoted type @ '' : {'' @ newline @ info @ newline @ ''  }'') shown
         in ''{'' @ sep_by '','' parts @ (if shown = [] then [] else newline) @ ''}'')
       (those (map (\<lambda>(type, _). get_file_info_by_type_pad e fl now type ''    '' True d) (sealed_file d)))"

section \<open>Disks and their identifiers\<close>

definition set_uuid_disk_path_map :: "string \<Rightarrow> string \<Rightarrow> 'a enclave_data_scheme \<Rightarrow> 'a enclave_data_scheme" where
  "set_uuid_disk_path_map uuid path d =
     (if UUID_LENGTH * 2 \<le> length uuid then
        let r_uuid = take (UUID_LENGTH * 2) uuid
        in d\<lparr>uuid_to_disk_path := (uuid_to_disk_path d)(r_uuid \<mapsto> path),
             disk_path_to_uuid := (disk_path_to_uuid d)(path \<mapsto> r_uuid)\<rparr>
      else d)"

definition get_uuid :: "string \<Rightarrow> 'a enclave_data_scheme \<Rightarrow> string" where
  "get_uuid path d = (case disk_path_to_uuid d path of Some uuid \<Rightarrow> uuid | None \<Rightarrow> [])"

definition get_disk_path :: "string \<Rightarrow> 'a enclave_data_scheme \<Rightarrow> string" where
  "get_disk_path uuid d = (case uuid_to_disk_path d uuid of Some path \<Rightarrow> path | None \<Rightarrow> [])"

definition is_disk_exist :: "string \<Rightarrow> 'a enclave_data_scheme \<Rightarrow> bool" where
  "is_disk_exist path d \<longleftrightarrow> disk_path_to_uuid d path \<noteq> None"

definition is_uuid_exist :: "string \<Rightarrow> 'a enclave_data_scheme \<Rightarrow> bool" where
  "is_uuid_exist uuid d \<longleftrightarrow> uuid_to_disk_path d uuid \<noteq> None"

section \<open>Which types a file has\<close>

definition listed_as :: "string \<Rightarrow> 'a enclave_data_scheme \<Rightarrow> string set" where
  "listed_as cid d = {type. map_of (files_of_type type d) cid \<noteq> None}"

definition ed_inv :: "'a enclave_data_scheme \<Rightarrow> bool" where
  "ed_inv d \<longleftrightarrow> om_sorted (sealed_file d) \<and> list_all (\<lambda>(_, m). om_sorted m) (sealed_file d)"

lemma files_of_upd_type [simp]:
  "files_of_type t (upd_type u f d) = (if t = u then f (files_of_type u d) else files_of_type t d)"
  by (simp add: files_of_type_def upd_type_def)

lemma files_of_type_frames [simp]:
  "files_of_type t (d\<lparr>pending_file_size_um := p\<rparr>) = files_of_type t d"
  "files_of_type t (del_pending_file_size cid d) = files_of_type t d"
  "files_of_type t (add_pending_file_size cid n d) = files_of_type t d"
  by (simp_all add: files_of_type_def del_pending_file_size_def add_pending_file_size_def)

lemma listed_add:
  "listed_as c (add_file_info now cid type info d) =
     (if c = cid then insert type (if type = FILE_TYPE_VALID then listed_as c d - {FILE_TYPE_PENDING} else listed_as c d)
      else listed_as c d)"
  by (auto simp: listed_as_def add_file_info_def Let_def split: if_splits)

lemma change_file_type_eq:
  "change_file_type cid old_type new_type d =
     (case map_of (files_of_type old_type d) cid of
        None \<Rightarrow> d
      | Some info \<Rightarrow> upd_type old_type (om_del cid) (upd_type new_type (om_put cid info) d))"
  by (simp add: change_file_type_def files_of_type_def split: option.split)

lemma listed_change:
  "old_type \<noteq> new_type \<Longrightarrow> listed_as c (change_file_type cid old_type new_type d) =
     (if c = cid \<and> old_type \<in> listed_as c d then insert new_type (listed_as c d - {old_type}) else listed_as c d)"
  by (cases "map_of (files_of_type old_type d) cid") (auto simp: listed_as_def change_file_type_eq)

text \<open>Changing a type to itself deletes the file.\<close>

lemma listed_change_same: "type \<notin> listed_as cid (change_file_type cid type type d)"
  by (cases "map_of (files_of_type type d) cid") (simp_all add: listed_as_def change_file_type_eq)

lemma map_of_map_om_del:
  "map_of (map (\<lambda>(t, m). (t, om_del cid m)) xs) t = map_option (om_del cid) (map_of xs t)"
  by (induction xs) auto

lemma listed_del: "listed_as c (del_file_info cid d) = (if c = cid then {} else listed_as c d)"
  by (auto simp: listed_as_def del_file_info_def Let_def files_of_type_def del_pending_file_size_def map_of_map_om_del
      split: option.splits if_splits)

lemma listed_del_type:
  "listed_as c (del_file_info_type cid type d) = (if c = cid then listed_as c d - {type} else listed_as c d)"
  by (auto simp: listed_as_def del_file_info_type_def Let_def split: if_splits)

lemma ed_inv_upd_type:
  assumes "ed_inv d" and "\<And>m. om_sorted m \<Longrightarrow> om_sorted (f m)"
  shows "ed_inv (upd_type t f d)"
proof -
  have "om_sorted (files_of_type t d)"
    using assms(1) by (auto simp: ed_inv_def files_of_type_def list_all_iff om_sorted_def dest!: map_of_SomeD split: option.splits)
  then have "om_sorted (f (files_of_type t d))" by (rule assms(2))
  then show ?thesis
    using assms(1) set_om_put [of t "f (files_of_type t d)" "sealed_file d"]
    by (auto simp: ed_inv_def upd_type_def list_all_iff om_sorted_put)
qed

lemma ed_inv_frames [simp]:
  "ed_inv (d\<lparr>pending_file_size_um := p\<rparr>) = ed_inv d"
  "ed_inv (del_pending_file_size cid d) = ed_inv d"
  by (simp_all add: ed_inv_def del_pending_file_size_def)

lemma ed_inv_init: "ed_inv EnclaveData_init"
  by (simp add: ed_inv_def EnclaveData_init_def om_sorted_def)

lemma ed_inv_del_map: "ed_inv d \<Longrightarrow> ed_inv (d\<lparr>sealed_file := map (\<lambda>(t, m). (t, om_del cid m)) (sealed_file d)\<rparr>)"
proof -
  assume a: "ed_inv d"
  have "map fst (map (\<lambda>(t, m). (t, om_del cid m)) xs) = map fst xs" for xs :: "(string \<times> (string \<times> string) list) list"
    by (simp add: case_prod_beta)
  then have "om_sorted (map (\<lambda>(t, m). (t, om_del cid m)) (sealed_file d))"
    using a by (simp only: ed_inv_def om_sorted_def [of "map _ _"] om_sorted_def [of "sealed_file d"])
  then show ?thesis using a by (auto simp: ed_inv_def list_all_iff om_sorted_del)
qed

lemma ed_inv_restore_item: "ed_inv d \<Longrightarrow> ed_inv (restore_item t f d)"
  by (auto simp: restore_item_def ed_inv_upd_type om_sorted_put split: JSON.splits list.splits)

lemma ed_inv_ops:
  assumes "ed_inv d"
  shows "ed_inv (add_file_info now cid type info d)" and "ed_inv (change_file_type cid old_type new_type d)"
    and "ed_inv (del_file_info cid d)" and "ed_inv (del_file_info_type cid type d)" and "ed_inv (restore_items j d)"
proof -
  show "ed_inv (add_file_info now cid type info d)"
    using assms by (simp add: add_file_info_def Let_def ed_inv_upd_type om_sorted_put om_sorted_del)
  show "ed_inv (change_file_type cid old_type new_type d)"
    using assms by (simp add: change_file_type_def ed_inv_upd_type om_sorted_put om_sorted_del split: option.split)
  show "ed_inv (del_file_info cid d)" using ed_inv_del_map [OF assms] by (simp add: del_file_info_def Let_def)
  show "ed_inv (del_file_info_type cid type d)"
    using assms by (simp add: del_file_info_type_def Let_def ed_inv_upd_type om_sorted_del)
  have inner: "ed_inv d \<Longrightarrow> ed_inv (fold (restore_item t) fs d)" for t fs and d :: "'a enclave_data_scheme"
    by (induction fs arbitrary: d) (auto simp: ed_inv_restore_item)
  have "ed_inv d \<Longrightarrow> ed_inv (fold (\<lambda>(t, fs) d. fold (restore_item t) (ArrayRange fs) d) xs d)" for xs and d :: "'a enclave_data_scheme"
    by (induction xs arbitrary: d) (auto simp: inner)
  then show "ed_inv (restore_items j d)" using assms by (simp add: restore_items_def)
qed

text \<open>The lookup finds a type exactly when the file has one.\<close>

lemma find_file_type_listed:
  assumes "ed_inv d"
  shows "find_file_type cid d = None \<longleftrightarrow> listed_as cid d = {}"
    and "find_file_type cid d = Some t \<Longrightarrow> t \<in> listed_as cid d"
proof -
  have d: "distinct (map fst (sealed_file d))" using assms by (simp add: ed_inv_def om_sorted_distinct)
  have mem: "(t, m) \<in> set (sealed_file d) \<longleftrightarrow> map_of (sealed_file d) t = Some m" for t m using d by simp
  show "find_file_type cid d = None \<longleftrightarrow> listed_as cid d = {}"
    by (auto simp: find_file_type_def find_file_type_nolock_def find_None_iff listed_as_def files_of_type_def mem split: option.splits)
  show "t \<in> listed_as cid d" if f: "find_file_type cid d = Some t"
  proof -
    obtain m where "find (\<lambda>(t, m). map_of m cid \<noteq> None) (sealed_file d) = Some (t, m)"
      using f by (auto simp: find_file_type_def find_file_type_nolock_def)
    then have "(t, m) \<in> set (sealed_file d)" "map_of m cid \<noteq> None"
      by (auto simp: find_Some_iff in_set_conv_nth)
    then show ?thesis by (simp add: mem listed_as_def files_of_type_def)
  qed
qed

end
