(* ===== verification/AppFiles.thy ===== *)
theory AppFiles
  imports EnclaveData
begin

text \<open>
  The file utilities of the application, \<open>src/src/app/utils/FileUtils.cpp\<close>: where the enclave's paths lie on the disks,
  creating directories, reading and writing files, and the space on a disk.

  The file system is a set of directories with the regular files and their contents. What the operating
  system answers is in \<open>os\<close>: the result of \<open>statfs\<close>, whether \<open>mkdir -p\<close> and opening a file for writing
  succeed, and what of the data is on the disk after a write. A file that exists can be read.
\<close>

section \<open>The file system\<close>

record statfs =
  f_bsize :: size_t
  f_blocks :: size_t
  f_bavail :: size_t
  f_fsid :: bytes

record os =
  statfs_of :: "string \<Rightarrow> statfs option"
  mkdir_ok :: "string \<Rightarrow> bool"
  open_ok :: "string \<Rightarrow> bool"
  written :: "string \<Rightarrow> bytes \<Rightarrow> bytes"

record file_tree =
  ft_dirs :: "string set"
  ft_files :: "string \<Rightarrow> bytes option"

definition exists_path :: "string \<Rightarrow> file_tree \<Rightarrow> bool" where
  "exists_path p t \<longleftrightarrow> p \<in> ft_dirs t \<or> ft_files t p \<noteq> None"

text \<open>\<open>substr(0, find_last_of("/"))\<close>: a path without a slash is its own result.\<close>

definition parent_path :: "string \<Rightarrow> string" where
  "parent_path p = (if CHR ''/'' \<in> set p then rev (tl (dropWhile (\<lambda>c. c \<noteq> CHR ''/'') (rev p))) else p)"

text \<open>\<open>mkdir -p\<close> makes the directory and those above it.\<close>

definition dir_prefixes :: "string \<Rightarrow> string list" where
  "dir_prefixes p = p # map (\<lambda>i. take i p) (filter (\<lambda>i. p ! i = CHR ''/'') [1..<length p])"

definition make_dir :: "string \<Rightarrow> file_tree \<Rightarrow> file_tree" where
  "make_dir p t = t\<lparr>ft_dirs := set (dir_prefixes p) \<union> ft_dirs t\<rparr>"

section \<open>Directories\<close>

partial_function (option) create_dir_loop :: "os \<Rightarrow> string list \<Rightarrow> file_tree \<Rightarrow> (spacex_status \<times> file_tree) option" where
  "create_dir_loop sys sub_paths t =
     (case sub_paths of
        [] \<Rightarrow> Some (SPACEX_SUCCESS, t)
      | tp # rest \<Rightarrow>
          if exists_path tp t then
            (case rest of
               [] \<Rightarrow> create_dir_loop sys rest t
             | next # _ \<Rightarrow>
                 if \<not> mkdir_ok sys next then Some (SPACEX_MKDIR_FAILED, t)
                 else create_dir_loop sys rest (make_dir next t))
          else if 1 < length (parent_path tp) then create_dir_loop sys (parent_path tp # tp # rest) t
          else create_dir_loop sys (tp # rest) t)"

declare create_dir_loop.simps [code]

definition create_directory :: "os \<Rightarrow> string \<Rightarrow> file_tree \<Rightarrow> (spacex_status \<times> file_tree) option" where
  "create_directory sys path t =
     (if path = [] then Some (SPACEX_UNEXPECTED_ERROR, t) else create_dir_loop sys [path] t)"

text \<open>Going up from a path, the search reaches one that exists before the rest is a single character.\<close>

definition grounded :: "string \<Rightarrow> file_tree \<Rightarrow> bool" where
  "grounded p t \<longleftrightarrow> (\<exists>n. exists_path ((parent_path ^^ n) p) t \<and> (\<forall>m \<in> {1..n}. 1 < length ((parent_path ^^ m) p)))"

lemma grounded_step:
  "grounded p t \<longleftrightarrow> exists_path p t \<or> 1 < length (parent_path p) \<and> grounded (parent_path p) t"
proof
  assume "grounded p t"
  then obtain n where n: "exists_path ((parent_path ^^ n) p) t" "\<forall>m \<in> {1..n}. 1 < length ((parent_path ^^ m) p)"
    unfolding grounded_def by blast
  show "exists_path p t \<or> 1 < length (parent_path p) \<and> grounded (parent_path p) t"
  proof (cases n)
    case 0
    then show ?thesis using n by simp
  next
    case (Suc k)
    have "exists_path ((parent_path ^^ k) (parent_path p)) t" using n(1) Suc by (simp add: funpow_swap1)
    moreover have "\<forall>m \<in> {1..k}. 1 < length ((parent_path ^^ m) (parent_path p))"
      using n(2) Suc by (auto simp: funpow_swap1 dest!: bspec [of _ _ "Suc _"])
    moreover have "1 < length (parent_path p)" using n(2) Suc by (auto dest!: bspec [of _ _ 1])
    ultimately show ?thesis unfolding grounded_def by blast
  qed
next
  assume "exists_path p t \<or> 1 < length (parent_path p) \<and> grounded (parent_path p) t"
  then show "grounded p t"
  proof
    assume "exists_path p t"
    then show ?thesis unfolding grounded_def by (intro exI [of _ 0]) simp
  next
    assume a: "1 < length (parent_path p) \<and> grounded (parent_path p) t"
    then obtain n where n: "exists_path ((parent_path ^^ n) (parent_path p)) t"
      "\<forall>m \<in> {1..n}. 1 < length ((parent_path ^^ m) (parent_path p))"
      unfolding grounded_def by blast
    have "1 < length ((parent_path ^^ m) p)" if "m \<in> {1..Suc n}" for m
      using that a n(2) by (cases m; cases "m = 1") (auto simp: funpow_swap1)
    with n(1) show ?thesis unfolding grounded_def by (intro exI [of _ "Suc n"]) (simp add: funpow_swap1)
  qed
qed

text \<open>The search goes on for ever when it does not.\<close>

lemma create_dir_stuck:
  "create_dir_loop sys sub_paths t = Some r \<Longrightarrow> (case sub_paths of [] \<Rightarrow> True | tp # _ \<Rightarrow> grounded tp t)"
proof (induction rule: create_dir_loop.raw_induct [rotated, consumes 1, case_names step])
  case (step f sys sub_paths t r)
  show ?case
  proof (cases sub_paths)
    case (Cons tp rest)
    have "\<not> exists_path tp t \<Longrightarrow> 1 < length (parent_path tp) \<Longrightarrow> grounded (parent_path tp) t"
      and "\<not> exists_path tp t \<Longrightarrow> \<not> 1 < length (parent_path tp) \<Longrightarrow> grounded tp t"
      using step(2) Cons by (auto dest!: step(1))
    then show ?thesis using Cons grounded_step [of tp t] by auto
  qed simp
qed

lemma exists_make_dir: "exists_path p (make_dir p t)"
  by (simp add: exists_path_def make_dir_def dir_prefixes_def)

text \<open>Once a path on the stack exists, those below it are made one after the other.\<close>

lemma create_dir_down: "exists_path tp t \<Longrightarrow> \<exists>r. create_dir_loop sys (tp # rest) t = Some r"
proof (induction rest arbitrary: tp t)
  case Nil
  have "create_dir_loop sys [] t = Some (SPACEX_SUCCESS, t)" by (subst create_dir_loop.simps) simp
  with Nil show ?case by (subst create_dir_loop.simps) simp
next
  case (Cons p rest)
  with Cons.IH [OF exists_make_dir, of p t] show ?case by (subst create_dir_loop.simps) auto
qed

lemma create_dir_up:
  "exists_path ((parent_path ^^ n) p) t \<Longrightarrow> \<forall>m \<in> {1..n}. 1 < length ((parent_path ^^ m) p) \<Longrightarrow>
    \<exists>r. create_dir_loop sys (p # rest) t = Some r"
proof (induction n arbitrary: p rest)
  case 0
  then show ?case using create_dir_down by simp
next
  case (Suc n)
  show ?case
  proof (cases "exists_path p t")
    case False
    have "exists_path ((parent_path ^^ n) (parent_path p)) t" using Suc.prems(1) by (simp add: funpow_swap1)
    moreover have "\<forall>m \<in> {1..n}. 1 < length ((parent_path ^^ m) (parent_path p))"
      using Suc.prems(2) by (auto simp: funpow_swap1 dest!: bspec [of _ _ "Suc _"])
    ultimately have "\<exists>r. create_dir_loop sys (parent_path p # p # rest) t = Some r" by (rule Suc.IH)
    moreover have "1 < length (parent_path p)" using Suc.prems(2) by (auto dest!: bspec [of _ _ 1])
    ultimately show ?thesis using False by (subst create_dir_loop.simps) simp
  qed (rule create_dir_down)
qed

lemma create_directory_returns_iff:
  "path \<noteq> [] \<Longrightarrow> (\<exists>r. create_directory sys path t = Some r) \<longleftrightarrow> grounded path t"
  using create_dir_stuck [of sys "[path]" t] create_dir_up [of _ path t sys "[]"]
  by (auto simp: create_directory_def grounded_def)

text \<open>A new directory directly under the root is such a case.\<close>

lemma parent_of_root_entry: "CHR ''/'' \<notin> set c \<Longrightarrow> parent_path (''/'' @ c) = []"
proof -
  assume "CHR ''/'' \<notin> set c"
  then have "dropWhile (\<lambda>c. c \<noteq> CHR ''/'') (rev c @ ''/'') = ''/''" by (subst dropWhile_append2) auto
  then show ?thesis by (simp add: parent_path_def)
qed

lemma not_grounded_root: "CHR ''/'' \<notin> set c \<Longrightarrow> \<not> exists_path (''/'' @ c) t \<Longrightarrow> \<not> grounded (''/'' @ c) t"
  by (subst grounded_step) (simp add: parent_of_root_entry [simplified])

section \<open>Where a path of the enclave lies\<close>

abbreviation (input) DISK_SRD_DIR :: string where "DISK_SRD_DIR \<equiv> ''/storage/srd''"
abbreviation (input) DISK_FILE_DIR :: string where "DISK_FILE_DIR \<equiv> ''/storage/files''"
abbreviation (input) DISK_UUID_FILE :: string where "DISK_UUID_FILE \<equiv> ''/storage/uuid''"

text \<open>
  A path of the enclave is the identifier of a disk, 16 characters, and a name. The empty string is an
  invalid path. For a file block the code asks for 20 characters and reads 22; the terminator is the 21st at
  least, so that \<open>None\<close>, a read past the end, is the case of exactly 20.
\<close>

definition get_real_path_by_type :: "'a enclave_data_scheme \<Rightarrow> string \<Rightarrow> store_type \<Rightarrow> string option" where
  "get_real_path_by_type d path type =
     (let d_path = get_disk_path (take (UUID_LENGTH * 2) path) d; name = drop (UUID_LENGTH * 2) path
      in if type = STORE_TYPE_REG then Some path
         else if length path < UUID_LENGTH * 2 \<or> d_path = [] \<or> length path < UUID_LENGTH * 2 + 4 then Some []
         else if type = STORE_TYPE_SRD then
           Some (d_path @ DISK_SRD_DIR @ ''/'' @ take 2 name @ ''/'' @ take 2 (drop 2 name) @ ''/'' @ drop 4 name)
         else if length path = UUID_LENGTH * 2 + 4 then None
         else Some (d_path @ DISK_FILE_DIR @ ''/'' @ take 2 (drop 2 name) @ ''/'' @
                    take 2 (drop 4 name @ [CHR 0x00]) @ ''/'' @ name))"

text \<open>Two names on one disk do not share a file.\<close>

lemma app_same_length: "length a = length b \<Longrightarrow> a @ xs = b @ ys \<longleftrightarrow> a = b \<and> xs = ys"
  by simp

lemma srd_path_inj:
  fixes a b :: string
  assumes "4 \<le> length a" and "4 \<le> length b"
    and "take 2 a @ ''/'' @ take 2 (drop 2 a) @ ''/'' @ drop 4 a = take 2 b @ ''/'' @ take 2 (drop 2 b) @ ''/'' @ drop 4 b"
  shows "a = b"
proof -
  have split: "c = take 2 c @ take 2 (drop 2 c) @ drop 4 c" for c :: string
    by (metis append_take_drop_id drop_drop numeral_Bit0)
  have l: "length (take 2 a) = length (take 2 b)" "length (take 2 (drop 2 a)) = length (take 2 (drop 2 b))"
    using assms(1,2) by simp_all
  have "take 2 a = take 2 b \<and> take 2 (drop 2 a) = take 2 (drop 2 b) \<and> drop 4 a = drop 4 b"
    using assms(3) l by (simp add: app_same_length)
  then show ?thesis using split [of a] split [of b] by simp
qed

lemma file_path_inj:
  fixes a b :: string
  assumes "5 \<le> length a" and "5 \<le> length b"
    and "take 2 (drop 2 a) @ ''/'' @ take 2 (drop 4 a @ [CHR 0x00]) @ ''/'' @ a =
         take 2 (drop 2 b) @ ''/'' @ take 2 (drop 4 b @ [CHR 0x00]) @ ''/'' @ b"
  shows "a = b"
proof -
  have l: "length (take 2 (drop 2 a)) = length (take 2 (drop 2 b))"
    "length (take 2 (drop 4 a @ [CHR 0x00])) = length (take 2 (drop 4 b @ [CHR 0x00]))"
    using assms(1,2) by auto
  then show ?thesis using assms(3) by (simp only: app_same_length append.assoc)
qed

lemma real_path_srd:
  assumes "get_real_path_by_type d (uuid @ a) STORE_TYPE_SRD = Some p" and "length uuid = UUID_LENGTH * 2" and "p \<noteq> []"
  shows "4 \<le> length a \<and>
    p = get_disk_path uuid d @ DISK_SRD_DIR @ ''/'' @ take 2 a @ ''/'' @ take 2 (drop 2 a) @ ''/'' @ drop 4 a"
proof -
  have "\<not> (length (uuid @ a) < UUID_LENGTH * 2 \<or> get_disk_path uuid d = [] \<or> length (uuid @ a) < UUID_LENGTH * 2 + 4)"
    using assms by (auto simp: get_real_path_by_type_def Let_def)
  with assms(1,2) show ?thesis by (simp add: get_real_path_by_type_def Let_def)
qed

lemma real_path_file:
  assumes "get_real_path_by_type d (uuid @ a) STORE_TYPE_FILE = Some p" and "length uuid = UUID_LENGTH * 2" and "p \<noteq> []"
  shows "5 \<le> length a \<and>
    p = get_disk_path uuid d @ DISK_FILE_DIR @ ''/'' @ take 2 (drop 2 a) @ ''/'' @ take 2 (drop 4 a @ [CHR 0x00]) @ ''/'' @ a"
proof -
  have n: "\<not> (length (uuid @ a) < UUID_LENGTH * 2 \<or> get_disk_path uuid d = [] \<or> length (uuid @ a) < UUID_LENGTH * 2 + 4)"
    using assms by (auto simp: get_real_path_by_type_def Let_def)
  moreover have "length (uuid @ a) \<noteq> UUID_LENGTH * 2 + 4"
    using assms n by (auto simp: get_real_path_by_type_def Let_def)
  ultimately show ?thesis using assms(1,2) by (simp add: get_real_path_by_type_def Let_def)
qed

lemma real_path_inj:
  assumes "get_real_path_by_type d (uuid @ a) type = Some p" and "get_real_path_by_type d (uuid @ b) type = Some p"
    and "length uuid = UUID_LENGTH * 2" and "p \<noteq> []"
  shows "a = b"
proof (cases type)
  case STORE_TYPE_REG
  then show ?thesis using assms(1,2) by (auto simp: get_real_path_by_type_def)
next
  case STORE_TYPE_SRD
  note a = real_path_srd [OF assms(1) [unfolded STORE_TYPE_SRD] assms(3,4)] and b = real_path_srd [OF assms(2) [unfolded STORE_TYPE_SRD] assms(3,4)]
  show ?thesis
    by (rule srd_path_inj [OF a [THEN conjunct1] b [THEN conjunct1]
          trans [OF a [THEN conjunct2, symmetric] b [THEN conjunct2], unfolded same_append_eq]])
next
  case STORE_TYPE_FILE
  note a = real_path_file [OF assms(1) [unfolded STORE_TYPE_FILE] assms(3,4)] and b = real_path_file [OF assms(2) [unfolded STORE_TYPE_FILE] assms(3,4)]
  show ?thesis
    by (rule file_path_inj [OF a [THEN conjunct1] b [THEN conjunct1]
          trans [OF a [THEN conjunct2, symmetric] b [THEN conjunct2], unfolded same_append_eq]])
qed

section \<open>Files\<close>

datatype save_file_type = SF_NONE | SF_CREATE_DIR

text \<open>
  \<open>save_file_ex\<close>; \<open>None\<close> when making the directory does not end. A write that fails sets a flag of the stream
  and raises nothing, so its status is a success.
\<close>

definition write_file :: "os \<Rightarrow> string \<Rightarrow> bytes \<Rightarrow> file_tree \<Rightarrow> spacex_status \<times> file_tree" where
  "write_file sys path data t =
     (if \<not> open_ok sys path then (SPACEX_OPEN_FILE_FAILED, t)
      else (SPACEX_SUCCESS, t\<lparr>ft_files := (ft_files t)(path \<mapsto> written sys path data)\<rparr>))"

definition save_file_ex ::
  "os \<Rightarrow> string \<Rightarrow> bytes \<Rightarrow> save_file_type \<Rightarrow> file_tree \<Rightarrow> (spacex_status \<times> file_tree) option" where
  "save_file_ex sys path data type t =
     (if type = SF_CREATE_DIR \<and> CHR ''/'' \<in> set path \<and> parent_path path \<noteq> [] then
        (case create_directory sys (parent_path path) t of
           None \<Rightarrow> None
         | Some (st, t') \<Rightarrow> if st \<noteq> SPACEX_SUCCESS then Some (st, t') else Some (write_file sys path data t'))
      else Some (write_file sys path data t))"

definition save_file :: "os \<Rightarrow> string \<Rightarrow> bytes \<Rightarrow> file_tree \<Rightarrow> (spacex_status \<times> file_tree) option" where
  "save_file sys path data t = save_file_ex sys path data SF_NONE t"

definition get_file_app :: "string \<Rightarrow> file_tree \<Rightarrow> spacex_status \<times> bytes" where
  "get_file_app path t =
     (if \<not> exists_path path t then (SPACEX_ACCESS_FILE_FAILED, [])
      else if path \<in> ft_dirs t then (SPACEX_OPEN_FILE_FAILED, [])
      else (SPACEX_SUCCESS, case ft_files t path of Some data \<Rightarrow> data | None \<Rightarrow> []))"

definition is_file_exist :: "'a enclave_data_scheme \<Rightarrow> string \<Rightarrow> store_type \<Rightarrow> file_tree \<Rightarrow> bool option" where
  "is_file_exist d path type t = map_option (\<lambda>r_path. exists_path r_path t) (get_real_path_by_type d path type)"

text \<open>The size of a regular file, 0 when there is none.\<close>

definition get_file_size :: "'a enclave_data_scheme \<Rightarrow> string \<Rightarrow> store_type \<Rightarrow> file_tree \<Rightarrow> int option" where
  "get_file_size d path type t =
     map_option (\<lambda>r_path. case ft_files t r_path of Some data \<Rightarrow> int (length data) | None \<Rightarrow> 0) (get_real_path_by_type d path type)"

section \<open>Space on a disk\<close>

definition get_total_space_under_dir_r :: "os \<Rightarrow> string \<Rightarrow> nat \<Rightarrow> size_t" where
  "get_total_space_under_dir_r sys path unit =
     (case statfs_of sys path of None \<Rightarrow> 0 | Some i \<Rightarrow> drop_bit unit (f_blocks i * f_bsize i))"

definition get_total_space_under_dir_g :: "os \<Rightarrow> string \<Rightarrow> size_t" where
  "get_total_space_under_dir_g sys path = get_total_space_under_dir_r sys path 30"

definition get_avail_space_under_dir_r :: "os \<Rightarrow> string \<Rightarrow> nat \<Rightarrow> size_t" where
  "get_avail_space_under_dir_r sys path unit =
     (case statfs_of sys path of None \<Rightarrow> 0 | Some i \<Rightarrow> drop_bit unit (f_bavail i * f_bsize i))"

definition get_avail_space_under_dir_g :: "os \<Rightarrow> string \<Rightarrow> size_t" where
  "get_avail_space_under_dir_g sys path = get_avail_space_under_dir_r sys path 30"

lemma avail_space_g_bound: "get_avail_space_under_dir_g sys path < 2 ^ 34"
proof -
  have "unat (drop_bit 30 (w :: size_t)) < 2 ^ 34" for w
  proof -
    have "unat w < 2 ^ 64" using unsigned_less [of w] by simp
    then have "unat w div 2 ^ 30 < 2 ^ 34" by (simp add: less_mult_imp_div_less)
    moreover have "unat (drop_bit 30 w) = unat w div 2 ^ 30" by (simp add: drop_bit_eq_div unat_div_distrib)
    ultimately show ?thesis by simp
  qed
  then show ?thesis
    by (auto simp: get_avail_space_under_dir_g_def get_avail_space_under_dir_r_def word_less_nat_alt split: option.splits)
qed

section \<open>The handlers of calls about files\<close>

text \<open>\<open>src/src/app/ocalls/StoreOCalls.cpp\<close>. An undefined path makes the whole call undefined.\<close>

definition ocall_create_dir ::
  "os \<Rightarrow> 'a enclave_data_scheme \<Rightarrow> string \<Rightarrow> store_type \<Rightarrow> file_tree \<Rightarrow> (spacex_status \<times> file_tree) option" where
  "ocall_create_dir sys d path type t =
     (case get_real_path_by_type d path type of None \<Rightarrow> None | Some r_path \<Rightarrow> create_directory sys r_path t)"

definition ocall_save_file ::
  "os \<Rightarrow> 'a enclave_data_scheme \<Rightarrow> string \<Rightarrow> bytes \<Rightarrow> store_type \<Rightarrow> file_tree \<Rightarrow> (spacex_status \<times> file_tree) option" where
  "ocall_save_file sys d path data type t =
     (case get_real_path_by_type d path type of None \<Rightarrow> None | Some r_path \<Rightarrow> save_file sys r_path data t)"

definition ocall_get_file :: "'a enclave_data_scheme \<Rightarrow> string \<Rightarrow> store_type \<Rightarrow> file_tree \<Rightarrow> (spacex_status \<times> bytes) option" where
  "ocall_get_file d path type t = map_option (\<lambda>r_path. get_file_app r_path t) (get_real_path_by_type d path type)"

lemma write_get_file:
  assumes "open_ok sys p" and "written sys p data = data" and "p \<notin> ft_dirs t"
  shows "get_file_app p (snd (write_file sys p data t)) = (SPACEX_SUCCESS, data)"
  using assms by (simp add: write_file_def get_file_app_def exists_path_def)

lemma write_get_other: "p \<noteq> q \<Longrightarrow> get_file_app q (snd (write_file sys p data t)) = get_file_app q t"
  by (auto simp: write_file_def get_file_app_def exists_path_def)

text \<open>What is saved under one name is read back, and a save under another name of the disk leaves it alone.\<close>

lemma save_get_file:
  assumes "get_real_path_by_type d path type = Some p" and "open_ok sys p" and "written sys p data = data" and "p \<notin> ft_dirs t"
  shows "\<exists>t'. ocall_save_file sys d path data type t = Some (SPACEX_SUCCESS, t') \<and>
    ocall_get_file d path type t' = Some (SPACEX_SUCCESS, data)"
  using write_get_file [OF assms(2-4)] assms(1,2)
  by (simp add: ocall_save_file_def ocall_get_file_def save_file_def save_file_ex_def write_file_def)

lemma save_keeps_other:
  assumes "length uuid = UUID_LENGTH * 2" and "a \<noteq> b"
    and "ocall_save_file sys d (uuid @ a) data type t = Some (st, t')" and "get_real_path_by_type d (uuid @ b) type = Some q" and "q \<noteq> []"
  shows "ocall_get_file d (uuid @ b) type t' = ocall_get_file d (uuid @ b) type t"
proof -
  obtain p where p: "get_real_path_by_type d (uuid @ a) type = Some p" and t': "(st, t') = write_file sys p data t"
    using assms(3) by (auto simp: ocall_save_file_def save_file_def save_file_ex_def split: option.splits)
  have "p \<noteq> q" using real_path_inj [OF p _ assms(1)] assms(2,4,5) by blast
  from write_get_other [OF this, of sys data t] t' assms(4) show ?thesis
    by (metis ocall_get_file_def option.map(2) snd_conv)
qed

end
