(* ===== verification/Config.thy ===== *)
theory Config
  imports AppFiles
begin

text \<open>
  The configuration of the application as far as it changes at run time, \<open>src/src/app/config/Config.cpp\<close>: the paths of the
  data disks. Several configured paths can lie on one disk, and disks can come and go; \<open>refresh_data_paths\<close>
  keeps one path per disk that is there, and leaves out the system disk unless it is the only one.
\<close>

record config =
  cf_base_path :: string
  cf_sys_fsid :: string
  cf_data_paths :: "string list"
  cf_org_data_paths :: "string list"

definition fsid_of :: "os \<Rightarrow> string \<Rightarrow> string option" where
  "fsid_of sys path = map_option (\<lambda>st. json_hexstring (f_fsid st)) (statfs_of sys path)"

definition sort_data_paths :: "'a config_scheme \<Rightarrow> 'a config_scheme" where
  "sort_data_paths c = c\<lparr>cf_data_paths := sort_key length (sort (cf_data_paths c))\<rparr>"

definition is_valid_or_normal_disk :: "os \<Rightarrow> string \<Rightarrow> 'a config_scheme \<Rightarrow> bool" where
  "is_valid_or_normal_disk sys path c =
     (case fsid_of sys path of
        None \<Rightarrow> False
      | Some fsid \<Rightarrow> cf_sys_fsid c \<noteq> fsid \<or> length (cf_data_paths c) = 1)"

text \<open>One turn of the loop over the configured paths: the paths taken, the disks seen, and the first path on the system disk.\<close>

definition refresh_step ::
  "os \<Rightarrow> string \<Rightarrow> string \<Rightarrow> string list \<times> string list \<times> string \<Rightarrow> string list \<times> string list \<times> string" where
  "refresh_step sys sys_fsid path acc =
     (case acc of (data_paths, sids_s, sys_disk_path) \<Rightarrow>
        (case fsid_of sys path of
           None \<Rightarrow> acc
         | Some fsid \<Rightarrow>
             if sys_fsid \<noteq> fsid then (if fsid \<notin> set sids_s then (data_paths @ [path], fsid # sids_s, sys_disk_path) else acc)
             else (data_paths, sids_s, if sys_disk_path = [] then path else sys_disk_path)))"

definition refresh_data_paths :: "os \<Rightarrow> 'a config_scheme \<Rightarrow> 'a config_scheme" where
  "refresh_data_paths sys c =
     (let (data_paths, _, sys_disk_path) = fold (refresh_step sys (cf_sys_fsid c)) (remdups (sort (cf_org_data_paths c))) ([], [], []);
          data_paths' = (if data_paths = [] \<and> sys_disk_path \<noteq> [] then [sys_disk_path] else data_paths)
      in sort_data_paths (c\<lparr>cf_data_paths := data_paths'\<rparr>))"

definition unique_paths :: "os \<Rightarrow> 'a config_scheme \<Rightarrow> bool \<times> 'a config_scheme" where
  "unique_paths sys c =
     (let c1 = (case fsid_of sys (cf_base_path c) of None \<Rightarrow> c | Some fsid \<Rightarrow> c\<lparr>cf_sys_fsid := fsid\<rparr>);
          c2 = refresh_data_paths sys c1
      in (cf_data_paths c2 \<noteq> [], c2))"

definition get_data_paths :: "'a config_scheme \<Rightarrow> string list" where
  "get_data_paths c = cf_data_paths c"

definition is_valid_data_path :: "os \<Rightarrow> string \<Rightarrow> 'a config_scheme \<Rightarrow> bool" where
  "is_valid_data_path sys path c =
     (case fsid_of sys path of
        None \<Rightarrow> False
      | Some fsid \<Rightarrow> cf_sys_fsid c \<noteq> fsid \<and> Some fsid \<notin> set (map (fsid_of sys) (cf_data_paths c)))"

section \<open>Adding paths\<close>

text \<open>
  The loop of \<open>config_file_add_data_paths\<close>: the list in the configuration, the paths known, and the new ones.
  The check of each path is against the paths before the call.
\<close>

fun add_paths_loop ::
  "os \<Rightarrow> 'a config_scheme \<Rightarrow> JSON list \<Rightarrow> JSON \<times> string list \<times> string list \<Rightarrow> JSON \<times> string list \<times> string list" where
  "add_paths_loop sys c [] acc = acc"
| "add_paths_loop sys c (path # paths) (data_path, paths_s, valid_paths) =
     add_paths_loop sys c paths
       (if is_valid_data_path sys (ToString path) c then
          (if ToString path \<notin> set paths_s
           then (json_append path data_path, ToString path # paths_s, valid_paths @ [ToString path])
           else (json_append path data_path, paths_s, valid_paths))
        else (data_path, paths_s, valid_paths))"

definition config_file_add_data_paths ::
  "env \<Rightarrow> float_lib \<Rightarrow> os \<Rightarrow> string \<Rightarrow> JSON \<Rightarrow> 'a config_scheme \<Rightarrow> file_tree \<Rightarrow> (bool \<times> 'a config_scheme \<times> file_tree) option" where
  "config_file_add_data_paths e fl sys config_file_path paths c t =
     (if JSONType paths \<noteq> CArray \<or> json_size paths \<le> 0 then Some (False, c, t)
      else let (st, data) = get_file_app config_file_path t
           in if st \<noteq> SPACEX_SUCCESS then Some (False, c, t)
              else case Load e fl (bytes_str data) of
                     POk (config_json, st) \<Rightarrow>
                       if st \<noteq> SPACEX_SUCCESS \<or> JSONType (jget config_json ''data_path'') \<noteq> CArray then Some (False, c, t)
                       else
                         let (data_path, _, valid_paths) =
                               add_paths_loop sys c (ArrayRange paths) (jget config_json ''data_path'', cf_data_paths c, []);
                             c1 = c\<lparr>cf_data_paths := cf_data_paths c @ valid_paths, cf_org_data_paths := cf_org_data_paths c @ valid_paths\<rparr>;
                             config_str = replace_from (dump_json e (jset config_json ''data_path'' data_path))
                               [CHR 0x5C, CHR 0x5C] [CHR 0x5C]
                         in if valid_paths = [] then Some (False, c1, t)
                            else map_option (\<lambda>(st, t'). (st = SPACEX_SUCCESS, sort_data_paths c1, t'))
                                   (save_file sys config_file_path (str_bytes config_str) t)
                   | _ \<Rightarrow> None)"

section \<open>One path per disk\<close>

definition refresh_inv :: "os \<Rightarrow> string \<Rightarrow> string set \<Rightarrow> string list \<times> string list \<times> string \<Rightarrow> bool" where
  "refresh_inv sys f ps acc = (case acc of (ds, sids, sp) \<Rightarrow>
     map (fsid_of sys) ds = map Some (rev sids) \<and> distinct sids \<and> set ds \<subseteq> ps \<and>
     set sids = {x. x \<noteq> f \<and> Some x \<in> fsid_of sys ` ps} \<and>
     (if sp = [] then \<forall>p \<in> ps. p \<noteq> [] \<longrightarrow> fsid_of sys p \<noteq> Some f else sp \<in> ps \<and> fsid_of sys sp = Some f))"

lemma refresh_step_inv: "refresh_inv sys f ps acc \<Longrightarrow> refresh_inv sys f (insert p ps) (refresh_step sys f p acc)"
  by (cases acc; cases "fsid_of sys p") (auto simp: refresh_inv_def refresh_step_def split: if_splits)

lemma refresh_fold_inv: "refresh_inv sys f ps acc \<Longrightarrow> refresh_inv sys f (set paths \<union> ps) (fold (refresh_step sys f) paths acc)"
proof (induction paths arbitrary: ps acc)
  case (Cons p paths)
  from Cons.IH [OF refresh_step_inv [OF Cons.prems]] show ?case by simp
qed simp

lemma set_sorted_paths [simp]: "set (sort_key length (sort xs)) = set (xs :: string list)"
  by simp

text \<open>What the new paths are, for the configured ones \<open>ps\<close>.\<close>

lemma refresh_data_paths_spec:
  fixes c :: "'a config_scheme" and sys :: os
  assumes "[] \<notin> set (cf_org_data_paths c)"
  defines "ps \<equiv> set (cf_org_data_paths c)" and "f \<equiv> cf_sys_fsid c" and "new \<equiv> cf_data_paths (refresh_data_paths sys c)"
  shows "set new \<subseteq> ps" and "inj_on (fsid_of sys) (set new)" and "distinct new" and "None \<notin> fsid_of sys ` set new"
    and "\<And>x. Some x \<in> fsid_of sys ` ps \<Longrightarrow> x \<noteq> f \<Longrightarrow> Some x \<in> fsid_of sys ` set new"
    and "Some f \<in> fsid_of sys ` set new \<longleftrightarrow> Some f \<in> fsid_of sys ` ps \<and> (\<forall>x. Some x \<in> fsid_of sys ` ps \<longrightarrow> x = f)"
proof -
  obtain ds sids sp where acc: "fold (refresh_step sys f) (remdups (sort (cf_org_data_paths c))) ([], [], []) = (ds, sids, sp)"
    by (metis prod_cases3)
  have "refresh_inv sys f {} ([], [], [])" by (simp add: refresh_inv_def)
  from refresh_fold_inv [OF this, of "remdups (sort (cf_org_data_paths c))"]
  have inv: "refresh_inv sys f ps (ds, sids, sp)" by (simp add: acc ps_def)
  have new: "set new = set (if ds = [] \<and> sp \<noteq> [] then [sp] else ds)"
    "length new = length (if ds = [] \<and> sp \<noteq> [] then [sp] else ds)"
    by (simp_all add: new_def refresh_data_paths_def acc [unfolded f_def] sort_data_paths_def)
  have m: "map (fsid_of sys) ds = map Some (rev sids)" and dist: "distinct (map (fsid_of sys) ds)"
    using inv by (auto simp: refresh_inv_def distinct_map)
  then have fs: "fsid_of sys ` set ds = Some ` set sids" by (metis image_set set_rev)
  show "set new \<subseteq> ps" using inv by (auto simp: new refresh_inv_def)
  show "inj_on (fsid_of sys) (set new)" using dist by (auto simp: new distinct_map)
  show "distinct new" using dist new by (intro card_distinct) (auto simp: distinct_map distinct_card)
  show "None \<notin> fsid_of sys ` set new" using fs inv by (auto simp: new refresh_inv_def split: if_splits)
  show "Some x \<in> fsid_of sys ` set new" if "Some x \<in> fsid_of sys ` ps" "x \<noteq> f" for x
  proof -
    have "x \<in> set sids" using that inv by (auto simp: refresh_inv_def)
    then have "Some x \<in> fsid_of sys ` set ds" using fs by simp
    then show ?thesis by (auto simp: new)
  qed
  have empty: "ds = [] \<longleftrightarrow> (\<forall>x. Some x \<in> fsid_of sys ` ps \<longrightarrow> x = f)"
  proof -
    have "ds = [] \<longleftrightarrow> set sids = {}" using fs by auto
    moreover have "set sids = {x. x \<noteq> f \<and> Some x \<in> fsid_of sys ` ps}" using inv by (simp add: refresh_inv_def)
    ultimately have "ds = [] \<longleftrightarrow> {x. x \<noteq> f \<and> Some x \<in> fsid_of sys ` ps} = {}" by simp
    then show ?thesis unfolding Collect_empty_eq by meson
  qed
  have sp: "sp \<noteq> [] \<longleftrightarrow> Some f \<in> fsid_of sys ` ps"
  proof (cases "sp = []")
    case True
    then have "\<forall>p \<in> ps. p \<noteq> [] \<longrightarrow> fsid_of sys p \<noteq> Some f" using inv by (simp add: refresh_inv_def)
    moreover have "[] \<notin> ps" using assms(1) by (simp add: ps_def)
    ultimately have "Some f \<notin> fsid_of sys ` ps" by (metis imageE)
    with True show ?thesis by simp
  next
    case False
    then have "sp \<in> ps" "Some f = fsid_of sys sp" using inv by (auto simp: refresh_inv_def)
    then have "Some f \<in> fsid_of sys ` ps" by (rule rev_image_eqI)
    with False show ?thesis by simp
  qed
  have "Some f \<notin> fsid_of sys ` set ds" using fs inv by (auto simp: refresh_inv_def)
  moreover have "fsid_of sys sp = Some f" if "sp \<noteq> []" using that inv by (simp add: refresh_inv_def)
  ultimately show "Some f \<in> fsid_of sys ` set new \<longleftrightarrow> Some f \<in> fsid_of sys ` ps \<and> (\<forall>x. Some x \<in> fsid_of sys ` ps \<longrightarrow> x = f)"
    using empty sp by (auto simp: new)
qed

text \<open>Until the next refresh two new paths of one disk are both taken, so the disk counts twice.\<close>

lemma add_paths_same_disk:
  assumes "is_valid_data_path sys (ToString a) c" and "fsid_of sys (ToString b) = fsid_of sys (ToString a)"
    and "ToString a \<noteq> ToString b" and "ToString a \<notin> set (cf_data_paths c)" and "ToString b \<notin> set (cf_data_paths c)"
  shows "snd (snd (add_paths_loop sys c [a, b] (j, cf_data_paths c, []))) = [ToString a, ToString b]"
proof -
  have "is_valid_data_path sys (ToString b) c" using assms(1,2) by (simp add: is_valid_data_path_def)
  then show ?thesis using assms by simp
qed

end
