(* ===== verification/Metadata.thy ===== *)
theory Metadata
  imports Workload JsonRoundtrip
begin

text \<open>
  The metadata of the enclave: storing and restoring it (\<open>id_store_metadata\<close>, \<open>id_restore_metadata\<close> and
  the small identity operations of \<open>src/src/enclave/identity/Identity.cpp\<close>), and \<open>handle_report_result\<close>
  of \<open>Workload.cpp\<close>, which stores it.
\<close>

section \<open>Storing\<close>

definition key_pair_bytes :: "'a workload_scheme \<Rightarrow> bytes" where
  "key_pair_bytes s = fst (id_key_pair s) @ snd (id_key_pair s)"

definition meta_json :: "env \<Rightarrow> 'a workload_scheme \<Rightarrow> JSON" where
  "meta_json e s =
     (let j = jset JNull ID_KEY_PAIR (JString (hexstring_safe e (key_pair_bytes s)));
          j = jset j ID_REPORT_HEIGHT (JString (nat_to_string (unat (report_height s))));
          j = jset j ID_CHAIN_ACCOUNT_ID (JString (account_id s));
          j = jset j ID_SRD (serialize_srd e s);
          j = jset j ID_FILE (serialize_file s)
      in if upgrade s then jset j ID_PRE_PUB_KEY (JString (hexstring_safe e (pre_pub_key s))) else j)"

definition id_store_metadata :: "env \<Rightarrow> 'a workload_scheme \<Rightarrow> spacex_status \<times> 'a workload_scheme" where
  "id_store_metadata e s =
     (if upgrade_status s = ENC_UPGRADE_STATUS_SUCCESS then (SPACEX_SUCCESS, s)
      else persist_set e ID_METADATA
             (str_bytes STORAGE_PRIVATE_TAG @ dump_vector (double_to_string e) (meta_json e s)) s)"

section \<open>Restoring\<close>

text \<open>
  The value of \<open>persist_get\<close> is used without a check: a null pointer (\<open>None\<close>) and data that ends inside
  the tag are undefined. So is a stored key pair with fewer than 96 bytes, which is read in full.
\<close>

definition load_metadata :: "env \<Rightarrow> float_lib \<Rightarrow> bytes option \<Rightarrow> (JSON \<times> spacex_status) option" where
  "load_metadata e fl data =
     (case data of
        None \<Rightarrow> None
      | Some d \<Rightarrow>
          if d = [] then Some (JNull, SPACEX_SUCCESS)
          else if length d \<le> length STORAGE_PRIVATE_TAG then None
          else (case Load e fl (bytes_str (drop (length STORAGE_PRIVATE_TAG) d)) of
                  POk r \<Rightarrow> Some r
                | _ \<Rightarrow> None))"

text \<open>The part after the key pair was checked, before the \<open>Defer\<close> action; \<open>k\<close> are the bytes of the key pair.\<close>

definition restore_parts :: "env \<Rightarrow> JSON \<Rightarrow> bytes \<Rightarrow> 'a workload_scheme \<Rightarrow> (spacex_status \<times> 'a workload_scheme) option" where
  "restore_parts e meta k s =
     (let (st, s1) = restore_srd e (jget meta ID_SRD) s
      in if st \<noteq> SPACEX_SUCCESS then Some (st, s1)
         else let (st, s2) = restore_file e (jget meta ID_FILE) s1
              in if st \<noteq> SPACEX_SUCCESS then Some (st, s2)
                 else if length k < 96 then None
                 else let s3 = set_key_pair (take 64 k, take 32 (drop 64 k)) s2;
                          s4 = set_report_height (of_int (ToInt (jget meta ID_REPORT_HEIGHT))) s3;
                          (st, s5) = restore_pre_pub_key e meta s4
                      in if st \<noteq> SPACEX_SUCCESS then Some (st, s5)
                         else Some (SPACEX_SUCCESS,
                                set_restart_flag (set_account_id (ToString (jget meta ID_CHAIN_ACCOUNT_ID)) s5)))"

definition id_restore_metadata :: "env \<Rightarrow> float_lib \<Rightarrow> 'a workload_scheme \<Rightarrow> (spacex_status \<times> 'a workload_scheme) option" where
  "id_restore_metadata e fl s =
     (let (st, data) = persist_get e ID_METADATA s
      in if st \<noteq> SPACEX_SUCCESS then Some (SPACEX_UNEXPECTED_ERROR, s)
         else case load_metadata e fl data of
                None \<Rightarrow> None
              | Some (meta, st) \<Rightarrow>
                  if st \<noteq> SPACEX_SUCCESS then Some (st, s)
                  else if json_size meta = 0 then Some (SPACEX_INVALID_META_DATA, s)
                  else (case hex_string_to_bytes e (ToString (jget meta ID_KEY_PAIR)) of
                          None \<Rightarrow> Some (SPACEX_INVALID_META_DATA, s)
                        | Some k \<Rightarrow>
                            if is_set_key_pair s \<and> length k < 96 then None
                            else if is_set_key_pair s \<and> take 96 k \<noteq> key_pair_bytes s
                            then Some (SPACEX_INVALID_META_DATA, s)
                            else map_option (\<lambda>(st, s'). (st, if st \<noteq> SPACEX_SUCCESS then clean_all e s' else s'))
                                   (restore_parts e meta k s)))"

section \<open>Identity\<close>

definition id_gen_key_pair :: "env \<Rightarrow> string \<Rightarrow> 'a workload_scheme \<Rightarrow> bool \<times> 'a workload_scheme" where
  "id_gen_key_pair e account s =
     (if is_set_key_pair s then (False, s)
      else if account = [] then (False, s)
      else case sgx_ecc256_create_key_pair e (length (ocalls s)) of
             None \<Rightarrow> (False, s)
           | Some kp \<Rightarrow> (True, set_account_id account (set_key_pair kp s)))"

definition id_gen_sgx_measurement :: "env \<Rightarrow> 'a workload_scheme \<Rightarrow> bool \<times> 'a workload_scheme" where
  "id_gen_sgx_measurement e s =
     (case sgx_create_report e of None \<Rightarrow> (False, s) | Some mr \<Rightarrow> (True, set_mr_enclave mr s))"

text \<open>
  The comparison reads as many characters as the argument has; the text of the enclave ends with a
  null character, so a longer argument differs there. (A \<open>memcmp\<close> past the end of both is not reached
  when the argument has no null character.)
\<close>

definition id_cmp_chain_account_id :: "string \<Rightarrow> 'a workload_scheme \<Rightarrow> spacex_status" where
  "id_cmp_chain_account_id account s =
     (if take (length account) (account_id s @ [CHR 0x00]) \<noteq> account then SPACEX_NOT_EQUAL else SPACEX_SUCCESS)"

definition id_get_info :: "env \<Rightarrow> 'a workload_scheme \<Rightarrow> 'a workload_scheme" where
  "id_get_info e s =
     emit (Ocall_store_enclave_id_info (dump_json e
       (jset (jset JNull ''pub_key'' (JString (hexstring_safe e (fst (id_key_pair s)))))
          ''mrenclave'' (JString (hexstring_safe e (mr_enclave s)))))) s"

section \<open>The result of a report\<close>

definition confirmed :: "JSON \<Rightarrow> JSON" where
  "confirmed f = set_status ORIGIN_STATUS (file_status f WAITING_STATUS) f"

definition confirm_file :: "string \<Rightarrow> bool \<times> 'a workload_scheme \<Rightarrow> bool \<times> 'a workload_scheme" where
  "confirm_file cid = (\<lambda>(handled, s).
     (let (dup, pos) = is_file_dup_nolock cid s
      in if dup
         then (True, upd_file pos confirmed s)
         else (handled, s)))"

definition handle_report_result :: "env \<Rightarrow> 'a workload_scheme \<Rightarrow> 'a workload_scheme" where
  "handle_report_result e s =
     (let (handled, s1) = fold confirm_file (reported_files_idx s) (False, s);
          s2 = s1\<lparr>reported_files_idx := []\<rparr>
      in if handled then snd (id_store_metadata e s2) else s2)"

section \<open>Frames\<close>

text \<open>A state with the same workload has the same fields.\<close>

lemma workload_more:
  assumes "boundary.more s' = boundary.more s"
  shows "srd_hashs s' = srd_hashs s" "sealed_files s' = sealed_files s" "reported_files_idx s' = reported_files_idx s"
    "pre_pub_key s' = pre_pub_key s" "account_id s' = account_id s" "id_key_pair s' = id_key_pair s"
    "is_set_key_pair s' = is_set_key_pair s" "report_height s' = report_height s" "restart_flag s' = restart_flag s"
    "validated_srd_proof s' = validated_srd_proof s" "validated_file_proof s' = validated_file_proof s"
    "report_files s' = report_files s" "upgrade s' = upgrade s" "upgrade_status s' = upgrade_status s"
  using assms by (cases s; cases s'; simp)+

section \<open>What a report confirms\<close>

lemma file_wf_confirmed: "file_wf f \<Longrightarrow> file_wf (confirmed f) \<and> file_cid (confirmed f) = file_cid f"
  by (simp add: confirmed_def file_wf_set_status file_status_mem file_simps)

lemma confirm_file_spec:
  assumes "wl_inv s" and "confirm_file cid (h, s) = (h', s')"
  shows "wl_inv s'" and "files_of s' = (files_of s)(cid := map_option confirmed (files_of s cid))"
    and "h' \<longleftrightarrow> h \<or> files_of s cid \<noteq> None" and "s' = s\<lparr>sealed_files := sealed_files s'\<rparr>"
proof -
  have srt: "files_sorted s" using assms(1) by (simp add: wl_inv_def)
  have "wl_inv s' \<and> files_of s' = (files_of s)(cid := map_option confirmed (files_of s cid)) \<and>
    (h' \<longleftrightarrow> h \<or> files_of s cid \<noteq> None) \<and> s' = s\<lparr>sealed_files := sealed_files s'\<rparr>"
  proof (cases "cid \<in> set (cids s)")
    case True
    let ?p = "lower_bound cid (cids s)"
    note p = dup_position [OF srt True] and f = files_of_position [OF srt True]
    have s': "s' = upd_file ?p confirmed s" "h'"
      using assms(2) True srt by (auto simp: confirm_file_def is_file_dup_sorted)
    have wf: "file_wf (sealed_files s ! ?p)" using assms(1) p(1) by (rule wl_inv_file_at)
    have "wl_inv s'" unfolding s' using assms(1) p(1) file_wf_confirmed by (intro wl_inv_upd_file) auto
    moreover have "files_of s' = (files_of s)(cid := map_option confirmed (files_of s cid))"
      using files_update(2) [OF srt p(1), of "confirmed (sealed_files s ! ?p)"] file_wf_confirmed [OF wf] p(2) f
      by (simp add: s' upd_file_def)
    ultimately show ?thesis using f s' by (simp add: upd_file_def)
  next
    case False
    then have "files_of s cid = None" using dom_files_of [of s cid] by blast
    with False assms srt show ?thesis by (auto simp: confirm_file_def is_file_dup_sorted fun_upd_idem)
  qed
  then show "wl_inv s'" and "files_of s' = (files_of s)(cid := map_option confirmed (files_of s cid))"
    and "h' \<longleftrightarrow> h \<or> files_of s cid \<noteq> None" and "s' = s\<lparr>sealed_files := sealed_files s'\<rparr>" by blast+
qed

lemma confirm_files_spec:
  "wl_inv s \<Longrightarrow> distinct cs \<Longrightarrow> fold confirm_file cs (h, s) = (h', s') \<Longrightarrow>
   wl_inv s' \<and> files_of s' = (\<lambda>c. if c \<in> set cs then map_option confirmed (files_of s c) else files_of s c) \<and>
   (h' \<longleftrightarrow> h \<or> (\<exists>c \<in> set cs. files_of s c \<noteq> None)) \<and> s' = s\<lparr>sealed_files := sealed_files s'\<rparr>"
proof (induction cs arbitrary: h s)
  case (Cons c cs)
  obtain h1 s1 where c: "confirm_file c (h, s) = (h1, s1)" by fastforce
  note s1 = confirm_file_spec [OF Cons.prems(1) c]
  have "fold confirm_file cs (h1, s1) = (h', s')" using Cons.prems(3) c by simp
  from Cons.IH [OF s1(1) _ this] Cons.prems(2)
  have IH: "wl_inv s'" "files_of s' = (\<lambda>c. if c \<in> set cs then map_option confirmed (files_of s1 c) else files_of s1 c)"
    "h' \<longleftrightarrow> h1 \<or> (\<exists>c \<in> set cs. files_of s1 c \<noteq> None)" "s' = s1\<lparr>sealed_files := sealed_files s'\<rparr>" by auto
  have "s' = s\<lparr>sealed_files := sealed_files s'\<rparr>" by (subst IH(4), subst s1(4)) simp
  moreover have "files_of s' = (\<lambda>d. if d \<in> set (c # cs) then map_option confirmed (files_of s d) else files_of s d)"
    using Cons.prems(2) by (auto simp: IH(2) s1(2) fun_eq_iff)
  moreover have "h' \<longleftrightarrow> h \<or> (\<exists>d \<in> set (c # cs). files_of s d \<noteq> None)"
    using Cons.prems(2) by (auto simp: IH(3) s1(2,3))
  ultimately show ?case using IH(1) by blast
qed auto

lemma id_store_metadata_more: "boundary.more (snd (id_store_metadata e s)) = boundary.more s"
  by (simp add: id_store_metadata_def frame_simps)

lemma handle_report_result_spec:
  assumes inv: "wl_inv s"
  shows "wl_inv (handle_report_result e s)"
    and "files_of (handle_report_result e s) =
      (\<lambda>c. if c \<in> set (reported_files_idx s) then map_option confirmed (files_of s c) else files_of s c)"
    and "reported_files_idx (handle_report_result e s) = []"
    and "boundary.more (handle_report_result e s) =
      boundary.more (s\<lparr>sealed_files := sealed_files (handle_report_result e s), reported_files_idx := []\<rparr>)"
proof -
  obtain h s1 where f: "fold confirm_file (reported_files_idx s) (False, s) = (h, s1)" by fastforce
  have d: "distinct (reported_files_idx s)" using inv by (simp add: wl_inv_def strict_sorted_iff)
  note s1 = confirm_files_spec [OF inv d f]
  let ?s2 = "s1\<lparr>reported_files_idx := []\<rparr>"
  have m: "boundary.more (handle_report_result e s) = boundary.more ?s2"
    using f by (simp add: handle_report_result_def id_store_metadata_more Let_def)
  have s2: "wl_inv ?s2" using s1 by (simp add: wl_inv_def files_sorted_def)
  show "wl_inv (handle_report_result e s)" using s2 m by (rule wl_inv_more)
  have "files_of (handle_report_result e s) = files_of ?s2"
    using sealed_files_more [OF m] by (simp add: files_of_def)
  then show "files_of (handle_report_result e s) =
      (\<lambda>c. if c \<in> set (reported_files_idx s) then map_option confirmed (files_of s c) else files_of s c)"
    using s1 by (simp add: files_of_def)
  show "reported_files_idx (handle_report_result e s) = []"
    using workload_more(3) [OF m] by simp
  have "s1 = s\<lparr>sealed_files := sealed_files s1\<rparr>" using s1 by blast
  then have "?s2 = s\<lparr>sealed_files := sealed_files s1, reported_files_idx := []\<rparr>" by (cases s; cases s1) simp
  then show "boundary.more (handle_report_result e s) =
      boundary.more (s\<lparr>sealed_files := sealed_files (handle_report_result e s), reported_files_idx := []\<rparr>)"
    using m sealed_files_more [OF m] by simp
qed

section \<open>Storing and restoring\<close>

lemma json_rt_jset:
  assumes "json_rt j" and "JSONType j \<in> {CNull, CObject}" and "json_plain k" and "\<not> prefix HASH_TAG k" and "json_rt v"
  shows "json_rt (jset j k v)"
proof (cases j)
  case (JObject m)
  have "set (om_put k v m) \<subseteq> insert (k, v) (set m)" by (induction m) auto
  with assms JObject show ?thesis by (auto simp: jset_def om_sorted_put)
qed (use assms in \<open>auto simp: jset_def om_sorted_def\<close>)

text \<open>Entries that the text format keeps: no buffers and no floating point values inside.\<close>

definition files_rt :: "'a workload_scheme \<Rightarrow> bool" where
  "files_rt s \<longleftrightarrow> (\<forall>f \<in> set (sealed_files s). json_rt f \<and> \<not> prefix HASH_TAG (file_cid f))"

lemma plain_keys:
  "json_plain FILE_CID" "json_plain FILE_STATUS" "json_plain ID_KEY_PAIR" "json_plain ID_REPORT_HEIGHT"
  "json_plain ID_CHAIN_ACCOUNT_ID" "json_plain ID_SRD" "json_plain ID_FILE" "json_plain ID_PRE_PUB_KEY"
  by code_simp+

lemma no_tag: "s = [] \<or> hd s \<noteq> CHR ''$'' \<Longrightarrow> \<not> prefix HASH_TAG s"
  by (cases s) auto

lemma hextable_no_dollar: "n < 16 \<Longrightarrow> hextable ! n \<noteq> CHR ''$''"
proof -
  have "list_all (\<lambda>n. hextable ! n \<noteq> CHR ''$'') [0..<16]" by code_simp
  then show "n < 16 \<Longrightarrow> ?thesis" by (simp add: list_all_iff)
qed

lemma plain_hex_no_tag: "\<not> prefix HASH_TAG (plain_hex bs)"
proof (rule no_tag, cases bs)
  case (Cons b bs')
  have "unat b div 16 < 16" using unat_byte_less [of b] by simp
  with Cons hextable_no_dollar show "plain_hex bs = [] \<or> hd (plain_hex bs) \<noteq> CHR ''$''" by (simp add: plain_hex_def)
qed (simp add: plain_hex_def)

lemma json_rt_entry:
  assumes "file_wf f" and "json_rt f" and "\<not> prefix HASH_TAG (file_cid f)"
  shows "json_rt (serialize_entry f)"
proof (cases "not_pending f")
  case False
  have "\<not> prefix HASH_TAG (ToString (jget f FILE_STATUS))"
  proof (rule no_tag)
    obtain st where st: "jget f FILE_STATUS = JString st" "length st = 3" "file_status f 0 = st ! 0"
      using assms(1) by (rule file_wf_status) auto
    have "st ! 0 = FILE_STATUS_PENDING" using False st(3) by (simp add: not_pending_def)
    then show "ToString (jget f FILE_STATUS) = [] \<or> hd (ToString (jget f FILE_STATUS)) \<noteq> CHR ''$''"
      using st(1,2) by (cases st) (auto simp: json_escape_def json_escape_char_def)
  qed
  with assms False show ?thesis
    by (simp add: serialize_entry_def file_cid_def json_rt_jset plain_keys)
qed (use assms in \<open>simp add: serialize_entry_def\<close>)

lemma nat_to_string_no_tag: "\<not> prefix HASH_TAG (nat_to_string n)"
proof (rule no_tag)
  show "nat_to_string n = [] \<or> hd (nat_to_string n) \<noteq> CHR ''$''"
    using nat_to_string_digits [of n] by (cases "nat_to_string n") (auto simp: is_digit_def)
qed

lemma json_plain_digits:
  assumes "list_all is_digit ds"
  shows "json_plain ds"
proof -
  let ?special = "[CHR 0x22, CHR 0x5C, CHR 0x08, CHR 0x0C, CHR 0x0A, CHR 0x0D, CHR 0x09]"
  have "list_all (\<lambda>c. \<not> is_digit c) ?special" by code_simp
  then have "c \<notin> set ?special" if "is_digit c" for c using that unfolding list_all_iff by blast
  then have "json_escape_char c = [c]" if "is_digit c" for c using that by (simp add: json_escape_char_def)
  with assms show ?thesis by (simp add: json_plain_def list_all_iff)
qed

lemma json_rt_srd: "wl_inv s \<Longrightarrow> heap_ok e \<Longrightarrow> json_rt (serialize_srd e s)"
  by (auto simp: wl_inv_def serialize_srd_text srd_text_def plain_hex_no_tag)

lemma json_rt_meta:
  assumes inv: "wl_inv s" and rt: "files_rt s" and heap: "heap_ok e" and acc: "\<not> prefix HASH_TAG (account_id s)"
  shows "json_rt (meta_json e s)" and "JSONType (meta_json e s) = CObject"
proof -
  have f: "json_rt (serialize_file s)"
    using inv rt json_rt_entry by (fastforce simp: serialize_file_def wl_inv_def list_all_iff files_rt_def)
  note g = json_rt_srd [OF inv heap] and n = nat_to_string_no_tag
  show "json_rt (meta_json e s)" and "JSONType (meta_json e s) = CObject"
    using f g n acc
    by (auto simp: meta_json_def Let_def hexstring_plain [OF heap] plain_hex_no_tag plain_keys intro!: json_rt_jset)
qed

lemma hasKey_JNull: "\<not> hasKey JNull k"
  by (simp add: hasKey_def)

lemma meta_fields:
  assumes heap: "heap_ok e" and acc: "json_plain (account_id s)"
  shows "ToString (jget (meta_json e s) ID_KEY_PAIR) = plain_hex (key_pair_bytes s)"
    and "ToInt (jget (meta_json e s) ID_REPORT_HEIGHT) = 0"
    and "ToString (jget (meta_json e s) ID_CHAIN_ACCOUNT_ID) = account_id s"
    and "jget (meta_json e s) ID_SRD = serialize_srd e s" and "jget (meta_json e s) ID_FILE = serialize_file s"
    and "hasKey (meta_json e s) ID_PRE_PUB_KEY \<longleftrightarrow> upgrade s"
    and "upgrade s \<Longrightarrow> ToString (jget (meta_json e s) ID_PRE_PUB_KEY) = plain_hex (pre_pub_key s)"
    and "json_size (meta_json e s) \<noteq> 0"
proof -
  show "json_size (meta_json e s) \<noteq> 0"
    by (auto simp: meta_json_def Let_def intro!: json_size_jset_pos [THEN less_imp_neq, THEN not_sym])
qed (use acc in \<open>auto simp: meta_json_def Let_def hexstring_plain [OF heap] json_escape_plain json_plain_hex hasKey_JNull\<close>)

lemma load_metadata_stored:
  assumes "wl_inv s" and "files_rt s" and "heap_ok e" and "\<not> prefix HASH_TAG (account_id s)"
  shows "load_metadata e fl (Some (str_bytes STORAGE_PRIVATE_TAG @ dump_vector fd (meta_json e s))) =
    Some (meta_json e s, SPACEX_SUCCESS)"
proof -
  note rt = json_rt_meta [OF assms]
  have "Load e fl (bytes_str (dump_vector fd (meta_json e s))) = POk (meta_json e s, SPACEX_SUCCESS)"
    using Load_dump_vector [OF assms(3) rt(1), of fl fd "[]"] rt(2) by simp
  moreover have "dump_vector fd (meta_json e s) \<noteq> []" using rt(2) by (cases "meta_json e s") (auto simp: str_bytes_def)
  moreover have "length (str_bytes STORAGE_PRIVATE_TAG) = length STORAGE_PRIVATE_TAG" by (simp add: str_bytes_def)
  ultimately show ?thesis by (simp add: load_metadata_def str_bytes_def)
qed

lemma persist_get_db: "db s' = db s \<Longrightarrow> persist_get e k s' = persist_get e k s"
  by (simp add: persist_get_def inner_ocall_persist_get_def DataBase_get_def)

lemma restore_srd_serialized:
  assumes "heap_ok e" and "wl_inv s" and "length (srd_hashs s) < 2 ^ 61" and "srd_hashs s0 = []"
  shows "fst (restore_srd e (serialize_srd e s) s0) = SPACEX_SUCCESS"
    and "srd_hashs (snd (restore_srd e (serialize_srd e s) s0)) = srd_hashs s"
proof -
  have l: "list_all (\<lambda>h. length h = SRD_LENGTH) (srd_hashs s)" using assms(2) by (simp add: wl_inv_def)
  have "restore_srd e (serialize_srd e s) s0 = (SPACEX_SUCCESS, s0)" if "srd_hashs s = []"
    using that by (simp add: restore_srd_def serialize_srd_def json_size_def)
  then show "fst (restore_srd e (serialize_srd e s) s0) = SPACEX_SUCCESS"
    and "srd_hashs (snd (restore_srd e (serialize_srd e s) s0)) = srd_hashs s"
    using restore_srd_roundtrip [OF assms(1) l _ assms(3), of s0] assms(4) by (cases "srd_hashs s = []"; simp)+
qed

lemma restore_file_serialized:
  assumes "wl_inv s" and "sealed_files s0 = []"
  shows "fst (restore_file e (serialize_file s) s0) = SPACEX_SUCCESS"
    and "sealed_files (snd (restore_file e (serialize_file s) s0)) = filter not_pending (sealed_files s)"
proof -
  have w: "list_all file_wf (sealed_files s)" using assms(1) by (simp add: wl_inv_def)
  have "restore_file e (serialize_file s) s0 = (SPACEX_SUCCESS, s0)" if "sealed_files s = []"
    using that by (simp add: restore_file_def serialize_file_def json_size_def)
  then show "fst (restore_file e (serialize_file s) s0) = SPACEX_SUCCESS"
    and "sealed_files (snd (restore_file e (serialize_file s) s0)) = filter not_pending (sealed_files s)"
    using restore_file_roundtrip [OF w, of e s0] assms(2) by (cases "sealed_files s = []"; simp)+
qed

text \<open>What the two restoring operations leave alone.\<close>

lemma emit_frame:
  "sealed_files (emit o1 s) = sealed_files s" "upgrade (emit o1 s) = upgrade s" "srd_hashs (emit o1 s) = srd_hashs s"
  by (simp_all add: emit_def)

lemma srd_info_frame:
  "sealed_files (clean_srd e s) = sealed_files s" "upgrade (clean_srd e s) = upgrade s"
  "sealed_files (send_srd_info e s) = sealed_files s" "upgrade (send_srd_info e s) = upgrade s"
  by (simp_all add: clean_srd_def send_srd_info_def get_srd_info_def emit_frame Let_def)

lemma set_file_spec_frame:
  "srd_hashs (set_file_spec st n s) = srd_hashs s" "upgrade (set_file_spec st n s) = upgrade s"
  by (simp_all add: set_file_spec_def split: option.split)

lemma restore_srd_loop_frame:
  "sealed_files (snd (restore_srd_loop e its s)) = sealed_files s" "upgrade (snd (restore_srd_loop e its s)) = upgrade s"
  by (induction its arbitrary: s) (auto simp: Let_def split: option.splits)

lemma restore_srd_frame:
  "sealed_files (snd (restore_srd e j s)) = sealed_files s" "upgrade (snd (restore_srd e j s)) = upgrade s"
proof -
  obtain ok s' where l: "restore_srd_loop e (ArrayRange j) (clean_srd e s) = (ok, s')" by fastforce
  have f: "sealed_files s' = sealed_files s" "upgrade s' = upgrade s"
    using restore_srd_loop_frame [of e "ArrayRange j" "clean_srd e s"] l by (simp_all add: srd_info_frame)
  show "sealed_files (snd (restore_srd e j s)) = sealed_files s" "upgrade (snd (restore_srd e j s)) = upgrade s"
    using f by (auto simp: restore_srd_def l srd_info_frame)
qed

lemma restore_file_loop_frame:
  "srd_hashs (restore_file_loop e fs s) = srd_hashs s" "upgrade (restore_file_loop e fs s) = upgrade s"
proof (induction fs arbitrary: s)
  case (Cons f fs)
  { case 1
    have "srd_hashs (snd (persist_del e c (emit a s))) = srd_hashs s" for c a
      by (rule workload_more(1)) (simp add: frame_simps)
    then show ?case by (simp add: Cons.IH Let_def set_file_spec_frame) }
  { case 2
    have "upgrade (snd (persist_del e c (emit a s))) = upgrade s" for c a
      by (rule workload_more(13)) (simp add: frame_simps)
    then show ?case by (simp add: Cons.IH Let_def set_file_spec_frame) }
qed simp_all

lemma restore_file_frame:
  "srd_hashs (snd (restore_file e j s)) = srd_hashs s" "upgrade (snd (restore_file e j s)) = upgrade s"
proof -
  have m: "boundary.more (snd (restore_file_info e t)) = boundary.more t" for t :: "'a workload_scheme"
    by (simp add: restore_file_info_def frame_simps)
  show "srd_hashs (snd (restore_file e j s)) = srd_hashs s" "upgrade (snd (restore_file e j s)) = upgrade s"
    using workload_more(1,13) [OF m] by (simp_all add: restore_file_def restore_file_loop_frame)
qed

text \<open>
  What a restart brings back: everything the metadata holds except pending files, which are dropped,
  and the report height, which comes back as 0.
\<close>

lemma metadata_roundtrip:
  fixes s :: "'a workload_scheme" and s0 :: "'b workload_scheme"
  assumes inv: "wl_inv s" "files_rt s" "length (srd_hashs s) < 2 ^ 61"
    and env: "heap_ok e" "unseal_inverts e"
    and acc: "json_plain (account_id s)" "\<not> prefix HASH_TAG (account_id s)"
    and keys: "length (fst (id_key_pair s)) = 64" "length (snd (id_key_pair s)) = 32" "length (pre_pub_key s) = 64"
    and store: "id_store_metadata e s = (SPACEX_SUCCESS, s1)" "upgrade_status s \<noteq> ENC_UPGRADE_STATUS_SUCCESS"
    and fresh: "db s0 = db s1" "\<not> is_set_key_pair s0" "srd_hashs s0 = []" "sealed_files s0 = []" "\<not> upgrade s0"
  obtains s2 where "id_restore_metadata e fl s0 = Some (SPACEX_SUCCESS, s2)" and "srd_hashs s2 = srd_hashs s"
    and "sealed_files s2 = filter not_pending (sealed_files s)" and "id_key_pair s2 = id_key_pair s"
    and "account_id s2 = account_id s" and "upgrade s2 = upgrade s" and "upgrade s \<Longrightarrow> pre_pub_key s2 = pre_pub_key s"
    and "restart_flag s2 = 1" and "report_height s2 = 0"
proof -
  let ?d = "str_bytes STORAGE_PRIVATE_TAG @ dump_vector (double_to_string e) (meta_json e s)"
  let ?m = "meta_json e s"
  note mf = meta_fields [OF env(1) acc(1)]
  have "persist_set e ID_METADATA ?d s = (SPACEX_SUCCESS, s1)" using store by (simp add: id_store_metadata_def)
  from persist_roundtrip [OF this env(2,1)] have g: "persist_get e ID_METADATA s0 = (SPACEX_SUCCESS, Some ?d)"
    using persist_get_db [OF fresh(1)] by simp
  have k: "hex_string_to_bytes e (ToString (jget ?m ID_KEY_PAIR)) = Some (key_pair_bytes s)"
    using hex_string_to_bytes_plain [OF env(1), of "key_pair_bytes s"] mf(1) keys by (force simp: key_pair_bytes_def)
  have kl: "length (key_pair_bytes s) = 96" using keys by (simp add: key_pair_bytes_def)
  obtain t1 where t1: "restore_srd e (serialize_srd e s) s0 = (SPACEX_SUCCESS, t1)" "srd_hashs t1 = srd_hashs s"
    "sealed_files t1 = []" "\<not> upgrade t1"
    using restore_srd_serialized [OF env(1) inv(1,3) fresh(3)] restore_srd_frame [of e "serialize_srd e s" s0] fresh(4,5)
    by (cases "restore_srd e (serialize_srd e s) s0") auto
  obtain t2 where t2: "restore_file e (serialize_file s) t1 = (SPACEX_SUCCESS, t2)" "srd_hashs t2 = srd_hashs s"
    "sealed_files t2 = filter not_pending (sealed_files s)" "\<not> upgrade t2"
    using restore_file_serialized [OF inv(1) t1(3), of e] restore_file_frame [of e "serialize_file s" t1] t1(2,4)
    by (cases "restore_file e (serialize_file s) t1") auto
  let ?t4 = "set_report_height 0 (set_key_pair (id_key_pair s) t2)"
  let ?t5 = "if upgrade s then set_upgrade (pre_pub_key s) ?t4 else ?t4"
  let ?s2 = "set_restart_flag (set_account_id (account_id s) ?t5)"
  have p: "restore_pre_pub_key e ?m ?t4 = (SPACEX_SUCCESS, ?t5)"
  proof -
    have "pre_pub_key s \<noteq> []" using keys(3) by auto
    then show ?thesis
      using hex_string_to_bytes_plain [OF env(1), of "pre_pub_key s"] mf(6,7) keys(3)
      by (auto simp: restore_pre_pub_key_def)
  qed
  have kp: "take 64 (key_pair_bytes s) = fst (id_key_pair s)" "drop 64 (key_pair_bytes s) = snd (id_key_pair s)"
    using keys by (simp_all add: key_pair_bytes_def)
  have "restore_parts e ?m (key_pair_bytes s) s0 = Some (SPACEX_SUCCESS, ?s2)"
    using t1(1) t2(1) p kl keys(2) by (simp add: restore_parts_def mf kp Let_def)
  then have "id_restore_metadata e fl s0 = Some (SPACEX_SUCCESS, ?s2)"
    using g k fresh(2) load_metadata_stored [OF inv(1,2) env(1) acc(2)] mf(8) by (simp add: id_restore_metadata_def)
  then show ?thesis
    using t2(2,3,4)
    by (intro that [of ?s2]) (auto simp: set_restart_flag_def set_account_id_def set_upgrade_def set_report_height_def set_key_pair_def)
qed

end
