(* ===== verification/Report.thy ===== *)
theory Report
  imports Metadata
begin

text \<open>
  Work reports, \<open>src/src/enclave/report/Report.cpp\<close>: \<open>gen_work_report\<close> and \<open>gen_and_upload_work_report\<close>.

  The function is split where the source has comments: the guards, the scan of the file table
  (\<open>report_file\<close> is the body of the loop), the hashes, the signed data and the stored document. The
  block hash has at least 64 characters, which is what \<open>ocall_get_block_hash\<close> writes. The actions of the
  \<open>Defer\<close> object run at every return after the check of the height (\<open>report_defer\<close>).
\<close>

section \<open>Scanning the file table\<close>

record report_acc =
  ra_files :: "JSON list"
  ra_valid :: "JSON list"
  ra_added :: "JSON list"
  ra_deleted :: "JSON list"
  ra_size :: int
  ra_num :: nat
  ra_idx :: "string list"

definition report_acc_init :: report_acc where
  "report_acc_init =
     \<lparr>ra_files = [], ra_valid = [], ra_added = [], ra_deleted = [], ra_size = 0, ra_num = 0, ra_idx = []\<rparr>"

definition report_entry :: "JSON \<Rightarrow> JSON" where
  "report_entry f =
     jset (jset (jset (JFIOObject []) FILE_CID (JString (file_cid f))) FILE_SIZE (JIntegral (file_size f)))
       FILE_CHAIN_BLOCK_NUM (JIntegral (ToInt (jget f FILE_CHAIN_BLOCK_NUM)))"

definition status_changed :: "JSON \<Rightarrow> bool" where
  "status_changed f \<longleftrightarrow>
     (file_status f CURRENT_STATUS = FILE_STATUS_VALID \<and> file_status f ORIGIN_STATUS = FILE_STATUS_UNVERIFIED) \<or>
     (file_status f CURRENT_STATUS = FILE_STATUS_LOST \<and> file_status f ORIGIN_STATUS = FILE_STATUS_VALID) \<or>
     (file_status f CURRENT_STATUS = FILE_STATUS_VALID \<and> file_status f ORIGIN_STATUS = FILE_STATUS_LOST) \<or>
     (file_status f CURRENT_STATUS = FILE_STATUS_DELETED \<and> file_status f ORIGIN_STATUS = FILE_STATUS_VALID)"

definition report_change :: "JSON \<Rightarrow> report_acc \<Rightarrow> report_acc" where
  "report_change f a =
     (let a' = (if file_status f CURRENT_STATUS = FILE_STATUS_DELETED \<or> file_status f CURRENT_STATUS = FILE_STATUS_LOST
                then a\<lparr>ra_deleted := ra_deleted a @ [report_entry f], ra_size := long_add (ra_size a) (- file_size f)\<rparr>
                else if file_status f CURRENT_STATUS = FILE_STATUS_VALID
                then a\<lparr>ra_added := ra_added a @ [report_entry f], ra_size := long_add (ra_size a) (file_size f)\<rparr>
                else a)
      in a'\<lparr>ra_idx := insort_insert (file_cid f) (ra_idx a'), ra_num := Suc (ra_num a')\<rparr>)"

definition report_file :: "bool \<Rightarrow> JSON \<Rightarrow> report_acc \<Rightarrow> report_acc" where
  "report_file is_upgrading f a =
     (if is_upgrading then
        (let a = a\<lparr>ra_files := ra_files a @ [f]\<rparr>
         in if file_status f CURRENT_STATUS = FILE_STATUS_VALID \<and> file_status f ORIGIN_STATUS = FILE_STATUS_VALID
            then a\<lparr>ra_valid := ra_valid a @ [f], ra_size := long_add (ra_size a) (file_size f)\<rparr>
            else a)
      else
        (let f = set_status WAITING_STATUS (file_status f CURRENT_STATUS) f;
             a = a\<lparr>ra_files := ra_files a @ [f]\<rparr>;
             a = (if file_status f CURRENT_STATUS = FILE_STATUS_VALID then a\<lparr>ra_valid := ra_valid a @ [f]\<rparr> else a);
             a = (if file_status f ORIGIN_STATUS = FILE_STATUS_VALID
                  then a\<lparr>ra_size := long_add (ra_size a) (file_size f)\<rparr> else a)
         in if ra_num a < WORKREPORT_FILE_LIMIT \<and> status_changed f then report_change f a else a))"

definition report_scan :: "bool \<Rightarrow> JSON list \<Rightarrow> report_acc" where
  "report_scan is_upgrading fs = fold (report_file is_upgrading) fs report_acc_init"

section \<open>Generating a report\<close>

definition file_id :: "JSON \<Rightarrow> bytes" where
  "file_id f = str_bytes (file_cid f @ int_to_string (file_size f))"

definition files_root_hash :: "env \<Rightarrow> JSON list \<Rightarrow> bytes option" where
  "files_root_hash e fs =
     (if fs = [] then Some zero_hash
      else if \<not> enc_malloc e (length fs * HASH_LENGTH) then None
      else Some (sgx_sha256_msg e (concat (map (\<lambda>f. sgx_sha256_msg e (file_id f)) fs))))"

definition srd_workload :: "'a workload_scheme \<Rightarrow> int" where
  "srd_workload s = int (length (srd_hashs s)) * 1024 * 1024 * 1024"

definition sig_buffer ::
  "env \<Rightarrow> size_t \<Rightarrow> bytes \<Rightarrow> bytes \<Rightarrow> bytes \<Rightarrow> report_acc \<Rightarrow> 'a workload_scheme \<Rightarrow> bytes" where
  "sig_buffer e block_height block_hash_u srd_root files_root a s =
     fst (id_key_pair s) @ (if upgrade s then pre_pub_key s else []) @
     str_bytes (nat_to_string (unat block_height)) @ take HASH_LENGTH block_hash_u @
     str_bytes (int_to_string (srd_workload s)) @ str_bytes (int_to_string (ra_size a)) @
     srd_root @ files_root @
     dump_vector (double_to_string e) (JArray (ra_added a)) @
     dump_vector (double_to_string e) (JArray (ra_deleted a))"

definition wr_json ::
  "env \<Rightarrow> size_t \<Rightarrow> string \<Rightarrow> bytes \<Rightarrow> bytes \<Rightarrow> report_acc \<Rightarrow> bytes \<Rightarrow> 'a workload_scheme \<Rightarrow> JSON" where
  "wr_json e block_height block_hash srd_root files_root a sgx_sig s =
     (let j = jset JNull WORKREPORT_PUB_KEY (JString (hexstring_safe e (fst (id_key_pair s))));
          j = jset j WORKREPORT_PRE_PUB_KEY (JString (if upgrade s then hexstring_safe e (pre_pub_key s) else []));
          j = jset j WORKREPORT_BLOCK_HEIGHT (JString (nat_to_string (unat block_height)));
          j = jset j WORKREPORT_BLOCK_HASH (JString (take (HASH_LENGTH * 2) block_hash));
          j = jset j WORKREPORT_RESERVED (JIntegral (srd_workload s));
          j = jset j WORKREPORT_FILES_SIZE (JIntegral (ra_size a));
          j = jset j WORKREPORT_RESERVED_ROOT (JString (hexstring_safe e srd_root));
          j = jset j WORKREPORT_FILES_ROOT (JString (hexstring_safe e files_root));
          j = jset j WORKREPORT_FILES_ADDED (JArray (ra_added a));
          j = jset j WORKREPORT_FILES_DELETED (JArray (ra_deleted a))
      in jset j WORKREPORT_SIG (JString (hexstring_safe e sgx_sig)))"

definition report_defer :: "size_t \<Rightarrow> 'a workload_scheme \<Rightarrow> 'a workload_scheme" where
  "report_defer block_height s =
     report_reset_validated_proof (reduce_restart_flag (set_report_file_flag True (set_report_height block_height s)))"

text \<open>After the scan: the root of the files, the signature and the document.\<close>

definition sign_and_store ::
  "env \<Rightarrow> string \<Rightarrow> size_t \<Rightarrow> bytes \<Rightarrow> report_acc \<Rightarrow> 'a workload_scheme \<Rightarrow> spacex_status \<times> 'a workload_scheme" where
  "sign_and_store e block_hash block_height srd_root a s =
     (case files_root_hash e (ra_valid a) of
        None \<Rightarrow> (SPACEX_MALLOC_FAILED, s)
      | Some files_root \<Rightarrow>
          (case hex_string_to_bytes e (take (HASH_LENGTH * 2) block_hash) of
             None \<Rightarrow> (SPACEX_UNEXPECTED_ERROR, s)
           | Some block_hash_u \<Rightarrow>
               (case sgx_ecdsa_sign e (sig_buffer e block_height block_hash_u srd_root files_root a s) (snd (id_key_pair s)) of
                  None \<Rightarrow> (SPACEX_SGX_SIGN_FAILED, s)
                | Some sgx_sig \<Rightarrow>
                    safe_ocall_store2 e OCALL_STORE_WORKREPORT
                      (dump_vector (double_to_string e) (wr_json e block_height block_hash srd_root files_root a sgx_sig s)) s)))"

definition report_body ::
  "env \<Rightarrow> string \<Rightarrow> size_t \<Rightarrow> bool \<Rightarrow> 'a workload_scheme \<Rightarrow> spacex_status \<times> 'a workload_scheme" where
  "report_body e block_hash block_height is_upgrading s =
     (if get_restart_flag s then (SPACEX_FIRST_WORK_REPORT_AFTER_REPORT, s)
      else if \<not> report_files s then (SPACEX_SERVICE_UNAVAILABLE, s)
      else if \<not> report_has_validated_proof s then (SPACEX_WORK_REPORT_NOT_VALIDATED, s)
      else case srd_root_hash e (srd_hashs s) of
             None \<Rightarrow> (SPACEX_MALLOC_FAILED, s)
           | Some srd_root \<Rightarrow>
               (let a = report_scan is_upgrading (sealed_files s)
                in sign_and_store e block_hash block_height srd_root a
                     (s\<lparr>sealed_files := ra_files a, reported_files_idx := ra_idx a\<rparr>)))"

definition gen_work_report ::
  "env \<Rightarrow> string \<Rightarrow> size_t \<Rightarrow> bool \<Rightarrow> 'a workload_scheme \<Rightarrow> spacex_status \<times> 'a workload_scheme" where
  "gen_work_report e block_hash block_height is_upgrading s =
     (if block_height = 0 \<or> block_height < report_height s + of_nat REPORT_SLOT
      then (SPACEX_BLOCK_HEIGHT_EXPIRED, s)
      else let (st, s') = report_body e block_hash block_height is_upgrading s
           in (st, report_defer block_height s'))"

definition gen_and_upload_work_report ::
  "env \<Rightarrow> string \<Rightarrow> size_t \<Rightarrow> int \<Rightarrow> bool \<Rightarrow> 'a workload_scheme \<Rightarrow> spacex_status \<times> 'a workload_scheme" where
  "gen_and_upload_work_report e block_hash block_height wait_time is_upgrading s =
     (let s = (if wait_time \<noteq> 0 then emit (Ocall_usleep (wait_time * 1000000)) s else s);
          (st, s) = gen_work_report e block_hash block_height is_upgrading s
      in if st \<noteq> SPACEX_SUCCESS then (st, s)
         else let (st, s) = ocall_do e Ocall_upload_workreport s
              in (st, if st = SPACEX_SUCCESS then handle_report_result e s else s))"

section \<open>What the scan collects\<close>

text \<open>The entry with its current status written to the waiting status, and the changes that are reported.\<close>

definition await :: "JSON \<Rightarrow> JSON" where
  "await f = set_status WAITING_STATUS (file_status f CURRENT_STATUS) f"

definition reported_changes :: "JSON list \<Rightarrow> JSON list" where
  "reported_changes fs = take WORKREPORT_FILE_LIMIT (filter status_changed (map await fs))"

definition is_valid :: "JSON \<Rightarrow> bool" where
  "is_valid f \<longleftrightarrow> file_status f CURRENT_STATUS = FILE_STATUS_VALID"

definition was_valid :: "JSON \<Rightarrow> bool" where
  "was_valid f \<longleftrightarrow> file_status f ORIGIN_STATUS = FILE_STATUS_VALID"

definition origin_size :: "JSON list \<Rightarrow> int" where
  "origin_size fs = sum_list (map file_size (filter was_valid fs))"

definition change_size :: "JSON \<Rightarrow> int" where
  "change_size f = (if is_valid f then file_size f else - file_size f)"

lemma long_wrap_add: "long_wrap (long_wrap a + b) = long_wrap (a + b)"
proof -
  have "((a + 2 ^ 63) mod 2 ^ 64 - 2 ^ 63 + b + 2 ^ 63) mod 2 ^ 64 = ((a + 2 ^ 63) mod 2 ^ 64 + b) mod (2 ^ 64 :: int)"
    by (simp add: algebra_simps)
  also have "\<dots> = (a + 2 ^ 63 + b) mod 2 ^ 64" by (rule mod_add_left_eq)
  finally show ?thesis by (simp add: long_wrap_def algebra_simps)
qed

lemma changed_cases: "status_changed f \<Longrightarrow> is_valid f \<noteq> (file_status f CURRENT_STATUS = FILE_STATUS_DELETED \<or> file_status f CURRENT_STATUS = FILE_STATUS_LOST)"
  by (auto simp: status_changed_def is_valid_def)

lemma report_change_spec:
  assumes "status_changed f"
  shows "report_change f a =
    a\<lparr>ra_added := (if is_valid f then ra_added a @ [report_entry f] else ra_added a),
      ra_deleted := (if is_valid f then ra_deleted a else ra_deleted a @ [report_entry f]),
      ra_size := long_add (ra_size a) (change_size f),
      ra_num := Suc (ra_num a), ra_idx := insort_insert (file_cid f) (ra_idx a)\<rparr>"
  using changed_cases [OF assms] by (auto simp: report_change_def Let_def change_size_def is_valid_def)

lemma report_file_spec:
  "report_file False f a =
     (let w = await f; ch = (if ra_num a < WORKREPORT_FILE_LIMIT \<and> status_changed w then [w] else [])
      in a\<lparr>ra_files := ra_files a @ [w], ra_valid := ra_valid a @ filter is_valid [w],
           ra_added := ra_added a @ map report_entry (filter is_valid ch),
           ra_deleted := ra_deleted a @ map report_entry (filter (\<lambda>f. \<not> is_valid f) ch),
           ra_size := fold (\<lambda>n x. long_add x n) (map file_size (filter was_valid [w]) @ map change_size ch) (ra_size a),
           ra_num := ra_num a + length ch, ra_idx := fold insort_insert (map file_cid ch) (ra_idx a)\<rparr>)"
  by (simp add: report_file_def report_change_spec Let_def is_valid_def was_valid_def await_def)

lemma reported_changes_snoc:
  "reported_changes (fs @ [f]) =
     reported_changes fs @ (if length (reported_changes fs) < WORKREPORT_FILE_LIMIT \<and> status_changed (await f) then [await f] else [])"
  by (auto simp: reported_changes_def)

lemma fold_long_add: "fold (\<lambda>n x. long_add x n) ns (long_wrap a) = long_wrap (a + sum_list ns)"
  by (induction ns arbitrary: a) (simp_all add: long_add_def long_wrap_add add.assoc)

lemma report_scan_snoc: "report_scan u (fs @ [f]) = report_file u f (report_scan u fs)"
  by (simp add: report_scan_def)

lemma report_scan_spec:
  "report_scan False fs =
     \<lparr>ra_files = map await fs, ra_valid = filter is_valid (map await fs),
      ra_added = map report_entry (filter is_valid (reported_changes fs)),
      ra_deleted = map report_entry (filter (\<lambda>f. \<not> is_valid f) (reported_changes fs)),
      ra_size = long_wrap (origin_size (map await fs) + sum_list (map change_size (reported_changes fs))),
      ra_num = length (reported_changes fs),
      ra_idx = fold insort_insert (map file_cid (reported_changes fs)) []\<rparr>"
proof (induction fs rule: rev_induct)
  case (snoc f fs)
  let ?w = "await f"
  let ?ch = "if length (reported_changes fs) < WORKREPORT_FILE_LIMIT \<and> status_changed ?w then [?w] else []"
  have size: "fold (\<lambda>n x. long_add x n) (map file_size (filter was_valid [?w]) @ map change_size ?ch)
      (long_wrap (origin_size (map await fs) + sum_list (map change_size (reported_changes fs)))) =
      long_wrap (origin_size (map await (fs @ [f])) + sum_list (map change_size (reported_changes (fs @ [f]))))"
    unfolding fold_long_add reported_changes_snoc by (intro arg_cong [where f = long_wrap]) (simp add: origin_size_def)
  show ?case
    unfolding report_scan_snoc snoc report_file_spec Let_def
    by (simp only: report_acc.simps size [symmetric])
       (simp add: reported_changes_snoc)
qed (simp add: report_scan_def report_acc_init_def reported_changes_def origin_size_def long_wrap_def)

lemma report_scan_upgrading: "ra_files (report_scan True fs) = fs \<and> ra_idx (report_scan True fs) = [] \<and> ra_added (report_scan True fs) = [] \<and> ra_deleted (report_scan True fs) = []"
proof (induction fs rule: rev_induct)
  case (snoc f fs)
  then show ?case by (simp add: report_scan_snoc report_file_def Let_def)
qed (simp add: report_scan_def report_acc_init_def)

lemma reported_changes_limit: "length (reported_changes fs) \<le> WORKREPORT_FILE_LIMIT"
  by (simp add: reported_changes_def)

lemma await_wf: "file_wf f \<Longrightarrow> file_wf (await f)"
  unfolding await_def by (intro inv_intros file_status_mem) auto

lemma await_simps:
  assumes "file_wf f"
  shows "file_cid (await f) = file_cid f" and "file_size (await f) = file_size f"
    and "file_status (await f) WAITING_STATUS = file_status f CURRENT_STATUS"
    and "file_status (await f) CURRENT_STATUS = file_status f CURRENT_STATUS"
    and "file_status (await f) ORIGIN_STATUS = file_status f ORIGIN_STATUS"
  using assms by (simp_all add: await_def file_simps)

lemma map_await_wf: "list_all file_wf fs \<Longrightarrow> list_all file_wf (map await fs)"
  by (induction fs) (simp_all add: await_wf)

lemma map_await_cids: "list_all file_wf fs \<Longrightarrow> map file_cid (map await fs) = map file_cid fs"
  by (induction fs) (simp_all add: await_simps)

section \<open>The effect of a report on the state\<close>

lemma sign_and_store_more: "boundary.more (snd (sign_and_store e bh n r a s)) = boundary.more s"
  by (simp add: sign_and_store_def frame_simps split: option.split)

text \<open>The state that the body leaves: the scan is recorded or nothing happened.\<close>

lemma report_body_more:
  "boundary.more (snd (report_body e bh n u s)) =
     boundary.more (if get_restart_flag s \<or> \<not> report_files s \<or> \<not> report_has_validated_proof s \<or>
                       srd_root_hash e (srd_hashs s) = None then s
                    else s\<lparr>sealed_files := ra_files (report_scan u (sealed_files s)),
                           reported_files_idx := ra_idx (report_scan u (sealed_files s))\<rparr>)"
  by (simp add: report_body_def Let_def sign_and_store_more split: option.split)

lemma wl_inv_scan:
  assumes "wl_inv s"
  shows "wl_inv (s\<lparr>sealed_files := ra_files (report_scan u (sealed_files s)),
    reported_files_idx := ra_idx (report_scan u (sealed_files s))\<rparr>)"
proof -
  have w: "list_all file_wf (sealed_files s)" using assms by (simp add: wl_inv_def)
  have f: "list_all file_wf (ra_files (report_scan u (sealed_files s))) \<and>
      map file_cid (ra_files (report_scan u (sealed_files s))) = map file_cid (sealed_files s)"
    using w map_await_wf [OF w] map_await_cids [OF w]
    by (cases u) (simp_all only: report_scan_spec report_scan_upgrading report_acc.simps simp_thms)
  have "sorted_wrt (<) (fold insort_insert (cs :: string list) xs)" if "sorted_wrt (<) xs" for cs xs
    using that by (induction cs arbitrary: xs) (simp_all add: sorted_insort_insert)
  then have "sorted_wrt (<) (ra_idx (report_scan u (sealed_files s)))"
    by (cases u) (simp_all add: report_scan_spec report_scan_upgrading)
  with f assms show ?thesis by (simp add: wl_inv_def files_sorted_def)
qed

lemma wl_inv_report_defer: "wl_inv s \<Longrightarrow> wl_inv (report_defer n s)"
  unfolding report_defer_def by (intro inv_intros)

lemma wl_inv_gen_work_report:
  assumes "wl_inv s"
  shows "wl_inv (snd (gen_work_report e bh n u s))"
proof -
  obtain st t where b: "report_body e bh n u s = (st, t)" by fastforce
  have "wl_inv (snd (report_body e bh n u s))"
    by (rule wl_inv_more [OF _ report_body_more]) (simp add: assms wl_inv_scan)
  then show ?thesis using assms b by (simp add: gen_work_report_def wl_inv_report_defer)
qed

lemma wl_inv_upload:
  assumes "wl_inv s"
  shows "wl_inv (snd (gen_and_upload_work_report e bh n w u s))"
proof -
  let ?t = "if w \<noteq> 0 then emit (Ocall_usleep (w * 1000000)) s else s"
  obtain st t where g: "gen_work_report e bh n u ?t = (st, t)" by fastforce
  have "wl_inv ?t" using assms by (simp add: wl_inv_emit)
  from wl_inv_gen_work_report [OF this, of e bh n u] have t: "wl_inv t" using g by simp
  show ?thesis
    unfolding gen_and_upload_work_report_def Let_def g prod.case ocall_do_def
    using t wl_inv_emit [OF t] handle_report_result_spec(1) [OF wl_inv_emit [OF t]] by simp
qed

text \<open>Every call that passes the check of the height uses up the validation and moves the height.\<close>

lemma report_defer_fields:
  "report_height (report_defer n s) = n" "report_files (report_defer n s)" "\<not> report_has_validated_proof (report_defer n s)"
  "restart_flag s \<in> {0..1} \<Longrightarrow> restart_flag (report_defer n s) = 0"
  by (auto simp: report_defer_def report_reset_validated_proof_def reduce_restart_flag_def set_report_file_flag_def
      set_report_height_def report_has_validated_proof_def Let_def)

lemma gen_work_report_consumes:
  assumes inv: "wl_inv s" and "n \<noteq> 0" and "report_height s + of_nat REPORT_SLOT \<le> n"
    and r: "gen_work_report e bh n u s = (st, s')"
  shows "report_height s' = n" and "report_files s'" and "\<not> report_has_validated_proof s'" and "restart_flag s' = 0"
proof -
  obtain st1 s1 where b: "report_body e bh n u s = (st1, s1)" by fastforce
  have m: "restart_flag s1 = restart_flag s"
    using workload_more(9) [OF report_body_more [of e bh n u s]] b by (simp split: if_splits)
  have "s' = report_defer n s1" using assms(2,4) leD [OF assms(3)] b by (simp add: gen_work_report_def)
  moreover have "restart_flag s \<in> {0..1}" using inv by (simp add: wl_inv_def)
  ultimately show "report_height s' = n" and "report_files s'" and "\<not> report_has_validated_proof s'" and "restart_flag s' = 0"
    using m by (simp_all add: report_defer_fields)
qed

lemma gen_work_report_guards:
  assumes "gen_work_report e bh n u s = (SPACEX_SUCCESS, s')"
  shows "n \<noteq> 0" and "report_height s + of_nat REPORT_SLOT \<le> n" and "restart_flag s \<le> 0" and "report_files s"
    and "report_has_validated_proof s"
  using assms by (auto simp: gen_work_report_def report_body_def get_restart_flag_def Let_def split: if_splits prod.splits)

section \<open>A report that the chain took\<close>

text \<open>A sorted table is determined by its map.\<close>

lemma files_sorted_unique:
  assumes "files_sorted s" and "files_sorted t" and "files_of s = files_of t"
  shows "sealed_files s = sealed_files t"
proof -
  have d: "distinct (cids s)" "sorted (cids s)" "distinct (cids t)" "sorted (cids t)"
    using assms(1,2) by (simp_all add: files_sorted_def strict_sorted_iff)
  have mem: "f \<in> set (sealed_files u) \<longleftrightarrow> files_of u (file_cid f) = Some f" if "files_sorted u" for u :: "'c workload_scheme" and f
    using files_of_mem [OF that] files_of_cid by metis
  have "set (sealed_files s) = set (sealed_files t)"
    using mem [OF assms(1)] files_of_cid [of t] files_of_mem [OF assms(2)] assms(3) by (auto; metis)
  moreover have "inj_on file_cid (set (sealed_files s))" using d(1) by (simp add: distinct_map)
  ultimately show ?thesis using d by (intro map_sorted_distinct_set_unique [of file_cid]) auto
qed

definition confirm_all :: "string set \<Rightarrow> JSON list \<Rightarrow> JSON list" where
  "confirm_all cs fs = map (\<lambda>f. if file_cid f \<in> cs then confirmed f else f) fs"

lemma handle_report_result_files:
  assumes inv: "wl_inv s"
  shows "sealed_files (handle_report_result e s) = confirm_all (set (reported_files_idx s)) (sealed_files s)"
proof -
  let ?g = "\<lambda>f. if file_cid f \<in> set (reported_files_idx s) then confirmed f else f"
  let ?t = "s\<lparr>sealed_files := map ?g (sealed_files s)\<rparr>"
  have wf: "file_wf f" if "f \<in> set (sealed_files s)" for f using inv that by (auto simp: wl_inv_def list_all_iff)
  have c: "cids ?t = cids s" using file_wf_confirmed [OF wf] by simp
  have srt: "files_sorted (handle_report_result e s)" "files_sorted s"
    using inv handle_report_result_spec(1) [OF inv, of e] by (simp_all add: wl_inv_def)
  then have st: "files_sorted ?t" unfolding files_sorted_def c by simp
  have "files_of ?t c = files_of (handle_report_result e s) c" for c
  proof (cases "files_of s c")
    case None
    then have "files_of ?t c = None" using dom_files_of [of s c] dom_files_of [of ?t c] unfolding c by blast
    then show ?thesis using None by (simp add: handle_report_result_spec(2) [OF inv])
  next
    case (Some f)
    then have f: "f \<in> set (sealed_files s)" "file_cid f = c" using files_of_cid [OF Some] by auto
    have "files_of ?t (file_cid (?g f)) = Some (?g f)" by (rule files_of_mem [OF st]) (use f in simp)
    then have "files_of ?t c = Some (?g f)" using f file_wf_confirmed [OF wf [OF f(1)]] by (simp split: if_splits)
    then show ?thesis using Some f by (simp add: handle_report_result_spec(2) [OF inv])
  qed
  then have "files_of (handle_report_result e s) = files_of ?t" by (intro ext) simp
  from files_sorted_unique [OF srt(1) st this] show ?thesis by (simp add: confirm_all_def)
qed

text \<open>What a file contributes before and after it was reported and confirmed.\<close>

lemma confirm_contribution:
  assumes "file_wf f" and "status_changed (await f)"
  shows "(if was_valid (await f) then file_size f else 0) + change_size (await f) =
    (if was_valid (confirmed (await f)) then file_size f else 0)"
  using assms await_wf [OF assms(1)]
  by (auto simp: was_valid_def is_valid_def change_size_def confirmed_def status_changed_def await_simps file_simps
      simp del: One_nat_def)

lemma origin_size_Cons: "origin_size (f # fs) = (if was_valid f then file_size f else 0) + origin_size fs"
  by (simp add: origin_size_def)

lemma confirm_all_other: "c \<notin> file_cid ` set fs \<Longrightarrow> confirm_all (insert c cs) fs = confirm_all cs fs"
  by (auto simp: confirm_all_def)

lemma confirm_all_Cons: "confirm_all cs (f # fs) = (if file_cid f \<in> cs then confirmed f else f) # confirm_all cs fs"
  by (simp add: confirm_all_def)

lemma sum_confirmed:
  "list_all file_wf fs \<Longrightarrow> distinct (map file_cid fs) \<Longrightarrow>
   origin_size (map await fs) + sum_list (map change_size (take k (filter status_changed (map await fs)))) =
   origin_size (confirm_all (file_cid ` set (take k (filter status_changed (map await fs)))) (map await fs))"
proof (induction fs arbitrary: k)
  case (Cons f fs)
  let ?w = "await f" and ?r = "filter status_changed (map await fs)"
  have wf: "file_wf f" "list_all file_wf fs" and d: "distinct (map file_cid fs)" using Cons.prems by simp_all
  have "file_cid ?w \<notin> set (map file_cid fs)" using Cons.prems(2) by (simp add: await_simps(1) [OF wf(1)])
  then have new: "file_cid ?w \<notin> file_cid ` set (map await fs)"
    using map_await_cids [OF wf(2)] by (metis list.set_map)
  then have out: "file_cid ?w \<notin> file_cid ` set (take j ?r)" for j by (auto dest!: in_set_takeD)
  have sz: "file_size (confirmed ?w) = file_size f"
    using await_wf [OF wf(1)] by (simp add: confirmed_def file_simps await_simps [OF wf(1)])
  note IH = Cons.IH [OF wf(2) d]
  show ?case
  proof (cases "status_changed ?w \<and> k \<noteq> 0")
    case True
    then obtain j where "k = Suc j" by (cases k) auto
    then show ?thesis
      using True IH [of j] confirm_contribution [OF wf(1)]
      by (simp add: origin_size_Cons confirm_all_Cons confirm_all_other [OF new] await_simps(2) [OF wf(1)] sz
          split: if_splits)
  next
    case False
    then have "take k (filter status_changed (map await (f # fs))) = take k ?r" by (cases k) auto
    then show ?thesis using IH [of k] out [of k] by (simp add: confirm_all_Cons origin_size_Cons)
  qed
qed (simp add: confirm_all_def)

lemma set_fold_insort: "set (fold insort_insert cs xs) = set cs \<union> set xs"
  by (induction cs arbitrary: xs) (auto simp: set_insort_insert)

text \<open>A report that was generated records what it covers and carries a signature over it.\<close>

lemma gen_work_report_success:
  assumes "gen_work_report e bh n False s = (SPACEX_SUCCESS, s')"
  defines "a \<equiv> report_scan False (sealed_files s)"
  defines "t \<equiv> s\<lparr>sealed_files := ra_files a, reported_files_idx := ra_idx a\<rparr>"
  obtains srd_root files_root bhu sig where
    "srd_root_hash e (srd_hashs s) = Some srd_root" and "files_root_hash e (ra_valid a) = Some files_root"
    and "hex_string_to_bytes e (take (HASH_LENGTH * 2) bh) = Some bhu"
    and "sgx_ecdsa_sign e (sig_buffer e n bhu srd_root files_root a t) (snd (id_key_pair s)) = Some sig"
    and "fst (safe_ocall_store2 e OCALL_STORE_WORKREPORT
      (dump_vector (double_to_string e) (wr_json e n bh srd_root files_root a sig t)) t) = SPACEX_SUCCESS"
    and "boundary.more s' = boundary.more (report_defer n t)"
proof -
  obtain s1 where b: "report_body e bh n False s = (SPACEX_SUCCESS, s1)" and s': "s' = report_defer n s1"
    using assms(1) by (auto simp: gen_work_report_def split: if_splits prod.splits)
  obtain srd_root where r: "srd_root_hash e (srd_hashs s) = Some srd_root"
    and ss: "sign_and_store e bh n srd_root a t = (SPACEX_SUCCESS, s1)"
    using b by (auto simp: report_body_def Let_def a_def t_def split: if_splits option.splits)
  have "boundary.more s1 = boundary.more t" using sign_and_store_more [of e bh n srd_root a t] ss by simp
  then have m: "boundary.more s' = boundary.more (report_defer n t)"
    by (cases s1; cases t) (simp add: s' report_defer_def report_reset_validated_proof_def reduce_restart_flag_def
        set_report_file_flag_def set_report_height_def Let_def)
  have key: "id_key_pair t = id_key_pair s" by (simp add: t_def)
  show ?thesis
    using ss r m by (auto simp: sign_and_store_def key split: option.splits intro!: that)
qed

lemma upload_success:
  assumes "gen_and_upload_work_report e bh n w u s = (SPACEX_SUCCESS, s')"
  defines "s0 \<equiv> if w \<noteq> 0 then emit (Ocall_usleep (w * 1000000)) s else s"
  obtains s1 where "gen_work_report e bh n u s0 = (SPACEX_SUCCESS, s1)"
    and "ocall_ret e (ocalls s1) Ocall_upload_workreport = SPACEX_SUCCESS"
    and "s' = handle_report_result e (emit Ocall_upload_workreport s1)"
proof -
  obtain st s1 where g: "gen_work_report e bh n u s0 = (st, s1)" by fastforce
  show ?thesis
    using assms(1) g that unfolding gen_and_upload_work_report_def s0_def [symmetric]
    by (auto simp: ocall_do_def Let_def split: if_splits)
qed

lemma report_confirmed:
  assumes inv: "wl_inv s" and up: "gen_and_upload_work_report e bh n w False s = (SPACEX_SUCCESS, s')"
  defines "a \<equiv> report_scan False (sealed_files s)"
  shows "sealed_files s' = confirm_all (file_cid ` set (reported_changes (sealed_files s))) (map await (sealed_files s))"
    and "ra_size a = long_wrap (origin_size (sealed_files s'))" and "reported_files_idx s' = []"
    and "report_height s' = n"
proof -
  let ?s0 = "if w \<noteq> 0 then emit (Ocall_usleep (w * 1000000)) s else s"
  obtain s1 where g: "gen_work_report e bh n False ?s0 = (SPACEX_SUCCESS, s1)"
    and s': "s' = handle_report_result e (emit Ocall_upload_workreport s1)"
    using up by (rule upload_success)
  have s0: "sealed_files ?s0 = sealed_files s" "wl_inv ?s0" using inv by (simp_all add: emit_def wl_inv_emit [unfolded emit_def])
  let ?e1 = "emit Ocall_upload_workreport s1"
  have m: "boundary.more ?e1 = boundary.more (report_defer n (?s0\<lparr>sealed_files := ra_files a, reported_files_idx := ra_idx a\<rparr>))"
    using g unfolding a_def s0(1) [symmetric] by (rule gen_work_report_success) (simp add: frame_simps)
  have f: "sealed_files ?e1 = map await (sealed_files s)" "report_height ?e1 = n"
    "set (reported_files_idx ?e1) = file_cid ` set (reported_changes (sealed_files s))"
    using workload_more(2,3,8) [OF m]
    by (simp_all add: report_defer_def report_reset_validated_proof_def reduce_restart_flag_def set_report_file_flag_def
        set_report_height_def Let_def a_def report_scan_spec set_fold_insort)
  have "wl_inv ?e1" using wl_inv_gen_work_report [OF s0(2), of e bh n False] g by (simp add: wl_inv_emit)
  note h = handle_report_result_files [OF this, of e] handle_report_result_spec(3) [OF this, of e]
    workload_more(8) [OF handle_report_result_spec(4) [OF this, of e]]
  show sf: "sealed_files s' = confirm_all (file_cid ` set (reported_changes (sealed_files s))) (map await (sealed_files s))"
    and "reported_files_idx s' = []"
    using h f by (simp_all add: s')
  have "list_all file_wf (sealed_files s)" "distinct (cids s)"
    using inv by (simp_all add: wl_inv_def files_sorted_def strict_sorted_iff)
  from sum_confirmed [OF this, of WORKREPORT_FILE_LIMIT] show "ra_size a = long_wrap (origin_size (sealed_files s'))"
    unfolding sf by (simp add: a_def report_scan_spec reported_changes_def)
  show "report_height s' = n" using h f by (simp add: s')
qed

section \<open>A report is generated when nothing stands in its way\<close>

text \<open>The transfers to the outside arrive, and no transfer is under way.\<close>

definition outside_ok :: "env \<Rightarrow> 'a boundary_scheme \<Rightarrow> bool" where
  "outside_ok e s \<longleftrightarrow> (\<forall>n. app_malloc e n) \<and> (\<forall>off. sgx_ocall_ok e off) \<and> (\<forall>k. ocall_buffer_pool s k = None)"

lemma outside_ok_store:
  "outside_ok e s \<Longrightarrow> data \<noteq> [] \<Longrightarrow> safe_ocall_store2 e t data s = (SPACEX_SUCCESS, emit (Ocall_store2 t data) s)"
  by (intro store2_delivers) (simp_all add: outside_ok_def store2_ready_def)

lemma roots_defined: "heap_ok e \<Longrightarrow> srd_root_hash e hs \<noteq> None" "heap_ok e \<Longrightarrow> files_root_hash e fs \<noteq> None"
  by (simp_all add: srd_root_hash_def files_root_hash_def heap_ok_def)

lemma dump_object: "JSONType j = CObject \<Longrightarrow> dump_vector fd j \<noteq> []"
  by (cases j) (auto simp: str_bytes_def)

lemma gen_work_report_ok:
  assumes guards: "n \<noteq> 0" "report_height s + of_nat REPORT_SLOT \<le> n" "restart_flag s \<le> 0" "report_files s"
      "report_has_validated_proof s"
    and env: "heap_ok e" "outside_ok e s" "\<forall>d k. sgx_ecdsa_sign e d k \<noteq> None" and bh: "HASH_LENGTH * 2 \<le> length bh"
  obtains s' d where "gen_work_report e bh n u s = (SPACEX_SUCCESS, s')"
    and "ocalls s' = ocalls s @ [Ocall_store2 OCALL_STORE_WORKREPORT d]" and "ocall_buffer_pool s' = ocall_buffer_pool s"
proof -
  let ?a = "report_scan u (sealed_files s)"
  let ?t = "s\<lparr>sealed_files := ra_files ?a, reported_files_idx := ra_idx ?a\<rparr>"
  obtain r where r: "srd_root_hash e (srd_hashs s) = Some r" using roots_defined(1) [OF env(1)] by blast
  obtain f where f: "files_root_hash e (ra_valid ?a) = Some f" using roots_defined(2) [OF env(1)] by blast
  obtain bhu where bhu: "hex_string_to_bytes e (take (HASH_LENGTH * 2) bh) = Some bhu"
    using bh env(1) by (simp add: hex_string_to_bytes_def heap_ok_def)
  obtain sig where sig: "sgx_ecdsa_sign e (sig_buffer e n bhu r f ?a ?t) (snd (id_key_pair s)) = Some sig" using env(3) by blast
  let ?d = "dump_vector (double_to_string e) (wr_json e n bh r f ?a sig ?t)"
  have "?d \<noteq> []" by (rule dump_object) (simp add: wr_json_def Let_def)
  moreover have "outside_ok e ?t" using env(2) by (simp add: outside_ok_def)
  ultimately have "sign_and_store e bh n r ?a ?t = (SPACEX_SUCCESS, emit (Ocall_store2 OCALL_STORE_WORKREPORT ?d) ?t)"
    using f bhu sig by (simp add: sign_and_store_def outside_ok_store)
  then have "gen_work_report e bh n u s =
      (SPACEX_SUCCESS, report_defer n (emit (Ocall_store2 OCALL_STORE_WORKREPORT ?d) ?t))"
    using guards r leD [OF guards(2)] by (simp add: gen_work_report_def report_body_def get_restart_flag_def Let_def)
  then show ?thesis
    by (rule that [of _ ?d]) (simp_all add: report_defer_def report_reset_validated_proof_def reduce_restart_flag_def
        set_report_file_flag_def set_report_height_def emit_def Let_def)
qed

lemma handle_report_pool: "ocall_buffer_pool (handle_report_result e s) = ocall_buffer_pool s"
proof -
  have c: "ocall_buffer_pool (snd (confirm_file c (h, t))) = ocall_buffer_pool t" for c h and t :: "'a workload_scheme"
    by (simp add: confirm_file_def Let_def upd_file_def split: prod.split)
  have f: "ocall_buffer_pool (snd (fold confirm_file cs p)) = ocall_buffer_pool (snd p)" for cs and p :: "bool \<times> 'a workload_scheme"
    by (induction cs arbitrary: p) (simp_all, metis c prod.collapse)
  have "ocall_buffer_pool (snd (id_store_metadata e t)) = ocall_buffer_pool t" for t :: "'a workload_scheme"
    by (simp add: id_store_metadata_def persist_set_eq DataBase_set_def DataBase_put_def split: sum.split)
  moreover obtain b t where "fold confirm_file (reported_files_idx s) (False, s) = (b, t)" by fastforce
  ultimately show ?thesis
    using f [of "reported_files_idx s" "(False, s)"] by (simp add: handle_report_result_def Let_def)
qed

text \<open>With an outside that takes the report, the upload succeeds too.\<close>

lemma upload_ok:
  assumes guards: "n \<noteq> 0" "report_height s + of_nat REPORT_SLOT \<le> n" "restart_flag s \<le> 0" "report_files s"
      "report_has_validated_proof s"
    and env: "heap_ok e" "outside_ok e s" "\<forall>d k. sgx_ecdsa_sign e d k \<noteq> None" and bh: "HASH_LENGTH * 2 \<le> length bh"
    and takes: "\<forall>h. ocall_ret e h Ocall_upload_workreport = SPACEX_SUCCESS"
  obtains s' where "gen_and_upload_work_report e bh n w u s = (SPACEX_SUCCESS, s')" and "outside_ok e s'"
proof -
  let ?s0 = "if w \<noteq> 0 then emit (Ocall_usleep (w * 1000000)) s else s"
  have g: "report_height ?s0 = report_height s" "restart_flag ?s0 = restart_flag s" "report_files ?s0 = report_files s"
    "report_has_validated_proof ?s0 = report_has_validated_proof s" "outside_ok e ?s0" "ocall_buffer_pool ?s0 = ocall_buffer_pool s"
    using env(2) by (simp_all add: emit_def report_has_validated_proof_def outside_ok_def)
  obtain s1 d where r: "gen_work_report e bh n u ?s0 = (SPACEX_SUCCESS, s1)" and p: "ocall_buffer_pool s1 = ocall_buffer_pool ?s0"
    by (rule gen_work_report_ok [of n ?s0 e bh u]) (use guards env bh g in simp_all)
  show ?thesis
    by (rule that [of "handle_report_result e (emit Ocall_upload_workreport s1)"])
       (use r p g takes env(2) in \<open>simp_all add: gen_and_upload_work_report_def ocall_do_def Let_def outside_ok_def handle_report_pool emit_def\<close>)
qed

end
