(* ===== verification/Upgrade.thy ===== *)
theory Upgrade
  imports Report
begin

text \<open>
  The upgrade from one version of the enclave to the next (\<open>id_gen_upgrade_data\<close> and
  \<open>id_restore_from_upgrade\<close> of \<open>src/src/enclave/identity/Identity.cpp\<close>). The old enclave sends a last
  report and signs its workload; the new one restores the workload, checks the signature and both root
  hashes, and enters the network.

  \<open>None\<close> stands for a run that is undefined or does not end: the parser reads past its data, a key or a
  signature is shorter than the 64 bytes that are copied from it, a height does not fit \<open>atoi\<close>, or the
  loop over the report heights wraps around at 64 bits.
\<close>

section \<open>Numbers\<close>

text \<open>An unsigned integer of random bytes, least significant byte first.\<close>

definition le_value :: "bytes \<Rightarrow> nat" where
  "le_value bs = foldr (\<lambda>b n. unat b + 256 * n) bs 0"

text \<open>\<open>std::atoi\<close>: blanks, a sign, digits; a value outside of \<open>int\<close> is undefined.\<close>

definition atoi :: "string \<Rightarrow> int option" where
  "atoi str =
     (let t = dropWhile isspace str;
          (neg, t) = (case t of
                        c # cs \<Rightarrow> if c = CHR ''-'' then (True, cs) else if c = CHR ''+'' then (False, cs) else (False, t)
                      | [] \<Rightarrow> (False, []));
          n = digits_val (takeWhile is_digit t) 0;
          v = (if neg then - n else n)
      in if v < - (2 ^ 31) \<or> 2 ^ 31 \<le> v then None else Some v)"

section \<open>Generating the upgrade data\<close>

partial_function (option) era_loop :: "size_t \<Rightarrow> size_t \<Rightarrow> size_t option" where
  "era_loop block_height h =
     (if of_nat REPORT_SLOT + h < block_height then era_loop block_height (h + of_nat REPORT_SLOT) else Some h)"

declare era_loop.simps [code]

definition upgrade_wait :: "env \<Rightarrow> 'a workload_scheme \<Rightarrow> nat" where
  "upgrade_wait e s =
     (le_value (sgx_read_rand e (length (ocalls s)) 8) mod (UPGRADE_WAIT_BLOCK_MAX - UPGRADE_WAIT_BLOCK_MIN + 1) +
      UPGRADE_WAIT_BLOCK_MIN) * BLOCK_INTERVAL"

text \<open>The signed data; \<open>roots\<close> are the root hashes of the srd and of the files.\<close>

definition upgrade_sig_buffer :: "bytes \<Rightarrow> string \<Rightarrow> string \<Rightarrow> bytes \<Rightarrow> bytes \<Rightarrow> bytes" where
  "upgrade_sig_buffer pub_key height hash srd_root file_root =
     pub_key @ str_bytes height @ str_bytes hash @ srd_root @ file_root"

definition upgrade_json :: "env \<Rightarrow> bytes \<Rightarrow> string \<Rightarrow> string \<Rightarrow> JSON \<Rightarrow> JSON \<Rightarrow> bytes \<Rightarrow> JSON" where
  "upgrade_json e pub_key height hash srd_json file_json sgx_sig =
     (let j = jset JNull UPGRADE_PUBLIC_KEY (JString (hexstring_safe e pub_key));
          j = jset j UPGRADE_BLOCK_HEIGHT (JString height);
          j = jset j UPGRADE_BLOCK_HASH (JString hash);
          j = jset j UPGRADE_SRD (jget srd_json WL_SRD);
          j = jset j UPGRADE_FILE (jget file_json WL_FILES);
          j = jset j UPGRADE_SRD_ROOT (JString (ToString (jget srd_json WL_SRD_ROOT_HASH)));
          j = jset j UPGRADE_FILE_ROOT (JString (ToString (jget file_json WL_FILE_ROOT_HASH)))
      in jset j UPGRADE_SIG (JString (hexstring_safe e sgx_sig)))"

text \<open>What follows a report that was sent: the signature, the document and the change of the status.\<close>

definition store_upgrade_data ::
  "env \<Rightarrow> size_t \<Rightarrow> string \<Rightarrow> 'a workload_scheme \<Rightarrow> spacex_status \<times> 'a workload_scheme" where
  "store_upgrade_data e rheight report_hash s =
     (let height = nat_to_string (unat rheight);
          (st, srd_json) = get_upgrade_srd_info e s
      in if st \<noteq> SPACEX_SUCCESS then (st, s)
         else let (st, file_json) = get_upgrade_file_info e s
              in if st \<noteq> SPACEX_SUCCESS then (st, s)
                 else case sgx_ecdsa_sign e
                             (upgrade_sig_buffer (fst (id_key_pair s)) height report_hash
                                (hash_bytes (jget srd_json WL_SRD_ROOT_HASH)) (hash_bytes (jget file_json WL_FILE_ROOT_HASH)))
                             (snd (id_key_pair s)) of
                        None \<Rightarrow> (SPACEX_SGX_SIGN_FAILED, s)
                      | Some sgx_sig \<Rightarrow>
                          (let (st, s') = safe_ocall_store2 e OCALL_STORE_UPGRADE_DATA
                                 (dump_vector (double_to_string e)
                                    (upgrade_json e (fst (id_key_pair s)) height report_hash srd_json file_json sgx_sig)) s
                           in (st, if st = SPACEX_SUCCESS then set_upgrade_status ENC_UPGRADE_STATUS_SUCCESS s' else s')))"

definition id_gen_upgrade_data ::
  "env \<Rightarrow> size_t \<Rightarrow> 'a workload_scheme \<Rightarrow> (spacex_status \<times> 'a workload_scheme) option" where
  "id_gen_upgrade_data e block_height s =
     (if block_height \<le> report_height s then Some (SPACEX_BLOCK_HEIGHT_EXPIRED, s)
      else if block_height < of_nat REPORT_SLOT + report_height s then Some (SPACEX_UPGRADE_WAIT_FOR_NEXT_ERA, s)
      else case era_loop block_height (report_height s) of
             None \<Rightarrow> None
           | Some h \<Rightarrow>
               (let (st, report_hash) = block_hash_at e (ocalls s) h
                in if st \<noteq> SPACEX_SUCCESS then Some (SPACEX_UPGRADE_GET_BLOCK_HASH_FAILED, s)
                   else let (st, s1) = gen_and_upload_work_report e report_hash h (int (upgrade_wait e s)) False s
                        in if st \<noteq> SPACEX_SUCCESS then Some (SPACEX_UPGRADE_GEN_WORKREPORT_FAILED, s1)
                           else Some (store_upgrade_data e h report_hash s1)))"

section \<open>Restoring from upgrade data\<close>

text \<open>The checks on the restored workload; \<open>Inl\<close> is the status of the first one that fails.\<close>

definition verify_workload ::
  "env \<Rightarrow> JSON \<Rightarrow> bytes \<Rightarrow> 'a workload_scheme \<Rightarrow> (spacex_status + unit) option" where
  "verify_workload e up a_pub_key s =
     (let (st, wl_info) = gen_workload_info e s;
          data = upgrade_sig_buffer a_pub_key (ToString (jget up UPGRADE_BLOCK_HEIGHT)) (ToString (jget up UPGRADE_BLOCK_HASH))
                   (hash_bytes (jget wl_info WL_SRD_ROOT_HASH)) (hash_bytes (jget wl_info WL_FILE_ROOT_HASH))
      in if st \<noteq> SPACEX_SUCCESS then Some (Inl st)
         else case hex_string_to_bytes e (ToString (jget up UPGRADE_SIG)) of
                None \<Rightarrow> Some (Inl SPACEX_UNEXPECTED_ERROR)
              | Some sig \<Rightarrow>
                  if length sig < 64 then None
                  else if \<not> sgx_ecdsa_verify e data a_pub_key (take 64 sig) then Some (Inl SPACEX_SGX_VERIFY_SIG_FAILED)
                  else if ToString (jget wl_info WL_SRD_ROOT_HASH) \<noteq> ToString (jget up UPGRADE_SRD_ROOT)
                  then Some (Inl SPACEX_UPGRADE_BAD_SRD)
                  else if ToString (jget wl_info WL_FILE_ROOT_HASH) \<noteq> ToString (jget up UPGRADE_FILE_ROOT)
                  then Some (Inl SPACEX_UPGRADE_BAD_FILE)
                  else Some (Inr ()))"

definition enter_network ::
  "env \<Rightarrow> string \<Rightarrow> string \<Rightarrow> bytes \<Rightarrow> 'a workload_scheme \<Rightarrow> (spacex_status \<times> 'a workload_scheme) option" where
  "enter_network e height hash a_pub_key s =
     (let (st, s1) = ocall_do e Ocall_entry_network (set_upgrade a_pub_key s)
      in if st \<noteq> SPACEX_SUCCESS then Some (st, s1)
         else case atoi height of
                None \<Rightarrow> None
              | Some n \<Rightarrow>
                  Some (gen_and_upload_work_report e hash (of_int n) 0 True
                          (report_add_validated_file_proof (report_add_validated_srd_proof s1))))"

definition restore_upgrade_json ::
  "env \<Rightarrow> JSON \<Rightarrow> bytes \<Rightarrow> 'a workload_scheme \<Rightarrow> (spacex_status \<times> 'a workload_scheme) option" where
  "restore_upgrade_json e up a_pub_key s =
     (let (st, s1) = restore_srd e (jget up UPGRADE_SRD) s
      in if st \<noteq> SPACEX_SUCCESS then Some (SPACEX_UPGRADE_RESTORE_SRD_FAILED, s1)
         else let (st, s2) = restore_file e (jget up UPGRADE_FILE) s1
              in if st \<noteq> SPACEX_SUCCESS then Some (SPACEX_UPGRADE_RESTORE_FILE_FAILED, s2)
                 else case verify_workload e up a_pub_key s2 of
                        None \<Rightarrow> None
                      | Some (Inl err) \<Rightarrow> Some (err, s2)
                      | Some (Inr _) \<Rightarrow>
                          enter_network e (ToString (jget up UPGRADE_BLOCK_HEIGHT)) (ToString (jget up UPGRADE_BLOCK_HASH))
                            a_pub_key s2)"

definition id_restore_from_upgrade ::
  "env \<Rightarrow> float_lib \<Rightarrow> bytes \<Rightarrow> 'a workload_scheme \<Rightarrow> (spacex_status \<times> 'a workload_scheme) option" where
  "id_restore_from_upgrade e fl data s =
     (case Load e fl (bytes_str data) of
        POk (up, st) \<Rightarrow>
          if st \<noteq> SPACEX_SUCCESS then Some (st, s)
          else (case hex_string_to_bytes e (ToString (jget up UPGRADE_PUBLIC_KEY)) of
                  None \<Rightarrow> Some (SPACEX_UNEXPECTED_ERROR, s)
                | Some k \<Rightarrow> if length k < 64 then None else restore_upgrade_json e up (take 64 k) s)
      | _ \<Rightarrow> None)"

section \<open>The height of the last report\<close>

text \<open>
  The loop ends at the last multiple of the slot before the current block. A height that passes the
  check of \<open>can_report_work\<close> leaves at least one slot, so the report is not refused as expired.
\<close>

lemma unat_add_slot: "unat h + REPORT_SLOT < 2 ^ 64 \<Longrightarrow> unat (h + of_nat REPORT_SLOT :: size_t) = unat h + REPORT_SLOT"
  by (simp add: unat_word_ariths)

lemma era_loop_spec:
  assumes "unat b + REPORT_SLOT < 2 ^ 64" and "h < b"
  shows "\<exists>h' k. era_loop b h = Some h' \<and> unat h' = unat h + k * REPORT_SLOT \<and> h' < b \<and>
    unat b \<le> unat h' + REPORT_SLOT"
  using assms(2)
proof (induction "unat b - unat h" arbitrary: h rule: less_induct)
  case less
  have hb: "unat h < unat b" using less.prems by (simp add: word_less_nat_alt)
  then have u: "unat (h + of_nat REPORT_SLOT) = unat h + REPORT_SLOT" using assms(1) by (intro unat_add_slot) simp
  show ?case
  proof (cases "h + of_nat REPORT_SLOT < b")
    case True
    have "unat b - unat (h + of_nat REPORT_SLOT) < unat b - unat h" using u hb by simp
    from less.hyps [OF this True] obtain h' k where
      "era_loop b (h + of_nat REPORT_SLOT) = Some h'" "unat h' = unat h + REPORT_SLOT + k * REPORT_SLOT" "h' < b"
      "unat b \<le> unat h' + REPORT_SLOT"
      using u by auto
    then show ?thesis using True by (intro exI [of _ h'] exI [of _ "Suc k"]) (simp add: era_loop.simps [of b h] add.commute)
  next
    case False
    then show ?thesis
      using less.prems u
      by (intro exI [of _ h] exI [of _ 0]) (auto simp: era_loop.simps [of b h] add.commute word_less_nat_alt)
  qed
qed

lemma era_loop_next:
  assumes "unat b + REPORT_SLOT < 2 ^ 64" and "report_height s + of_nat REPORT_SLOT < b" and "h < b" and "h = report_height s"
  shows "\<exists>h'. era_loop b h = Some h' \<and> report_height s + of_nat REPORT_SLOT \<le> h' \<and> h' < b \<and> h' \<noteq> 0"
proof -
  obtain h' k where h': "era_loop b h = Some h'" "unat h' = unat h + k * REPORT_SLOT" "h' < b" "unat b \<le> unat h' + REPORT_SLOT"
    using era_loop_spec [OF assms(1,3)] by blast
  have "unat h < unat b" using assms(3) by (simp add: word_less_nat_alt)
  then have u: "unat (h + of_nat REPORT_SLOT) = unat h + REPORT_SLOT" using assms(1) by (intro unat_add_slot) simp
  have "unat (h + of_nat REPORT_SLOT) < unat b" using assms(2,4) by (simp add: word_less_nat_alt)
  with h'(2,4) u have "k \<noteq> 0" by (auto intro: ccontr)
  then have ge: "unat h + REPORT_SLOT \<le> unat h'" using h'(2) by (cases k) auto
  then have "report_height s + of_nat REPORT_SLOT \<le> h'" using u assms(4) by (simp add: word_le_nat_alt)
  moreover have "h' \<noteq> 0" using ge by (auto simp: unat_eq_0)
  ultimately show ?thesis using h' by blast
qed

text \<open>At the first block that is not refused outright the loop does not run, and the report expires.\<close>

lemma upgrade_first_block:
  assumes "unat (report_height s) + REPORT_SLOT < 2 ^ 64" and "b = report_height s + of_nat REPORT_SLOT"
    and "fst (block_hash_at e (ocalls s) (report_height s)) = SPACEX_SUCCESS"
  shows "\<exists>s'. id_gen_upgrade_data e b s = Some (SPACEX_UPGRADE_GEN_WORKREPORT_FAILED, s')"
proof -
  have u: "unat b = unat (report_height s) + REPORT_SLOT" using assms(1,2) unat_add_slot by simp
  then have lt: "report_height s < b" by (simp add: word_less_nat_alt)
  have lp: "era_loop b (report_height s) = Some (report_height s)"
    by (subst era_loop.simps) (simp add: assms(2) add.commute)
  obtain bh where bh: "block_hash_at e (ocalls s) (report_height s) = (SPACEX_SUCCESS, bh)"
    using assms(3) by (cases "block_hash_at e (ocalls s) (report_height s)") auto
  have ex: "report_height (t :: 'a workload_scheme) = report_height s \<Longrightarrow> gen_work_report e bh (report_height s) False t = (SPACEX_BLOCK_HEIGHT_EXPIRED, t)" for t
    using lt assms(2) by (simp add: gen_work_report_def add.commute)
  have "\<exists>t. gen_and_upload_work_report e bh (report_height s) w False s = (SPACEX_BLOCK_HEIGHT_EXPIRED, t)" for w
    by (auto simp: gen_and_upload_work_report_def ex emit_def Let_def)
  then obtain t where "gen_and_upload_work_report e bh (report_height s) (int (upgrade_wait e s)) False s = (SPACEX_BLOCK_HEIGHT_EXPIRED, t)"
    by blast
  then show ?thesis using lt lp bh assms(2) by (simp add: id_gen_upgrade_data_def add.commute leD)
qed

section \<open>The workload survives an upgrade\<close>

text \<open>What is used of ECDSA: a signature has 64 bytes and verifies under the public key of the pair.\<close>

definition sig_sound :: "env \<Rightarrow> bytes \<times> bytes \<Rightarrow> bool" where
  "sig_sound e kp \<longleftrightarrow>
     (\<forall>d sig. sgx_ecdsa_sign e d (snd kp) = Some sig \<longrightarrow> length sig = 64 \<and> sgx_ecdsa_verify e d (fst kp) sig)"

lemma hexstring_json: "json_hexstring bs = plain_hex bs"
  by (simp add: json_hexstring_def plain_hex_def hex_of_byte_def [abs_def])

lemma upgrade_srd_info:
  "srd_root_hash e (srd_hashs s) = Some r \<Longrightarrow> get_upgrade_srd_info e s = (SPACEX_SUCCESS, j) \<Longrightarrow>
   jget j WL_SRD = serialize_srd e s \<and> jget j WL_SRD_ROOT_HASH = JHash r"
  by (auto simp: get_upgrade_srd_info_def)

lemma upgrade_file_info:
  "get_upgrade_file_info e s = (st, j) \<Longrightarrow> st = SPACEX_SUCCESS \<and>
   jget j WL_FILES = JArray (filter not_pending (sealed_files s)) \<and>
   jget j WL_FILE_ROOT_HASH = JHash (file_root_hash e (sealed_files s))"
  by (auto simp: get_upgrade_file_info_def)

lemma upgrade_plain_keys:
  "json_plain UPGRADE_PUBLIC_KEY" "json_plain UPGRADE_BLOCK_HEIGHT" "json_plain UPGRADE_BLOCK_HASH"
  "json_plain UPGRADE_SRD" "json_plain UPGRADE_FILE" "json_plain UPGRADE_SRD_ROOT" "json_plain UPGRADE_FILE_ROOT"
  "json_plain UPGRADE_SIG"
  by code_simp+

lemma upgrade_fields:
  fixes pub sig :: bytes
  assumes "heap_ok e" and "json_plain height" and "json_plain hash"
    and "jget srd_json WL_SRD_ROOT_HASH = JHash r" and "jget file_json WL_FILE_ROOT_HASH = JHash f"
  defines "j \<equiv> upgrade_json e pub height hash srd_json file_json sig"
  shows "ToString (jget j UPGRADE_PUBLIC_KEY) = plain_hex pub" and "ToString (jget j UPGRADE_BLOCK_HEIGHT) = height"
    and "ToString (jget j UPGRADE_BLOCK_HASH) = hash" and "jget j UPGRADE_SRD = jget srd_json WL_SRD"
    and "jget j UPGRADE_FILE = jget file_json WL_FILES" and "ToString (jget j UPGRADE_SRD_ROOT) = plain_hex r"
    and "ToString (jget j UPGRADE_FILE_ROOT) = plain_hex f" and "ToString (jget j UPGRADE_SIG) = plain_hex sig"
  using assms
  by (simp_all add: j_def upgrade_json_def Let_def hexstring_plain hexstring_json json_escape_plain json_plain_hex)

lemma json_rt_upgrade:
  assumes "heap_ok e" and "\<not> prefix HASH_TAG height" and "\<not> prefix HASH_TAG hash"
    and "json_rt (jget srd_json WL_SRD)" and "json_rt (jget file_json WL_FILES)"
    and "jget srd_json WL_SRD_ROOT_HASH = JHash r" and "jget file_json WL_FILE_ROOT_HASH = JHash f"
  shows "json_rt (upgrade_json e pub height hash srd_json file_json sig)"
    and "JSONType (upgrade_json e pub height hash srd_json file_json sig) = CObject"
  using assms
  by (auto simp: upgrade_json_def Let_def hexstring_plain hexstring_json plain_hex_no_tag upgrade_plain_keys
      intro!: json_rt_jset)

lemma file_root_filter:
  "(fs = [] \<or> filter not_pending fs \<noteq> []) \<Longrightarrow> file_root_hash e (filter not_pending fs) = file_root_hash e fs"
  by (auto simp: file_root_hash_def)

lemma length_roots:
  assumes "sha256_length e"
  shows "srd_root_hash e hs = Some r \<Longrightarrow> length r = HASH_LENGTH" and "length (file_root_hash e fs) = HASH_LENGTH"
  using assms by (auto simp: srd_root_hash_def file_root_hash_def sha256_length_def zero_hash_def split: if_splits)

lemma verify_restored:
  assumes "heap_ok e" "sha256_length e" and r: "srd_root_hash e (srd_hashs s) = Some r"
    and f: "ToString (jget up UPGRADE_SRD_ROOT) = plain_hex r"
      "ToString (jget up UPGRADE_FILE_ROOT) = plain_hex (file_root_hash e (sealed_files s))"
    and sig: "ToString (jget up UPGRADE_SIG) = plain_hex sig" "length sig = 64"
    and v: "sgx_ecdsa_verify e (upgrade_sig_buffer pub (ToString (jget up UPGRADE_BLOCK_HEIGHT))
      (ToString (jget up UPGRADE_BLOCK_HASH)) r (file_root_hash e (sealed_files s))) pub sig"
  shows "verify_workload e up pub s = Some (Inr ())"
proof -
  have "hex_string_to_bytes e (plain_hex sig) = Some sig" using sig(2) by (intro hex_string_to_bytes_plain [OF assms(1)]) auto
  moreover have "hash_bytes (JHash r) = r" "hash_bytes (JHash (file_root_hash e (sealed_files s))) = file_root_hash e (sealed_files s)"
    using length_roots [OF assms(2)] r by (simp_all add: hash_bytes_def ToBytes_def)
  ultimately show ?thesis
    using r f sig v by (simp add: verify_workload_def gen_workload_info_def Let_def hexstring_json json_escape_plain json_plain_hex)
qed

lemma restore_upgrade_files:
  assumes "wl_inv s" and "sealed_files s0 = []"
  shows "fst (restore_file e (JArray (filter not_pending (sealed_files s))) s0) = SPACEX_SUCCESS"
    and "sealed_files (snd (restore_file e (JArray (filter not_pending (sealed_files s))) s0)) = filter not_pending (sealed_files s)"
proof -
  let ?t = "s\<lparr>sealed_files := filter not_pending (sealed_files s)\<rparr>"
  have t: "wl_inv ?t"
    using assms(1) sorted_wrt_filter [of "\<lambda>f g. file_cid f < file_cid g" "sealed_files s" not_pending]
    by (auto simp: wl_inv_def files_sorted_def sorted_wrt_map list_all_iff)
  have "serialize_file ?t = JArray (filter not_pending (sealed_files s))"
    by (auto simp: serialize_file_def serialize_entry_def intro!: map_idI)
  then show "fst (restore_file e (JArray (filter not_pending (sealed_files s))) s0) = SPACEX_SUCCESS"
    and "sealed_files (snd (restore_file e (JArray (filter not_pending (sealed_files s))) s0)) = filter not_pending (sealed_files s)"
    using restore_file_serialized [OF t assms(2), of e] by simp_all
qed

text \<open>
  The data that an enclave with the workload of \<open>s\<close> stores, read by a fresh one: the workload is restored
  before anything is verified, and it stays when the verification fails.
\<close>

lemma upgrade_restores:
  fixes s :: "'a workload_scheme" and s0 :: "'b workload_scheme" and n :: nat and sig :: bytes
  assumes inv: "wl_inv s" "files_rt s" "length (srd_hashs s) < 2 ^ 61" and heap: "heap_ok e"
    and pub: "length pub = 64" and hash: "json_plain bh" "\<not> prefix HASH_TAG bh"
    and fresh: "srd_hashs s0 = []" "sealed_files s0 = []"
    and info: "get_upgrade_srd_info e s = (SPACEX_SUCCESS, sj)" "get_upgrade_file_info e s = (SPACEX_SUCCESS, fj)"
  defines "up \<equiv> upgrade_json e pub (nat_to_string n) bh sj fj sig"
  obtains s2 where
    "id_restore_from_upgrade e fl (dump_vector (double_to_string e) up) s0 =
       (case verify_workload e up pub s2 of
          None \<Rightarrow> None
        | Some (Inl err) \<Rightarrow> Some (err, s2)
        | Some (Inr _) \<Rightarrow> enter_network e (nat_to_string n) bh pub s2)"
    and "srd_hashs s2 = srd_hashs s" and "sealed_files s2 = filter not_pending (sealed_files s)"
proof -
  let ?h = "nat_to_string n" and ?fs = "filter not_pending (sealed_files s)" and ?f = "file_root_hash e (sealed_files s)"
  obtain r where r: "srd_root_hash e (srd_hashs s) = Some r"
    using info(1) by (auto simp: get_upgrade_srd_info_def split: option.splits)
  note sj = upgrade_srd_info [OF r info(1)] and fj = upgrade_file_info [OF info(2)]
  have dig: "json_plain ?h" "\<not> prefix HASH_TAG ?h"
    using nat_to_string_digits [of n] nat_to_string_no_tag [of n] by (auto simp: json_plain_digits)
  note uf = upgrade_fields [OF heap dig(1) hash(1), of sj r fj ?f pub sig, folded up_def]
  have srt: "json_rt (serialize_srd e s)" "json_rt (JArray ?fs)"
    using json_rt_srd [OF inv(1) heap] inv(2) by (auto simp: files_rt_def)
  note jr = json_rt_upgrade [OF heap dig(2) hash(2), of sj fj r ?f pub sig, folded up_def]
  have ld: "Load e fl (bytes_str (dump_vector (double_to_string e) up)) = POk (up, SPACEX_SUCCESS)"
    using Load_dump_vector [OF heap jr(1), of fl "double_to_string e" "[]"] jr(2) srt sj fj by simp
  have pk: "hex_string_to_bytes e (plain_hex pub) = Some pub"
    using pub by (intro hex_string_to_bytes_plain [OF heap]) auto
  obtain t1 where t1: "restore_srd e (serialize_srd e s) s0 = (SPACEX_SUCCESS, t1)" "srd_hashs t1 = srd_hashs s" "sealed_files t1 = []"
    using restore_srd_serialized [OF heap inv(1,3) fresh(1)] restore_srd_frame [of e "serialize_srd e s" s0] fresh(2)
    by (cases "restore_srd e (serialize_srd e s) s0") auto
  obtain t2 where t2: "restore_file e (JArray ?fs) t1 = (SPACEX_SUCCESS, t2)" "srd_hashs t2 = srd_hashs s" "sealed_files t2 = ?fs"
    using restore_upgrade_files [OF inv(1) t1(3), of e] restore_file_frame(1) [of e "JArray ?fs" t1] t1(2)
    by (cases "restore_file e (JArray ?fs) t1") auto
  show ?thesis
  proof (rule that [OF _ t2(2,3)])
    show "id_restore_from_upgrade e fl (dump_vector (double_to_string e) up) s0 =
       (case verify_workload e up pub t2 of
          None \<Rightarrow> None
        | Some (Inl err) \<Rightarrow> Some (err, t2)
        | Some (Inr _) \<Rightarrow> enter_network e ?h bh pub t2)"
      using ld pk uf sj fj pub t1(1) t2(1) by (simp add: id_restore_from_upgrade_def restore_upgrade_json_def split: option.split sum.split)
  qed
qed

lemma upgrade_roundtrip:
  fixes s :: "'a workload_scheme" and s0 :: "'b workload_scheme"
  assumes inv: "wl_inv s" "files_rt s" "length (srd_hashs s) < 2 ^ 61" "sealed_files s = [] \<or> filter not_pending (sealed_files s) \<noteq> []"
    and env: "heap_ok e" "sha256_length e" "sig_sound e (id_key_pair s)"
    and keys: "length (fst (id_key_pair s)) = 64" and hash: "json_plain bh" "\<not> prefix HASH_TAG bh"
    and fresh: "srd_hashs s0 = []" "sealed_files s0 = []"
    and info: "get_upgrade_srd_info e s = (SPACEX_SUCCESS, sj)" "get_upgrade_file_info e s = (SPACEX_SUCCESS, fj)"
    and sign: "sgx_ecdsa_sign e (upgrade_sig_buffer (fst (id_key_pair s)) (nat_to_string n) bh
      (hash_bytes (jget sj WL_SRD_ROOT_HASH)) (hash_bytes (jget fj WL_FILE_ROOT_HASH))) (snd (id_key_pair s)) = Some sig"
  obtains s2 where
    "id_restore_from_upgrade e fl (dump_vector (double_to_string e)
       (upgrade_json e (fst (id_key_pair s)) (nat_to_string n) bh sj fj sig)) s0 =
     enter_network e (nat_to_string n) bh (fst (id_key_pair s)) s2"
    and "srd_hashs s2 = srd_hashs s" and "sealed_files s2 = filter not_pending (sealed_files s)"
proof -
  let ?pub = "fst (id_key_pair s)" and ?h = "nat_to_string n" and ?f = "file_root_hash e (sealed_files s)"
  let ?up = "upgrade_json e ?pub ?h bh sj fj sig"
  obtain r where r: "srd_root_hash e (srd_hashs s) = Some r"
    using info(1) by (auto simp: get_upgrade_srd_info_def split: option.splits)
  note sj = upgrade_srd_info [OF r info(1)] and fj = upgrade_file_info [OF info(2)]
  have hb: "hash_bytes (JHash r) = r" "hash_bytes (JHash ?f) = ?f"
    using length_roots [OF env(2)] r by (simp_all add: hash_bytes_def ToBytes_def)
  have "json_plain ?h" using nat_to_string_digits [of n] by (auto simp: json_plain_digits)
  note uf = upgrade_fields [OF env(1) this hash(1), of sj r fj ?f ?pub sig]
  obtain s2 where res: "id_restore_from_upgrade e fl (dump_vector (double_to_string e) ?up) s0 =
       (case verify_workload e ?up ?pub s2 of
          None \<Rightarrow> None | Some (Inl err) \<Rightarrow> Some (err, s2) | Some (Inr _) \<Rightarrow> enter_network e ?h bh ?pub s2)"
    and s2: "srd_hashs s2 = srd_hashs s" "sealed_files s2 = filter not_pending (sealed_files s)"
    by (rule upgrade_restores [OF inv(1-3) env(1) keys hash fresh info])
  have fr: "file_root_hash e (sealed_files s2) = ?f" using file_root_filter [OF inv(4)] s2(2) by simp
  have sg: "length sig = 64" "sgx_ecdsa_verify e (upgrade_sig_buffer ?pub ?h bh r ?f) ?pub sig"
    using sign env(3) sj fj hb by (auto simp: sig_sound_def)
  have "verify_workload e ?up ?pub s2 = Some (Inr ())"
    using sj fj uf sg r s2(1) fr by (intro verify_restored [OF env(1,2), where r = r and sig = sig]) simp_all
  with res s2 show ?thesis by (intro that [of s2]) simp_all
qed

text \<open>
  Data with a signature that does not verify is refused, but the enclave already holds its workload.
\<close>

lemma upgrade_unverified:
  fixes s :: "'a workload_scheme" and s0 :: "'b workload_scheme"
  assumes inv: "wl_inv s" "files_rt s" "length (srd_hashs s) < 2 ^ 61" and heap: "heap_ok e"
    and pub: "length pub = 64" and hash: "json_plain bh" "\<not> prefix HASH_TAG bh"
    and fresh: "srd_hashs s0 = []" "sealed_files s0 = []"
    and info: "get_upgrade_srd_info e s = (SPACEX_SUCCESS, sj)" "get_upgrade_file_info e s = (SPACEX_SUCCESS, fj)"
    and bad: "length sig = 64" "\<forall>d. \<not> sgx_ecdsa_verify e d pub sig"
  obtains s2 where
    "id_restore_from_upgrade e fl (dump_vector (double_to_string e) (upgrade_json e pub (nat_to_string n) bh sj fj sig)) s0 =
     Some (SPACEX_SGX_VERIFY_SIG_FAILED, s2)"
    and "srd_hashs s2 = srd_hashs s" and "sealed_files s2 = filter not_pending (sealed_files s)"
proof -
  let ?h = "nat_to_string n" and ?f = "file_root_hash e (sealed_files s)"
  let ?up = "upgrade_json e pub ?h bh sj fj sig"
  obtain r where r: "srd_root_hash e (srd_hashs s) = Some r"
    using info(1) by (auto simp: get_upgrade_srd_info_def split: option.splits)
  note sj = upgrade_srd_info [OF r info(1)] and fj = upgrade_file_info [OF info(2)]
  have "json_plain ?h" using nat_to_string_digits [of n] by (auto simp: json_plain_digits)
  note uf = upgrade_fields [OF heap this hash(1), of sj r fj ?f pub sig]
  obtain s2 where res: "id_restore_from_upgrade e fl (dump_vector (double_to_string e) ?up) s0 =
       (case verify_workload e ?up pub s2 of
          None \<Rightarrow> None | Some (Inl err) \<Rightarrow> Some (err, s2) | Some (Inr _) \<Rightarrow> enter_network e ?h bh pub s2)"
    and s2: "srd_hashs s2 = srd_hashs s" "sealed_files s2 = filter not_pending (sealed_files s)"
    by (rule upgrade_restores [OF inv heap pub hash fresh info])
  have "hex_string_to_bytes e (plain_hex sig) = Some sig" using bad(1) by (intro hex_string_to_bytes_plain [OF heap]) auto
  then have "verify_workload e ?up pub s2 = Some (Inl SPACEX_SGX_VERIFY_SIG_FAILED)"
    using uf sj fj r s2(1) bad by (simp add: verify_workload_def gen_workload_info_def Let_def)
  with res s2 show ?thesis by (intro that [of s2]) simp_all
qed

text \<open>When every file is pending, the two enclaves compute different roots: a digest and zero bytes.\<close>

lemma pending_only_roots:
  assumes "sealed_files s \<noteq> []" and "filter not_pending (sealed_files s) = []"
  shows "file_root_hash e (sealed_files s) = sgx_sha256_msg e []"
    and "file_root_hash e (filter not_pending (sealed_files s)) = zero_hash"
  using assms by (simp_all add: file_root_hash_def)

text \<open>An upgrade that nothing stands in the way of succeeds, whatever the current block is after the next slot.\<close>

lemma gen_upgrade_ok:
  assumes b: "unat b + REPORT_SLOT < 2 ^ 64" "report_height s + of_nat REPORT_SLOT < b" "report_height s < b"
    and guards: "restart_flag s \<le> 0" "report_files s" "report_has_validated_proof s"
    and env: "heap_ok e" "outside_ok e s" "\<forall>d k. sgx_ecdsa_sign e d k \<noteq> None"
    and takes: "\<forall>h. ocall_ret e h Ocall_upload_workreport = SPACEX_SUCCESS"
    and hash: "\<forall>h k. \<exists>bh. block_hash_at e h k = (SPACEX_SUCCESS, bh) \<and> HASH_LENGTH * 2 \<le> length bh"
  shows "\<exists>s'. id_gen_upgrade_data e b s = Some (SPACEX_SUCCESS, s')"
proof -
  obtain h where h: "era_loop b (report_height s) = Some h" "report_height s + of_nat REPORT_SLOT \<le> h" "h \<noteq> 0"
    using era_loop_next [OF b refl] by blast
  obtain bh where bh: "block_hash_at e (ocalls s) h = (SPACEX_SUCCESS, bh)" "HASH_LENGTH * 2 \<le> length bh"
    using hash by blast
  obtain s1 where s1: "gen_and_upload_work_report e bh h (int (upgrade_wait e s)) False s = (SPACEX_SUCCESS, s1)" "outside_ok e s1"
    by (rule upload_ok [OF h(3,2) guards env bh(2) takes])
  obtain r where r: "srd_root_hash e (srd_hashs s1) = Some r" using roots_defined(1) [OF env(1)] by blast
  then obtain sj where sj: "get_upgrade_srd_info e s1 = (SPACEX_SUCCESS, sj)" by (auto simp: get_upgrade_srd_info_def)
  obtain fj where fj: "get_upgrade_file_info e s1 = (SPACEX_SUCCESS, fj)" by (auto simp: get_upgrade_file_info_def)
  have ne: "dump_vector (double_to_string e) (upgrade_json e k x y sj fj sig) \<noteq> []" for k x y sig
    by (rule dump_object) (simp add: upgrade_json_def Let_def)
  have "\<exists>s'. store_upgrade_data e h bh s1 = (SPACEX_SUCCESS, s')"
    using env(3) by (auto simp: store_upgrade_data_def sj fj outside_ok_store [OF s1(2) ne] Let_def split: option.split)
  then show ?thesis using b h(1) bh(1) s1(1) by (auto simp: id_gen_upgrade_data_def add.commute dest: leD)
qed

end
