(* ===== verification/Srd.thy ===== *)
theory Srd
  imports Workload
begin

text \<open>
  Random data: \<open>src/src/enclave/srd/Srd.cpp\<close>. A gigabyte of random data is a directory of 1024 sealed
  files; the enclave keeps, for each, the item disk uuid, directory layer, hash of the hashes.

  The record adds the globals of the file to the workload. \<open>srd_change\<close> leaves the enclave through
  \<open>ocall_srd_change\<close> while it holds no mutex; the call is an argument here, a function on the state,
  and \<open>AppSrd\<close> gives the one of the application.
\<close>

section \<open>State\<close>

record srd = workload +
  g_srd_task :: int
  g_base_rand_buffer :: "bytes option"

section \<open>Sealing random data\<close>

definition save_m_hashs_file :: "env \<Rightarrow> string \<Rightarrow> bytes \<Rightarrow> 'a workload_scheme \<Rightarrow> spacex_status \<times> 'a workload_scheme" where
  "save_m_hashs_file e g_path data s = ocall_do e (Ocall_save_file (get_m_hashs_file_path g_path) data STORE_TYPE_SRD) s"

text \<open>The loop that seals the base buffer \<open>n\<close> more times, from index \<open>i\<close>, and collects the hashes.\<close>

fun m_hashs_loop :: "env \<Rightarrow> string \<Rightarrow> bytes \<Rightarrow> nat \<Rightarrow> nat \<Rightarrow> bytes \<Rightarrow> 'a workload_scheme \<Rightarrow>
  spacex_status \<times> bytes \<times> 'a workload_scheme" where
  "m_hashs_loop e tmp_dir base i 0 m_hashs s = (SPACEX_SUCCESS, m_hashs, s)"
| "m_hashs_loop e tmp_dir base i (Suc n) m_hashs s =
     (case seal_data_mrenclave e (length (ocalls s)) base of
        Inl err \<Rightarrow> (err, m_hashs, s)
      | Inr sealed \<Rightarrow>
          (let m_data = take SRD_RAND_DATA_LENGTH sealed;
               m_hash = take HASH_LENGTH (sgx_sha256_msg e m_data);
               (st, s') = ocall_do e (Ocall_save_file (get_leaf_path tmp_dir i m_hash) m_data STORE_TYPE_SRD) s
           in if st \<noteq> SPACEX_SUCCESS then (st, m_hashs, s')
              else m_hashs_loop e tmp_dir base (Suc i) n (m_hashs @ m_hash) s'))"

text \<open>The base buffer, filled once. \<open>sizeof\<close> of the pointer, 8, is the number of random bytes.\<close>

definition base_rand_buffer :: "env \<Rightarrow> 'a srd_scheme \<Rightarrow> (bytes \<times> 'a srd_scheme) option" where
  "base_rand_buffer e s =
     (case g_base_rand_buffer s of
        Some b \<Rightarrow> Some (b, s)
      | None \<Rightarrow>
          if enc_malloc e SRD_RAND_DATA_LENGTH
          then let b = sgx_read_rand e (length (ocalls s)) 8 @ replicate (SRD_RAND_DATA_LENGTH - 8) 0
               in Some (b, s\<lparr>g_base_rand_buffer := Some b\<rparr>)
          else None)"

text \<open>
  The part of \<open>srd_increase\<close> after the temporary directory was made; the first component is
  \<open>spacex_status\<close>, which tells the \<open>Defer\<close> action whether to delete that directory.
\<close>

definition srd_fill :: "env \<Rightarrow> string \<Rightarrow> bytes \<Rightarrow> bytes \<Rightarrow> bytes \<Rightarrow> 'a srd_scheme \<Rightarrow> spacex_status \<times> 'a srd_scheme" where
  "srd_fill e uuid uuid_u tmp_val base s =
     (let tmp_val_str = hexstring_safe e tmp_val;
          mid_dir = take (LAYER_LENGTH * 2) tmp_val_str;
          tmp_dir = uuid @ tmp_val_str
      in if \<not> enc_malloc e (SRD_RAND_DATA_NUM * HASH_LENGTH) then (SPACEX_MALLOC_FAILED, s)
         else let (st, m_hashs, s1) = m_hashs_loop e tmp_dir base 0 SRD_RAND_DATA_NUM [] s
              in if st \<noteq> SPACEX_SUCCESS then (st, s1)
                 else let g_hash = take HASH_LENGTH (sgx_sha256_msg e m_hashs);
                          (st, s2) = save_m_hashs_file e tmp_dir m_hashs s1
                      in if st \<noteq> SPACEX_SUCCESS then (st, s2)
                         else let g_hash_path = uuid @ mid_dir @ hexstring_safe e g_hash;
                                  (st, s3) = ocall_do e (Ocall_rename_dir tmp_dir g_hash_path STORE_TYPE_SRD) s2
                              in if st \<noteq> SPACEX_SUCCESS then (st, s3)
                                 else if \<not> enc_malloc e SRD_LENGTH then (SPACEX_MALLOC_FAILED, s3)
                                 else let srd_item = take UUID_LENGTH uuid_u @ take LAYER_LENGTH tmp_val @ g_hash;
                                          s4 = s3\<lparr>srd_hashs := srd_hashs s3 @ [srd_item]\<rparr>
                                      in (SPACEX_SUCCESS, send_srd_info e (set_srd_info uuid 1 s4)))"

definition srd_increase :: "env \<Rightarrow> string \<Rightarrow> 'a srd_scheme \<Rightarrow> spacex_status \<times> 'a srd_scheme" where
  "srd_increase e uuid s =
     (case hex_string_to_bytes e (take (UUID_LENGTH * 2) uuid) of
        None \<Rightarrow> (SPACEX_UNEXPECTED_ERROR, s)
      | Some uuid_u \<Rightarrow>
          if \<not> report_has_validated_proof s then (SPACEX_VALIDATE_HIGH_PRIORITY, s)
          else (case base_rand_buffer e s of
                  None \<Rightarrow> (SPACEX_MALLOC_FAILED, s)
                | Some (base, s1) \<Rightarrow>
                    (let tmp_val = sgx_read_rand e (length (ocalls s1)) 18;
                         tmp_dir = uuid @ hexstring_safe e tmp_val;
                         (st, s2) = ocall_do e (Ocall_create_dir tmp_dir STORE_TYPE_SRD) s1
                     in if st \<noteq> SPACEX_SUCCESS then (st, s2)
                        else let (st, s3) = srd_fill e uuid uuid_u tmp_val base s2
                             in (st, if st \<noteq> SPACEX_SUCCESS
                                     then snd (ocall_do e (Ocall_delete_folder_or_file tmp_dir STORE_TYPE_SRD) s3)
                                     else s3))))"

section \<open>Deleting random data\<close>

definition delete_srd_files :: "env \<Rightarrow> string list \<Rightarrow> 'a workload_scheme \<Rightarrow> 'a workload_scheme" where
  "delete_srd_files e del_srds s =
     fold (\<lambda>srd s. snd (ocall_do e (Ocall_delete_folder_or_file srd STORE_TYPE_SRD) s)) del_srds s"

definition srd_decrease :: "env \<Rightarrow> nat \<Rightarrow> 'a workload_scheme \<Rightarrow> nat \<times> 'a workload_scheme" where
  "srd_decrease e change s =
     (let s1 = deal_deleted_srd e s;
          n = length (srd_hashs s1);
          change = min change n
      in if change \<le> 0 then (0, s1)
         else let indexes = map (\<lambda>i. n - i) [1..<Suc change];
                  del_srds = map (\<lambda>i. hexstring_safe e (take SRD_LENGTH (srd_hashs s1 ! i))) indexes;
                  s2 = snd (delete_srd_meta e (rev indexes) s1)
              in (change, send_srd_info e (delete_srd_files e del_srds s2)))"

text \<open>
  The loop of \<open>srd_remove_space\<close> at index \<open>i\<close>. The index is unsigned, so \<open>i >= 0\<close> always holds: when
  the task is not done after index 0, the next read is far outside the vector, \<open>None\<close>.
\<close>

fun remove_loop :: "env \<Rightarrow> bytes list \<Rightarrow> nat \<Rightarrow> JSON \<Rightarrow> int \<Rightarrow> string list \<Rightarrow> nat list \<Rightarrow> (string list \<times> nat list) option" where
  "remove_loop e hs i del_json change srds idxs =
     (if change \<le> 0 then Some (srds, idxs)
      else let uuid = hexstring_safe e (take UUID_LENGTH (hs ! i));
               hit = ToInt (jget del_json uuid) > 0;
               srds' = (if hit then srds @ [hexstring_safe e (take SRD_LENGTH (hs ! i))] else srds);
               idxs' = (if hit then idxs @ [i] else idxs);
               del' = (if hit then jupd del_json uuid (AddNum (- 1)) else del_json);
               change' = (if hit then change - 1 else change)
           in case i of
                0 \<Rightarrow> if change' \<le> 0 then Some (srds', idxs') else None
              | Suc j \<Rightarrow> remove_loop e hs j del' change' srds' idxs')"

declare remove_loop.simps [simp del]

definition srd_remove_space :: "env \<Rightarrow> float_lib \<Rightarrow> string \<Rightarrow> 'a workload_scheme \<Rightarrow> 'a workload_scheme option" where
  "srd_remove_space e fl data s =
     (case Load e fl data of
        POk (del_json, _) \<Rightarrow>
          if JSONType del_json \<noteq> CObject then Some s
          else let change = fold (\<lambda>item c. long_add c (ToInt (snd item))) (ObjectRange del_json) 0;
                   hs = srd_hashs s
               in map_option (\<lambda>(srds, idxs).
                      send_srd_info e (delete_srd_files e srds
                        (fold (\<lambda>i s. snd (add_srd_to_deleted_buffer i s)) idxs s)))
                    (if hs = [] then Some ([], []) else remove_loop e hs (length hs - 1) del_json change [] [])
      | _ \<Rightarrow> None)"

section \<open>The task\<close>

definition get_srd_task :: "'a srd_scheme \<Rightarrow> int" where
  "get_srd_task s = g_srd_task s"

text \<open>Storing the remaining task, which \<open>srd_change\<close> and \<open>change_srd_task\<close> share.\<close>

definition store_srd_task :: "env \<Rightarrow> 'a srd_scheme \<Rightarrow> 'a srd_scheme" where
  "store_srd_task e s =
     set_srd_remaining_task (g_srd_task s)
       (snd (persist_set_unsafe e WL_SRD_REMAINING_TASK (str_bytes (int_to_string (g_srd_task s))) s))"

text \<open>How much of the task one turn takes.\<close>

definition srd_turn :: "int \<Rightarrow> int" where
  "srd_turn task =
     (if task > int SRD_MAX_INC_PER_TURN then int SRD_MAX_INC_PER_TURN
      else if task > 0 then task
      else max task (- int SRD_MAX_DEC_PER_TURN))"

definition srd_change :: "env \<Rightarrow> (int \<Rightarrow> 'a srd_scheme \<Rightarrow> spacex_status \<times> 'a srd_scheme) \<Rightarrow> 'a srd_scheme \<Rightarrow> 'a srd_scheme" where
  "srd_change e ocall_srd_change s =
     (if upgrade_status s \<noteq> ENC_UPGRADE_STATUS_NONE then s
      else if \<not> report_has_validated_proof s then s
      else if g_srd_task s = 0 then s
      else let srd_change_num = srd_turn (g_srd_task s);
               s1 = s\<lparr>g_srd_task := g_srd_task s - srd_change_num\<rparr>;
               (st, s2) = ocall_srd_change srd_change_num s1;
               s3 = (if st = SPACEX_SRD_NUMBER_EXCEED then s2\<lparr>g_srd_task := 0\<rparr> else s2)
           in send_srd_info e (store_srd_task e s3))"

text \<open>
  The sums are \<open>long\<close>; they are taken to wrap, which is undefined in C++. The result has the status and the change
  that was made.
\<close>

definition change_srd_task :: "env \<Rightarrow> int \<Rightarrow> 'a srd_scheme \<Rightarrow> spacex_status \<times> int \<times> 'a srd_scheme" where
  "change_srd_task e change s =
     (let srd_num = long_add (int (length (srd_hashs s))) (get_srd_task s);
          (st, real_change) =
            (if change > 0 then
               (if srd_num \<ge> int SRD_NUMBER_UPPER_LIMIT then (SPACEX_SRD_NUMBER_EXCEED, 0)
                else if long_add srd_num change > int SRD_NUMBER_UPPER_LIMIT
                then (SPACEX_SRD_NUMBER_EXCEED, long_wrap (int SRD_NUMBER_UPPER_LIMIT - srd_num))
                else (SPACEX_SUCCESS, change))
             else (SPACEX_SUCCESS, change));
          s1 = s\<lparr>g_srd_task := long_add (g_srd_task s) real_change\<rparr>
      in (st, real_change, send_srd_info e (store_srd_task e s1)))"

definition srd_get_file :: "env \<Rightarrow> string \<Rightarrow> spacex_status \<times> bytes" where
  "srd_get_file e path =
     (let (st, data) = get_file e path STORE_TYPE_SRD
      in if st \<noteq> SPACEX_SUCCESS then (st, [])
         else if \<not> enc_malloc e (length data) then (SPACEX_MALLOC_FAILED, [])
         else (SPACEX_SUCCESS, data))"

section \<open>Adding random data\<close>

text \<open>The calls to the outside leave the workload alone.\<close>

lemma ocall_do_more: "ocall_do e c s = (st, s') \<Longrightarrow> boundary.more s' = boundary.more s"
  using more_boundary(2) [of e c s] by simp

lemma m_hashs_loop_more:
  "m_hashs_loop e tmp_dir base i n m_hashs s = (st, hs, s') \<Longrightarrow> boundary.more s' = boundary.more s"
proof (induction n arbitrary: i m_hashs s)
  case (Suc n)
  then show ?case
    by (auto simp: Let_def split: sum.splits prod.splits if_splits dest!: ocall_do_more)
qed simp

lemma seal_data_mrenclave_error: "seal_data_mrenclave e n d = Inl err \<Longrightarrow> err \<noteq> SPACEX_SUCCESS"
  by (auto simp: seal_data_mrenclave_def Sgx_seal_data_def split: option.splits if_splits)

text \<open>What the loop collects: one hash of 32 bytes for each round.\<close>

lemma m_hashs_loop_length:
  assumes "sha256_length e"
  shows "m_hashs_loop e tmp_dir base i n m_hashs s = (SPACEX_SUCCESS, hs, s') \<Longrightarrow>
    length hs = length m_hashs + n * HASH_LENGTH"
proof (induction n arbitrary: i m_hashs s)
  case (Suc n)
  have "length (take HASH_LENGTH (sgx_sha256_msg e x)) = HASH_LENGTH" for x
    using assms by (simp add: sha256_length_def)
  moreover have "length hs = length (m_hashs @ h) + n * HASH_LENGTH"
    if "m_hashs_loop e tmp_dir base (Suc i) n (m_hashs @ h) s'' = (SPACEX_SUCCESS, hs, s')" for h s''
    using Suc.IH [OF that] .
  ultimately show ?case
    using Suc.prems by (auto simp: Let_def split: sum.splits prod.splits if_splits dest: seal_data_mrenclave_error)
qed simp

lemma srd_fill_spec:
  assumes "srd_fill e uuid uuid_u tmp_val base s = (st, s')"
  shows "st \<noteq> SPACEX_SUCCESS \<Longrightarrow> boundary.more s' = boundary.more s"
    and "st = SPACEX_SUCCESS \<Longrightarrow> \<exists>t d. boundary.more t = boundary.more s \<and>
      s' = send_srd_info e (set_srd_info uuid 1 (t\<lparr>srd_hashs := srd_hashs t @
        [take UUID_LENGTH uuid_u @ take LAYER_LENGTH tmp_val @ take HASH_LENGTH (sgx_sha256_msg e d)]\<rparr>))"
  using assms
  by (auto simp: srd_fill_def save_m_hashs_file_def Let_def split: prod.splits if_splits
      dest!: ocall_do_more m_hashs_loop_more) (rule exI, rule conjI, assumption, rule exI, rule refl)

lemma srd_more:
  assumes "boundary.more s' = boundary.more s"
  shows "srd_hashs s' = srd_hashs s" and "srd_info_json s' = srd_info_json s" and "srd_consistent s' = srd_consistent s"
proof -
  show "srd_hashs s' = srd_hashs s" "srd_info_json s' = srd_info_json s"
    using assms by (cases s; cases s'; simp)+
  then show "srd_consistent s' = srd_consistent s" by (simp add: srd_consistent_def)
qed

text \<open>
  \<open>srd_increase\<close> adds exactly one item when it succeeds and none when it fails; it keeps the
  invariant and, for a disk uuid in lower case, the statistics.
\<close>

lemma base_rand_buffer_frame:
  assumes "base_rand_buffer e s = Some (b, s')"
  shows "srd_hashs s' = srd_hashs s" and "wl_inv s' = wl_inv s" and "srd_consistent s' = srd_consistent s"
    and "g_srd_task s' = g_srd_task s"
  using assms
  by (auto simp: base_rand_buffer_def Let_def wl_inv_def files_sorted_def srd_consistent_def split: option.splits if_splits)

lemma srd_push:
  fixes s t :: "'a workload_scheme" and e uuid item
  assumes more: "boundary.more t = boundary.more s" and item: "length item = SRD_LENGTH" "srd_uuid item = uuid"
  defines "s' \<equiv> send_srd_info e (set_srd_info uuid 1 (t\<lparr>srd_hashs := srd_hashs t @ [item]\<rparr>))"
  shows "srd_hashs s' = srd_hashs s @ [item]" and "wl_inv s \<Longrightarrow> wl_inv s'"
    and "srd_consistent s \<Longrightarrow> length (srd_hashs s) < 2 ^ 61 \<Longrightarrow> srd_consistent s'"
proof -
  note t = srd_more [OF more]
  show "srd_hashs s' = srd_hashs s @ [item]" by (simp add: s'_def frame_simps t)
  show "wl_inv s'" if "wl_inv s"
  proof -
    have "wl_inv t" using that more by (rule wl_inv_more)
    then have "wl_inv (t\<lparr>srd_hashs := srd_hashs t @ [item]\<rparr>)" using item by (simp add: wl_inv_def files_sorted_def)
    then show ?thesis unfolding s'_def by (intro wl_inv_send_srd_info wl_inv_fields)
  qed
  show "srd_consistent s \<Longrightarrow> length (srd_hashs s) < 2 ^ 61 \<Longrightarrow> srd_consistent s'"
    unfolding s'_def using t item by (intro srd_consistent_send srd_consistent_push) auto
qed

lemma srd_increase_spec:
  assumes run: "srd_increase e uuid s = (st, s')" and rand: "rand_length e" and sha: "sha256_length e"
    and uuid: "uuid = plain_hex u" "length u = UUID_LENGTH" and heap: "heap_ok e"
  shows "st \<noteq> SPACEX_SUCCESS \<Longrightarrow> srd_hashs s' = srd_hashs s"
    and "st = SPACEX_SUCCESS \<Longrightarrow> \<exists>item. srd_hashs s' = srd_hashs s @ [item] \<and> length item = SRD_LENGTH \<and> srd_uuid item = uuid"
    and "wl_inv s \<Longrightarrow> wl_inv s'"
    and "srd_consistent s \<Longrightarrow> length (srd_hashs s) < 2 ^ 61 \<Longrightarrow> srd_consistent s'"
proof -
  have u: "take (UUID_LENGTH * 2) uuid = uuid" "hex_string_to_bytes e uuid = Some u"
    using uuid heap hex_string_to_bytes_plain [of e u] by (force simp: length_plain_hex)+
  have "(st \<noteq> SPACEX_SUCCESS \<longrightarrow> srd_hashs s' = srd_hashs s) \<and>
    (st = SPACEX_SUCCESS \<longrightarrow> (\<exists>item. srd_hashs s' = srd_hashs s @ [item] \<and> length item = SRD_LENGTH \<and> srd_uuid item = uuid)) \<and>
    (wl_inv s \<longrightarrow> wl_inv s') \<and> (srd_consistent s \<and> length (srd_hashs s) < 2 ^ 61 \<longrightarrow> srd_consistent s')"
  proof (cases "report_has_validated_proof s \<and> base_rand_buffer e s \<noteq> None")
    case False
    then have "\<not> report_has_validated_proof s \<or> base_rand_buffer e s = None" by blast
    with run u show ?thesis by (auto simp: srd_increase_def split: if_splits)
  next
    case True
    then obtain b s1 where b: "base_rand_buffer e s = Some (b, s1)" by auto
    let ?tmp = "sgx_read_rand e (length (ocalls s1)) 18"
    let ?dir = "uuid @ hexstring_safe e ?tmp"
    obtain st2 s2 where c: "ocall_do e (Ocall_create_dir ?dir STORE_TYPE_SRD) s1 = (st2, s2)" by fastforce
    obtain st3 s3 where f: "srd_fill e uuid u ?tmp b s2 = (st3, s3)" by fastforce
    have base: "srd_hashs s2 = srd_hashs s" "wl_inv s \<Longrightarrow> wl_inv s2" "srd_consistent s2 = srd_consistent s"
      using base_rand_buffer_frame [OF b] srd_more [OF ocall_do_more [OF c]] wl_inv_more [of s1 s2] ocall_do_more [OF c]
      by auto
    have run': "(st, s') = (if st2 \<noteq> SPACEX_SUCCESS then (st2, s2)
        else (st3, if st3 \<noteq> SPACEX_SUCCESS then snd (ocall_do e (Ocall_delete_folder_or_file ?dir STORE_TYPE_SRD) s3) else s3))"
      using run u True b c f by (auto simp: srd_increase_def Let_def split: if_splits)
    show ?thesis
    proof (cases "st2 = SPACEX_SUCCESS \<and> st3 = SPACEX_SUCCESS")
      case False
      then have "boundary.more s' = boundary.more s2" "st \<noteq> SPACEX_SUCCESS"
        using run' srd_fill_spec(1) [OF f] by (auto simp: frame_simps split: if_splits)
      with base srd_more [of s' s2] wl_inv_more [of s2 s'] show ?thesis by auto
    next
      case True
      then obtain t d where t: "boundary.more t = boundary.more s2"
        "s3 = send_srd_info e (set_srd_info uuid 1 (t\<lparr>srd_hashs := srd_hashs t @
          [take UUID_LENGTH u @ take LAYER_LENGTH ?tmp @ take HASH_LENGTH (sgx_sha256_msg e d)]\<rparr>))"
        using srd_fill_spec(2) [OF f] by blast
      let ?item = "take UUID_LENGTH u @ take LAYER_LENGTH ?tmp @ take HASH_LENGTH (sgx_sha256_msg e d)"
      have "length ?item = SRD_LENGTH" "srd_uuid ?item = uuid"
        using uuid rand sha by (auto simp: rand_length_def sha256_length_def srd_uuid_def)
      note p = srd_push [OF t(1) this, of e, folded t(2)]
      have "s' = s3" "st = SPACEX_SUCCESS" using run' True by auto
      with p base \<open>length ?item = _\<close> \<open>srd_uuid ?item = _\<close> show ?thesis by auto
    qed
  qed
  then show "st \<noteq> SPACEX_SUCCESS \<Longrightarrow> srd_hashs s' = srd_hashs s"
    and "st = SPACEX_SUCCESS \<Longrightarrow> \<exists>item. srd_hashs s' = srd_hashs s @ [item] \<and> length item = SRD_LENGTH \<and> srd_uuid item = uuid"
    and "wl_inv s \<Longrightarrow> wl_inv s'"
    and "srd_consistent s \<Longrightarrow> length (srd_hashs s) < 2 ^ 61 \<Longrightarrow> srd_consistent s'"
    by blast+
qed

section \<open>Removing random data\<close>

lemma delete_srd_files_more: "boundary.more (delete_srd_files e ds s) = boundary.more s"
  unfolding delete_srd_files_def by (induction ds arbitrary: s) (simp_all add: frame_simps)

lemma rev_last_indexes: "k \<le> n \<Longrightarrow> rev (map (\<lambda>i. n - i) [1..<Suc k]) = [n - k..<n]"
proof (induction k)
  case (Suc k)
  then have "rev (map (\<lambda>i. n - i) [1..<Suc (Suc k)]) = (n - Suc k) # [n - k..<n]" by simp
  also have "\<dots> = [n - Suc k..<n]" using Suc.prems by (subst upt_conv_Cons [of "n - Suc k"]) (auto simp: Suc_diff_Suc)
  finally show ?case .
qed simp

lemma nths_not_last: "nths xs (- {m..<length xs}) = take m xs"
proof -
  have "nths xs (- {m..<length xs}) = nths xs {..<m}"
    unfolding nths_def by (intro arg_cong [where f = "map fst"] filter_cong) (auto dest: set_zip_rightD)
  then show ?thesis by simp
qed

text \<open>
  \<open>srd_decrease\<close> first drops the items marked as deleted, then the requested number of items from the
  end, or all of them; it returns how many it took.
\<close>

lemma srd_decrease_spec:
  fixes s :: "'a workload_scheme" and e change
  assumes inv: "wl_inv s"
  defines "hs \<equiv> nths (srd_hashs s) (- set (srd_del_idx_s s))" and "r \<equiv> srd_decrease e change s"
  shows "fst r = min change (length hs)" and "srd_hashs (snd r) = take (length hs - min change (length hs)) hs"
    and "wl_inv (snd r)" and "heap_ok e \<Longrightarrow> srd_consistent s \<Longrightarrow> length (srd_hashs s) < 2 ^ 61 \<Longrightarrow> srd_consistent (snd r)"
proof -
  let ?s1 = "deal_deleted_srd e s"
  let ?k = "min change (length hs)"
  have "sorted_wrt (<) (srd_del_idx_s s)" using inv by (simp add: wl_inv_def)
  from delete_srd_meta_hashs(1) [OF this, of e "s\<lparr>srd_del_idx_s := []\<rparr>"]
  have h1: "srd_hashs ?s1 = hs" by (simp add: deal_deleted_srd_def hs_def)
  have s1: "wl_inv ?s1" using inv by (rule deal_deleted_srd_inv)
  have c1: "srd_consistent ?s1" if "heap_ok e" "srd_consistent s" "length (srd_hashs s) < 2 ^ 61"
    unfolding deal_deleted_srd_def using that by (intro srd_consistent_delete_meta) (auto simp: srd_consistent_def)
  have len: "length hs \<le> length (srd_hashs s)" unfolding hs_def length_nths
    using card_mono [of "{..<length (srd_hashs s)}" "{i. i < length (srd_hashs s) \<and> i \<in> - set (srd_del_idx_s s)}"] by auto
  let ?idx = "map (\<lambda>i. length hs - i) [1..<Suc ?k]"
  let ?s2 = "snd (delete_srd_meta e [length hs - ?k..<length hs] ?s1)"
  have idx: "rev ?idx = [length hs - ?k..<length hs]" by (rule rev_last_indexes) simp
  have h2: "srd_hashs ?s2 = take (length hs - ?k) hs"
    using delete_srd_meta_hashs(1) [of "[length hs - ?k..<length hs]" e ?s1] h1 by (simp add: nths_not_last)
  obtain ds where r: "r = (if ?k \<le> 0 then (0, ?s1) else (?k, send_srd_info e (delete_srd_files e ds ?s2)))"
    unfolding r_def srd_decrease_def Let_def h1 idx by blast
  show "fst r = ?k" by (simp add: r)
  show "srd_hashs (snd r) = take (length hs - ?k) hs"
    using h1 h2 by (simp add: r frame_simps srd_more(1) [OF delete_srd_files_more])
  show "wl_inv (snd r)"
    using s1 by (auto simp: r intro!: wl_inv_send_srd_info wl_inv_more [OF delete_srd_meta_inv [OF s1] delete_srd_files_more])
  show "srd_consistent (snd r)" if a: "heap_ok e" "srd_consistent s" "length (srd_hashs s) < 2 ^ 61"
  proof -
    have "srd_consistent ?s2"
      using a(1) c1 [OF a] by (rule srd_consistent_delete_meta) (use h1 len a(3) in simp)
    with c1 [OF a] show ?thesis
      by (auto simp: r srd_more(3) [OF delete_srd_files_more] intro!: srd_consistent_send)
  qed
qed

text \<open>
  \<open>srd_remove_space\<close>: when every disk has the items that are to go, the loop ends inside the vector
  with that many indexes; when more is asked for than there is, it runs below index 0.
\<close>

definition need :: "JSON \<Rightarrow> string \<Rightarrow> int" where
  "need del u = ToInt (jget del u)"

definition disk_count :: "bytes list \<Rightarrow> string \<Rightarrow> nat" where
  "disk_count hs u = length (filter (\<lambda>h. srd_uuid h = u) hs)"

lemma need_take:
  assumes "JSONType del = CObject" and "\<And>u. num_wf (jget del u)" and "0 < need del u" and "need del u < 2 ^ 63"
  defines "del' \<equiv> jupd del u (AddNum (- 1))"
  shows "JSONType del' = CObject" and "num_wf (jget del' v)" and "need del' v = need del v - (if v = u then 1 else 0)"
proof -
  have "long_wrap (need del u + - 1) = need del u - 1" using assms(3,4) by (simp add: long_wrap_id)
  then show "JSONType del' = CObject" and "num_wf (jget del' v)" and "need del' v = need del v - (if v = u then 1 else 0)"
    using assms(1,2) by (auto simp: del'_def need_def AddNum_num num_wf_def)
qed

definition remove_inv :: "bytes list \<Rightarrow> string set \<Rightarrow> nat \<Rightarrow> JSON \<Rightarrow> int \<Rightarrow> bool" where
  "remove_inv hs U i del change \<longleftrightarrow> JSONType del = CObject \<and> (\<forall>u. num_wf (jget del u)) \<and>
     (\<forall>u. 0 \<le> need del u \<and> need del u < 2 ^ 63 \<and> need del u \<le> int (disk_count (take i hs) u)) \<and>
     0 \<le> change \<and> change \<le> (\<Sum>u \<in> U. need del u)"

lemma remove_step:
  fixes hs :: "bytes list" and del :: JSON and i :: nat
  assumes inv: "remove_inv hs U (Suc i) del change" and pos: "0 < change" and i: "i < length hs" and fin: "finite U"
  defines "u \<equiv> srd_uuid (hs ! i)"
  shows "remove_inv hs U i (if 0 < need del u then jupd del u (AddNum (- 1)) else del)
    (if 0 < need del u then change - 1 else change)"
proof -
  have cnt: "disk_count (take (Suc i) hs) v = disk_count (take i hs) v + (if v = u then 1 else 0)" for v
    using i by (simp add: disk_count_def take_Suc_conv_app_nth u_def)
  have bnd: "0 \<le> need del v" "need del v < 2 ^ 63" "need del v \<le> int (disk_count (take (Suc i) hs) v)" for v
    using inv by (auto simp: remove_inv_def)
  show ?thesis
  proof (cases "0 < need del u")
    case False
    then have "need del u = 0" using bnd(1) [of u] by simp
    then have "need del v \<le> int (disk_count (take i hs) v)" for v using bnd(3) [of v] cnt [of v] by (cases "v = u") auto
    with inv False show ?thesis by (simp add: remove_inv_def)
  next
    case True
    let ?d = "jupd del u (AddNum (- 1))"
    have "JSONType del = CObject" "\<And>v. num_wf (jget del v)" using inv by (auto simp: remove_inv_def)
    note t = need_take [OF this True bnd(2)]
    have "0 \<le> need ?d v \<and> need ?d v < 2 ^ 63 \<and> need ?d v \<le> int (disk_count (take i hs) v)" for v
      using t(3) [of v] bnd [of v] cnt [of v] True by (cases "v = u") auto
    moreover have "(\<Sum>v \<in> U. need ?d v) = (\<Sum>v \<in> U. need del v) - (\<Sum>v \<in> U. if v = u then 1 else 0)"
      using t(3) by (simp add: sum_subtractf)
    then have "(\<Sum>v \<in> U. need del v) - 1 \<le> (\<Sum>v \<in> U. need ?d v)" using fin by simp
    ultimately show ?thesis using inv True pos t(1,2) by (simp add: remove_inv_def)
  qed
qed

lemma remove_inv_zero:
  assumes "remove_inv hs U 0 del change"
  shows "change = 0"
proof -
  have "0 \<le> need del v \<and> need del v \<le> int (disk_count (take 0 hs) v)" for v
    using assms by (simp add: remove_inv_def)
  then have "need del v = 0" for v by (simp add: disk_count_def order_antisym)
  with assms show ?thesis by (simp add: remove_inv_def)
qed

lemma remove_loop_ok:
  assumes heap: "heap_ok e" and fin: "finite U"
  shows "i < length hs \<Longrightarrow> remove_inv hs U (Suc i) del change \<Longrightarrow>
    \<exists>srds' idxs'. remove_loop e hs i del change srds idxs = Some (srds @ srds', idxs @ idxs') \<and>
      length srds' = nat change \<and> length idxs' = nat change \<and> sorted_wrt (>) idxs' \<and> set idxs' \<subseteq> {..i}"
proof (induction i arbitrary: del change srds idxs)
  case 0
  show ?case
  proof (cases "0 < change")
    case True
    let ?u = "srd_uuid (hs ! 0)"
    have st: "remove_inv hs U 0 (if 0 < need del ?u then jupd del ?u (AddNum (- 1)) else del)
      (if 0 < need del ?u then change - 1 else change)"
      using remove_step [of hs U 0 del change] 0 True fin by simp
    with True remove_inv_zero [OF st] have "0 < need del ?u" "change = 1" by (auto split: if_splits)
    with True heap show ?thesis
      by (subst remove_loop.simps) (auto simp: Let_def hexstring_plain srd_uuid_def need_def)
  qed (use 0 in \<open>auto simp: remove_loop.simps remove_inv_def\<close>)
next
  case (Suc i)
  show ?case
  proof (cases "0 < change")
    case True
    let ?u = "srd_uuid (hs ! Suc i)"
    let ?hit = "0 < need del ?u"
    have st: "remove_inv hs U (Suc i) (if ?hit then jupd del ?u (AddNum (- 1)) else del) (if ?hit then change - 1 else change)"
      using remove_step [of hs U "Suc i" del change] Suc.prems True fin by simp
    have lt: "i < length hs" using Suc.prems by simp
    obtain srds' idxs' where r: "remove_loop e hs i (if ?hit then jupd del ?u (AddNum (- 1)) else del) (if ?hit then change - 1 else change)
          (if ?hit then srds @ [hexstring_safe e (take SRD_LENGTH (hs ! Suc i))] else srds) (if ?hit then idxs @ [Suc i] else idxs) =
        Some ((if ?hit then srds @ [hexstring_safe e (take SRD_LENGTH (hs ! Suc i))] else srds) @ srds',
          (if ?hit then idxs @ [Suc i] else idxs) @ idxs')"
      "length srds' = nat (if ?hit then change - 1 else change)" "length idxs' = nat (if ?hit then change - 1 else change)"
      "sorted_wrt (>) idxs'" "set idxs' \<subseteq> {..i}"
      using Suc.IH [OF lt st] by blast
    have run: "remove_loop e hs (Suc i) del change srds idxs =
        remove_loop e hs i (if ?hit then jupd del ?u (AddNum (- 1)) else del) (if ?hit then change - 1 else change)
          (if ?hit then srds @ [hexstring_safe e (take SRD_LENGTH (hs ! Suc i))] else srds) (if ?hit then idxs @ [Suc i] else idxs)"
      using True heap by (subst remove_loop.simps) (simp add: Let_def hexstring_plain srd_uuid_def need_def)
    have "remove_loop e hs (Suc i) del change srds idxs =
        Some (srds @ (if ?hit then hexstring_safe e (take SRD_LENGTH (hs ! Suc i)) # srds' else srds'),
              idxs @ (if ?hit then Suc i # idxs' else idxs'))"
      unfolding run r(1) by simp
    moreover have "sorted_wrt (>) (if ?hit then Suc i # idxs' else idxs')" "set (if ?hit then Suc i # idxs' else idxs') \<subseteq> {..Suc i}"
      using r(4,5) by auto
    ultimately show ?thesis using r(2,3) True by (cases ?hit) (auto simp: Suc_nat_eq_nat_zadd1)
  qed (use Suc.prems in \<open>auto simp: remove_loop.simps remove_inv_def\<close>)
qed

lemma remove_loop_overrun:
  "int (Suc i) < change \<Longrightarrow> remove_loop e hs i del change srds idxs = None"
proof (induction i arbitrary: del change srds idxs)
  case 0
  then show ?case by (subst remove_loop.simps) (auto simp: Let_def)
next
  case (Suc i)
  then show ?case by (subst remove_loop.simps) (auto simp: Let_def)
qed

text \<open>Marking the chosen items.\<close>

lemma mark_srd_indexes:
  "set (srd_del_idx_s (fold (\<lambda>i s. snd (add_srd_to_deleted_buffer i s)) idxs s)) = set (srd_del_idx_s s) \<union> set idxs"
  "srd_hashs (fold (\<lambda>i s. snd (add_srd_to_deleted_buffer i s)) idxs s) = srd_hashs s"
  by (induction idxs arbitrary: s) (auto simp: add_srd_to_deleted_buffer_def set_insort_insert)

lemma srd_del_idx_more: "boundary.more s' = boundary.more s \<Longrightarrow> srd_del_idx_s s' = srd_del_idx_s s"
  by (cases s; cases s') simp

lemma srd_del_idx_send [frame_simps]: "srd_del_idx_s (send_srd_info e s) = srd_del_idx_s s"
  by (simp add: send_srd_info_def get_srd_info_def emit_def Let_def)

section \<open>The task\<close>

text \<open>One turn takes at most 64 up or 5000 down, and never goes past zero.\<close>

lemma srd_turn_bounds:
  "- int SRD_MAX_DEC_PER_TURN \<le> srd_turn n" "srd_turn n \<le> int SRD_MAX_INC_PER_TURN"
  "\<bar>n - srd_turn n\<bar> = \<bar>n\<bar> - \<bar>srd_turn n\<bar>" "srd_turn n = 0 \<longleftrightarrow> n = 0" "0 < srd_turn n \<longleftrightarrow> 0 < n"
  by (auto simp: srd_turn_def)

lemma g_srd_task_frames [frame_simps]:
  "g_srd_task (send_srd_info e s) = g_srd_task s" "g_srd_task (store_srd_task e s) = g_srd_task s"
  "upgrade_status (send_srd_info e s) = upgrade_status s" "upgrade_status (store_srd_task e s) = upgrade_status s"
  "report_has_validated_proof (send_srd_info e s) = report_has_validated_proof s"
  "report_has_validated_proof (store_srd_task e s) = report_has_validated_proof s"
  "srd_hashs (store_srd_task e s) = srd_hashs s"
proof -
  define t where "t = snd (persist_set_unsafe e WL_SRD_REMAINING_TASK (str_bytes (int_to_string (g_srd_task s))) s)"
  have "boundary.more t = boundary.more s" by (simp add: t_def frame_simps)
  then have m: "g_srd_task t = g_srd_task s" "upgrade_status t = upgrade_status s" "srd_hashs t = srd_hashs s"
    "validated_srd_proof t = validated_srd_proof s" "validated_file_proof t = validated_file_proof s"
    by (cases s; cases t; simp)+
  show "g_srd_task (send_srd_info e s) = g_srd_task s" "upgrade_status (send_srd_info e s) = upgrade_status s"
    "report_has_validated_proof (send_srd_info e s) = report_has_validated_proof s"
    by (simp_all add: send_srd_info_def get_srd_info_def emit_def Let_def report_has_validated_proof_def)
  show "g_srd_task (store_srd_task e s) = g_srd_task s" "upgrade_status (store_srd_task e s) = upgrade_status s"
    "report_has_validated_proof (store_srd_task e s) = report_has_validated_proof s"
    "srd_hashs (store_srd_task e s) = srd_hashs s"
    by (simp_all add: store_srd_task_def t_def [symmetric] set_srd_remaining_task_def report_has_validated_proof_def m)
qed

lemma proof_task [frame_simps]: "report_has_validated_proof (s\<lparr>g_srd_task := n\<rparr>) = report_has_validated_proof s"
  by (simp add: report_has_validated_proof_def)

lemma srd_change_step:
  assumes "upgrade_status s = ENC_UPGRADE_STATUS_NONE" and "report_has_validated_proof s" and "g_srd_task s \<noteq> 0"
    and "oc (srd_turn (g_srd_task s)) (s\<lparr>g_srd_task := g_srd_task s - srd_turn (g_srd_task s)\<rparr>) = (st, s2)"
  shows "g_srd_task (srd_change e oc s) = (if st = SPACEX_SRD_NUMBER_EXCEED then 0 else g_srd_task s2)"
    and "upgrade_status (srd_change e oc s) = upgrade_status s2"
    and "report_has_validated_proof (srd_change e oc s) = report_has_validated_proof s2"
  using assms by (simp_all add: srd_change_def frame_simps)

text \<open>
  Repeated turns finish a positive task: with a call outside that neither adds to the task nor
  blocks the turns, \<open>n\<close> turns are enough for a task of at most \<open>64 * n\<close>.
\<close>

lemma srd_change_finishes:
  assumes oc: "\<And>k s. 0 \<le> g_srd_task s \<Longrightarrow> upgrade_status (snd (oc k s)) = upgrade_status s \<and> g_srd_task (snd (oc k s)) \<le> g_srd_task s \<and>
      0 \<le> g_srd_task (snd (oc k s)) \<and> report_has_validated_proof (snd (oc k s)) = report_has_validated_proof s"
  shows "upgrade_status s = ENC_UPGRADE_STATUS_NONE \<Longrightarrow> report_has_validated_proof s \<Longrightarrow>
    0 \<le> g_srd_task s \<Longrightarrow> g_srd_task s \<le> int SRD_MAX_INC_PER_TURN * int n \<Longrightarrow> g_srd_task ((srd_change e oc ^^ n) s) = 0"
proof (induction n arbitrary: s)
  case (Suc n)
  let ?t = "g_srd_task s"
  show ?case
  proof (cases "?t = 0")
    case True
    then have "srd_change e oc s = s" using Suc.prems by (simp add: srd_change_def)
    then show ?thesis using Suc.IH [of s] Suc.prems True by (simp add: funpow_swap1)
  next
    case False
    let ?s1 = "s\<lparr>g_srd_task := ?t - srd_turn ?t\<rparr>"
    obtain st s2 where o: "oc (srd_turn ?t) ?s1 = (st, s2)" by fastforce
    note st = srd_change_step [where oc = oc and s = s and st = st and ?s2.0 = s2 and e = e, OF Suc.prems(1,2) False o]
    have "0 \<le> g_srd_task ?s1" using Suc.prems(3) by (simp add: srd_turn_def)
    then have "upgrade_status s2 = upgrade_status s" "g_srd_task s2 \<le> ?t - srd_turn ?t" "0 \<le> g_srd_task s2"
      "report_has_validated_proof s2 = report_has_validated_proof s"
      using oc [where k = "srd_turn ?t" and s = ?s1] o by (auto simp: report_has_validated_proof_def)
    moreover have "?t - srd_turn ?t \<le> int SRD_MAX_INC_PER_TURN * int n"
      using Suc.prems(3,4) by (auto simp: srd_turn_def)
    ultimately have "g_srd_task ((srd_change e oc ^^ n) (srd_change e oc s)) = 0"
      using st Suc.prems by (intro Suc.IH) auto
    then show ?thesis by (simp add: funpow_swap1)
  qed
qed simp

text \<open>
  The limit: for values that do not overflow, an accepted increase never takes the items and the task
  above 512000.
\<close>

lemma change_srd_task_spec:
  fixes s :: "'a srd_scheme" and e change
  assumes range: "length (srd_hashs s) < 2 ^ 60" "\<bar>g_srd_task s\<bar> < 2 ^ 60" "\<bar>change\<bar> < 2 ^ 61"
  defines "srd_num \<equiv> int (length (srd_hashs s)) + g_srd_task s" and "r \<equiv> change_srd_task e change s"
  shows "change \<le> 0 \<Longrightarrow> fst r = SPACEX_SUCCESS \<and> fst (snd r) = change"
    and "0 < change \<Longrightarrow> fst (snd r) = max 0 (min change (int SRD_NUMBER_UPPER_LIMIT - srd_num))"
    and "0 < change \<Longrightarrow> fst r = (if srd_num + change \<le> int SRD_NUMBER_UPPER_LIMIT then SPACEX_SUCCESS else SPACEX_SRD_NUMBER_EXCEED)"
    and "g_srd_task (snd (snd r)) = g_srd_task s + fst (snd r)"
    and "srd_hashs (snd (snd r)) = srd_hashs s"
proof -
  have len: "int (length (srd_hashs s)) < 2 ^ 60" using range(1) by (metis of_nat_less_iff of_nat_numeral of_nat_power)
  have w: "long_wrap x = x" if "\<bar>x\<bar> < 2 ^ 62" for x
    using that by (intro long_wrap_id) auto
  have num: "\<bar>srd_num\<bar> < 2 ^ 61" using len range(2) unfolding srd_num_def by simp
  have a: "long_add (int (length (srd_hashs s))) (g_srd_task s) = srd_num"
    using num by (simp add: long_add_def srd_num_def w)
  have b: "long_add srd_num change = srd_num + change" "long_wrap (512000 - srd_num) = 512000 - srd_num"
    using num range(3) unfolding long_add_def by (auto intro!: w)
  have r: "fst r = (if 0 < change \<and> (512000 \<le> srd_num \<or> 512000 < srd_num + change) then SPACEX_SRD_NUMBER_EXCEED else SPACEX_SUCCESS)"
    "fst (snd r) = (if 0 < change then if 512000 \<le> srd_num then 0 else if 512000 < srd_num + change then 512000 - srd_num else change
       else change)"
    "g_srd_task (snd (snd r)) = long_add (g_srd_task s) (fst (snd r))" "srd_hashs (snd (snd r)) = srd_hashs s"
    by (simp_all add: r_def change_srd_task_def get_srd_task_def a b Let_def frame_simps split: prod.splits)
  have "\<bar>fst (snd r)\<bar> < 2 ^ 61 + 2 ^ 20" using range(3) num unfolding r(2) by (auto simp: abs_less_iff)
  then have "\<bar>g_srd_task s + fst (snd r)\<bar> < 2 ^ 62" using range(2) by simp
  with r(3) show "g_srd_task (snd (snd r)) = g_srd_task s + fst (snd r)" by (simp add: long_add_def w)
  show "change \<le> 0 \<Longrightarrow> fst r = SPACEX_SUCCESS \<and> fst (snd r) = change" by (simp add: r(1,2))
  show "0 < change \<Longrightarrow> fst (snd r) = max 0 (min change (int SRD_NUMBER_UPPER_LIMIT - srd_num))" by (simp add: r(2))
  show "0 < change \<Longrightarrow> fst r = (if srd_num + change \<le> int SRD_NUMBER_UPPER_LIMIT then SPACEX_SUCCESS else SPACEX_SRD_NUMBER_EXCEED)"
    by (simp add: r(1))
  show "srd_hashs (snd (snd r)) = srd_hashs s" by (rule r(4))
qed

text \<open>Near the end of the range of \<open>long\<close> the sum wraps, and the limit is not enforced.\<close>

lemma change_srd_task_overflow:
  assumes "srd_hashs s \<noteq> []" and "length (srd_hashs s) < 512000" and "g_srd_task s = 0"
  shows "fst (change_srd_task e (2 ^ 63 - 1) s) = SPACEX_SUCCESS"
    and "g_srd_task (snd (snd (change_srd_task e (2 ^ 63 - 1) s))) = 2 ^ 63 - 1"
proof -
  let ?n = "int (length (srd_hashs s))"
  have n: "0 < ?n" "?n < 512000" using assms(1,2) by auto
  have a: "long_add ?n 0 = ?n" using n by (simp add: long_add_def long_wrap_id)
  have "(?n - 1 + 2 ^ 64) mod 2 ^ 64 = (?n - 1) mod 2 ^ 64" by (rule mod_add_self2)
  then have "(?n + (2 ^ 63 - 1) + 2 ^ 63) mod 2 ^ 64 = ?n - 1"
    using n by (simp add: algebra_simps mod_pos_pos_trivial)
  then have "long_add ?n (2 ^ 63 - 1) = ?n - 1 - 2 ^ 63" by (simp add: long_add_def long_wrap_def)
  then have b: "long_add ?n (2 ^ 63 - 1) < 0" using n by simp
  have c: "long_add 0 (2 ^ 63 - 1) = 2 ^ 63 - 1" by (simp add: long_add_def long_wrap_id)
  show "fst (change_srd_task e (2 ^ 63 - 1) s) = SPACEX_SUCCESS"
    "g_srd_task (snd (snd (change_srd_task e (2 ^ 63 - 1) s))) = 2 ^ 63 - 1"
    using n b c assms(3) by (auto simp: change_srd_task_def get_srd_task_def a Let_def frame_simps)
qed

end
