(* ===== verification/Validator.thy ===== *)
theory Validator
  imports Storage Srd
begin

text \<open>
  The validation of random data and of files, \<open>src/src/enclave/validator/Validator.cpp\<close>.

  A round chooses entries, asks the application for one task per entry, waits until all tasks have
  finished or a time limit passes, and then deals with the results. The tasks run on other threads:
  \<open>other\<close> is what they, and every other thread, do to the state between two accesses of the round, and the
  tasks themselves are \<open>validate_srd_real\<close> and \<open>validate_meaningful_file_real\<close>. An iterator into a map is a
  position in its list of entries; reading it at the end is undefined (\<open>None\<close>), and so is an exception.
  A pointer to an entry of \<open>g_validate_files_m\<close> is the key of the entry. The number of chosen entries is
  one in 200, which is what the product with the rate 0.005 is below \<open>2 ^ 52\<close>.
\<close>

section \<open>State\<close>

record validator = srd +
  g_del_srd_v :: "bytes list"
  g_validate_srd_m :: "(nat \<times> bytes) list"
  g_validate_srd_m_iter :: nat
  g_validated_srd_num :: nat
  g_changed_files_v :: "string list"
  g_validate_files_m :: "(string \<times> JSON) list"
  g_validate_files_m_iter :: nat
  g_validated_files_num :: nat
  g_validate_random :: "32 word"

section \<open>Choosing and waiting\<close>

definition validate_num :: "nat \<Rightarrow> nat \<Rightarrow> nat" where
  "validate_num min_num n = min (max (n div 200) min_num) n"

definition rand_u32 :: "env \<Rightarrow> nat \<Rightarrow> 32 word" where
  "rand_u32 e k = of_nat (foldr (\<lambda>b n. unat b + 256 * n) (sgx_read_rand e k 4) 0)"

text \<open>The indexes that a round chooses among \<open>n\<close> entries; equal choices count once.\<close>

definition chosen_indexes :: "env \<Rightarrow> nat \<Rightarrow> nat \<Rightarrow> nat \<Rightarrow> nat list" where
  "chosen_indexes e min_num n k =
     (let num = validate_num min_num n
      in if num \<ge> n then [0..<n] else map (\<lambda>i. unat (rand_u32 e (k + i)) mod n) [0..<num])"

text \<open>\<open>std::map::insert\<close> of a range: keys that are present keep their values.\<close>

definition map_insert :: "('k::linorder \<times> 'v) list \<Rightarrow> ('k \<times> 'v) list \<Rightarrow> ('k \<times> 'v) list" where
  "map_insert xs m = fold (\<lambda>(k, v) m. if map_of m k = None then om_put k v m else m) xs m"

text \<open>The loop that waits; the times are in microseconds.\<close>

abbreviation (input) wait_interval :: nat where "wait_interval \<equiv> 1000"
abbreviation (input) wait_timeout :: nat where "wait_timeout \<equiv> REPORT_SLOT * BLOCK_INTERVAL * 1000000"

function wait_loop ::
  "('a validator_scheme \<Rightarrow> bool) \<Rightarrow> (nat \<Rightarrow> 'a validator_scheme \<Rightarrow> 'a validator_scheme) \<Rightarrow> nat \<Rightarrow>
   'a validator_scheme \<Rightarrow> bool \<times> 'a validator_scheme" where
  "wait_loop finished other wait_time s =
     (if finished s then (True, s)
      else let s' = other wait_time (emit (Ocall_usleep (int wait_interval)) s)
           in if wait_timeout < wait_time + wait_interval then (False, s')
              else wait_loop finished other (wait_time + wait_interval) s')"
  by pat_completeness auto
termination
  by (relation "measure (\<lambda>(_, _, wait_time, _). wait_timeout - wait_time)") auto

declare wait_loop.simps [simp del]

section \<open>Random data\<close>

definition srd_candidates :: "env \<Rightarrow> 'a validator_scheme \<Rightarrow> (nat \<times> bytes) list" where
  "srd_candidates e s =
     fold (\<lambda>i m. om_put i (srd_hashs s ! i) m)
       (chosen_indexes e SRD_VALIDATE_MIN_NUM (length (srd_hashs s)) (length (ocalls s))) []"

definition srd_round_start :: "env \<Rightarrow> 'a validator_scheme \<Rightarrow> 'a validator_scheme" where
  "srd_round_start e s =
     s\<lparr>g_validate_srd_m := map_insert (srd_candidates e s) (g_validate_srd_m s), g_validate_srd_m_iter := 0,
       g_validate_random := rand_u32 e (length (ocalls s) + length (srd_hashs s)), g_validated_srd_num := 0\<rparr>"

text \<open>A task that could not be started: the entry at the iterator is treated as failed.\<close>

definition srd_recall_failed :: "'a validator_scheme \<Rightarrow> 'a validator_scheme option" where
  "srd_recall_failed s =
     (if g_validate_srd_m_iter s < length (g_validate_srd_m s)
      then let (srd_index, p_srd) = g_validate_srd_m s ! g_validate_srd_m_iter s
           in Some (snd (add_srd_to_deleted_buffer srd_index
                      (s\<lparr>g_validate_srd_m_iter := Suc (g_validate_srd_m_iter s),
                         g_validated_srd_num := Suc (g_validated_srd_num s),
                         g_del_srd_v := g_del_srd_v s @ [p_srd]\<rparr>)))
      else None)"

text \<open>The loop that starts the tasks, \<open>i\<close> to go up to the size of the map.\<close>

fun srd_recall_loop ::
  "env \<Rightarrow> (nat \<Rightarrow> 'a validator_scheme \<Rightarrow> 'a validator_scheme) \<Rightarrow> nat list \<Rightarrow> 'a validator_scheme \<Rightarrow>
   'a validator_scheme option" where
  "srd_recall_loop e other [] s = Some s"
| "srd_recall_loop e other (i # is) s =
     (if recall_ok e i then srd_recall_loop e other is (other i s)
      else case srd_recall_failed s of None \<Rightarrow> None | Some s' \<Rightarrow> srd_recall_loop e other is s')"

definition srd_round_end :: "env \<Rightarrow> 'a validator_scheme \<Rightarrow> 'a validator_scheme" where
  "srd_round_end e s =
     (let s' = fold (\<lambda>h s. snd (ocall_do e (Ocall_delete_folder_or_file (hexstring_safe e (take SRD_LENGTH h)) STORE_TYPE_SRD) s))
                 (g_del_srd_v s) s
      in s'\<lparr>g_del_srd_v := [], g_validate_srd_m := []\<rparr>)"

definition validate_srd ::
  "env \<Rightarrow> (nat \<Rightarrow> 'a validator_scheme \<Rightarrow> 'a validator_scheme) \<Rightarrow> 'a validator_scheme \<Rightarrow> 'a validator_scheme option" where
  "validate_srd e other s =
     (if upgrade_status s = ENC_UPGRADE_STATUS_SUCCESS then Some (deal_deleted_srd e s)
      else let s1 = srd_round_start e s
           in case srd_recall_loop e other [0..<length (g_validate_srd_m s1)] s1 of
                None \<Rightarrow> None
              | Some s2 \<Rightarrow>
                  (let (in_time, s3) = wait_loop (\<lambda>s. length (g_validate_srd_m s) \<le> g_validated_srd_num s) other 0 s2;
                       s4 = (if in_time then report_add_validated_srd_proof s3 else s3)
                   in Some (deal_deleted_srd e (srd_round_end e s4))))"

text \<open>
  A task. It first takes its entry, then checks files on disk, then records the result; the middle part
  gives whether the entry is to be deleted.
\<close>

definition srd_task_take :: "'a validator_scheme \<Rightarrow> (32 word \<times> nat \<times> bytes \<times> 'a validator_scheme) option" where
  "srd_task_take s =
     (if g_validate_srd_m_iter s < length (g_validate_srd_m s)
      then let (srd_index, p_srd) = g_validate_srd_m s ! g_validate_srd_m_iter s
           in Some (g_validate_random s, srd_index, p_srd, s\<lparr>g_validate_srd_m_iter := Suc (g_validate_srd_m_iter s)\<rparr>)
      else None)"

text \<open>The leaf: \<open>i\<close> is the block index and \<open>hash\<close> its entry among the hashes.\<close>

definition srd_check_leaf :: "env \<Rightarrow> string \<Rightarrow> nat \<Rightarrow> nat \<Rightarrow> bytes \<Rightarrow> 'a validator_scheme \<Rightarrow> bool \<times> 'a validator_scheme" where
  "srd_check_leaf e srd_hex srd_index i hash s =
     (let (st, leaf_data) = srd_get_file e (get_leaf_path srd_hex i hash)
      in if st \<noteq> SPACEX_SUCCESS then add_srd_to_deleted_buffer srd_index s
         else (sgx_sha256_msg e leaf_data \<noteq> hash, s))"

definition srd_task_check :: "env \<Rightarrow> nat \<Rightarrow> bytes \<Rightarrow> 'a validator_scheme \<Rightarrow> (bool \<times> 'a validator_scheme) option" where
  "srd_task_check e srd_index p_srd s =
     (let srd_hex = hexstring_safe e (take SRD_LENGTH p_srd)
      in if length srd_hex < UUID_LENGTH * 2 + LAYER_LENGTH * 2 then None
         else let (st, m_hashs) = srd_get_file e (get_m_hashs_file_path srd_hex)
              in if st \<noteq> SPACEX_SUCCESS then Some (add_srd_to_deleted_buffer srd_index s)
                 else if \<not> enc_malloc e (length m_hashs) then Some (False, s)
                 else if take HASH_LENGTH (drop (UUID_LENGTH + LAYER_LENGTH) p_srd) \<noteq> sgx_sha256_msg e m_hashs
                 then Some (True, s)
                 else let i = unat (rand_u32 e (length (ocalls s))) mod SRD_RAND_DATA_NUM
                      in if length m_hashs < (i + 1) * HASH_LENGTH then None
                         else Some (srd_check_leaf e srd_hex srd_index i (take HASH_LENGTH (drop (i * HASH_LENGTH) m_hashs)) s))"

definition srd_task_finish :: "32 word \<Rightarrow> nat \<Rightarrow> bytes \<Rightarrow> bool \<Rightarrow> 'a validator_scheme \<Rightarrow> 'a validator_scheme" where
  "srd_task_finish cur_validate_random srd_index p_srd del s =
     (if cur_validate_random \<noteq> g_validate_random s then s
      else let s1 = s\<lparr>g_validated_srd_num := Suc (g_validated_srd_num s)\<rparr>
           in if del then snd (add_srd_to_deleted_buffer srd_index (s1\<lparr>g_del_srd_v := g_del_srd_v s1 @ [p_srd]\<rparr>))
              else s1)"

definition validate_srd_real ::
  "env \<Rightarrow> (nat \<Rightarrow> 'a validator_scheme \<Rightarrow> 'a validator_scheme) \<Rightarrow> 'a validator_scheme \<Rightarrow> 'a validator_scheme option" where
  "validate_srd_real e other s =
     (case srd_task_take s of
        None \<Rightarrow> None
      | Some (cur, srd_index, p_srd, s1) \<Rightarrow>
          (case srd_task_check e srd_index p_srd (other 0 s1) of
             None \<Rightarrow> None
           | Some (del, s2) \<Rightarrow> Some (srd_task_finish cur srd_index p_srd del (other 1 s2))))"

section \<open>Files\<close>

definition file_candidates :: "env \<Rightarrow> 'a validator_scheme \<Rightarrow> (string \<times> JSON) list" where
  "file_candidates e s =
     fold (\<lambda>i m. om_put (file_cid (sealed_files s ! i)) (sealed_files s ! i) m)
       (chosen_indexes e MEANINGFUL_VALIDATE_MIN_NUM (length (sealed_files s)) (length (ocalls s))) []"

definition file_round_start :: "env \<Rightarrow> 'a validator_scheme \<Rightarrow> 'a validator_scheme" where
  "file_round_start e s =
     (let s1 = s\<lparr>g_validate_files_m := map_insert (file_candidates e s) (g_validate_files_m s), g_validate_files_m_iter := 0,
                 g_validate_random := rand_u32 e (length (ocalls s) + length (sealed_files s)), g_validated_files_num := 0\<rparr>
      in if g_validate_files_m s1 \<noteq> [] \<and> \<not> ipfs_online e (ocalls s1) then set_report_file_flag False s1 else s1)"

definition file_recall_failed :: "'a validator_scheme \<Rightarrow> 'a validator_scheme option" where
  "file_recall_failed s =
     (if g_validate_files_m_iter s < length (g_validate_files_m s)
      then Some (s\<lparr>g_validate_files_m_iter := Suc (g_validate_files_m_iter s),
                   g_validated_files_num := Suc (g_validated_files_num s),
                   g_changed_files_v := g_changed_files_v s @ [fst (g_validate_files_m s ! g_validate_files_m_iter s)]\<rparr>)
      else None)"

fun file_recall_loop ::
  "env \<Rightarrow> (nat \<Rightarrow> 'a validator_scheme \<Rightarrow> 'a validator_scheme) \<Rightarrow> nat list \<Rightarrow> 'a validator_scheme \<Rightarrow>
   'a validator_scheme option" where
  "file_recall_loop e other [] s = Some s"
| "file_recall_loop e other (i # is) s =
     (if recall_ok e i then file_recall_loop e other is (other i s)
      else case file_recall_failed s of None \<Rightarrow> None | Some s' \<Rightarrow> file_recall_loop e other is s')"

text \<open>
  The change of one entry. The old status comes from the entry that was validated; the entry of the
  table only has to have the same block number.
\<close>

definition flipped :: "char \<Rightarrow> (char \<times> string \<times> string) option" where
  "flipped old_status =
     (if old_status = FILE_STATUS_VALID then Some (FILE_STATUS_LOST, FILE_TYPE_VALID, FILE_TYPE_LOST)
      else if old_status = FILE_STATUS_LOST then Some (FILE_STATUS_VALID, FILE_TYPE_LOST, FILE_TYPE_VALID)
      else None)"

definition flip_entry :: "JSON \<Rightarrow> char \<Rightarrow> JSON \<Rightarrow> JSON" where
  "flip_entry file new_status f =
     jset (set_status CURRENT_STATUS new_status f) FILE_LOST_INDEX
       (if new_status = FILE_STATUS_LOST then jget file FILE_LOST_INDEX else JIntegral (- 1))"

definition change_file :: "env \<Rightarrow> string \<Rightarrow> 'a validator_scheme \<Rightarrow> 'a validator_scheme" where
  "change_file e key s =
     (let file = map_get (g_validate_files_m s) key;
          cid = file_cid file;
          val = map_get (g_validate_files_m s) cid;
          (dup, index) = is_file_dup_nolock cid s
      in if \<not> dup then s
         else if ToInt (jget (sealed_files s ! index) CHAIN_BLOCK_NUMBER) \<noteq> ToInt (jget val CHAIN_BLOCK_NUMBER) then s
         else case flipped (file_status file CURRENT_STATUS) of
                None \<Rightarrow> s
              | Some (new_status, old_type, new_type) \<Rightarrow>
                  emit (Ocall_change_file_type cid old_type new_type)
                    (set_file_spec (file_status file CURRENT_STATUS) (- file_size val)
                      (set_file_spec new_status (file_size val)
                        (upd_file index (flip_entry file new_status) s))))"

definition file_round_end :: "env \<Rightarrow> 'a validator_scheme \<Rightarrow> 'a validator_scheme" where
  "file_round_end e s =
     (fold (change_file e) (g_changed_files_v s) (s\<lparr>g_changed_files_v := []\<rparr>))\<lparr>g_validate_files_m := []\<rparr>"

definition validate_meaningful_file ::
  "env \<Rightarrow> (nat \<Rightarrow> 'a validator_scheme \<Rightarrow> 'a validator_scheme) \<Rightarrow> 'a validator_scheme \<Rightarrow> 'a validator_scheme option" where
  "validate_meaningful_file e other s =
     (if upgrade_status s = ENC_UPGRADE_STATUS_SUCCESS then Some (deal_deleted_file s)
      else let s1 = file_round_start e s
           in case file_recall_loop e other [0..<length (g_validate_files_m s1)] s1 of
                None \<Rightarrow> None
              | Some s2 \<Rightarrow>
                  (let (in_time, s3) = wait_loop (\<lambda>s. length (g_validate_files_m s) \<le> g_validated_files_num s) other 0 s2;
                       s4 = (if in_time then report_add_validated_file_proof s3 else s3)
                   in Some (deal_deleted_file (file_round_end e s4))))"

text \<open>
  The blocks that a task checks: one at random, and for a lost file the block that was lost, unless it
  has index 0.
\<close>

definition check_blocks :: "env \<Rightarrow> nat \<Rightarrow> JSON \<Rightarrow> nat list" where
  "check_blocks e k file =
     (let block_num = unat (of_int (ToInt (jget file FILE_BLOCK_NUM)) :: size_t);
          idx = fold (\<lambda>i. insort_insert (unat (rand_u32 e (k + i)) mod block_num))
                  [0..<min MEANINGFUL_VALIDATE_MIN_BLOCK_NUM block_num] [];
          lost_index = ToInt (jget file FILE_LOST_INDEX)
      in if file_status file CURRENT_STATUS = FILE_STATUS_LOST \<and> lost_index > 0 \<and>
            lost_index < ToInt (jget file FILE_BLOCK_NUM)
         then insort_insert (nat lost_index) idx else idx)"

text \<open>
  The check of one block; the pair is whether a block was lost and the entry, in which the index of the
  lost block is written when the status is valid.
\<close>

definition check_block ::
  "env \<Rightarrow> bytes \<Rightarrow> string \<Rightarrow> bool \<Rightarrow> bool \<Rightarrow> nat \<Rightarrow> bool \<times> JSON \<Rightarrow> (bool \<times> JSON) option" where
  "check_block e tree root_cid valid in_deleted i p =
     (if length tree < (i + 1) * FILE_ITEM_LENGTH then None
      else let p_leaf = take FILE_ITEM_LENGTH (drop (i * FILE_ITEM_LENGTH) tree);
               item = hexstring_safe e p_leaf;
               path = take (UUID_LENGTH * 2) item @ root_cid @ ''/'' @ take (HASH_LENGTH * 2) (drop (UUID_LENGTH * 2) item);
               (st, data) = storage_get_file e path;
               bad = Some (True, if valid then jset (snd p) FILE_LOST_INDEX (JIntegral (int i)) else snd p)
           in if length item < UUID_LENGTH * 2 then None
              else if st \<noteq> SPACEX_SUCCESS then (if in_deleted then Some p else bad)
              else if drop UUID_LENGTH p_leaf \<noteq> sgx_sha256_msg e data then bad
              else Some p)"

fun check_block_loop ::
  "env \<Rightarrow> bytes \<Rightarrow> string \<Rightarrow> bool \<Rightarrow> bool \<Rightarrow> nat list \<Rightarrow> bool \<times> JSON \<Rightarrow> (bool \<times> JSON) option" where
  "check_block_loop e tree root_cid valid in_deleted [] p = Some p"
| "check_block_loop e tree root_cid valid in_deleted (i # is) p =
     (case check_block e tree root_cid valid in_deleted i p of
        None \<Rightarrow> None
      | Some p' \<Rightarrow> check_block_loop e tree root_cid valid in_deleted is p')"

record file_verdict =
  fv_changed :: bool
  fv_deleted :: bool
  fv_file :: JSON

definition file_task_check :: "env \<Rightarrow> JSON \<Rightarrow> 'a validator_scheme \<Rightarrow> file_verdict option" where
  "file_task_check e file s =
     (let status = file_status file CURRENT_STATUS;
          root_cid = file_cid file;
          (st, tree) = persist_get_unsafe e root_cid s;
          in_deleted = is_in_deleted_file_buffer root_cid s
      in if status = FILE_STATUS_PENDING \<or> status = FILE_STATUS_DELETED
         then Some \<lparr>fv_changed = False, fv_deleted = False, fv_file = file\<rparr>
         else if st \<noteq> SPACEX_SUCCESS
         then Some \<lparr>fv_changed = False, fv_deleted = \<not> in_deleted, fv_file = file\<rparr>
         else case ToBytes (jget file FILE_HASH) of
                None \<Rightarrow> None
              | Some root \<Rightarrow>
                  if take HASH_LENGTH root \<noteq> sgx_sha256_msg e tree
                  then Some \<lparr>fv_changed = False, fv_deleted = False, fv_file = file\<rparr>
                  else map_option (\<lambda>(lost, file').
                           \<lparr>fv_changed = (\<not> lost \<and> status = FILE_STATUS_LOST) \<or> (lost \<and> status = FILE_STATUS_VALID),
                            fv_deleted = False, fv_file = file'\<rparr>)
                         (check_block_loop e tree root_cid (status = FILE_STATUS_VALID) in_deleted
                            (check_blocks e (length (ocalls s)) file) (False, file)))"

definition file_task_take :: "'a validator_scheme \<Rightarrow> (32 word \<times> string \<times> JSON \<times> 'a validator_scheme) option" where
  "file_task_take s =
     (if g_validate_files_m_iter s < length (g_validate_files_m s)
      then let (cid, file) = g_validate_files_m s ! g_validate_files_m_iter s
           in Some (g_validate_random s, cid, file, s\<lparr>g_validate_files_m_iter := Suc (g_validate_files_m_iter s)\<rparr>)
      else None)"

definition file_task_finish ::
  "env \<Rightarrow> float_lib \<Rightarrow> (nat \<Rightarrow> 'a validator_scheme \<Rightarrow> 'a validator_scheme) \<Rightarrow> 32 word \<Rightarrow> string \<Rightarrow> file_verdict \<Rightarrow>
   'a validator_scheme \<Rightarrow> 'a validator_scheme option" where
  "file_task_finish e fl other cur_validate_random cid v s =
     (let s0 = s\<lparr>g_validate_files_m := map (\<lambda>(c, f). (c, if c = cid then fv_file v else f)) (g_validate_files_m s)\<rparr>
      in if cur_validate_random \<noteq> g_validate_random s then Some s0
         else let s1 = s0\<lparr>g_validated_files_num := Suc (g_validated_files_num s0)\<rparr>;
                  s2 = (if fv_changed v then s1\<lparr>g_changed_files_v := g_changed_files_v s1 @ [cid]\<rparr> else s1)
              in if fv_deleted v then map_option snd (storage_delete_file e fl other cid s2) else Some s2)"

definition validate_meaningful_file_real ::
  "env \<Rightarrow> float_lib \<Rightarrow> (nat \<Rightarrow> 'a validator_scheme \<Rightarrow> 'a validator_scheme) \<Rightarrow> 'a validator_scheme \<Rightarrow>
   'a validator_scheme option" where
  "validate_meaningful_file_real e fl other s =
     (if g_validate_files_m s = [] then Some s
      else case file_task_take s of
             None \<Rightarrow> None
           | Some (cur, cid, file, s1) \<Rightarrow>
               (let s2 = other 4 s1
                in case file_task_check e file s2 of
                     None \<Rightarrow> None
                   | Some v \<Rightarrow> file_task_finish e fl other cur cid v (other 5 s2)))"

section \<open>The rounds keep the invariant\<close>

text \<open>The globals of the validation are no part of the invariant.\<close>

lemma st_inv_globals [simp]:
  "st_inv (s\<lparr>g_del_srd_v := a\<rparr>) = st_inv s" "st_inv (s\<lparr>g_validate_srd_m := b\<rparr>) = st_inv s"
  "st_inv (s\<lparr>g_validate_srd_m_iter := c\<rparr>) = st_inv s" "st_inv (s\<lparr>g_validated_srd_num := d\<rparr>) = st_inv s"
  "st_inv (s\<lparr>g_changed_files_v := f\<rparr>) = st_inv s" "st_inv (s\<lparr>g_validate_files_m := g\<rparr>) = st_inv s"
  "st_inv (s\<lparr>g_validate_files_m_iter := h\<rparr>) = st_inv s" "st_inv (s\<lparr>g_validated_files_num := i\<rparr>) = st_inv s"
  "st_inv (s\<lparr>g_validate_random := j\<rparr>) = st_inv s"
  by (simp_all add: st_inv_def wl_inv_def files_sorted_def)

lemma st_inv_srd_mark: "st_inv s \<Longrightarrow> st_inv (snd (add_srd_to_deleted_buffer i s))"
  by (simp add: st_inv_def wl_inv_buffers) (simp add: add_srd_to_deleted_buffer_def)

lemma pending_deal:
  "pending_files_um (deal_deleted_srd e s) = pending_files_um s" "pending_files_um (deal_deleted_file s) = pending_files_um s"
proof -
  have "pending_files_um (snd (delete_srd_loop e is n t)) = pending_files_um t" for "is" n and t :: "'a workload_scheme"
    by (induction "is" arbitrary: n t) (simp_all add: Let_def set_srd_info_def)
  then have "pending_files_um (snd (delete_srd_meta e is t)) = pending_files_um t" for "is" and t :: "'a workload_scheme"
    by (simp add: delete_srd_meta_def send_srd_info_def get_srd_info_def emit_def Let_def split: prod.split) (metis snd_conv)
  then show "pending_files_um (deal_deleted_srd e s) = pending_files_um s" by (simp add: deal_deleted_srd_def)
  have "pending_files_um (snd (deal_deleted_loop cs l t)) = pending_files_um t" for cs l and t :: "'a workload_scheme"
    by (induction cs arbitrary: l t) (simp_all add: Let_def split: prod.split)
  then show "pending_files_um (deal_deleted_file s) = pending_files_um s"
    by (simp add: deal_deleted_file_def Let_def split: prod.split) (metis (no_types, lifting) snd_conv workload.select_convs(5) workload.surjective workload.update_convs(20))
qed

lemma st_inv_deal: "st_inv s \<Longrightarrow> st_inv (deal_deleted_srd e s)" "st_inv s \<Longrightarrow> st_inv (deal_deleted_file s)"
  using deal_deleted_srd_inv deal_deleted_file_spec(1) by (auto simp: st_inv_def pending_deal)

lemma st_inv_proofs:
  "st_inv s \<Longrightarrow> st_inv (report_add_validated_srd_proof s)" "st_inv s \<Longrightarrow> st_inv (report_add_validated_file_proof s)"
  "st_inv s \<Longrightarrow> st_inv (set_report_file_flag b s)"
  by (simp_all add: st_inv_def wl_inv_counters wl_inv_fields)
     (simp_all add: report_add_validated_srd_proof_def report_add_validated_file_proof_def set_report_file_flag_def)

lemma st_inv_wait:
  "keeps_inv other \<Longrightarrow> st_inv s \<Longrightarrow> st_inv (snd (wait_loop finished other n s))"
proof (induction finished other n s rule: wait_loop.induct)
  case (1 finished other n s)
  let ?s' = "other n (emit (Ocall_usleep (int wait_interval)) s)"
  have s': "st_inv ?s'" using keeps_invD [OF 1(2) st_inv_emit [OF 1(3)]] .
  show ?case
  proof (cases "finished s \<or> wait_timeout < n + wait_interval")
    case True
    then show ?thesis using s' 1(3) by (subst wait_loop.simps) (auto simp: Let_def)
  next
    case False
    then have "st_inv (snd (wait_loop finished other (n + wait_interval) ?s'))" using s' 1(2) by (intro 1(1)) auto
    then show ?thesis using False by (subst wait_loop.simps) (simp add: Let_def)
  qed
qed

lemma st_inv_srd_recall: "keeps_inv other \<Longrightarrow> st_inv s \<Longrightarrow> srd_recall_loop e other is s = Some s' \<Longrightarrow> st_inv s'"
proof (induction "is" arbitrary: s)
  case (Cons i "is")
  have f: "st_inv t" if "srd_recall_failed s = Some t" for t
    using that Cons.prems(2) by (auto simp: srd_recall_failed_def intro!: st_inv_srd_mark split: if_splits prod.splits)
  show ?case
    using Cons.prems Cons.IH f keeps_invD [OF Cons.prems(1,2)] by (auto split: if_splits option.splits)
qed simp

lemma st_inv_srd_round_end: "st_inv s \<Longrightarrow> st_inv (srd_round_end e s)"
  by (simp add: srd_round_end_def st_inv_fold st_inv_boundary)

lemma st_inv_validate_srd:
  assumes "keeps_inv other" and "st_inv s" and "validate_srd e other s = Some s'"
  shows "st_inv s'"
proof -
  have s1: "st_inv (srd_round_start e s)" using assms(2) by (simp add: srd_round_start_def)
  have w: "wait_loop f other 0 t = (b, u) \<Longrightarrow> st_inv t \<Longrightarrow> st_inv u" for f t b u
    using st_inv_wait [OF assms(1), of t f 0] by simp
  show ?thesis
    using assms(2,3) st_inv_srd_recall [OF assms(1) s1]
    by (auto simp: validate_srd_def Let_def split: if_splits option.splits prod.splits
        intro!: st_inv_deal st_inv_srd_round_end st_inv_proofs dest!: w)
qed

lemma st_inv_validate_srd_real:
  assumes "keeps_inv other" and "st_inv s" and "validate_srd_real e other s = Some s'"
  shows "st_inv s'"
proof -
  have t: "srd_task_take s = Some (cur, i, p, s1) \<Longrightarrow> st_inv s1" for cur i p s1
    using assms(2) by (auto simp: srd_task_take_def split: if_splits prod.splits)
  have l: "st_inv t \<Longrightarrow> st_inv (snd (srd_check_leaf e x i k h t))" for x i k h t
    by (auto simp: srd_check_leaf_def st_inv_srd_mark split: prod.split)
  have c: "srd_task_check e i p t = Some (d, u) \<Longrightarrow> st_inv t \<Longrightarrow> st_inv u" for i p t d u
    using l [of t] st_inv_srd_mark [of t i]
    by (auto simp: srd_task_check_def Let_def split: if_splits prod.splits) (metis snd_conv)+
  have f: "st_inv t \<Longrightarrow> st_inv (srd_task_finish cur i p d t)" for cur i p d t
    by (auto simp: srd_task_finish_def Let_def intro!: st_inv_srd_mark)
  show ?thesis
    using assms(3) by (auto simp: validate_srd_real_def split: option.splits
        intro!: f keeps_invD [OF assms(1)] dest!: t c)
qed

text \<open>The same for the files.\<close>

lemma st_inv_upd_file:
  assumes "st_inv s" and "pos < length (sealed_files s)" and "\<And>f. file_wf f \<Longrightarrow> file_wf (g f) \<and> file_cid (g f) = file_cid f"
  shows "st_inv (upd_file pos g s)"
  using assms by (intro st_inv_wl [OF assms(1)] wl_inv_upd_file) (auto simp: st_inv_def frame_simps)

lemma file_jset:
  assumes "file_wf f" and "k \<noteq> FILE_STATUS" and "k \<noteq> FILE_CID"
  shows "file_wf (jset f k v)" and "file_cid (jset f k v) = file_cid f" and "file_status (jset f k v) i = file_status f i"
    and "k \<noteq> FILE_SIZE \<Longrightarrow> file_size (jset f k v) = file_size f"
  using assms file_wf_type [OF assms(1)] by (simp_all add: file_wf_def file_cid_def file_status_def file_size_def)

lemma flip_entry_wf:
  assumes "file_wf f" and "c \<in> set status_chars"
  shows "file_wf (flip_entry file c f)" and "file_cid (flip_entry file c f) = file_cid f"
    and "file_status (flip_entry file c f) i = (if i = CURRENT_STATUS then c else file_status f i)"
    and "file_size (flip_entry file c f) = file_size f"
proof -
  have "file_wf (set_status CURRENT_STATUS c f)" using assms by (intro inv_intros) auto
  note j = file_jset [OF this, of FILE_LOST_INDEX]
  show "file_wf (flip_entry file c f)" and "file_cid (flip_entry file c f) = file_cid f"
    and "file_status (flip_entry file c f) i = (if i = CURRENT_STATUS then c else file_status f i)"
    and "file_size (flip_entry file c f) = file_size f"
    using assms by (simp_all add: flip_entry_def j file_simps)
qed

lemma flipped_cases:
  "flipped c = Some (d, x, y) \<Longrightarrow>
   (c = FILE_STATUS_VALID \<and> d = FILE_STATUS_LOST \<or> c = FILE_STATUS_LOST \<and> d = FILE_STATUS_VALID) \<and> d \<in> set status_chars"
  by (auto simp: flipped_def status_chars_def split: if_splits)

lemma st_inv_change_file:
  assumes "st_inv s"
  shows "st_inv (change_file e key s)"
proof -
  have srt: "files_sorted s" using assms by (rule st_inv_sorted)
  let ?file = "map_get (g_validate_files_m s) key"
  have "st_inv (upd_file (lower_bound c (cids s)) (flip_entry ?file d) s)"
    if "c \<in> set (cids s)" "d \<in> set status_chars" for c d
    using assms dup_position(1) [OF srt that(1)] flip_entry_wf [OF _ that(2)] by (intro st_inv_upd_file) auto
  then show ?thesis
    using assms flipped_cases
    by (auto simp: change_file_def is_file_dup_sorted [OF srt] Let_def split: option.split prod.split
        intro!: st_inv_emit st_inv_spec)
qed

lemma st_inv_file_round_end: "st_inv s \<Longrightarrow> st_inv (file_round_end e s)"
  by (simp add: file_round_end_def st_inv_fold st_inv_change_file)

lemma st_inv_file_recall: "keeps_inv other \<Longrightarrow> st_inv s \<Longrightarrow> file_recall_loop e other is s = Some s' \<Longrightarrow> st_inv s'"
proof (induction "is" arbitrary: s)
  case (Cons i "is")
  have f: "st_inv t" if "file_recall_failed s = Some t" for t
    using that Cons.prems(2) by (auto simp: file_recall_failed_def split: if_splits)
  show ?case
    using Cons.prems Cons.IH f keeps_invD [OF Cons.prems(1,2)] by (auto split: if_splits option.splits)
qed simp

lemma st_inv_validate_file:
  assumes "keeps_inv other" and "st_inv s" and "validate_meaningful_file e other s = Some s'"
  shows "st_inv s'"
proof -
  have s1: "st_inv (file_round_start e s)" using assms(2) by (simp add: file_round_start_def Let_def st_inv_proofs)
  have w: "wait_loop f other 0 t = (b, u) \<Longrightarrow> st_inv t \<Longrightarrow> st_inv u" for f t b u
    using st_inv_wait [OF assms(1), of t f 0] by simp
  show ?thesis
    using assms(2,3) st_inv_file_recall [OF assms(1) s1]
    by (auto simp: validate_meaningful_file_def Let_def split: if_splits option.splits prod.splits
        intro!: st_inv_deal st_inv_file_round_end st_inv_proofs dest!: w)
qed

lemma st_inv_delete:
  assumes "st_inv s" and "keeps_inv other" and "storage_delete_file e fl other cid s = Some (ret, s')"
  shows "st_inv s'"
proof (cases "files_of s cid")
  case None
  with assms(1,3) show ?thesis by (simp add: delete_file_none(1))
next
  case (Some f)
  then have "file_wf f" "file_cid f = cid" using files_of_cid [OF Some] assms(1) by (auto simp: st_inv_def wl_inv_def list_all_iff)
  then have "json_plain cid" using file_wf_cid by blast
  then show ?thesis using st_inv_delete_file [OF assms(1) _ assms(2,3)] by blast
qed

lemma st_inv_validate_file_real:
  assumes "keeps_inv other" and "st_inv s" and "validate_meaningful_file_real e fl other s = Some s'"
  shows "st_inv s'"
proof -
  have t: "file_task_take s = Some (cur, i, p, s1) \<Longrightarrow> st_inv s1" for cur i p s1
    using assms(2) by (auto simp: file_task_take_def split: if_splits prod.splits)
  have f: "st_inv t \<Longrightarrow> file_task_finish e fl other cur c v t = Some u \<Longrightarrow> st_inv u" for cur c v t u
    by (auto simp: file_task_finish_def Let_def split: if_splits dest!: st_inv_delete [OF _ assms(1), rotated])
  note k = keeps_invD [OF assms(1)]
  show ?thesis
    using assms(2,3) by (auto simp: validate_meaningful_file_real_def Let_def split: if_splits option.splits
        intro: f [OF k [OF k [OF t]]])
qed

section \<open>What a round over the random data does\<close>

text \<open>
  The disk does not hold what the item stands for: the list of hashes or the chosen block cannot be read
  or has another hash. \<open>k\<close> numbers the random choice of the block.
\<close>

definition srd_block :: "env \<Rightarrow> nat \<Rightarrow> nat" where
  "srd_block e k = unat (rand_u32 e k) mod SRD_RAND_DATA_NUM"

definition srd_bad :: "env \<Rightarrow> nat \<Rightarrow> bytes \<Rightarrow> bool" where
  "srd_bad e k h =
     (let hex = hexstring_safe e (take SRD_LENGTH h);
          (st, m_hashs) = srd_get_file e (get_m_hashs_file_path hex);
          hash = take HASH_LENGTH (drop (srd_block e k * HASH_LENGTH) m_hashs);
          (st', leaf) = srd_get_file e (get_leaf_path hex (srd_block e k) hash)
      in st \<noteq> SPACEX_SUCCESS \<or> take HASH_LENGTH (drop (UUID_LENGTH + LAYER_LENGTH) h) \<noteq> sgx_sha256_msg e m_hashs \<or>
         st' \<noteq> SPACEX_SUCCESS \<or> sgx_sha256_msg e leaf \<noteq> hash)"

text \<open>A readable list of hashes that has the hash of the item is complete, as \<open>srd_increase\<close> writes it.\<close>

definition m_hashs_full :: "env \<Rightarrow> bytes \<Rightarrow> bool" where
  "m_hashs_full e h \<longleftrightarrow>
     (\<forall>d. srd_get_file e (get_m_hashs_file_path (hexstring_safe e (take SRD_LENGTH h))) = (SPACEX_SUCCESS, d) \<and>
        take HASH_LENGTH (drop (UUID_LENGTH + LAYER_LENGTH) h) = sgx_sha256_msg e d \<longrightarrow>
      SRD_RAND_DATA_NUM * HASH_LENGTH \<le> length d)"

lemma mark_srd:
  "add_srd_to_deleted_buffer i s = (i \<notin> set (srd_del_idx_s s), s\<lparr>srd_del_idx_s := insort_insert i (srd_del_idx_s s)\<rparr>)"
  by (simp add: add_srd_to_deleted_buffer_def)

lemma srd_task_check_spec:
  assumes "heap_ok e" and "length h = SRD_LENGTH" and "m_hashs_full e h"
  obtains d xs where "srd_task_check e i h s = Some (d, s\<lparr>srd_del_idx_s := xs\<rparr>)"
    and "(if d then insert i (set xs) else set xs) = (if srd_bad e (length (ocalls s)) h then insert i (set (srd_del_idx_s s)) else set (srd_del_idx_s s))"
proof -
  let ?hex = "hexstring_safe e (take SRD_LENGTH h)"
  obtain st m where f: "srd_get_file e (get_m_hashs_file_path ?hex) = (st, m)" by fastforce
  have hex: "\<not> length ?hex < UUID_LENGTH * 2 + LAYER_LENGTH * 2"
    using assms(1,2) by (simp add: hexstring_plain length_plain_hex)
  let ?i = "srd_block e (length (ocalls s))"
  let ?hash = "take HASH_LENGTH (drop (?i * HASH_LENGTH) m)"
  obtain st' leaf where g: "srd_get_file e (get_leaf_path ?hex ?i ?hash) = (st', leaf)" by fastforce
  have bad: "srd_bad e (length (ocalls s)) h \<longleftrightarrow> st \<noteq> SPACEX_SUCCESS \<or>
      take HASH_LENGTH (drop (UUID_LENGTH + LAYER_LENGTH) h) \<noteq> sgx_sha256_msg e m \<or> st' \<noteq> SPACEX_SUCCESS \<or>
      sgx_sha256_msg e leaf \<noteq> ?hash"
    using f g by (simp add: srd_bad_def Let_def)
  have len: "\<not> length m < (?i + 1) * HASH_LENGTH"
    if "st = SPACEX_SUCCESS" "take HASH_LENGTH (drop (UUID_LENGTH + LAYER_LENGTH) h) = sgx_sha256_msg e m"
  proof -
    have "SRD_RAND_DATA_NUM * HASH_LENGTH \<le> length m" using assms(3) f that by (simp add: m_hashs_full_def)
    moreover have "?i < SRD_RAND_DATA_NUM" by (simp add: srd_block_def)
    ultimately show ?thesis by simp
  qed
  have heap: "enc_malloc e (length m)" using assms(1) by (simp add: heap_ok_def)
  let ?mark = "(i \<notin> set (srd_del_idx_s s), s\<lparr>srd_del_idx_s := insort_insert i (srd_del_idx_s s)\<rparr>)"
  have "srd_task_check e i h s = Some
      (if st \<noteq> SPACEX_SUCCESS then ?mark
       else if take HASH_LENGTH (drop (UUID_LENGTH + LAYER_LENGTH) h) \<noteq> sgx_sha256_msg e m then (True, s)
       else if st' \<noteq> SPACEX_SUCCESS then ?mark
       else (sgx_sha256_msg e leaf \<noteq> ?hash, s))"
    using f g hex heap len unfolding srd_task_check_def srd_check_leaf_def mark_srd srd_block_def [symmetric] Let_def
    by simp
  then have c: "srd_task_check e i h s =
      Some (if st \<noteq> SPACEX_SUCCESS \<or> take HASH_LENGTH (drop (UUID_LENGTH + LAYER_LENGTH) h) = sgx_sha256_msg e m \<and> st' \<noteq> SPACEX_SUCCESS
            then ?mark else (srd_bad e (length (ocalls s)) h, s))"
    using bad by simp
  show ?thesis
  proof (cases "st \<noteq> SPACEX_SUCCESS \<or> take HASH_LENGTH (drop (UUID_LENGTH + LAYER_LENGTH) h) = sgx_sha256_msg e m \<and> st' \<noteq> SPACEX_SUCCESS")
    case True
    then have "srd_bad e (length (ocalls s)) h" using bad by blast
    with True c show ?thesis
      by (intro that [of "i \<notin> set (srd_del_idx_s s)" "insort_insert i (srd_del_idx_s s)"]) (auto simp: set_insort_insert)
  next
    case False
    with c show ?thesis by (intro that [of "srd_bad e (length (ocalls s)) h" "srd_del_idx_s s"]) auto
  qed
qed

text \<open>One task, when no other thread interferes.\<close>

definition run_srd_task :: "env \<Rightarrow> nat \<Rightarrow> 'a validator_scheme \<Rightarrow> 'a validator_scheme" where
  "run_srd_task e i s = (case validate_srd_real e alone s of Some s' \<Rightarrow> s' | None \<Rightarrow> s)"

text \<open>What the tasks leave alone.\<close>

definition srd_task_frame :: "'a validator_scheme \<Rightarrow> 'a validator_scheme \<Rightarrow> bool" where
  "srd_task_frame s s' \<longleftrightarrow>
     s' = s\<lparr>srd_del_idx_s := srd_del_idx_s s', g_del_srd_v := g_del_srd_v s',
            g_validate_srd_m_iter := g_validate_srd_m_iter s', g_validated_srd_num := g_validated_srd_num s'\<rparr>"

lemma srd_task_frame_trans: "srd_task_frame s t \<Longrightarrow> srd_task_frame t u \<Longrightarrow> srd_task_frame s u"
  unfolding srd_task_frame_def by (cases s; cases t; cases u) simp

lemma srd_task_frameD:
  assumes "srd_task_frame s s'"
  shows "srd_hashs s' = srd_hashs s" and "g_validate_srd_m s' = g_validate_srd_m s" and "ocalls s' = ocalls s"
    and "upgrade_status s' = upgrade_status s" and "validated_srd_proof s' = validated_srd_proof s"
  using assms unfolding srd_task_frame_def by (cases s; cases s'; simp)+

lemma run_srd_task_spec:
  assumes heap: "heap_ok e" and it: "g_validate_srd_m_iter s < length (g_validate_srd_m s)"
    and x: "g_validate_srd_m s ! g_validate_srd_m_iter s = (i, h)" and h: "length h = SRD_LENGTH" "m_hashs_full e h"
  shows "srd_task_frame s (run_srd_task e k s)"
    and "g_validate_srd_m_iter (run_srd_task e k s) = Suc (g_validate_srd_m_iter s)"
    and "g_validated_srd_num (run_srd_task e k s) = Suc (g_validated_srd_num s)"
    and "set (srd_del_idx_s (run_srd_task e k s)) =
      (if srd_bad e (length (ocalls s)) h then insert i (set (srd_del_idx_s s)) else set (srd_del_idx_s s))"
proof -
  let ?s1 = "s\<lparr>g_validate_srd_m_iter := Suc (g_validate_srd_m_iter s)\<rparr>"
  obtain d xs where c: "srd_task_check e i h ?s1 = Some (d, ?s1\<lparr>srd_del_idx_s := xs\<rparr>)"
    and d0: "(if d then insert i (set xs) else set xs) =
      (if srd_bad e (length (ocalls ?s1)) h then insert i (set (srd_del_idx_s ?s1)) else set (srd_del_idx_s ?s1))"
    by (rule srd_task_check_spec [OF heap h])
  have d: "(if d then insert i (set xs) else set xs) =
      (if srd_bad e (length (ocalls s)) h then insert i (set (srd_del_idx_s s)) else set (srd_del_idx_s s))"
    using d0 by simp
  have r: "run_srd_task e k s = srd_task_finish (g_validate_random s) i h d (?s1\<lparr>srd_del_idx_s := xs\<rparr>)"
    using it x c by (simp add: run_srd_task_def validate_srd_real_def srd_task_take_def)
  show "srd_task_frame s (run_srd_task e k s)"
    and "g_validate_srd_m_iter (run_srd_task e k s) = Suc (g_validate_srd_m_iter s)"
    and "g_validated_srd_num (run_srd_task e k s) = Suc (g_validated_srd_num s)"
    and "set (srd_del_idx_s (run_srd_task e k s)) =
      (if srd_bad e (length (ocalls s)) h then insert i (set (srd_del_idx_s s)) else set (srd_del_idx_s s))"
    using d by (simp_all add: r srd_task_finish_def srd_task_frame_def mark_srd set_insort_insert Let_def split: if_splits)
qed

text \<open>All tasks of a round, one after the other.\<close>

lemma run_srd_tasks:
  assumes "heap_ok e" and "\<forall>i. recall_ok e i"
    and "\<forall>(i, h) \<in> set (g_validate_srd_m s). length h = SRD_LENGTH \<and> m_hashs_full e h"
    and "g_validate_srd_m_iter s + length is = length (g_validate_srd_m s)"
  obtains s' where "srd_recall_loop e (run_srd_task e) is s = Some s'" and "srd_task_frame s s'"
    and "g_validated_srd_num s' = g_validated_srd_num s + length is"
    and "set (srd_del_idx_s s') = set (srd_del_idx_s s) \<union>
      {i. \<exists>h. (i, h) \<in> set (drop (g_validate_srd_m_iter s) (g_validate_srd_m s)) \<and> srd_bad e (length (ocalls s)) h}"
  using assms(3,4)
proof (induction "is" arbitrary: s thesis)
  case Nil
  show ?case by (rule Nil(1) [of s]) (use Nil(3) in \<open>simp_all add: srd_task_frame_def\<close>)
next
  case (Cons k "is")
  let ?it = "g_validate_srd_m_iter s" and ?m = "g_validate_srd_m s" and ?t = "run_srd_task e k s"
  have it: "?it < length ?m" using Cons.prems(3) by simp
  obtain i h where x: "?m ! ?it = (i, h)" by fastforce
  then have "(i, h) \<in> set ?m" using it by (metis nth_mem)
  then have h: "length h = SRD_LENGTH" "m_hashs_full e h" using Cons.prems(2) by auto
  note t = run_srd_task_spec [OF assms(1) it x h, of k] and fr = srd_task_frameD [OF run_srd_task_spec(1) [OF assms(1) it x h, of k]]
  have "\<forall>(i, h) \<in> set (g_validate_srd_m ?t). length h = SRD_LENGTH \<and> m_hashs_full e h"
    "g_validate_srd_m_iter ?t + length is = length (g_validate_srd_m ?t)"
    using Cons.prems(2,3) fr t(2) by simp_all
  from Cons.IH [OF _ this] obtain s' where s': "srd_recall_loop e (run_srd_task e) is ?t = Some s'" "srd_task_frame ?t s'"
    "g_validated_srd_num s' = g_validated_srd_num ?t + length is"
    "set (srd_del_idx_s s') = set (srd_del_idx_s ?t) \<union>
      {i. \<exists>h. (i, h) \<in> set (drop (g_validate_srd_m_iter ?t) (g_validate_srd_m ?t)) \<and> srd_bad e (length (ocalls ?t)) h}"
    by blast
  have dr: "drop ?it ?m = (i, h) # drop (Suc ?it) ?m" using it x by (metis Cons_nth_drop_Suc)
  show ?case
  proof (rule Cons.prems(1) [of s'])
    show "srd_recall_loop e (run_srd_task e) (k # is) s = Some s'" using s'(1) assms(2) by simp
    show "srd_task_frame s s'" using t(1) s'(2) by (rule srd_task_frame_trans)
    show "g_validated_srd_num s' = g_validated_srd_num s + length (k # is)" using s'(3) t(3) by simp
    show "set (srd_del_idx_s s') = set (srd_del_idx_s s) \<union>
      {i. \<exists>h. (i, h) \<in> set (drop ?it ?m) \<and> srd_bad e (length (ocalls s)) h}"
      unfolding s'(4) t(4) t(2) fr(2,3) dr by auto
  qed
qed

lemma srd_candidates_spec:
  "om_sorted (srd_candidates e s)"
  "set (srd_candidates e s) =
     (\<lambda>i. (i, srd_hashs s ! i)) ` set (chosen_indexes e SRD_VALIDATE_MIN_NUM (length (srd_hashs s)) (length (ocalls s)))"
proof -
  have "om_sorted (fold (\<lambda>i m. om_put i (f i) m) xs m) \<and>
      set (fold (\<lambda>i m. om_put i (f i) m) xs m) = (\<lambda>i. (i, f i)) ` set xs \<union> set m"
    if "om_sorted m" "\<forall>p \<in> set m. snd p = f (fst p)" for f :: "nat \<Rightarrow> bytes" and xs m
    using that
  proof (induction xs arbitrary: m)
    case (Cons x xs)
    have g: "set m = {(k, v). map_of m k = Some v}" if "om_sorted m" for m :: "(nat \<times> bytes) list"
      using that by (intro set_map_of_compr) (auto simp: om_sorted_def strict_sorted_iff)
    have "set (om_put x (f x) m) = insert (x, f x) (set m)"
      using g [OF om_sorted_put [OF Cons.prems(1)], of x "f x"] g [OF Cons.prems(1)] Cons.prems(2) by (auto split: if_splits)
    with Cons.IH [of "om_put x (f x) m"] Cons.prems show ?case by (auto simp: om_sorted_put)
  qed simp
  from this [of "[]" "\<lambda>i. srd_hashs s ! i"] show "om_sorted (srd_candidates e s)"
    "set (srd_candidates e s) =
     (\<lambda>i. (i, srd_hashs s ! i)) ` set (chosen_indexes e SRD_VALIDATE_MIN_NUM (length (srd_hashs s)) (length (ocalls s)))"
    by (simp_all add: srd_candidates_def om_sorted_def)
qed

lemma map_insert_Nil:
  assumes "om_sorted m"
  shows "map_insert m [] = m"
proof -
  have "fold (\<lambda>(k, v) m. if map_of m k = None then om_put k v m else m) xs m = m @ xs"
    if "om_sorted (m @ xs)" for xs m :: "('a::linorder \<times> 'b) list"
    using that
  proof (induction xs arbitrary: m)
    case (Cons p xs)
    obtain k v where p: "p = (k, v)" by fastforce
    have lt: "\<forall>q \<in> set m. fst q < k" using Cons.prems by (auto simp: om_sorted_def sorted_wrt_append p)
    then have "map_of m k = None" by (auto simp: map_of_eq_None_iff)
    moreover have "om_put k v m = m @ [(k, v)]" using lt by (induction m) auto
    ultimately show ?case using Cons by (simp add: p)
  qed simp
  from this [of "[]" m] assms show ?thesis by (simp add: map_insert_def)
qed

lemma chosen_indexes_less: "i \<in> set (chosen_indexes e k n j) \<Longrightarrow> i < n"
  by (cases "n = 0") (auto simp: chosen_indexes_def Let_def validate_num_def split: if_splits)

lemma keeps_inv_run_srd: "keeps_inv (run_srd_task e)"
  using st_inv_validate_srd_real [OF keeps_inv_alone] by (auto simp: keeps_inv_def run_srd_task_def split: option.split)

lemma srd_proof_more:
  fixes s t :: "'a workload_scheme"
  assumes "boundary.more t = boundary.more s"
  shows "srd_hashs t = srd_hashs s" "validated_srd_proof t = validated_srd_proof s"
  using assms by (cases s; cases t; simp)+

lemma srd_round_end_frame:
  "srd_hashs (srd_round_end e s) = srd_hashs s" "srd_del_idx_s (srd_round_end e s) = srd_del_idx_s s"
  "validated_srd_proof (srd_round_end e s) = validated_srd_proof s"
proof -
  define t where "t = fold (\<lambda>h s. snd (ocall_do e (Ocall_delete_folder_or_file (hexstring_safe e (take SRD_LENGTH h)) STORE_TYPE_SRD) s))
    (g_del_srd_v s) s"
  have "boundary.more (fold (\<lambda>h s. snd (ocall_do e (f h) s)) hs s) = boundary.more s" for f and hs :: "bytes list"
    by (induction hs arbitrary: s) (simp_all add: frame_simps)
  then have m: "boundary.more t = boundary.more s" by (simp add: t_def)
  have r: "srd_round_end e s = t\<lparr>g_del_srd_v := [], g_validate_srd_m := []\<rparr>" by (simp add: srd_round_end_def t_def)
  show "srd_hashs (srd_round_end e s) = srd_hashs s" "srd_del_idx_s (srd_round_end e s) = srd_del_idx_s s"
    "validated_srd_proof (srd_round_end e s) = validated_srd_proof s"
    using srd_proof_more [OF m] srd_del_idx_more [OF m] by (simp_all add: r)
qed

lemma proof_deal: "validated_srd_proof (deal_deleted_srd e s) = validated_srd_proof s"
proof -
  have "validated_srd_proof (snd (delete_srd_loop e is n t)) = validated_srd_proof t" for "is" n and t :: "'a workload_scheme"
    by (induction "is" arbitrary: n t) (simp_all add: Let_def set_srd_info_def)
  then have "validated_srd_proof (snd (delete_srd_meta e is t)) = validated_srd_proof t" for "is" and t :: "'a workload_scheme"
    by (simp add: delete_srd_meta_def send_srd_info_def get_srd_info_def emit_def Let_def split: prod.split) (metis snd_conv)
  then show ?thesis by (simp add: deal_deleted_srd_def)
qed

text \<open>
  A round in which the tasks run undisturbed removes exactly the chosen items that the disk does not hold
  (and those that were already marked), and counts as a validation.
\<close>

lemma validate_srd_round:
  assumes inv: "st_inv s" and env: "heap_ok e" "\<forall>i. recall_ok e i"
    and full: "\<forall>h \<in> set (srd_hashs s). m_hashs_full e h"
    and up: "upgrade_status s \<noteq> ENC_UPGRADE_STATUS_SUCCESS" and m0: "g_validate_srd_m s = []"
  defines "C \<equiv> set (chosen_indexes e SRD_VALIDATE_MIN_NUM (length (srd_hashs s)) (length (ocalls s)))"
  obtains s' where "validate_srd e (run_srd_task e) s = Some s'"
    and "srd_hashs s' = nths (srd_hashs s)
      {i. i \<notin> set (srd_del_idx_s s) \<and> \<not> (i \<in> C \<and> srd_bad e (length (ocalls s)) (srd_hashs s ! i))}"
    and "validated_srd_proof s' = min VALIDATE_PROOF_MAX_NUM (validated_srd_proof s + 1)"
proof -
  let ?s1 = "srd_round_start e s" and ?k = "length (ocalls s)"
  have m1: "g_validate_srd_m ?s1 = srd_candidates e s"
    using map_insert_Nil [OF srd_candidates_spec(1)] m0 by (simp add: srd_round_start_def)
  have "\<forall>(i, h) \<in> set (srd_candidates e s). length h = SRD_LENGTH \<and> m_hashs_full e h"
    unfolding srd_candidates_spec(2)
    using inv full chosen_indexes_less by (fastforce simp: st_inv_def wl_inv_def list_all_iff)
  then obtain s2 where lp: "srd_recall_loop e (run_srd_task e) [0..<length (g_validate_srd_m ?s1)] ?s1 = Some s2"
    and fr: "srd_task_frame ?s1 s2" and num: "g_validated_srd_num s2 = g_validated_srd_num ?s1 + length [0..<length (g_validate_srd_m ?s1)]"
    and del: "set (srd_del_idx_s s2) = set (srd_del_idx_s ?s1) \<union>
      {i. \<exists>h. (i, h) \<in> set (drop (g_validate_srd_m_iter ?s1) (g_validate_srd_m ?s1)) \<and> srd_bad e (length (ocalls ?s1)) h}"
    using run_srd_tasks [OF env, of ?s1 "[0..<length (g_validate_srd_m ?s1)]"] m1 by (auto simp: srd_round_start_def)
  note f2 = srd_task_frameD [OF fr] and start = srd_round_start_def
  let ?s4 = "report_add_validated_srd_proof s2"
  let ?s5 = "srd_round_end e ?s4"
  have fin: "length (g_validate_srd_m s2) \<le> g_validated_srd_num s2" using num f2(2) by simp
  have run: "validate_srd e (run_srd_task e) s = Some (deal_deleted_srd e ?s5)"
    using up lp fin by (simp add: validate_srd_def Let_def wait_loop.simps [of _ _ 0])
  have "st_inv s2" using lp by (rule st_inv_srd_recall [OF keeps_inv_run_srd, rotated]) (use inv in \<open>simp add: start\<close>)
  then have sorted: "sorted_wrt (<) (srd_del_idx_s ?s5)"
    by (simp add: srd_round_end_frame report_add_validated_srd_proof_def st_inv_def wl_inv_def)
  have del5: "set (srd_del_idx_s ?s5) = set (srd_del_idx_s s) \<union> {i \<in> C. srd_bad e ?k (srd_hashs s ! i)}"
    using del m1 srd_candidates_spec(2) [of e s]
    by (auto simp: srd_round_end_frame report_add_validated_srd_proof_def C_def start)
  have h5: "srd_hashs ?s5 = srd_hashs s" using f2(1) by (simp add: srd_round_end_frame report_add_validated_srd_proof_def start)
  show ?thesis
  proof (rule that [OF run])
    show "srd_hashs (deal_deleted_srd e ?s5) = nths (srd_hashs s)
        {i. i \<notin> set (srd_del_idx_s s) \<and> \<not> (i \<in> C \<and> srd_bad e ?k (srd_hashs s ! i))}"
      using delete_srd_meta_hashs(1) [OF sorted, of e "?s5\<lparr>srd_del_idx_s := []\<rparr>"] h5 del5
      by (simp add: deal_deleted_srd_def) (intro arg_cong2 [where f = nths], auto)
    show "validated_srd_proof (deal_deleted_srd e ?s5) = min VALIDATE_PROOF_MAX_NUM (validated_srd_proof s + 1)"
      using f2(5) by (simp add: proof_deal srd_round_end_frame report_add_validated_srd_proof_def start)
  qed
qed

section \<open>What a round over the files does\<close>

text \<open>The block with index \<open>i\<close> is on disk and has the hash of the tree.\<close>

definition block_ok :: "env \<Rightarrow> bytes \<Rightarrow> string \<Rightarrow> nat \<Rightarrow> bool" where
  "block_ok e tree root_cid i =
     (let p_leaf = take FILE_ITEM_LENGTH (drop (i * FILE_ITEM_LENGTH) tree);
          item = hexstring_safe e p_leaf;
          (st, data) = storage_get_file e
            (take (UUID_LENGTH * 2) item @ root_cid @ ''/'' @ take (HASH_LENGTH * 2) (drop (UUID_LENGTH * 2) item))
      in st = SPACEX_SUCCESS \<and> drop UUID_LENGTH p_leaf = sgx_sha256_msg e data)"

lemma check_block_spec:
  assumes "heap_ok e" and "(i + 1) * FILE_ITEM_LENGTH \<le> length tree"
  shows "check_block e tree cid valid False i p =
    Some (if block_ok e tree cid i then p
          else (True, if valid then jset (snd p) FILE_LOST_INDEX (JIntegral (int i)) else snd p))"
proof -
  have "length (take FILE_ITEM_LENGTH (drop (i * FILE_ITEM_LENGTH) tree)) = FILE_ITEM_LENGTH" using assms(2) by simp
  then have "\<not> length (hexstring_safe e (take FILE_ITEM_LENGTH (drop (i * FILE_ITEM_LENGTH) tree))) < UUID_LENGTH * 2"
    using assms(1) by (simp add: hexstring_plain length_plain_hex)
  then show ?thesis using assms(2) by (auto simp: check_block_def block_ok_def Let_def split: prod.split)
qed

lemma check_block_loop_spec:
  assumes "heap_ok e" and "\<forall>i \<in> set is. (i + 1) * FILE_ITEM_LENGTH \<le> length tree"
  shows "\<exists>file'. check_block_loop e tree cid valid False is p =
    Some (fst p \<or> (\<exists>i \<in> set is. \<not> block_ok e tree cid i), file') \<and> (\<not> valid \<longrightarrow> file' = snd p)"
  using assms(2)
proof (induction "is" arbitrary: p)
  case (Cons i "is")
  let ?p' = "if block_ok e tree cid i then p else (True, if valid then jset (snd p) FILE_LOST_INDEX (JIntegral (int i)) else snd p)"
  from Cons.IH [of ?p'] Cons.prems show ?case by (auto simp: check_block_spec [OF assms(1)] split: if_splits)
qed (simp add: prod_eq_iff)

text \<open>
  The verdict on a file whose tree is intact: a valid file changes when a checked block is bad, a lost one
  when all checked blocks are good.
\<close>

lemma file_task_check_spec:
  assumes "heap_ok e" and "\<forall>i \<in> set (check_blocks e (length (ocalls s)) file). (i + 1) * FILE_ITEM_LENGTH \<le> length tree"
    and st: "file_status file CURRENT_STATUS \<in> {FILE_STATUS_VALID, FILE_STATUS_LOST}"
    and tree: "persist_get_unsafe e (file_cid file) s = (SPACEX_SUCCESS, tree)" "\<not> is_in_deleted_file_buffer (file_cid file) s"
    and root: "jget file FILE_HASH = JHash r" "take HASH_LENGTH r = sgx_sha256_msg e tree"
  shows "\<exists>v. file_task_check e file s = Some v \<and> \<not> fv_deleted v \<and>
    (fv_changed v \<longleftrightarrow>
      (file_status file CURRENT_STATUS = FILE_STATUS_VALID \<longleftrightarrow>
       (\<exists>i \<in> set (check_blocks e (length (ocalls s)) file). \<not> block_ok e tree (file_cid file) i)))"
proof -
  let ?valid = "file_status file CURRENT_STATUS = FILE_STATUS_VALID"
  obtain file' where "check_block_loop e tree (file_cid file) ?valid False (check_blocks e (length (ocalls s)) file) (False, file) =
      Some (\<exists>i \<in> set (check_blocks e (length (ocalls s)) file). \<not> block_ok e tree (file_cid file) i, file')"
    using check_block_loop_spec [OF assms(1,2), of "file_cid file" ?valid "(False, file)"] by auto
  with assms show ?thesis by (auto simp: file_task_check_def ToBytes_def Let_def)
qed

text \<open>A file whose tree does not have the root hash any more keeps its status.\<close>

lemma file_tree_mismatch:
  assumes "persist_get_unsafe e (file_cid file) s = (SPACEX_SUCCESS, tree)"
    and "jget file FILE_HASH = JHash r" and "take HASH_LENGTH r \<noteq> sgx_sha256_msg e tree"
  shows "file_task_check e file s = Some \<lparr>fv_changed = False, fv_deleted = False, fv_file = file\<rparr>"
  using assms by (simp add: file_task_check_def ToBytes_def Let_def)

text \<open>The index of the lost block is checked again, unless it is 0.\<close>

lemma check_blocks_lost:
  assumes "file_status file CURRENT_STATUS = FILE_STATUS_LOST" and "ToInt (jget file FILE_BLOCK_NUM) = int n"
    and "n < 2 ^ 63" and "ToInt (jget file FILE_LOST_INDEX) = int l" and "l < n"
  shows "set (check_blocks e k file) = (if l = 0 then {unat (rand_u32 e k) mod n} else {l, unat (rand_u32 e k) mod n})"
proof -
  have "unat (of_int (int n) :: size_t) = n" using assms(3) by (simp add: unat_of_nat)
  with assms show ?thesis by (auto simp: check_blocks_def Let_def set_insort_insert insort_insert_key_def)
qed

text \<open>
  Changing an entry after the round: only the block number is compared with the table, so a status that
  another thread wrote in between is overwritten.
\<close>

lemma change_file_spec:
  assumes inv: "st_inv s" and key: "map_of (g_validate_files_m s) cid = Some file" "file_cid file = cid"
    and f: "files_of s cid = Some f" "ToInt (jget f CHAIN_BLOCK_NUMBER) = ToInt (jget file CHAIN_BLOCK_NUMBER)"
    and new: "flipped (file_status file CURRENT_STATUS) = Some (d, x, y)"
  shows "files_of (change_file e cid s) = (files_of s)(cid \<mapsto> flip_entry file d f)"
proof -
  have srt: "files_sorted s" using inv by (rule st_inv_sorted)
  have mem: "cid \<in> set (cids s)" using f(1) dom_files_of [of s cid] by auto
  let ?p = "lower_bound cid (cids s)"
  note p = dup_position [OF srt mem] and fp = files_of_position [OF srt mem]
  have wf: "file_wf (sealed_files s ! ?p)" using inv p(1) by (auto simp: st_inv_def intro: wl_inv_file_at)
  have "change_file e cid s = emit (Ocall_change_file_type cid x y)
      (set_file_spec (file_status file CURRENT_STATUS) (- file_size file)
        (set_file_spec d (file_size file) (upd_file ?p (flip_entry file d) s)))"
    using key f new fp mem by (simp add: change_file_def map_get_def is_file_dup_sorted [OF srt])
  then have "files_of (change_file e cid s) = files_of (upd_file ?p (flip_entry file d) s)"
    by (simp add: files_of_frames)
  also have "\<dots> = (files_of s)(cid \<mapsto> flip_entry file d f)"
    using files_update(2) [OF srt p(1), of "flip_entry file d (sealed_files s ! ?p)"] flip_entry_wf(2) [OF wf, of d "file"]
      flipped_cases [OF new] p(2) fp f(1)
    by (simp add: upd_file_def)
  finally show ?thesis .
qed

end
