(* ===== verification/Enclave.thy ===== *)
theory Enclave
  imports Upgrade Validator
begin

text \<open>
  The entry points of the enclave, \<open>src/src/enclave/Enclave.cpp\<close>: which calls an upgrade stops, the main
  loop, the chunked transfer into the enclave (\<open>ecall_safe_store2\<close>, with the sender \<open>safe_ecall_store2\<close> of
  \<open>src/src/app/utils/Common.cpp\<close>), and the transitions of the whole enclave.

  A call that can be undefined has an option as its result. \<open>other\<close> is again what the other threads do
  between the accesses of a call to shared state.
\<close>

section \<open>State\<close>

record enclave = validator +
  g_ecall_buffer_pool :: "nat \<Rightarrow> bytes option"

section \<open>Random data and reports\<close>

definition ecall_srd_increase :: "env \<Rightarrow> string \<Rightarrow> 'a srd_scheme \<Rightarrow> spacex_status \<times> 'a srd_scheme" where
  "ecall_srd_increase e uuid s =
     (if upgrade_status s \<noteq> ENC_UPGRADE_STATUS_NONE then (SPACEX_UPGRADE_IS_UPGRADING, s) else srd_increase e uuid s)"

definition ecall_srd_decrease :: "env \<Rightarrow> nat \<Rightarrow> 'a workload_scheme \<Rightarrow> nat \<times> 'a workload_scheme" where
  "ecall_srd_decrease e change s =
     (if upgrade_status s \<noteq> ENC_UPGRADE_STATUS_NONE then (0, s) else srd_decrease e change s)"

definition ecall_change_srd_task :: "env \<Rightarrow> int \<Rightarrow> int \<Rightarrow> 'a srd_scheme \<Rightarrow> spacex_status \<times> int \<times> 'a srd_scheme" where
  "ecall_change_srd_task e change real_change s =
     (if upgrade_status s \<noteq> ENC_UPGRADE_STATUS_NONE then (SPACEX_UPGRADE_IS_UPGRADING, real_change, s)
      else change_srd_task e change s)"

definition ecall_srd_remove_space :: "env \<Rightarrow> float_lib \<Rightarrow> string \<Rightarrow> 'a workload_scheme \<Rightarrow> 'a workload_scheme option" where
  "ecall_srd_remove_space e fl data s =
     (if upgrade_status s \<noteq> ENC_UPGRADE_STATUS_NONE then Some s else srd_remove_space e fl data s)"

definition ecall_stop_all :: "env \<Rightarrow> 'a workload_scheme \<Rightarrow> 'a workload_scheme" where
  "ecall_stop_all e s = snd (id_store_metadata e (set_upgrade_status ENC_UPGRADE_STATUS_SUCCESS s))"

definition ecall_gen_and_upload_work_report ::
  "env \<Rightarrow> string \<Rightarrow> size_t \<Rightarrow> 'a workload_scheme \<Rightarrow> spacex_status \<times> 'a workload_scheme" where
  "ecall_gen_and_upload_work_report e block_hash block_height s =
     (if upgrade_status s \<noteq> ENC_UPGRADE_STATUS_NONE then (SPACEX_UPGRADE_IS_UPGRADING, s)
      else gen_and_upload_work_report e block_hash block_height 0 False s)"

section \<open>Files\<close>

definition ecall_seal_file_start ::
  "(nat \<Rightarrow> 'a workload_scheme \<Rightarrow> 'a workload_scheme) \<Rightarrow> string \<Rightarrow> string \<Rightarrow> 'a workload_scheme \<Rightarrow> spacex_status \<times> 'a workload_scheme" where
  "ecall_seal_file_start other root root_b58 s =
     (if upgrade_status s \<noteq> ENC_UPGRADE_STATUS_NONE then (SPACEX_UPGRADE_IS_UPGRADING, s)
      else storage_seal_file_start other root root_b58 s)"

definition ecall_delete_file ::
  "env \<Rightarrow> float_lib \<Rightarrow> (nat \<Rightarrow> 'a workload_scheme \<Rightarrow> 'a workload_scheme) \<Rightarrow> string \<Rightarrow> 'a workload_scheme \<Rightarrow>
   (spacex_status \<times> 'a workload_scheme) option" where
  "ecall_delete_file e fl other cid s =
     (if upgrade_status s \<noteq> ENC_UPGRADE_STATUS_NONE then Some (SPACEX_UPGRADE_IS_UPGRADING, s)
      else storage_delete_file e fl other cid s)"

section \<open>Upgrade\<close>

definition ecall_enable_upgrade :: "size_t \<Rightarrow> 'a workload_scheme \<Rightarrow> spacex_status \<times> 'a workload_scheme" where
  "ecall_enable_upgrade block_height s =
     (let st = can_report_work block_height s
      in (st, if st = SPACEX_SUCCESS then set_upgrade_status ENC_UPGRADE_STATUS_PROCESS s else s))"

definition ecall_disable_upgrade :: "'a workload_scheme \<Rightarrow> 'a workload_scheme" where
  "ecall_disable_upgrade s = set_upgrade_status ENC_UPGRADE_STATUS_NONE s"

definition ecall_restore_from_upgrade ::
  "env \<Rightarrow> float_lib \<Rightarrow> bytes \<Rightarrow> 'a workload_scheme \<Rightarrow> (spacex_status \<times> 'a workload_scheme) option" where
  "ecall_restore_from_upgrade e fl data s =
     (if upgrade_status s \<noteq> ENC_UPGRADE_STATUS_NONE then Some (SPACEX_UPGRADE_IS_UPGRADING, s)
      else id_restore_from_upgrade e fl data s)"

section \<open>The main loop\<close>

text \<open>One round up to the wait, then the wait of ten seconds; the first component tells whether to stop.\<close>

definition main_loop_body ::
  "env \<Rightarrow> (nat \<Rightarrow> 'a validator_scheme \<Rightarrow> 'a validator_scheme) \<Rightarrow>
   (int \<Rightarrow> 'a validator_scheme \<Rightarrow> spacex_status \<times> 'a validator_scheme) \<Rightarrow> 'a validator_scheme \<Rightarrow> 'a validator_scheme option" where
  "main_loop_body e other oc s =
     (case validate_meaningful_file e other (snd (id_store_metadata e s)) of
        None \<Rightarrow> None
      | Some s1 \<Rightarrow>
          (case validate_srd e other s1 of
             None \<Rightarrow> None
           | Some s2 \<Rightarrow> Some (srd_change e oc s2)))"

fun main_loop_wait ::
  "(nat \<Rightarrow> 'a validator_scheme \<Rightarrow> 'a validator_scheme) \<Rightarrow> nat list \<Rightarrow> 'a validator_scheme \<Rightarrow> bool \<times> 'a validator_scheme" where
  "main_loop_wait other [] s = (False, s)"
| "main_loop_wait other (i # is) s =
     (if upgrade_status s = ENC_UPGRADE_STATUS_SUCCESS then (True, s)
      else main_loop_wait other is (other i (emit (Ocall_usleep 1000000) s)))"

abbreviation (input) MAIN_LOOP_WAIT_TIME :: nat where "MAIN_LOOP_WAIT_TIME \<equiv> 10"

text \<open>\<open>ecall_main_loop\<close> for at most \<open>n\<close> rounds; \<open>other\<close> and the call of \<open>srd_change\<close> may differ in each.\<close>

fun ecall_main_loop ::
  "env \<Rightarrow> (nat \<Rightarrow> nat \<Rightarrow> 'a validator_scheme \<Rightarrow> 'a validator_scheme) \<Rightarrow>
   (nat \<Rightarrow> int \<Rightarrow> 'a validator_scheme \<Rightarrow> spacex_status \<times> 'a validator_scheme) \<Rightarrow> nat \<Rightarrow> 'a validator_scheme \<Rightarrow>
   (bool \<times> 'a validator_scheme) option" where
  "ecall_main_loop e other oc 0 s = Some (upgrade_status s = ENC_UPGRADE_STATUS_SUCCESS, s)"
| "ecall_main_loop e other oc (Suc n) s =
     (if upgrade_status s = ENC_UPGRADE_STATUS_SUCCESS then Some (True, s)
      else case main_loop_body e (other n) (oc n) s of
             None \<Rightarrow> None
           | Some s' \<Rightarrow>
               (let (stop, s'') = main_loop_wait (other n) [0..<MAIN_LOOP_WAIT_TIME] s'
                in if stop then Some (True, s'') else ecall_main_loop e other oc n s''))"

section \<open>Large data into the enclave\<close>

text \<open>
  \<open>ecall_safe_store2\<close>; its table of functions has one entry, the restoring from upgrade data. The part is
  copied without a check of the room that is left: writing past the buffer is undefined.
\<close>

definition ecall_safe_store2 ::
  "env \<Rightarrow> float_lib \<Rightarrow> bytes \<Rightarrow> nat \<Rightarrow> nat \<Rightarrow> nat \<Rightarrow> 'a enclave_scheme \<Rightarrow> (spacex_status \<times> 'a enclave_scheme) option" where
  "ecall_safe_store2 e fl part total_size offset key s =
     (let deliver = (\<lambda>b s. if length b < total_size then None
                           else map_option (\<lambda>(st, s'). (st, s'\<lparr>g_ecall_buffer_pool := (g_ecall_buffer_pool s')(key := None)\<rparr>))
                                  (ecall_restore_from_upgrade e fl (take total_size b) s))
      in if offset < total_size then
           (case (case g_ecall_buffer_pool s key of
                    Some b \<Rightarrow> Some b
                  | None \<Rightarrow> if malloc e 0 total_size then Some (replicate total_size 0) else None) of
              None \<Rightarrow> Some (SPACEX_MALLOC_FAILED, s\<lparr>g_ecall_buffer_pool := (g_ecall_buffer_pool s)(key := None)\<rparr>)
            | Some b \<Rightarrow>
                if length b < offset + length part then None
                else let b' = buf_write offset part b;
                         s' = s\<lparr>g_ecall_buffer_pool := (g_ecall_buffer_pool s)(key \<mapsto> b')\<rparr>
                     in if offset + length part < total_size then Some (SPACEX_SUCCESS, s') else deliver b' s')
         else (case g_ecall_buffer_pool s key of None \<Rightarrow> None | Some b \<Rightarrow> deliver b s))"

function ecall_store2_loop ::
  "env \<Rightarrow> float_lib \<Rightarrow> nat \<Rightarrow> bytes \<Rightarrow> nat \<Rightarrow> nat \<Rightarrow> 'a enclave_scheme \<Rightarrow> (spacex_status \<times> 'a enclave_scheme) option" where
  "ecall_store2_loop e fl n data key offset s =
     (if n = 0 \<or> length data \<le> offset then Some (SPACEX_SUCCESS, s)
      else let part = chunk_at n offset data
           in case ecall_safe_store2 e fl part (length data) offset key s of
                None \<Rightarrow> None
              | Some (st, s') \<Rightarrow>
                  if st \<noteq> SPACEX_SUCCESS then Some (st, s')
                  else ecall_store2_loop e fl n data key (offset + length part) s')"
  by pat_completeness auto
termination
  by (relation "measure (\<lambda>(_, _, _, data, _, offset, _). length data - offset)") (auto simp: length_chunk_at)

declare ecall_store2_loop.simps [simp del]

definition safe_ecall_store2 ::
  "env \<Rightarrow> float_lib \<Rightarrow> bytes \<Rightarrow> nat \<Rightarrow> 'a enclave_scheme \<Rightarrow> (spacex_status \<times> 'a enclave_scheme) option" where
  "safe_ecall_store2 e fl data buffer_key s =
     ecall_store2_loop e fl BOUNDARY_SIZE_THRESHOLD data buffer_key 0 s"

section \<open>The transfer into the enclave meets the contract of a chunked transfer\<close>

definition store2_in_send :: "env \<Rightarrow> float_lib \<Rightarrow> nat \<Rightarrow> nat \<Rightarrow> bytes \<Rightarrow> nat \<Rightarrow> 'a enclave_scheme option \<Rightarrow>
  spacex_status \<times> 'a enclave_scheme option" where
  "store2_in_send e fl tot key part off c =
     (case Option.bind c (ecall_safe_store2 e fl part tot off key) of
        None \<Rightarrow> (SPACEX_UNEXPECTED_ERROR, None)
      | Some (st, s) \<Rightarrow> (st, Some s))"

definition store2_in_loop :: "env \<Rightarrow> float_lib \<Rightarrow> bytes \<Rightarrow> nat \<Rightarrow> nat \<Rightarrow> 'a enclave_scheme option \<Rightarrow>
  spacex_status \<times> 'a enclave_scheme option" where
  "store2_in_loop e fl data key off c =
     (case Option.bind c (ecall_store2_loop e fl BOUNDARY_SIZE_THRESHOLD data key off) of
        None \<Rightarrow> (if length data \<le> off then SPACEX_SUCCESS else SPACEX_UNEXPECTED_ERROR, None)
      | Some (st, s) \<Rightarrow> (st, Some s))"

definition pool_put :: "nat \<Rightarrow> bytes option \<Rightarrow> 'a enclave_scheme \<Rightarrow> 'a enclave_scheme" where
  "pool_put key b s = s\<lparr>g_ecall_buffer_pool := (g_ecall_buffer_pool s)(key := b)\<rparr>"

text \<open>What the last part leads to.\<close>

definition store2_in_result :: "env \<Rightarrow> float_lib \<Rightarrow> bytes \<Rightarrow> nat \<Rightarrow> 'a enclave_scheme \<Rightarrow> (spacex_status \<times> 'a enclave_scheme) option" where
  "store2_in_result e fl data key s =
     map_option (\<lambda>(st, s'). (st, pool_put key None s')) (ecall_restore_from_upgrade e fl data (pool_put key (Some data) s))"

definition store2_in_holds :: "env \<Rightarrow> bytes \<Rightarrow> nat \<Rightarrow> 'a enclave_scheme \<Rightarrow> nat \<Rightarrow> 'a enclave_scheme option \<Rightarrow> bool" where
  "store2_in_holds e data key s0 off c \<longleftrightarrow>
     g_ecall_buffer_pool s0 key = None \<and> malloc e 0 (length data) \<and>
     (off = 0 \<and> c = Some s0 \<or>
      (\<exists>b. c = Some (pool_put key (Some b) s0) \<and> length b = length data \<and> take off b = take off data))"

lemma store2_in_step:
  assumes "store2_in_holds e data key s0 off c" and "off < length data"
  defines "part \<equiv> chunk_at BOUNDARY_SIZE_THRESHOLD off data"
  obtains b where "length b = length data" and "take (off + length part) b = take (off + length part) data"
    and "store2_in_send e fl (length data) key part off c =
      (if off + length part < length data then (SPACEX_SUCCESS, Some (pool_put key (Some b) s0))
       else case store2_in_result e fl b key s0 of None \<Rightarrow> (SPACEX_UNEXPECTED_ERROR, None) | Some (st, s) \<Rightarrow> (st, Some s))"
proof -
  obtain b0 s where c: "c = Some s" and s: "\<forall>b. pool_put key (Some b) s = pool_put key (Some b) s0"
    and b0: "length b0 = length data" "take off b0 = take off data"
    and buf: "(case g_ecall_buffer_pool s key of
                 Some b \<Rightarrow> Some b
               | None \<Rightarrow> if malloc e 0 (length data) then Some (replicate (length data) 0) else None) = Some b0"
    using assms(1) by (fastforce simp: store2_in_holds_def pool_put_def)
  let ?b = "buf_write off part b0"
  note w = chunk_write [OF assms(2) b0, of BOUNDARY_SIZE_THRESHOLD, folded part_def]
  have room: "\<not> length b0 < off + length part" using assms(2) b0 by (simp add: part_def length_chunk_at)
  have "ecall_safe_store2 e fl part (length data) off key s =
      (if off + length part < length data then Some (SPACEX_SUCCESS, pool_put key (Some ?b) s0)
       else store2_in_result e fl ?b key s0)"
    unfolding ecall_safe_store2_def Let_def buf option.case
    using assms(2) room w(2) s [rule_format, of ?b]
    by (simp add: store2_in_result_def pool_put_def)
  then show ?thesis
    using c by (intro that [OF w(2,1)]) (simp add: store2_in_send_def)
qed

interpretation instore: chunked data BOUNDARY_SIZE_THRESHOLD "store2_in_send e fl (length data) key" "store2_in_loop e fl data key" "\<lambda>c. c"
  "store2_in_holds e data key s0" "\<lambda>st r. store2_in_result e fl data key s0 = (case r of None \<Rightarrow> None | Some s \<Rightarrow> Some (st, s))"
  for data e fl key and s0 :: "'a enclave_scheme"
proof
  show "0 < BOUNDARY_SIZE_THRESHOLD" by simp
next
  fix off and c :: "'a enclave_scheme option" assume "length data \<le> off"
  then show "store2_in_loop e fl data key off c = (SPACEX_SUCCESS, c)"
    by (cases c) (simp_all add: store2_in_loop_def ecall_store2_loop.simps [of _ _ _ _ _ off])
next
  fix off and c :: "'a enclave_scheme option" assume off: "off < length data" and "store2_in_holds e data key s0 off c"
  then obtain s where c: "c = Some s" by (auto simp: store2_in_holds_def)
  let ?part = "chunk_at BOUNDARY_SIZE_THRESHOLD off data"
  have lp: "ecall_store2_loop e fl BOUNDARY_SIZE_THRESHOLD data key off s =
      (case ecall_safe_store2 e fl ?part (length data) off key s of
         None \<Rightarrow> None
       | Some (st, s') \<Rightarrow> if st \<noteq> SPACEX_SUCCESS then Some (st, s')
                         else ecall_store2_loop e fl BOUNDARY_SIZE_THRESHOLD data key (off + length ?part) s')"
    using off by (subst ecall_store2_loop.simps) (simp add: Let_def)
  have done1: "length data \<le> k \<Longrightarrow> ecall_store2_loop e fl BOUNDARY_SIZE_THRESHOLD data key k t = Some (SPACEX_SUCCESS, t)"
    for k and t :: "'a enclave_scheme" by (subst ecall_store2_loop.simps) simp
  show "store2_in_loop e fl data key off c =
      (let part = ?part; (st, c') = store2_in_send e fl (length data) key part off c
       in if st \<noteq> SPACEX_SUCCESS then (st, c') else store2_in_loop e fl data key (off + length part) c')"
    using off unfolding c store2_in_loop_def store2_in_send_def Let_def bind.bind_lunit lp
    by (auto simp: done1 split: option.split)
next
  fix off and c :: "'a enclave_scheme option"
  assume h: "store2_in_holds e data key s0 off c" "off + length (chunk_at BOUNDARY_SIZE_THRESHOLD off data) < length data"
  then have "off < length data" by simp
  from store2_in_step [OF h(1) this, of fl] h show "\<exists>c'. store2_in_send e fl (length data) key (chunk_at BOUNDARY_SIZE_THRESHOLD off data) off c = (SPACEX_SUCCESS, c') \<and>
      store2_in_holds e data key s0 (off + length (chunk_at BOUNDARY_SIZE_THRESHOLD off data)) c'"
    by (auto simp: store2_in_holds_def)
next
  fix off and c :: "'a enclave_scheme option"
  assume h: "store2_in_holds e data key s0 off c" "off < length data" "off + length (chunk_at BOUNDARY_SIZE_THRESHOLD off data) = length data"
  from store2_in_step [OF h(1,2), of fl] h(3) obtain b where b: "length b = length data" "take (length data) b = data"
    "store2_in_send e fl (length data) key (chunk_at BOUNDARY_SIZE_THRESHOLD off data) off c =
      (case store2_in_result e fl b key s0 of None \<Rightarrow> (SPACEX_UNEXPECTED_ERROR, None) | Some (st, s) \<Rightarrow> (st, Some s))"
    by (auto split: if_splits)
  then have "b = data" by simp
  with b(3) show "\<exists>st c'. store2_in_send e fl (length data) key (chunk_at BOUNDARY_SIZE_THRESHOLD off data) off c = (st, c') \<and>
      store2_in_result e fl data key s0 = (case c' of None \<Rightarrow> None | Some s \<Rightarrow> Some (st, s))"
    by (cases "store2_in_result e fl data key s0") auto
qed

text \<open>So a transfer in parts is one call with the whole data.\<close>

lemma safe_ecall_store2_delivers:
  assumes "g_ecall_buffer_pool s key = None" and "malloc e 0 (length data)" and "data \<noteq> []"
  shows "safe_ecall_store2 e fl data key s = store2_in_result e fl data key s"
proof -
  have "store2_in_holds e data key s 0 (Some s)" "0 < length data" using assms by (auto simp: store2_in_holds_def)
  from instore.loop_from [OF this, of fl] show ?thesis
    using assms(3) by (auto simp: store2_in_loop_def safe_ecall_store2_def split: option.splits)
qed

text \<open>A part that is longer than the room left for it is written past the buffer.\<close>

lemma ecall_safe_store2_overrun:
  assumes "g_ecall_buffer_pool s key = None" and "malloc e 0 tot" and "off < tot" and "tot < off + length part"
  shows "ecall_safe_store2 e fl part tot off key s = None"
  using assms by (simp add: ecall_safe_store2_def Let_def)

section \<open>Every handler keeps the invariant\<close>

lemma st_inv_more: "st_inv s \<Longrightarrow> boundary.more s' = boundary.more s \<Longrightarrow> st_inv s'"
  using wl_inv_more [of s s'] pending_more [of s' s] by (simp add: st_inv_def)

lemma pending_send [frame_simps]:
  "pending_files_um (send_srd_info e s) = pending_files_um s" "pending_files_um (set_srd_info u n s) = pending_files_um s"
  "pending_files_um (set_srd_remaining_task n s) = pending_files_um s"
  by (simp_all add: send_srd_info_def get_srd_info_def emit_def set_srd_info_def set_srd_remaining_task_def Let_def)

lemma st_inv_srd_json:
  "st_inv s \<Longrightarrow> st_inv (send_srd_info e s)" "st_inv s \<Longrightarrow> st_inv (set_srd_info u n s)"
  "st_inv s \<Longrightarrow> st_inv (set_srd_remaining_task n s)"
  by (simp_all add: st_inv_def frame_simps wl_inv_send_srd_info wl_inv_fields)

lemma st_inv_task [simp]: "st_inv (s\<lparr>g_srd_task := n\<rparr>) = st_inv s" "st_inv (s\<lparr>g_base_rand_buffer := b\<rparr>) = st_inv s"
  by (simp_all add: st_inv_def wl_inv_def files_sorted_def)

lemma st_inv_pool [simp]: "st_inv (s\<lparr>g_ecall_buffer_pool := p\<rparr>) = st_inv s"
  by (simp add: st_inv_def wl_inv_def files_sorted_def)

lemma st_inv_srd_increase:
  assumes "st_inv s" and "rand_length e" and "sha256_length e" and "length uuid = UUID_LENGTH * 2"
  shows "st_inv (snd (srd_increase e uuid s))"
proof -
  have base: "base_rand_buffer e s = Some (b, t) \<Longrightarrow> st_inv t" for b t
    using assms(1) by (auto simp: base_rand_buffer_def Let_def split: option.splits if_splits)
  have od: "ocall_do e c t = (x, t') \<Longrightarrow> st_inv t \<Longrightarrow> st_inv t'" for c x and t t' :: "'a srd_scheme"
    using st_inv_more [of t t'] ocall_do_more [of e c t x t'] by simp
  have fill: "st_inv t'" if f: "srd_fill e uuid u tmp bb t = (x, t')" and "st_inv t" and "length u = UUID_LENGTH" "length tmp = 18"
    for u tmp bb x and t t' :: "'a srd_scheme"
  proof (cases "x = SPACEX_SUCCESS")
    case True
    then obtain t1 d where t1: "boundary.more t1 = boundary.more t" "t' = send_srd_info e (set_srd_info uuid 1 (t1\<lparr>srd_hashs := srd_hashs t1 @
        [take UUID_LENGTH u @ take LAYER_LENGTH tmp @ take HASH_LENGTH (sgx_sha256_msg e d)]\<rparr>))"
      using srd_fill_spec(2) [OF f] by blast
    have "st_inv t1" using that(2) t1(1) by (rule st_inv_more)
    then show ?thesis unfolding t1(2) using that(3,4) assms(3)
      by (intro st_inv_srd_json) (simp add: st_inv_def wl_inv_def files_sorted_def sha256_length_def)
  next
    case False
    with srd_fill_spec(1) [OF f] that(2) show ?thesis by (metis st_inv_more)
  qed
  have u: "hex_string_to_bytes e (take (UUID_LENGTH * 2) uuid) = Some u \<Longrightarrow> length u = UUID_LENGTH" for u
    using hex_string_to_bytes_length assms(4) by fastforce
  have tmp: "length (sgx_read_rand e k 18) = 18" for k using assms(2) by (simp add: rand_length_def)
  show ?thesis
    using assms(1) unfolding srd_increase_def
    by (auto simp: Let_def split: option.split prod.split dest!: base od dest: u intro: fill [OF _ _ u tmp] st_inv_boundary(1) st_inv_boundary(1) [OF fill [OF _ _ u tmp]])
qed

lemma st_inv_srd_decrease: "st_inv s \<Longrightarrow> st_inv (snd (srd_decrease e n s))"
proof -
  assume inv: "st_inv s"
  have d: "st_inv t \<Longrightarrow> st_inv (snd (delete_srd_meta e is t))" for "is" and t :: "'a workload_scheme"
  proof -
    assume t: "st_inv t"
    have "pending_files_um (snd (delete_srd_loop e is n t)) = pending_files_um t" for "is" n and t :: "'a workload_scheme"
      by (induction "is" arbitrary: n t) (simp_all add: Let_def frame_simps)
    then have "pending_files_um (snd (delete_srd_meta e is t)) = pending_files_um t"
      by (simp add: delete_srd_meta_def frame_simps split: prod.split) (metis snd_conv)
    then show ?thesis using t delete_srd_meta_inv by (auto simp: st_inv_def)
  qed
  note f = st_inv_more [OF _ delete_srd_files_more]
  show ?thesis using inv by (simp add: srd_decrease_def Let_def st_inv_deal st_inv_srd_json d f)
qed

lemma st_inv_store_task: "st_inv s \<Longrightarrow> st_inv (store_srd_task e s)"
  unfolding store_srd_task_def by (intro st_inv_srd_json st_inv_boundary)

lemma st_inv_change_srd_task: "st_inv s \<Longrightarrow> st_inv (snd (snd (change_srd_task e n s)))"
  by (simp add: change_srd_task_def Let_def st_inv_srd_json st_inv_store_task split: prod.split)

lemma st_inv_srd_change:
  assumes "st_inv s" and "\<And>k t. st_inv t \<Longrightarrow> st_inv (snd (oc k t))"
  shows "st_inv (srd_change e oc s)"
proof -
  let ?s1 = "s\<lparr>g_srd_task := g_srd_task s - srd_turn (g_srd_task s)\<rparr>"
  obtain st t where oc: "oc (srd_turn (g_srd_task s)) ?s1 = (st, t)" by fastforce
  have "st_inv t" using assms(2) [of ?s1 "srd_turn (g_srd_task s)"] oc assms(1) by simp
  then show ?thesis using assms(1) oc by (simp add: srd_change_def st_inv_srd_json st_inv_store_task)
qed

lemma st_inv_remove_space: "st_inv s \<Longrightarrow> srd_remove_space e fl data s = Some s' \<Longrightarrow> st_inv s'"
proof -
  assume inv: "st_inv s" and run: "srd_remove_space e fl data s = Some s'"
  have m: "st_inv (fold (\<lambda>i s. snd (add_srd_to_deleted_buffer i s)) is s)" for "is"
    using inv by (intro st_inv_fold st_inv_srd_mark)
  show "st_inv s'" using inv run
    by (auto simp: srd_remove_space_def Let_def intro!: st_inv_srd_json st_inv_more [OF _ delete_srd_files_more] m
        split: presult.splits if_splits prod.splits option.splits)
qed

lemmas st_inv_store_metadata = st_inv_more [OF _ id_store_metadata_more]

lemma pending_set [simp]:
  "pending_files_um (set_upgrade_status x s) = pending_files_um s" "pending_files_um (set_key_pair kp s) = pending_files_um s"
  "pending_files_um (set_account_id a s) = pending_files_um s" "pending_files_um (set_mr_enclave m s) = pending_files_um s"
  "pending_files_um (report_defer n s) = pending_files_um s"
  by (simp_all add: set_upgrade_status_def set_key_pair_def set_account_id_def set_mr_enclave_def report_defer_def
      report_reset_validated_proof_def reduce_restart_flag_def set_report_file_flag_def set_report_height_def Let_def)

lemma st_inv_set: "st_inv s \<Longrightarrow> st_inv (set_upgrade_status x s)" "st_inv s \<Longrightarrow> st_inv (set_mr_enclave m s)"
  "st_inv s \<Longrightarrow> st_inv (set_account_id a (set_key_pair kp s))"
  by (simp_all add: st_inv_def wl_inv_fields)

lemma st_inv_handle_report:
  assumes "st_inv s"
  shows "st_inv (handle_report_result e s)"
proof -
  have inv: "wl_inv s" using assms by (simp add: st_inv_def)
  show ?thesis
    using assms handle_report_result_spec(1) [OF inv, of e] pending_more [OF handle_report_result_spec(4) [OF inv, of e]]
    by (simp add: st_inv_def)
qed

lemma st_inv_gen_work_report:
  assumes "st_inv s"
  shows "st_inv (snd (gen_work_report e bh n u s))"
proof -
  obtain st t where b: "report_body e bh n u s = (st, t)" by fastforce
  have "pending_files_um t = pending_files_um s"
    using pending_more [OF report_body_more [of e bh n u s]] b by (simp split: if_splits)
  then have "pending_files_um (snd (gen_work_report e bh n u s)) = pending_files_um s"
    using b by (simp add: gen_work_report_def)
  then show ?thesis using assms wl_inv_gen_work_report [of s e bh n u] by (simp add: st_inv_def)
qed

lemma st_inv_upload:
  assumes "st_inv s"
  shows "st_inv (snd (gen_and_upload_work_report e bh n w u s))"
proof -
  let ?t = "if w \<noteq> 0 then emit (Ocall_usleep (w * 1000000)) s else s"
  obtain st t where g: "gen_work_report e bh n u ?t = (st, t)" by fastforce
  have "st_inv ?t" using assms by (simp add: st_inv_emit)
  from st_inv_gen_work_report [OF this, of e bh n u] have t: "st_inv t" using g by simp
  show ?thesis
    unfolding gen_and_upload_work_report_def Let_def g prod.case ocall_do_def
    using t st_inv_emit [OF t] st_inv_handle_report [OF st_inv_emit [OF t]] by simp
qed

lemma st_inv_store_upgrade:
  assumes "st_inv s"
  shows "st_inv (snd (store_upgrade_data e h bh s))"
proof -
  have st: "st_inv t" if "safe_ocall_store2 e x d s = (st, t)" for x d st t
    using st_inv_more [OF assms, of t] more_persist(1) [of e x d s] that by simp
  show ?thesis
    using assms
    by (auto simp: st_inv_set store_upgrade_data_def Let_def dest: st split: prod.split option.split)
qed

lemma st_inv_gen_upgrade:
  assumes "st_inv s" and "id_gen_upgrade_data e n s = Some (st, s')"
  shows "st_inv s'"
proof -
  have up: "gen_and_upload_work_report e bh h w u s = (st1, t) \<Longrightarrow> st_inv t" for bh h w u st1 t
    using st_inv_upload [OF assms(1), of e bh h w u] by simp
  have su: "store_upgrade_data e h bh t = (st1, t') \<Longrightarrow> st_inv t \<Longrightarrow> st_inv t'" for h bh t st1 t'
    using st_inv_store_upgrade [of t e h bh] by simp
  show ?thesis
    using assms by (auto simp: id_gen_upgrade_data_def Let_def split: if_splits option.splits prod.splits dest!: up dest: su)
qed

lemma st_inv_recover:
  assumes "st_inv s" and "recover_illegal_file e fl data s = Some (st, s')"
  shows "st_inv s'"
proof -
  have one: "pending_files_um (recover_one ty c t) = pending_files_um t" for ty c and t :: "'a workload_scheme"
    by (simp add: recover_one_def Let_def upd_file_def split: prod.split)
  have f: "(\<And>x t. pending_files_um (g x t) = pending_files_um t) \<Longrightarrow> pending_files_um (fold g xs t) = pending_files_um t"
    for g xs and t :: "'a workload_scheme" by (induction xs arbitrary: t) auto
  have "pending_files_um (recover_files j s) = pending_files_um s" for j
    unfolding recover_files_def by (rule f) (simp add: f [OF one])
  then have "pending_files_um s' = pending_files_um s"
    using assms(2) by (auto simp: recover_illegal_file_def split: presult.splits)
  then show ?thesis using assms wl_inv_recover_illegal [of s e fl data st s'] by (simp add: st_inv_def)
qed

section \<open>The transitions of the enclave\<close>

text \<open>
  One handler at a time, for all handlers except the two that restore a workload (which start from an
  empty one). The uuid of a disk has 16 characters and a content identifier no character that JSON
  escapes. \<open>other\<close> is what happens between the accesses of a handler.
\<close>

inductive enclave_step ::
  "env \<Rightarrow> float_lib \<Rightarrow> (nat \<Rightarrow> 'a enclave_scheme \<Rightarrow> 'a enclave_scheme) \<Rightarrow> 'a enclave_scheme \<Rightarrow> 'a enclave_scheme \<Rightarrow> bool"
  for e fl other
where
  step_srd_increase: "length uuid = UUID_LENGTH * 2 \<Longrightarrow> ecall_srd_increase e uuid s = (st, s') \<Longrightarrow> enclave_step e fl other s s'"
| step_srd_decrease: "ecall_srd_decrease e n s = (m, s') \<Longrightarrow> enclave_step e fl other s s'"
| step_change_srd_task: "ecall_change_srd_task e n r s = (st, m, s') \<Longrightarrow> enclave_step e fl other s s'"
| step_srd_remove_space: "ecall_srd_remove_space e fl str s = Some s' \<Longrightarrow> enclave_step e fl other s s'"
| step_stop_all: "enclave_step e fl other s (ecall_stop_all e s)"
| step_report: "ecall_gen_and_upload_work_report e bh n s = (st, s') \<Longrightarrow> enclave_step e fl other s s'"
| step_gen_key_pair: "id_gen_key_pair e account s = (b, s') \<Longrightarrow> enclave_step e fl other s s'"
| step_gen_measurement: "id_gen_sgx_measurement e s = (b, s') \<Longrightarrow> enclave_step e fl other s s'"
| step_seal_start: "json_plain root \<Longrightarrow> ecall_seal_file_start other root b58 s = (st, s') \<Longrightarrow> enclave_step e fl other s s'"
| step_seal: "storage_seal_file e fl other root data is_link s = Some (st, path, s') \<Longrightarrow> enclave_step e fl other s s'"
| step_seal_end: "json_plain root \<Longrightarrow> storage_seal_file_end e fl other root s = Some (st, s') \<Longrightarrow> enclave_step e fl other s s'"
| step_delete: "ecall_delete_file e fl other cid s = Some (st, s') \<Longrightarrow> enclave_step e fl other s s'"
| step_validate_file_task: "validate_meaningful_file_real e fl other s = Some s' \<Longrightarrow> enclave_step e fl other s s'"
| step_validate_srd_task: "validate_srd_real e other s = Some s' \<Longrightarrow> enclave_step e fl other s s'"
| step_enable_upgrade: "ecall_enable_upgrade n s = (st, s') \<Longrightarrow> enclave_step e fl other s s'"
| step_disable_upgrade: "enclave_step e fl other s (ecall_disable_upgrade s)"
| step_gen_upgrade: "id_gen_upgrade_data e n s = Some (st, s') \<Longrightarrow> enclave_step e fl other s s'"
| step_recover: "recover_illegal_file e fl data s = Some (st, s') \<Longrightarrow> enclave_step e fl other s s'"
| step_get_info: "enclave_step e fl other s (id_get_info e s)"
| step_main_round: "main_loop_body e other (\<lambda>k t. (f k t, other 7 t)) s = Some s' \<Longrightarrow> enclave_step e fl other s s'"

inductive_cases enclave_stepE: "enclave_step e fl other s s'"

lemma enclave_step_inv:
  assumes "enclave_step e fl other s s'" and "st_inv s" and "keeps_inv other" and "rand_length e" and "sha256_length e"
  shows "st_inv s'"
  using assms(1)
proof cases
  case (step_srd_increase uuid st)
  then show ?thesis using st_inv_srd_increase [OF assms(2,4,5), of uuid] assms(2) by (auto simp: ecall_srd_increase_def split: if_splits)
next
  case (step_srd_decrease n m)
  then show ?thesis using st_inv_srd_decrease [OF assms(2), of e n] assms(2) by (auto simp: ecall_srd_decrease_def split: if_splits)
next
  case (step_change_srd_task n r st m)
  then show ?thesis using st_inv_change_srd_task [OF assms(2), of e n] assms(2) by (auto simp: ecall_change_srd_task_def split: if_splits)
next
  case (step_srd_remove_space str)
  then show ?thesis using st_inv_remove_space assms(2) by (auto simp: ecall_srd_remove_space_def split: if_splits)
next
  case step_stop_all
  then show ?thesis using assms(2) by (simp add: ecall_stop_all_def st_inv_store_metadata st_inv_set)
next
  case (step_report bh n st)
  then show ?thesis using st_inv_upload [OF assms(2), of e bh n 0 False] assms(2)
    by (auto simp: ecall_gen_and_upload_work_report_def split: if_splits)
next
  case (step_gen_key_pair account b)
  then show ?thesis using assms(2) by (auto simp: id_gen_key_pair_def st_inv_set split: if_splits option.splits)
next
  case (step_gen_measurement b)
  then show ?thesis using assms(2) by (auto simp: id_gen_sgx_measurement_def st_inv_set split: option.splits)
next
  case (step_seal_start root b58 st)
  then show ?thesis using st_inv_seal_start [OF assms(2) _ assms(3), of root b58] assms(2)
    by (auto simp: ecall_seal_file_start_def split: if_splits)
next
  case (step_seal root data is_link st path)
  then show ?thesis using st_inv_seal_file assms(2,3) by blast
next
  case (step_seal_end root st)
  then show ?thesis using seal_end_spec(1) assms(2,3) by blast
next
  case (step_delete cid st)
  then show ?thesis using st_inv_delete [OF assms(2,3), of e fl cid] assms(2) by (auto simp: ecall_delete_file_def split: if_splits)
next
  case step_validate_file_task
  then show ?thesis using st_inv_validate_file_real assms(2,3) by blast
next
  case step_validate_srd_task
  then show ?thesis using st_inv_validate_srd_real assms(2,3) by blast
next
  case (step_enable_upgrade n st)
  then show ?thesis using assms(2) by (auto simp: ecall_enable_upgrade_def Let_def st_inv_set split: if_splits)
next
  case step_disable_upgrade
  then show ?thesis using assms(2) by (simp add: ecall_disable_upgrade_def st_inv_set)
next
  case (step_gen_upgrade n st)
  then show ?thesis using st_inv_gen_upgrade assms(2) by blast
next
  case (step_recover data st)
  then show ?thesis using st_inv_recover assms(2) by blast
next
  case step_get_info
  then show ?thesis using assms(2) by (simp add: id_get_info_def st_inv_emit)
next
  case (step_main_round f)
  then obtain s1 s2 where r: "validate_meaningful_file e other (snd (id_store_metadata e s)) = Some s1"
    "validate_srd e other s1 = Some s2" "s' = srd_change e (\<lambda>k t. (f k t, other 7 t)) s2"
    by (auto simp: main_loop_body_def split: option.splits)
  have "st_inv s2"
    by (rule st_inv_validate_srd [OF assms(3) st_inv_validate_file [OF assms(3) st_inv_store_metadata [OF assms(2)] r(1)] r(2)])
  then show ?thesis using assms(3) unfolding r(3) by (intro st_inv_srd_change) (auto simp: keeps_inv_def)
qed

lemma reachable_inv:
  "(enclave_step e fl other)\<^sup>*\<^sup>* s s' \<Longrightarrow> st_inv s \<Longrightarrow> keeps_inv other \<Longrightarrow> rand_length e \<Longrightarrow> sha256_length e \<Longrightarrow> st_inv s'"
  by (induction rule: rtranclp_induct) (auto intro: enclave_step_inv)

text \<open>Threads that run handlers keep the invariant, so handlers may be interleaved with each other.\<close>

lemma keeps_inv_steps:
  assumes "\<And>i s. (enclave_step e fl alone)\<^sup>*\<^sup>* s (other i s)" and "rand_length e" and "sha256_length e"
  shows "keeps_inv other"
  using reachable_inv [OF assms(1) _ keeps_inv_alone assms(2,3)] by (simp add: keeps_inv_def)

section \<open>The end of an enclave\<close>

text \<open>Generating the upgrade data is the last thing an enclave does: its main loop and its stores end.\<close>

lemma gen_upgrade_closes:
  assumes "id_gen_upgrade_data e n s = Some (SPACEX_SUCCESS, s')"
  shows "upgrade_status s' = ENC_UPGRADE_STATUS_SUCCESS" and "id_store_metadata e s' = (SPACEX_SUCCESS, s')"
proof -
  have "upgrade_status t' = ENC_UPGRADE_STATUS_SUCCESS" if "store_upgrade_data e h bh t = (SPACEX_SUCCESS, t')" for h bh t t'
    using that by (auto simp: store_upgrade_data_def Let_def set_upgrade_status_def split: prod.splits option.splits if_splits)
  with assms show "upgrade_status s' = ENC_UPGRADE_STATUS_SUCCESS"
    by (auto simp: id_gen_upgrade_data_def Let_def split: if_splits option.splits prod.splits)
  then show "id_store_metadata e s' = (SPACEX_SUCCESS, s')" by (simp add: id_store_metadata_def)
qed

lemma main_loop_stopped:
  "upgrade_status s = ENC_UPGRADE_STATUS_SUCCESS \<Longrightarrow> ecall_main_loop e other oc n s = Some (True, s)"
  by (cases n) simp_all

end
