(* ===== verification/EnclaveQueue.thy ===== *)
theory EnclaveQueue
  imports Workload
begin

text \<open>
  The queue in front of the enclave, \<open>src/src/app/ecalls/EnclaveQueue.cpp\<close>: every call into the enclave asks
  for a place with \<open>try_get_enclave\<close> and gives it back with \<open>free_enclave\<close>. The state has three parts, each
  behind its own mutex: the number of running tasks, the waiting tasks by priority, and the running
  calls by name. The critical sections are the operations; a thread that asks for a place goes through several
  of them, so the second half of the theory puts threads with program counters on top and shows
  that the counters stay exact and that the limits hold, in every interleaving.

  The counters are C integers; their values are numbers of threads.
\<close>

section \<open>The state and the tables\<close>

datatype sgx_status = SGX_SUCCESS | SGX_ERROR_SERVICE_TIMEOUT | SGX_ERROR

record waiting_priority_item =
  wait_num :: int
  task_num_um :: "string \<Rightarrow> int"

record enclave_queue =
  running_task_num :: int
  waiting_task_um :: "int \<Rightarrow> waiting_priority_item"
  running_ecalls_um :: "(string \<times> int) list"

definition EnclaveQueue_init :: enclave_queue where
  "EnclaveQueue_init =
     \<lparr>running_task_num = 0, waiting_task_um = (\<lambda>_. \<lparr>wait_num = 0, task_num_um = (\<lambda>_. 0)\<rparr>), running_ecalls_um = []\<rparr>"

abbreviation (input) ENC_MAX_THREAD_NUM :: int where "ENC_MAX_THREAD_NUM \<equiv> 32"
abbreviation (input) ENC_RESERVED_THREAD_NUM :: int where "ENC_RESERVED_THREAD_NUM \<equiv> 1"
abbreviation (input) ENC_PRIO_TIMEOUT_THRESHOLD :: int where "ENC_PRIO_TIMEOUT_THRESHOLD \<equiv> 1"
abbreviation (input) ENC_PERMANENT_TASK_NUM :: int where "ENC_PERMANENT_TASK_NUM \<equiv> 1"
abbreviation (input) ENC_HIGHEST_PRIORITY :: int where "ENC_HIGHEST_PRIORITY \<equiv> 0"
abbreviation (input) ENC_TASK_TIMEOUT :: nat where "ENC_TASK_TIMEOUT \<equiv> 30"

text \<open>A name that is not in the map of priorities gets 0 there, which is the highest priority.\<close>

definition task_priority_um :: "(string \<times> int) list" where
  "task_priority_um =
     [(''Ecall_restore_metadata'', 0), (''Ecall_gen_key_pair'', 0), (''Ecall_cmp_chain_account_id'', 0),
      (''Ecall_get_quote_report'', 0), (''Ecall_verify_and_upload_identity'', 0), (''Ecall_gen_sgx_measurement'', 0),
      (''Ecall_main_loop'', 0), (''Ecall_stop_all'', 0), (''Ecall_gen_and_upload_work_report'', 0),
      (''Ecall_gen_upgrade_data'', 0), (''Ecall_restore_from_upgrade'', 0), (''Ecall_enable_upgrade'', 0),
      (''Ecall_disable_upgrade'', 0), (''Ecall_recover_illegal_file'', 1), (''Ecall_delete_file'', 1),
      (''Ecall_validate_file'', 1), (''Ecall_validate_srd'', 1), (''Ecall_seal_file_start'', 1),
      (''Ecall_seal_file'', 1), (''Ecall_seal_file_end'', 1), (''Ecall_unseal_file'', 1), (''Ecall_srd_decrease'', 1),
      (''Ecall_srd_remove_space'', 1), (''Ecall_change_srd_task'', 1), (''Ecall_srd_increase'', 2),
      (''Ecall_id_get_info'', 2)]"

definition task_priority :: "string \<Rightarrow> int" where
  "task_priority name = (case map_of task_priority_um name of None \<Rightarrow> 0 | Some p \<Rightarrow> p)"

definition block_tasks_um :: "string \<Rightarrow> string list" where
  "block_tasks_um name =
     (if name = ''Ecall_srd_increase'' then [''Ecall_seal_file_start'', ''Ecall_seal_file'', ''Ecall_seal_file_end''] else [])"

definition low_ignore_high_um :: "string \<Rightarrow> string list" where
  "low_ignore_high_um name = (if name = ''Ecall_srd_increase'' then [''Ecall_unseal_file''] else [])"

definition upgrade_blocked_task_us :: "string list" where
  "upgrade_blocked_task_us =
     [''Ecall_seal_file_start'', ''Ecall_seal_file'', ''Ecall_seal_file_end'', ''Ecall_unseal_file'', ''Ecall_srd_decrease'',
      ''Ecall_srd_increase'', ''Ecall_delete_file'', ''Ecall_srd_remove_space'']"

definition stop_block_task_v :: "string list" where
  "stop_block_task_v = [''Ecall_gen_and_upload_work_report'', ''Ecall_main_loop'']"

definition task_wait_time_v :: "int list" where
  "task_wait_time_v = [100, 10000, 500000, 1000000]"

section \<open>The critical sections\<close>

definition increase_waiting_queue :: "string \<Rightarrow> 'a enclave_queue_scheme \<Rightarrow> 'a enclave_queue_scheme" where
  "increase_waiting_queue name q =
     (let p = task_priority name; w = waiting_task_um q p
      in q\<lparr>waiting_task_um := (waiting_task_um q)(p :=
             \<lparr>wait_num = wait_num w + 1, task_num_um = (task_num_um w)(name := task_num_um w name + 1)\<rparr>)\<rparr>)"

definition decrease_waiting_queue :: "string \<Rightarrow> 'a enclave_queue_scheme \<Rightarrow> 'a enclave_queue_scheme" where
  "decrease_waiting_queue name q =
     (let p = task_priority name; w = waiting_task_um q p
      in if wait_num w = 0 then q
         else q\<lparr>waiting_task_um := (waiting_task_um q)(p :=
                  \<lparr>wait_num = wait_num w - 1, task_num_um = (task_num_um w)(name := task_num_um w name - 1)\<rparr>)\<rparr>)"

definition get_running_ecalls_num :: "string \<Rightarrow> 'a enclave_queue_scheme \<Rightarrow> int" where
  "get_running_ecalls_num name q = (case map_of (running_ecalls_um q) name of None \<Rightarrow> 0 | Some n \<Rightarrow> n)"

definition increase_running_queue :: "string \<Rightarrow> 'a enclave_queue_scheme \<Rightarrow> 'a enclave_queue_scheme" where
  "increase_running_queue name q =
     q\<lparr>running_ecalls_um := om_put name (get_running_ecalls_num name q + 1) (running_ecalls_um q)\<rparr>"

definition decrease_running_queue :: "string \<Rightarrow> 'a enclave_queue_scheme \<Rightarrow> 'a enclave_queue_scheme" where
  "decrease_running_queue name q =
     (let n = get_running_ecalls_num name q
      in if n = 0 then q\<lparr>running_ecalls_um := om_put name 0 (running_ecalls_um q)\<rparr>
         else q\<lparr>running_ecalls_um := om_put name (n - 1) (running_ecalls_um q)\<rparr>)"

definition get_running_ecalls_sum :: "'a enclave_queue_scheme \<Rightarrow> int" where
  "get_running_ecalls_sum q = running_task_num q"

definition get_running_ecalls_info :: "env \<Rightarrow> 'a enclave_queue_scheme \<Rightarrow> string" where
  "get_running_ecalls_info e q =
     dump_json e (fold (\<lambda>(name, n) j. if n \<noteq> 0 then jset j name (JIntegral n) else j) (running_ecalls_um q) JNull)"

text \<open>The loop over the priorities above the one of the task; \<open>p\<close> is the number of priorities left.\<close>

fun higher_prio_loop :: "string \<Rightarrow> nat \<Rightarrow> 'a enclave_queue_scheme \<Rightarrow> int \<Rightarrow> int" where
  "higher_prio_loop name 0 q ret = ret"
| "higher_prio_loop name (Suc p) q ret =
     higher_prio_loop name p q
       (ret + wait_num (waiting_task_um q (int p)) -
        sum_list (map (task_num_um (waiting_task_um q (int p))) (low_ignore_high_um name)))"

definition get_higher_prio_waiting_task_num :: "string \<Rightarrow> 'a enclave_queue_scheme \<Rightarrow> int" where
  "get_higher_prio_waiting_task_num name q = higher_prio_loop name (nat (task_priority name)) q 0"

text \<open>The section under \<open>running_task_num_mutex\<close>: \<open>None\<close> when the task cannot have a place now.\<close>

definition try_acquire :: "string \<Rightarrow> 'a enclave_queue_scheme \<Rightarrow> 'a enclave_queue_scheme option" where
  "try_acquire name q =
     (if running_task_num q \<ge> ENC_MAX_THREAD_NUM \<or>
         (task_priority name > ENC_HIGHEST_PRIORITY \<and> ENC_MAX_THREAD_NUM - running_task_num q \<le> ENC_RESERVED_THREAD_NUM) \<or>
         get_higher_prio_waiting_task_num name q - ENC_PERMANENT_TASK_NUM > 0
      then None
      else Some (q\<lparr>running_task_num := running_task_num q + 1\<rparr>))"

definition get_upgrade_ecalls_num :: "'a enclave_queue_scheme \<Rightarrow> int" where
  "get_upgrade_ecalls_num q = sum_list (map (\<lambda>t. get_running_ecalls_num t q) upgrade_blocked_task_us)"

definition has_stopping_block_task :: "'a enclave_queue_scheme \<Rightarrow> bool" where
  "has_stopping_block_task q \<longleftrightarrow> list_ex (\<lambda>t. get_running_ecalls_num t q > 0) stop_block_task_v"

text \<open>The first of the two sections of \<open>free_enclave\<close>; the second is \<open>decrease_running_queue\<close>.\<close>

definition release_place :: "'a enclave_queue_scheme \<Rightarrow> 'a enclave_queue_scheme" where
  "release_place q = q\<lparr>running_task_num := running_task_num q - 1\<rparr>"

section \<open>A call from start to end\<close>

text \<open>
  One thread, with other threads running between its critical sections: \<open>other k\<close> is what they do in the
  \<open>k\<close>-th gap. The loop waits without a limit when the priority is 0 or 1, so it is a partial function.
\<close>

fun block_check ::
  "(nat \<Rightarrow> 'a enclave_queue_scheme \<Rightarrow> 'a enclave_queue_scheme) \<Rightarrow> nat \<Rightarrow> string list \<Rightarrow> 'a enclave_queue_scheme \<Rightarrow>
   bool \<times> nat \<times> 'a enclave_queue_scheme" where
  "block_check other k [] q = (False, k, q)"
| "block_check other k (t # ts) q =
     (if get_running_ecalls_num t q > 0 then (True, Suc k, other k q)
      else block_check other (Suc k) ts (other k q))"

definition next_timeout :: "string \<Rightarrow> nat \<Rightarrow> nat" where
  "next_timeout name timeout = (if task_priority name > ENC_PRIO_TIMEOUT_THRESHOLD then Suc timeout else timeout)"

definition timed_out :: "string \<Rightarrow> nat \<Rightarrow> bool" where
  "timed_out name timeout \<longleftrightarrow> task_priority name > ENC_PRIO_TIMEOUT_THRESHOLD \<and> timeout \<ge> ENC_TASK_TIMEOUT"

partial_function (option) schedule_loop ::
  "(nat \<Rightarrow> 'a enclave_queue_scheme \<Rightarrow> 'a enclave_queue_scheme) \<Rightarrow> string \<Rightarrow> nat \<Rightarrow> nat \<Rightarrow> 'a enclave_queue_scheme \<Rightarrow>
   (sgx_status \<times> nat \<times> 'a enclave_queue_scheme) option" where
  "schedule_loop other name k timeout q =
     (let (blocked, k1, q1) = block_check other k (block_tasks_um name) q
      in case (if blocked then None else try_acquire name q1) of
           Some q2 \<Rightarrow> Some (SGX_SUCCESS, Suc k1, increase_running_queue name (other k1 q2))
         | None \<Rightarrow>
             if timed_out name (next_timeout name timeout) then Some (SGX_ERROR_SERVICE_TIMEOUT, k1, q1)
             else schedule_loop other name (Suc k1) (next_timeout name timeout) (other k1 q1))"

definition try_get_enclave ::
  "(nat \<Rightarrow> 'a enclave_queue_scheme \<Rightarrow> 'a enclave_queue_scheme) \<Rightarrow> string \<Rightarrow> 'a enclave_queue_scheme \<Rightarrow>
   (sgx_status \<times> nat \<times> 'a enclave_queue_scheme) option" where
  "try_get_enclave other name q =
     (case schedule_loop other name 1 0 (other 0 (increase_waiting_queue name q)) of
        None \<Rightarrow> None
      | Some (st, k, q') \<Rightarrow> Some (st, Suc k, decrease_waiting_queue name (other k q')))"

definition free_enclave ::
  "(nat \<Rightarrow> 'a enclave_queue_scheme \<Rightarrow> 'a enclave_queue_scheme) \<Rightarrow> nat \<Rightarrow> string \<Rightarrow> 'a enclave_queue_scheme \<Rightarrow> 'a enclave_queue_scheme" where
  "free_enclave other k name q = decrease_running_queue name (other k (release_place q))"

text \<open>How long a task sleeps between two tries, in microseconds.\<close>

definition task_sleep :: "int \<Rightarrow> int" where
  "task_sleep priority = task_wait_time_v ! nat priority"

section \<open>Threads\<close>

text \<open>
  Where a thread is in a call: checking the tasks that block it (those left to check, and the number of
  tries), about to try again, with a place but not listed as running, listed but still counted as
  waiting, given up, inside the enclave, and after \<open>free_enclave\<close> has given the place back.
\<close>

datatype pc =
    Checking "string list" nat
  | Retrying nat
  | Acquired
  | Entering
  | Timed_out
  | In_enclave
  | Freed
  | Finished

type_synonym thread = "string \<times> pc"

definition holds :: "thread \<Rightarrow> bool" where
  "holds t \<longleftrightarrow> snd t \<in> {Acquired, Entering, In_enclave}"

definition waits :: "thread \<Rightarrow> bool" where
  "waits t \<longleftrightarrow> (case snd t of In_enclave \<Rightarrow> False | Freed \<Rightarrow> False | Finished \<Rightarrow> False | _ \<Rightarrow> True)"

definition listed :: "thread \<Rightarrow> bool" where
  "listed t \<longleftrightarrow> snd t \<in> {Entering, In_enclave, Freed}"

definition cnt :: "('t \<Rightarrow> bool) \<Rightarrow> 't list \<Rightarrow> int" where
  "cnt P ts = int (length (filter P ts))"

text \<open>A step is one critical section of one thread, or a new call.\<close>

inductive queue_step :: "enclave_queue \<times> thread list \<Rightarrow> enclave_queue \<times> thread list \<Rightarrow> bool" where
  call: "queue_step (q, ts) (increase_waiting_queue name q, ts @ [(name, Checking (block_tasks_um name) 0)])"
| check_free: "i < length ts \<Longrightarrow> ts ! i = (name, Checking (b # bs) n) \<Longrightarrow> get_running_ecalls_num b q \<le> 0 \<Longrightarrow>
    queue_step (q, ts) (q, ts[i := (name, Checking bs n)])"
| check_blocked: "i < length ts \<Longrightarrow> ts ! i = (name, Checking (b # bs) n) \<Longrightarrow> 0 < get_running_ecalls_num b q \<Longrightarrow>
    queue_step (q, ts) (q, ts[i := (name, Retrying n)])"
| acquire: "i < length ts \<Longrightarrow> ts ! i = (name, Checking [] n) \<Longrightarrow> try_acquire name q = Some q' \<Longrightarrow>
    queue_step (q, ts) (q', ts[i := (name, Acquired)])"
| refuse: "i < length ts \<Longrightarrow> ts ! i = (name, Checking [] n) \<Longrightarrow> try_acquire name q = None \<Longrightarrow>
    queue_step (q, ts) (q, ts[i := (name, Retrying n)])"
| retry: "i < length ts \<Longrightarrow> ts ! i = (name, Retrying n) \<Longrightarrow> \<not> timed_out name (next_timeout name n) \<Longrightarrow>
    queue_step (q, ts) (q, ts[i := (name, Checking (block_tasks_um name) (next_timeout name n))])"
| give_up: "i < length ts \<Longrightarrow> ts ! i = (name, Retrying n) \<Longrightarrow> timed_out name (next_timeout name n) \<Longrightarrow>
    queue_step (q, ts) (q, ts[i := (name, Timed_out)])"
| list_running: "i < length ts \<Longrightarrow> ts ! i = (name, Acquired) \<Longrightarrow>
    queue_step (q, ts) (increase_running_queue name q, ts[i := (name, Entering)])"
| enter: "i < length ts \<Longrightarrow> ts ! i = (name, Entering) \<Longrightarrow>
    queue_step (q, ts) (decrease_waiting_queue name q, ts[i := (name, In_enclave)])"
| refused: "i < length ts \<Longrightarrow> ts ! i = (name, Timed_out) \<Longrightarrow>
    queue_step (q, ts) (decrease_waiting_queue name q, ts[i := (name, Finished)])"
| leave: "i < length ts \<Longrightarrow> ts ! i = (name, In_enclave) \<Longrightarrow>
    queue_step (q, ts) (release_place q, ts[i := (name, Freed)])"
| finish: "i < length ts \<Longrightarrow> ts ! i = (name, Freed) \<Longrightarrow>
    queue_step (q, ts) (decrease_running_queue name q, ts[i := (name, Finished)])"

text \<open>The counters are exact, and the limits hold.\<close>

definition low_prio :: "thread \<Rightarrow> bool" where
  "low_prio t \<longleftrightarrow> 0 < task_priority (fst t)"

definition queue_inv :: "enclave_queue \<times> thread list \<Rightarrow> bool" where
  "queue_inv c = (case c of (q, ts) \<Rightarrow>
     running_task_num q = cnt holds ts \<and>
     (\<forall>p. wait_num (waiting_task_um q p) = cnt (\<lambda>t. waits t \<and> task_priority (fst t) = p) ts) \<and>
     (\<forall>p n. task_num_um (waiting_task_um q p) n = cnt (\<lambda>t. waits t \<and> task_priority (fst t) = p \<and> fst t = n) ts) \<and>
     (\<forall>n. get_running_ecalls_num n q = cnt (\<lambda>t. listed t \<and> fst t = n) ts) \<and>
     cnt holds ts \<le> ENC_MAX_THREAD_NUM \<and> cnt (\<lambda>t. holds t \<and> low_prio t) ts \<le> ENC_MAX_THREAD_NUM - ENC_RESERVED_THREAD_NUM)"

lemma cnt_append [simp]: "cnt P (xs @ ys) = cnt P xs + cnt P ys"
  by (simp add: cnt_def)

lemma cnt_single [simp]: "cnt P [x] = of_bool (P x)"
  by (simp add: cnt_def)

lemma cnt_update:
  assumes "i < length ts"
  shows "cnt P (ts[i := x]) = cnt P ts - of_bool (P (ts ! i)) + of_bool (P x)"
proof -
  have "ts = take i ts @ ts ! i # drop (Suc i) ts" by (rule id_take_nth_drop [OF assms])
  then have "cnt P ts = cnt P (take i ts) + of_bool (P (ts ! i)) + cnt P (drop (Suc i) ts)"
    by (metis (no_types, lifting) append_Cons append_Nil cnt_append cnt_single add.assoc)
  moreover have "cnt P (ts[i := x]) = cnt P (take i ts) + of_bool (P x) + cnt P (drop (Suc i) ts)"
    unfolding upd_conv_take_nth_drop [OF assms]
    by (metis (no_types, lifting) append_Cons append_Nil cnt_append cnt_single add.assoc)
  ultimately show ?thesis by simp
qed

lemma cnt_pos: "i < length ts \<Longrightarrow> P (ts ! i) \<Longrightarrow> 0 < cnt P ts"
  unfolding cnt_def by (metis filter_empty_conv length_greater_0_conv nth_mem of_nat_0_less_iff)

lemma cnt_mono: "(\<And>t. P t \<Longrightarrow> Q t) \<Longrightarrow> cnt P ts \<le> cnt Q ts"
  unfolding cnt_def by (induction ts) auto

lemmas pc_simps = holds_def waits_def listed_def low_prio_def

lemma queue_init_inv: "queue_inv (EnclaveQueue_init, [])"
  by (simp add: queue_inv_def EnclaveQueue_init_def cnt_def get_running_ecalls_num_def)

lemma try_acquire_Some:
  assumes "try_acquire name q = Some q'"
  shows "q' = q\<lparr>running_task_num := running_task_num q + 1\<rparr>" and "running_task_num q < ENC_MAX_THREAD_NUM"
    and "0 < task_priority name \<Longrightarrow> running_task_num q < ENC_MAX_THREAD_NUM - ENC_RESERVED_THREAD_NUM"
  using assms by (auto simp: try_acquire_def split: if_splits)

lemma queue_fields [simp]:
  "running_task_num (increase_waiting_queue n q) = running_task_num q"
  "running_task_num (decrease_waiting_queue n q) = running_task_num q"
  "running_task_num (increase_running_queue n q) = running_task_num q"
  "running_task_num (decrease_running_queue n q) = running_task_num q"
  "waiting_task_um (increase_running_queue n q) = waiting_task_um q"
  "waiting_task_um (decrease_running_queue n q) = waiting_task_um q"
  "get_running_ecalls_num m (increase_waiting_queue n q) = get_running_ecalls_num m q"
  "get_running_ecalls_num m (decrease_waiting_queue n q) = get_running_ecalls_num m q"
  "get_running_ecalls_num m (q\<lparr>running_task_num := k\<rparr>) = get_running_ecalls_num m q"
  "running_task_num (release_place q) = running_task_num q - 1"
  "waiting_task_um (release_place q) = waiting_task_um q"
  "get_running_ecalls_num m (release_place q) = get_running_ecalls_num m q"
  by (simp_all add: increase_waiting_queue_def decrease_waiting_queue_def increase_running_queue_def
      decrease_running_queue_def get_running_ecalls_num_def release_place_def Let_def)

lemma running_num_update:
  "get_running_ecalls_num m (increase_running_queue n q) = get_running_ecalls_num m q + of_bool (m = n)"
  "0 < get_running_ecalls_num n q \<Longrightarrow>
    get_running_ecalls_num m (decrease_running_queue n q) = get_running_ecalls_num m q - of_bool (m = n)"
  by (auto simp: increase_running_queue_def decrease_running_queue_def get_running_ecalls_num_def Let_def)

lemma waiting_num_update:
  "wait_num (waiting_task_um (increase_waiting_queue n q) p) = wait_num (waiting_task_um q p) + of_bool (task_priority n = p)"
  "task_num_um (waiting_task_um (increase_waiting_queue n q) p) m =
     task_num_um (waiting_task_um q p) m + of_bool (task_priority n = p \<and> n = m)"
  "0 < wait_num (waiting_task_um q (task_priority n)) \<Longrightarrow>
     wait_num (waiting_task_um (decrease_waiting_queue n q) p) = wait_num (waiting_task_um q p) - of_bool (task_priority n = p)"
  "0 < wait_num (waiting_task_um q (task_priority n)) \<Longrightarrow>
     task_num_um (waiting_task_um (decrease_waiting_queue n q) p) m =
       task_num_um (waiting_task_um q p) m - of_bool (task_priority n = p \<and> n = m)"
  by (auto simp: increase_waiting_queue_def decrease_waiting_queue_def Let_def)

lemma queue_step_inv: "queue_step c c' \<Longrightarrow> queue_inv c \<Longrightarrow> queue_inv c'"
proof (induction rule: queue_step.induct)
  case (call q ts name)
  then show ?case by (simp add: queue_inv_def pc_simps waiting_num_update)
next
  case (acquire i ts name n q q')
  note a = try_acquire_Some [OF acquire(3)]
  have le: "cnt (\<lambda>t. holds t \<and> low_prio t) ts \<le> cnt holds ts" by (rule cnt_mono) simp
  show ?case using acquire(1,2,4) a le by (auto simp: queue_inv_def cnt_update pc_simps)
next
  case (list_running i ts name q)
  then show ?case by (auto simp: queue_inv_def cnt_update pc_simps running_num_update)
next
  case (enter i ts name q)
  have "0 < cnt (\<lambda>t. waits t \<and> task_priority (fst t) = task_priority name) ts"
    by (rule cnt_pos [OF enter(1)]) (simp add: enter(2) pc_simps)
  then have "0 < wait_num (waiting_task_um q (task_priority name))" using enter(3) by (simp add: queue_inv_def)
  then show ?case using enter by (auto simp: queue_inv_def cnt_update pc_simps waiting_num_update)
next
  case (refused i ts name q)
  have "0 < cnt (\<lambda>t. waits t \<and> task_priority (fst t) = task_priority name) ts"
    by (rule cnt_pos [OF refused(1)]) (simp add: refused(2) pc_simps)
  then have "0 < wait_num (waiting_task_um q (task_priority name))" using refused(3) by (simp add: queue_inv_def)
  then show ?case using refused by (auto simp: queue_inv_def cnt_update pc_simps waiting_num_update)
next
  case (finish i ts name q)
  have "0 < cnt (\<lambda>t. listed t \<and> fst t = name) ts"
    by (rule cnt_pos [OF finish(1)]) (simp add: finish(2) pc_simps)
  then have "0 < get_running_ecalls_num name q" using finish(3) by (simp add: queue_inv_def)
  then show ?case using finish by (auto simp: queue_inv_def cnt_update pc_simps running_num_update)
qed (auto simp: queue_inv_def cnt_update pc_simps)

lemma queue_reachable_inv: "queue_step\<^sup>*\<^sup>* (EnclaveQueue_init, []) c \<Longrightarrow> queue_inv c"
  by (induction rule: rtranclp_induct) (auto intro: queue_step_inv queue_init_inv)

section \<open>Who gets a place, and when\<close>

lemma task_priority_range: "0 \<le> task_priority name \<and> task_priority name \<le> 2"
proof -
  have "\<forall>p \<in> snd ` set task_priority_um. 0 \<le> p \<and> p \<le> (2::int)" by (simp add: task_priority_um_def)
  moreover have "task_priority name = 0 \<or> task_priority name \<in> snd ` set task_priority_um"
    by (auto simp: task_priority_def image_iff dest!: map_of_SomeD split: option.splits intro: bexI [rotated])
  ultimately show ?thesis by auto
qed

lemma task_sleep_in_range: "nat (task_priority name) < length task_wait_time_v"
  using task_priority_range [of name] by (auto simp: task_wait_time_v_def nat_less_iff)

text \<open>Only \<open>Ecall_srd_increase\<close>, of the lowest priority, is blocked by other tasks.\<close>

lemma not_blocked: "task_priority name \<le> 1 \<Longrightarrow> block_tasks_um name = []"
  by (auto simp: block_tasks_um_def task_priority_def task_priority_um_def split: if_splits)

lemma try_acquire_first:
  "task_priority name = 0 \<Longrightarrow>
    try_acquire name q = (if running_task_num q < ENC_MAX_THREAD_NUM then Some (q\<lparr>running_task_num := running_task_num q + 1\<rparr>) else None)"
  by (auto simp: try_acquire_def get_higher_prio_waiting_task_num_def)

lemma try_acquire_second:
  "task_priority name = 1 \<Longrightarrow>
    try_acquire name q =
      (if running_task_num q < ENC_MAX_THREAD_NUM - ENC_RESERVED_THREAD_NUM \<and> wait_num (waiting_task_um q 0) \<le> ENC_PERMANENT_TASK_NUM
       then Some (q\<lparr>running_task_num := running_task_num q + 1\<rparr>) else None)"
proof -
  assume p: "task_priority name = 1"
  then have "low_ignore_high_um name = []"
    by (auto simp: low_ignore_high_um_def task_priority_def task_priority_um_def)
  then have "get_higher_prio_waiting_task_num name q = wait_num (waiting_task_um q 0)"
    using p by (simp add: get_higher_prio_waiting_task_num_def)
  then show ?thesis using p by (auto simp: try_acquire_def)
qed

text \<open>The first try of a task of the highest priority succeeds when there is a place.\<close>

lemma highest_priority_enters:
  assumes "task_priority name = 0"
    and "running_task_num (other 0 (increase_waiting_queue name q)) < ENC_MAX_THREAD_NUM"
  shows "\<exists>k q'. try_get_enclave other name q = Some (SGX_SUCCESS, k, q')"
proof -
  have "block_tasks_um name = []" by (rule not_blocked) (simp add: assms(1))
  then show ?thesis
    by (auto simp: try_get_enclave_def schedule_loop.simps assms(2) try_acquire_first [OF assms(1)])
qed

text \<open>A task of the lowest priority gives up at the thirtieth try at the latest, whatever other threads do.\<close>

lemma schedule_loop_returns:
  assumes "ENC_PRIO_TIMEOUT_THRESHOLD < task_priority name"
  shows "timeout \<le> ENC_TASK_TIMEOUT \<Longrightarrow> \<exists>r. schedule_loop other name k timeout q = Some r"
proof (induction "ENC_TASK_TIMEOUT - timeout" arbitrary: timeout k q)
  case 0
  then have "timed_out name (next_timeout name timeout)" using assms by (simp add: timed_out_def next_timeout_def)
  then show ?case by (subst schedule_loop.simps) (auto split: prod.splits option.splits)
next
  case (Suc n)
  have next_t: "next_timeout name timeout = Suc timeout" using assms by (simp add: next_timeout_def)
  have "n = ENC_TASK_TIMEOUT - Suc timeout" and "Suc timeout \<le> ENC_TASK_TIMEOUT" using Suc(2) by linarith+
  from Suc(1) [OF this]
  show ?case by (subst schedule_loop.simps) (auto simp: next_t split: prod.splits option.splits)
qed

lemma lowest_priority_returns:
  "ENC_PRIO_TIMEOUT_THRESHOLD < task_priority name \<Longrightarrow> \<exists>r. try_get_enclave other name q = Some r"
  using schedule_loop_returns [of name 0 other 1 "other 0 (increase_waiting_queue name q)"]
  by (auto simp: try_get_enclave_def split: prod.splits)

text \<open>The comment in \<open>try_get_enclave\<close> rules this out: a task of higher priority waits, and a lower one gets the place.\<close>

lemma lower_enters_while_one_waits:
  assumes "task_priority name = 1" and "wait_num (waiting_task_um q 0) = 1"
    and "running_task_num q < ENC_MAX_THREAD_NUM - ENC_RESERVED_THREAD_NUM"
  shows "\<exists>q'. try_acquire name q = Some q'"
  using assms by (simp add: try_acquire_second)

section \<open>A whole call by one thread\<close>

text \<open>With no other thread between its sections, a call that got its place leaves the counters as they were.\<close>

definition same_queue :: "'a enclave_queue_scheme \<Rightarrow> 'a enclave_queue_scheme \<Rightarrow> bool" where
  "same_queue q q' \<longleftrightarrow> running_task_num q' = running_task_num q \<and> waiting_task_um q' = waiting_task_um q \<and>
     (\<forall>n. get_running_ecalls_num n q' = get_running_ecalls_num n q)"

definition queue_ok :: "'a enclave_queue_scheme \<Rightarrow> bool" where
  "queue_ok q \<longleftrightarrow> 0 \<le> running_task_num q \<and> (\<forall>p. 0 \<le> wait_num (waiting_task_um q p)) \<and> (\<forall>n. 0 \<le> get_running_ecalls_num n q)"

lemma queue_inv_ok: "queue_inv (q, ts) \<Longrightarrow> queue_ok q"
  by (auto simp: queue_inv_def queue_ok_def cnt_def)

lemma waiting_undone:
  "queue_ok q \<Longrightarrow> waiting_task_um q' = waiting_task_um (increase_waiting_queue name q) \<Longrightarrow>
    waiting_task_um (decrease_waiting_queue name q') = waiting_task_um q"
  by (auto simp: increase_waiting_queue_def decrease_waiting_queue_def Let_def queue_ok_def fun_eq_iff
      dest!: spec [of _ "task_priority name"])

lemma block_check_alone: "snd (snd (block_check (\<lambda>_ q. q) k ts q)) = q"
  by (induction ts arbitrary: k) auto

lemma schedule_loop_alone:
  "schedule_loop other name k timeout q = Some r \<Longrightarrow> other = (\<lambda>_ q. q) \<longrightarrow>
    (fst r = SGX_SUCCESS \<and> snd (snd r) = increase_running_queue name (q\<lparr>running_task_num := running_task_num q + 1\<rparr>)) \<or>
    (fst r = SGX_ERROR_SERVICE_TIMEOUT \<and> snd (snd r) = q)"
proof (induction rule: schedule_loop.raw_induct [rotated, consumes 1, case_names attempt])
  case (attempt sl other name k timeout q r)
  have "snd (snd (block_check (\<lambda>_ q. q) k (block_tasks_um name) q)) = q" by (rule block_check_alone)
  moreover obtain st k' q' where "r = (st, k', q')" by (cases r)
  ultimately show ?case using attempt(2)
    by (auto split: prod.splits option.splits if_splits dest!: try_acquire_Some(1) attempt(1))
qed

lemma waiting_task_um_running [simp]: "waiting_task_um (q\<lparr>running_task_num := n\<rparr>) = waiting_task_um q"
  by simp

text \<open>The two results of \<open>try_get_enclave\<close>: a place, or the counters as they were.\<close>

lemma try_get_enclave_alone:
  assumes "queue_ok q" and r: "try_get_enclave (\<lambda>_ q. q) name q = Some (st, k, q')"
  shows "waiting_task_um q' = waiting_task_um q"
    and "st = SGX_SUCCESS \<Longrightarrow> running_task_num q' = running_task_num q + 1 \<and>
           (\<forall>n. get_running_ecalls_num n q' = get_running_ecalls_num n q + of_bool (n = name))"
    and "st \<noteq> SGX_SUCCESS \<Longrightarrow> st = SGX_ERROR_SERVICE_TIMEOUT \<and> same_queue q q'"
proof -
  obtain k1 q1 where l: "schedule_loop (\<lambda>_ q. q) name 1 0 (increase_waiting_queue name q) = Some (st, k1, q1)"
    and q': "q' = decrease_waiting_queue name q1"
    using r by (auto simp: try_get_enclave_def split: option.splits prod.splits)
  note c = schedule_loop_alone [OF l, simplified]
  then have "waiting_task_um q1 = waiting_task_um (increase_waiting_queue name q)" by auto
  then show w: "waiting_task_um q' = waiting_task_um q" unfolding q' by (rule waiting_undone [OF assms(1)])
  show "st = SGX_SUCCESS \<Longrightarrow> running_task_num q' = running_task_num q + 1 \<and>
           (\<forall>n. get_running_ecalls_num n q' = get_running_ecalls_num n q + of_bool (n = name))"
    using c by (auto simp: q' running_num_update)
  show "st \<noteq> SGX_SUCCESS \<Longrightarrow> st = SGX_ERROR_SERVICE_TIMEOUT \<and> same_queue q q'"
    using c w by (auto simp: q' same_queue_def)
qed

lemma free_enclave_alone:
  assumes "\<forall>n. 0 \<le> get_running_ecalls_num n q" and "running_task_num q' = running_task_num q + 1"
    and "waiting_task_um q' = waiting_task_um q"
    and "\<forall>n. get_running_ecalls_num n q' = get_running_ecalls_num n q + of_bool (n = name)"
  shows "same_queue q (free_enclave (\<lambda>_ q. q) k name q')"
proof -
  have "0 < get_running_ecalls_num name (release_place q')" using assms(1,4) by (simp add: add_nonneg_pos)
  then show ?thesis using assms by (auto simp: free_enclave_def same_queue_def running_num_update)
qed

end
