(* ===== verification/ECalls.thy ===== *)
theory ECalls
  imports Enclave EnclaveQueue
begin

text \<open>
  The calls into the enclave as the application makes them, \<open>src/src/app/ecalls/ECalls.cpp\<close>: each asks the queue
  for a place under its own name, crosses into the enclave, and gives the place back. The generated bridge
  between the two sides is a parameter: \<open>edge\<close> is the status it returns, and a call that fails there has not
  run in the enclave. \<open>gap\<close> is what other threads do to the queue between two accesses of this one to it,
  and \<open>meanwhile\<close> what they do in the enclave while this one waits for its place.
\<close>

section \<open>The shape of a call\<close>

record 's gate =
  gap :: "nat \<Rightarrow> enclave_queue \<Rightarrow> enclave_queue"
  meanwhile :: "'s \<Rightarrow> 's"
  edge :: sgx_status

type_synonym ('r, 's) ecall_result = "(sgx_status \<times> 'r option \<times> enclave_queue \<times> 's) option"

definition with_enclave ::
  "'s gate \<Rightarrow> string \<Rightarrow> ('s \<Rightarrow> ('r \<times> 's) option) \<Rightarrow> enclave_queue \<times> 's \<Rightarrow> ('r, 's) ecall_result" where
  "with_enclave g name f c =
     (case try_get_enclave (gap g) name (fst c) of
        None \<Rightarrow> None
      | Some (ret, k, q) \<Rightarrow>
          if ret \<noteq> SGX_SUCCESS then Some (ret, None, q, meanwhile g (snd c))
          else if edge g \<noteq> SGX_SUCCESS then
            Some (edge g, None, free_enclave (gap g) (Suc k) name (gap g k q), meanwhile g (snd c))
          else
            (case f (meanwhile g (snd c)) of
               None \<Rightarrow> None
             | Some (r, s) \<Rightarrow> Some (SGX_SUCCESS, Some r, free_enclave (gap g) (Suc k) name (gap g k q), s)))"

section \<open>Random data, reports and the main loop\<close>

definition Ecall_srd_increase ::
  "'a srd_scheme gate \<Rightarrow> env \<Rightarrow> string \<Rightarrow> enclave_queue \<times> 'a srd_scheme \<Rightarrow> (spacex_status, 'a srd_scheme) ecall_result" where
  "Ecall_srd_increase g e uuid = with_enclave g ''Ecall_srd_increase'' (\<lambda>s. Some (ecall_srd_increase e uuid s))"

definition Ecall_srd_decrease ::
  "'a workload_scheme gate \<Rightarrow> env \<Rightarrow> nat \<Rightarrow> enclave_queue \<times> 'a workload_scheme \<Rightarrow> (nat, 'a workload_scheme) ecall_result" where
  "Ecall_srd_decrease g e change = with_enclave g ''Ecall_srd_decrease'' (\<lambda>s. Some (ecall_srd_decrease e change s))"

definition Ecall_main_loop ::
  "'a validator_scheme gate \<Rightarrow> env \<Rightarrow> (nat \<Rightarrow> nat \<Rightarrow> 'a validator_scheme \<Rightarrow> 'a validator_scheme) \<Rightarrow>
   (nat \<Rightarrow> int \<Rightarrow> 'a validator_scheme \<Rightarrow> spacex_status \<times> 'a validator_scheme) \<Rightarrow> nat \<Rightarrow>
   enclave_queue \<times> 'a validator_scheme \<Rightarrow> (bool, 'a validator_scheme) ecall_result" where
  "Ecall_main_loop g e other oc n = with_enclave g ''Ecall_main_loop'' (ecall_main_loop e other oc n)"

definition Ecall_stop_all ::
  "'a workload_scheme gate \<Rightarrow> env \<Rightarrow> enclave_queue \<times> 'a workload_scheme \<Rightarrow> (unit, 'a workload_scheme) ecall_result" where
  "Ecall_stop_all g e = with_enclave g ''Ecall_stop_all'' (\<lambda>s. Some ((), ecall_stop_all e s))"

definition Ecall_gen_and_upload_work_report ::
  "'a workload_scheme gate \<Rightarrow> env \<Rightarrow> string \<Rightarrow> size_t \<Rightarrow> enclave_queue \<times> 'a workload_scheme \<Rightarrow>
   (spacex_status, 'a workload_scheme) ecall_result" where
  "Ecall_gen_and_upload_work_report g e block_hash block_height =
     with_enclave g ''Ecall_gen_and_upload_work_report'' (\<lambda>s. Some (ecall_gen_and_upload_work_report e block_hash block_height s))"

definition Ecall_change_srd_task ::
  "'a srd_scheme gate \<Rightarrow> env \<Rightarrow> int \<Rightarrow> int \<Rightarrow> enclave_queue \<times> 'a srd_scheme \<Rightarrow>
   (spacex_status \<times> int, 'a srd_scheme) ecall_result" where
  "Ecall_change_srd_task g e change real_change =
     with_enclave g ''Ecall_change_srd_task''
       (\<lambda>s. case ecall_change_srd_task e change real_change s of (st, n, s') \<Rightarrow> Some ((st, n), s'))"

definition Ecall_srd_remove_space ::
  "'a workload_scheme gate \<Rightarrow> env \<Rightarrow> float_lib \<Rightarrow> string \<Rightarrow> enclave_queue \<times> 'a workload_scheme \<Rightarrow>
   (unit, 'a workload_scheme) ecall_result" where
  "Ecall_srd_remove_space g e fl data =
     with_enclave g ''Ecall_srd_remove_space'' (\<lambda>s. map_option (Pair ()) (ecall_srd_remove_space e fl data s))"

section \<open>Identity\<close>

definition Ecall_restore_metadata ::
  "'a workload_scheme gate \<Rightarrow> env \<Rightarrow> float_lib \<Rightarrow> enclave_queue \<times> 'a workload_scheme \<Rightarrow>
   (spacex_status, 'a workload_scheme) ecall_result" where
  "Ecall_restore_metadata g e fl = with_enclave g ''Ecall_restore_metadata'' (id_restore_metadata e fl)"

definition Ecall_cmp_chain_account_id ::
  "'a workload_scheme gate \<Rightarrow> string \<Rightarrow> enclave_queue \<times> 'a workload_scheme \<Rightarrow> (spacex_status, 'a workload_scheme) ecall_result" where
  "Ecall_cmp_chain_account_id g account =
     with_enclave g ''Ecall_cmp_chain_account_id'' (\<lambda>s. Some (id_cmp_chain_account_id account s, s))"

definition Ecall_gen_key_pair ::
  "'a workload_scheme gate \<Rightarrow> env \<Rightarrow> string \<Rightarrow> enclave_queue \<times> 'a workload_scheme \<Rightarrow> (bool, 'a workload_scheme) ecall_result" where
  "Ecall_gen_key_pair g e account = with_enclave g ''Ecall_gen_key_pair'' (\<lambda>s. Some (id_gen_key_pair e account s))"

definition Ecall_gen_sgx_measurement ::
  "'a workload_scheme gate \<Rightarrow> env \<Rightarrow> enclave_queue \<times> 'a workload_scheme \<Rightarrow> (bool, 'a workload_scheme) ecall_result" where
  "Ecall_gen_sgx_measurement g e = with_enclave g ''Ecall_gen_sgx_measurement'' (\<lambda>s. Some (id_gen_sgx_measurement e s))"

definition Ecall_id_get_info ::
  "'a workload_scheme gate \<Rightarrow> env \<Rightarrow> enclave_queue \<times> 'a workload_scheme \<Rightarrow> (unit, 'a workload_scheme) ecall_result" where
  "Ecall_id_get_info g e = with_enclave g ''Ecall_id_get_info'' (\<lambda>s. Some ((), id_get_info e s))"

section \<open>Files\<close>

definition Ecall_seal_file_start ::
  "'a workload_scheme gate \<Rightarrow> (nat \<Rightarrow> 'a workload_scheme \<Rightarrow> 'a workload_scheme) \<Rightarrow> string \<Rightarrow> string \<Rightarrow>
   enclave_queue \<times> 'a workload_scheme \<Rightarrow> (spacex_status, 'a workload_scheme) ecall_result" where
  "Ecall_seal_file_start g other cid cid_b58 =
     with_enclave g ''Ecall_seal_file_start'' (\<lambda>s. Some (ecall_seal_file_start other cid cid_b58 s))"

definition Ecall_seal_file ::
  "'a workload_scheme gate \<Rightarrow> env \<Rightarrow> float_lib \<Rightarrow> (nat \<Rightarrow> 'a workload_scheme \<Rightarrow> 'a workload_scheme) \<Rightarrow> string \<Rightarrow> bytes \<Rightarrow> bool \<Rightarrow>
   enclave_queue \<times> 'a workload_scheme \<Rightarrow> (spacex_status \<times> string, 'a workload_scheme) ecall_result" where
  "Ecall_seal_file g e fl other cid data is_link =
     with_enclave g ''Ecall_seal_file''
       (\<lambda>s. map_option (\<lambda>(st, path, s'). ((st, path), s')) (storage_seal_file e fl other cid data is_link s))"

definition Ecall_seal_file_end ::
  "'a workload_scheme gate \<Rightarrow> env \<Rightarrow> float_lib \<Rightarrow> (nat \<Rightarrow> 'a workload_scheme \<Rightarrow> 'a workload_scheme) \<Rightarrow> string \<Rightarrow>
   enclave_queue \<times> 'a workload_scheme \<Rightarrow> (spacex_status, 'a workload_scheme) ecall_result" where
  "Ecall_seal_file_end g e fl other cid = with_enclave g ''Ecall_seal_file_end'' (storage_seal_file_end e fl other cid)"

definition Ecall_unseal_file ::
  "'a workload_scheme gate \<Rightarrow> env \<Rightarrow> string \<Rightarrow> enclave_queue \<times> 'a workload_scheme \<Rightarrow>
   (spacex_status \<times> bytes, 'a workload_scheme) ecall_result" where
  "Ecall_unseal_file g e path = with_enclave g ''Ecall_unseal_file'' (\<lambda>s. Some (storage_unseal_file e path, s))"

definition Ecall_delete_file ::
  "'a workload_scheme gate \<Rightarrow> env \<Rightarrow> float_lib \<Rightarrow> (nat \<Rightarrow> 'a workload_scheme \<Rightarrow> 'a workload_scheme) \<Rightarrow> string \<Rightarrow>
   enclave_queue \<times> 'a workload_scheme \<Rightarrow> (spacex_status, 'a workload_scheme) ecall_result" where
  "Ecall_delete_file g e fl other hash = with_enclave g ''Ecall_delete_file'' (ecall_delete_file e fl other hash)"

definition Ecall_validate_file ::
  "'a validator_scheme gate \<Rightarrow> env \<Rightarrow> float_lib \<Rightarrow> (nat \<Rightarrow> 'a validator_scheme \<Rightarrow> 'a validator_scheme) \<Rightarrow>
   enclave_queue \<times> 'a validator_scheme \<Rightarrow> (unit, 'a validator_scheme) ecall_result" where
  "Ecall_validate_file g e fl other =
     with_enclave g ''Ecall_validate_file'' (\<lambda>s. map_option (Pair ()) (validate_meaningful_file_real e fl other s))"

definition Ecall_validate_srd ::
  "'a validator_scheme gate \<Rightarrow> env \<Rightarrow> (nat \<Rightarrow> 'a validator_scheme \<Rightarrow> 'a validator_scheme) \<Rightarrow>
   enclave_queue \<times> 'a validator_scheme \<Rightarrow> (unit, 'a validator_scheme) ecall_result" where
  "Ecall_validate_srd g e other =
     with_enclave g ''Ecall_validate_srd'' (\<lambda>s. map_option (Pair ()) (validate_srd_real e other s))"

definition Ecall_recover_illegal_file ::
  "'a workload_scheme gate \<Rightarrow> env \<Rightarrow> float_lib \<Rightarrow> bytes \<Rightarrow> enclave_queue \<times> 'a workload_scheme \<Rightarrow>
   (spacex_status, 'a workload_scheme) ecall_result" where
  "Ecall_recover_illegal_file g e fl data = with_enclave g ''Ecall_recover_illegal_file'' (recover_illegal_file e fl data)"

section \<open>Upgrade\<close>

definition Ecall_gen_upgrade_data ::
  "'a workload_scheme gate \<Rightarrow> env \<Rightarrow> size_t \<Rightarrow> enclave_queue \<times> 'a workload_scheme \<Rightarrow>
   (spacex_status, 'a workload_scheme) ecall_result" where
  "Ecall_gen_upgrade_data g e block_height = with_enclave g ''Ecall_gen_upgrade_data'' (id_gen_upgrade_data e block_height)"

definition Ecall_restore_from_upgrade ::
  "'a workload_scheme gate \<Rightarrow> env \<Rightarrow> float_lib \<Rightarrow> bytes \<Rightarrow> enclave_queue \<times> 'a workload_scheme \<Rightarrow>
   (spacex_status, 'a workload_scheme) ecall_result" where
  "Ecall_restore_from_upgrade g e fl data = with_enclave g ''Ecall_restore_from_upgrade'' (ecall_restore_from_upgrade e fl data)"

definition Ecall_enable_upgrade ::
  "'a workload_scheme gate \<Rightarrow> size_t \<Rightarrow> enclave_queue \<times> 'a workload_scheme \<Rightarrow> (spacex_status, 'a workload_scheme) ecall_result" where
  "Ecall_enable_upgrade g block_height = with_enclave g ''Ecall_enable_upgrade'' (\<lambda>s. Some (ecall_enable_upgrade block_height s))"

definition Ecall_disable_upgrade ::
  "'a workload_scheme gate \<Rightarrow> enclave_queue \<times> 'a workload_scheme \<Rightarrow> (unit, 'a workload_scheme) ecall_result" where
  "Ecall_disable_upgrade g = with_enclave g ''Ecall_disable_upgrade'' (\<lambda>s. Some ((), ecall_disable_upgrade s))"

text \<open>The only kind of data that is sent in parts; the place is taken under the name of the function that receives it.\<close>

definition ecall_store2_func_m :: string where
  "ecall_store2_func_m = ''Ecall_restore_from_upgrade''"

definition Ecall_safe_store2 ::
  "'a enclave_scheme gate \<Rightarrow> env \<Rightarrow> float_lib \<Rightarrow> bytes \<Rightarrow> nat \<Rightarrow> nat \<Rightarrow> nat \<Rightarrow> enclave_queue \<times> 'a enclave_scheme \<Rightarrow>
   (spacex_status, 'a enclave_scheme) ecall_result" where
  "Ecall_safe_store2 g e fl part total_size offset buffer_key =
     with_enclave g ecall_store2_func_m (ecall_safe_store2 e fl part total_size offset buffer_key)"

section \<open>A place taken is given back\<close>

lemma with_enclave_alone:
  assumes "with_enclave g name f (q, s) = Some (ret, r, q', s')" and "gap g = (\<lambda>_ q. q)" and "queue_ok q"
  shows "same_queue q q'"
proof -
  obtain st k q1 where t: "try_get_enclave (\<lambda>_ q. q) name q = Some (st, k, q1)"
    using assms(1,2) by (auto simp: with_enclave_def split: option.splits)
  have *: "same_queue q (free_enclave (\<lambda>_ q. q) (Suc k) name q1)" if "st = SGX_SUCCESS"
    by (rule free_enclave_alone)
      (use try_get_enclave_alone(1,2) [OF assms(3) t] that assms(3) in \<open>auto simp: queue_ok_def\<close>)
  then show ?thesis
    using assms(1,2) t try_get_enclave_alone(3) [OF assms(3) t]
    by (auto simp: with_enclave_def split: option.splits if_splits)
qed

text \<open>What a call does in the enclave: nothing when the status is an error, the enclave's function otherwise.\<close>

lemma with_enclave_effect:
  assumes "with_enclave g name f (q, s) = Some (ret, r, q', s')"
  shows "if ret = SGX_SUCCESS then \<exists>x. r = Some x \<and> f (meanwhile g s) = Some (x, s') else r = None \<and> s' = meanwhile g s"
  using assms by (auto simp: with_enclave_def split: option.splits if_splits)

text \<open>A call of the lowest priority returns whatever other threads do, if the enclave's function does.\<close>

lemma with_enclave_returns:
  assumes "ENC_PRIO_TIMEOUT_THRESHOLD < task_priority name" and "\<And>t. f t \<noteq> None"
  shows "with_enclave g name f c \<noteq> None"
  using lowest_priority_returns [OF assms(1), of "gap g" "fst c"] assms(2) [of "meanwhile g (snd c)"]
  by (auto simp: with_enclave_def split: option.splits)

end
