(* ===== verification/AppSrd.thy ===== *)
theory AppSrd
  imports Config ECalls
begin

text \<open>
  The application's side of random data, \<open>src/src/app/process/Srd.cpp\<close>: the identifier of each disk, how a task is shared out
  among the disks, the turn that the enclave asks for with \<open>ocall_srd_change\<close>, and the watch over the
  space that has to stay free.

  Sizes are in gigabytes; a disk has less than \<open>2 ^ 34\<close> of them, so no sum here wraps.
\<close>

section \<open>State\<close>

record app = enclave_data +
  app_tree :: file_tree
  app_conf :: config
  g_running_srd_task :: size_t

definition set_running_srd_task :: "int \<Rightarrow> 'a app_scheme \<Rightarrow> 'a app_scheme" where
  "set_running_srd_task srd_task a = a\<lparr>g_running_srd_task := of_int srd_task\<rparr>"

definition get_running_srd_task :: "'a app_scheme \<Rightarrow> int" where
  "get_running_srd_task a = sint (g_running_srd_task a)"

definition decrease_running_srd_task :: "'a app_scheme \<Rightarrow> 'a app_scheme" where
  "decrease_running_srd_task a =
     (if g_running_srd_task a > 0 then a\<lparr>g_running_srd_task := g_running_srd_task a - 1\<rparr> else a)"

definition get_reserved_space :: int where
  "get_reserved_space = 50"

section \<open>The identifier of a disk\<close>

text \<open>
  \<open>rand\<close> are the random bytes for a new identifier, and \<open>behind\<close> the characters that lie behind the buffer with
  the content of the identifier's file, up to the next null: the code turns the buffer into a string as if
  it were terminated.
\<close>

definition c_string :: "bytes \<Rightarrow> string \<Rightarrow> string" where
  "c_string buf behind =
     (let s = bytes_str buf in if CHR 0x00 \<in> set s then takeWhile (\<lambda>c. c \<noteq> CHR 0x00) s else s @ behind)"

definition disk_srd_dir :: "os \<Rightarrow> string \<Rightarrow> 'a app_scheme \<Rightarrow> (bool \<times> 'a app_scheme) option" where
  "disk_srd_dir sys path a =
     map_option (\<lambda>(st, t). (st = SPACEX_SUCCESS, a\<lparr>app_tree := t\<rparr>)) (create_directory sys (path @ DISK_SRD_DIR) (app_tree a))"

definition check_or_init_disk ::
  "os \<Rightarrow> bytes \<Rightarrow> string \<Rightarrow> string \<Rightarrow> 'a app_scheme \<Rightarrow> (bool \<times> 'a app_scheme) option" where
  "check_or_init_disk sys rand behind path a =
     (let uuid_file = path @ DISK_UUID_FILE;
          save = (\<lambda>uuid a. map_option (\<lambda>(st, t). (st = SPACEX_SUCCESS, a\<lparr>app_tree := t\<rparr>))
                   (save_file_ex sys uuid_file (str_bytes uuid) SF_CREATE_DIR (app_tree a)))
      in if \<not> is_valid_or_normal_disk sys path (app_conf a) then Some (False, a)
         else if exists_path uuid_file (app_tree a) then
           (if \<not> is_disk_exist path a then
              let (st, data) = get_file_app uuid_file (app_tree a)
              in if st \<noteq> SPACEX_SUCCESS then Some (False, a)
                 else disk_srd_dir sys path (set_uuid_disk_path_map (c_string data behind) path a)
            else Some (True, a))
         else if \<not> is_disk_exist path a then
           (let uuid = json_hexstring (take UUID_LENGTH rand)
            in case save uuid a of
                 None \<Rightarrow> None
               | Some (ok, a1) \<Rightarrow>
                   if \<not> ok then Some (False, a1) else disk_srd_dir sys path (set_uuid_disk_path_map uuid path a1))
         else
           (case save (get_uuid path a) a of
              None \<Rightarrow> None
            | Some (ok, a1) \<Rightarrow> if \<not> ok then Some (False, a1) else disk_srd_dir sys path a1))"

section \<open>Sharing a task out\<close>

abbreviation (input) WL_DISK_AVAILABLE :: string where "WL_DISK_AVAILABLE \<equiv> ''disk_available''"
abbreviation (input) WL_DISK_AVAILABLE_FOR_SRD :: string where "WL_DISK_AVAILABLE_FOR_SRD \<equiv> ''disk_available_for_srd''"
abbreviation (input) WL_DISK_VOLUME :: string where "WL_DISK_VOLUME \<equiv> ''disk_volume''"
abbreviation (input) WL_DISK_PATH :: string where "WL_DISK_PATH \<equiv> ''disk_path''"
abbreviation (input) WL_DISK_USE :: string where "WL_DISK_USE \<equiv> ''disk_use''"
abbreviation (input) WL_DISK_UUID :: string where "WL_DISK_UUID \<equiv> ''disk_uuid''"

definition disk_entry :: "os \<Rightarrow> string \<Rightarrow> string \<Rightarrow> JSON" where
  "disk_entry sys path uuid =
     (let avail = uint (get_avail_space_under_dir_g sys path);
          j1 = jset JNull WL_DISK_AVAILABLE (JIntegral avail);
          j2 = jset j1 WL_DISK_VOLUME (JIntegral (uint (get_total_space_under_dir_g sys path)));
          j3 = jset j2 WL_DISK_AVAILABLE_FOR_SRD (JIntegral (if avail \<le> get_reserved_space then 0 else avail - get_reserved_space))
      in jset (jset j3 WL_DISK_UUID (JString uuid)) WL_DISK_PATH (JString path))"

text \<open>The disks that are usable, in the order of the paths; \<open>rand\<close> and \<open>behind\<close> may differ for each.\<close>

fun disk_entries ::
  "os \<Rightarrow> (string \<Rightarrow> bytes) \<Rightarrow> (string \<Rightarrow> string) \<Rightarrow> string list \<Rightarrow> 'a app_scheme \<Rightarrow> (JSON list \<times> 'a app_scheme) option" where
  "disk_entries sys rand behind [] a = Some ([], a)"
| "disk_entries sys rand behind (path # paths) a =
     (case check_or_init_disk sys (rand path) (behind path) path a of
        None \<Rightarrow> None
      | Some (ok, a1) \<Rightarrow>
          map_option (\<lambda>(ds, a2). (if ok then disk_entry sys path (get_uuid path a1) # ds else ds, a2))
            (disk_entries sys rand behind paths a1))"

definition disk_left :: "JSON \<Rightarrow> int" where
  "disk_left d = ToInt (jget d WL_DISK_AVAILABLE_FOR_SRD) - ToInt (jget d WL_DISK_USE)"

text \<open>One round over the disks, each of which takes one gigabyte: what is left, whether a disk took one, and the disks.\<close>

fun use_round :: "int \<Rightarrow> JSON list \<Rightarrow> int \<times> bool \<times> JSON list" where
  "use_round change [] = (change, False, [])"
| "use_round change (d # ds) =
     (if change > 0 then
        if disk_left d > 0 then
          (let (c, _, ds') = use_round (change - 1) ds in (c, True, jupd d WL_DISK_USE (AddNum 1) # ds'))
        else (let (c, avail, ds') = use_round change ds in (c, avail, d # ds'))
      else (change, False, d # ds))"

lemma use_round_decreases:
  "use_round change ds = (c, avail, ds') \<Longrightarrow> 0 \<le> change \<Longrightarrow> 0 \<le> c \<and> c \<le> change \<and> (avail \<longleftrightarrow> c < change)"
proof (induction ds arbitrary: change c avail ds')
  case (Cons d ds)
  show ?case
  proof (cases "0 < change")
    case True
    obtain c1 a1 ds1 where r: "use_round (if 0 < disk_left d then change - 1 else change) ds = (c1, a1, ds1)" by (metis prod_cases3)
    have "0 \<le> c1 \<and> c1 \<le> (if 0 < disk_left d then change - 1 else change) \<and> (a1 \<longleftrightarrow> c1 < (if 0 < disk_left d then change - 1 else change))"
      using Cons.IH [OF r] True by simp
    then show ?thesis using Cons.prems(1) True r by (auto split: if_splits)
  qed (use Cons.prems in auto)
qed auto

function share_out :: "int \<Rightarrow> JSON list \<Rightarrow> int \<times> JSON list" where
  "share_out change ds =
     (if change > 0 then
        (case use_round change ds of (c, avail, ds') \<Rightarrow> if avail then share_out c ds' else (c, ds'))
      else (change, ds))"
  by pat_completeness auto
termination
  by (relation "measure (\<lambda>(change, _). nat change)") (auto dest: use_round_decreases [OF sym])

declare share_out.simps [simp del]

definition get_increase_srd_info_r ::
  "os \<Rightarrow> (string \<Rightarrow> bytes) \<Rightarrow> (string \<Rightarrow> string) \<Rightarrow> int \<Rightarrow> 'a app_scheme \<Rightarrow> (int \<times> JSON \<times> 'a app_scheme) option" where
  "get_increase_srd_info_r sys rand behind change a =
     map_option (\<lambda>(ds, a'). let (left, ds') = share_out change ds in (left, JArray ds', a'))
       (disk_entries sys rand behind (get_data_paths (app_conf a)) a)"

definition get_increase_srd_info ::
  "os \<Rightarrow> (string \<Rightarrow> bytes) \<Rightarrow> (string \<Rightarrow> string) \<Rightarrow> int \<Rightarrow> 'a app_scheme \<Rightarrow> (int \<times> JSON \<times> 'a app_scheme) option" where
  "get_increase_srd_info sys rand behind change a =
     map_option (\<lambda>(left, disk_json, a').
         (left, JArray (filter (\<lambda>info. ToInt (jget info WL_DISK_USE) > 0) (ArrayRange disk_json)), a'))
       (get_increase_srd_info_r sys rand behind change a)"

definition get_disk_info ::
  "os \<Rightarrow> (string \<Rightarrow> bytes) \<Rightarrow> (string \<Rightarrow> string) \<Rightarrow> 'a app_scheme \<Rightarrow> (JSON \<times> 'a app_scheme) option" where
  "get_disk_info sys rand behind a = map_option snd (get_increase_srd_info_r sys rand behind 0 a)"

section \<open>What each disk gets\<close>

abbreviation (input) avail_srd :: "JSON \<Rightarrow> int" where "avail_srd d \<equiv> ToInt (jget d WL_DISK_AVAILABLE_FOR_SRD)"
abbreviation (input) disk_use :: "JSON \<Rightarrow> int" where "disk_use d \<equiv> ToInt (jget d WL_DISK_USE)"

definition disk_ok :: "JSON \<Rightarrow> bool" where
  "disk_ok d \<longleftrightarrow> JSONType d = CObject \<and> num_wf (jget d WL_DISK_USE) \<and> 0 \<le> disk_use d \<and> disk_use d \<le> avail_srd d \<and> avail_srd d < 2 ^ 62"

text \<open>The disk keeps everything but its use, which grows by one or not.\<close>

definition disk_step :: "bool \<Rightarrow> JSON \<Rightarrow> JSON \<Rightarrow> bool" where
  "disk_step must d d' \<longleftrightarrow> disk_ok d' \<and> (\<forall>k. k \<noteq> WL_DISK_USE \<longrightarrow> jget d' k = jget d k) \<and>
     (disk_use d' = disk_use d \<and> (must \<longrightarrow> disk_use d = avail_srd d) \<or> disk_use d < avail_srd d \<and> disk_use d' = disk_use d + 1)"

lemma disk_step_refl: "disk_ok d \<Longrightarrow> (must \<Longrightarrow> disk_use d = avail_srd d) \<Longrightarrow> disk_step must d d"
  by (simp add: disk_step_def)

lemma disk_use_add:
  assumes "disk_ok d" and "0 < disk_left d"
  shows "disk_use (jupd d WL_DISK_USE (AddNum 1)) = disk_use d + 1" and "num_wf (jget (jupd d WL_DISK_USE (AddNum 1)) WL_DISK_USE)"
proof -
  have "long_wrap (disk_use d + 1) = disk_use d + 1" using assms by (simp add: disk_ok_def disk_left_def long_wrap_id)
  then show "disk_use (jupd d WL_DISK_USE (AddNum 1)) = disk_use d + 1" and "num_wf (jget (jupd d WL_DISK_USE (AddNum 1)) WL_DISK_USE)"
    using assms(1) by (auto simp: disk_ok_def AddNum_num num_wf_def)
qed

lemma disk_step_add:
  assumes "disk_ok d" and "0 < disk_left d"
  shows "disk_step must d (jupd d WL_DISK_USE (AddNum 1))"
  using disk_use_add [OF assms] assms by (simp add: disk_step_def disk_ok_def disk_left_def)

lemma disk_ok_full: "disk_ok d \<Longrightarrow> \<not> 0 < disk_left d \<Longrightarrow> disk_use d = avail_srd d"
  by (simp add: disk_ok_def disk_left_def)

lemma use_round_steps:
  "use_round change ds = (c, avail, ds') \<Longrightarrow> list_all disk_ok ds \<Longrightarrow> 0 \<le> change \<Longrightarrow>
    list_all2 (disk_step (0 < c)) ds ds' \<and> sum_list (map disk_use ds') = sum_list (map disk_use ds) + (change - c)"
proof (induction ds arbitrary: change c avail ds')
  case (Cons d ds)
  show ?case
  proof (cases "0 < change")
    case False
    have "list_all2 (disk_step False) (d # ds) (d # ds)"
      using Cons.prems(2) by (intro list.rel_refl_strong disk_step_refl) (auto simp: list_all_iff)
    then show ?thesis using Cons.prems False by auto
  next
    case True
    let ?hit = "0 < disk_left d"
    obtain c1 a1 ds1 where r: "use_round (if ?hit then change - 1 else change) ds = (c1, a1, ds1)" by (metis prod_cases3)
    have out: "c = c1" "ds' = (if ?hit then jupd d WL_DISK_USE (AddNum 1) else d) # ds1"
      using Cons.prems(1) True r by (auto split: if_splits)
    have rest: "list_all2 (disk_step (0 < c)) ds ds1"
      "sum_list (map disk_use ds1) = sum_list (map disk_use ds) + ((if ?hit then change - 1 else change) - c)"
      using Cons.IH [OF r] Cons.prems(2) True out by auto
    have d: "disk_ok d" using Cons.prems(2) by simp
    show ?thesis
    proof (cases ?hit)
      case True
      then show ?thesis using rest out disk_step_add [OF d True] disk_use_add(1) [OF d True] by simp
    next
      case False
      then show ?thesis using rest out disk_step_refl [OF d] disk_ok_full [OF d False] by simp
    qed
  qed
qed simp

text \<open>Level \<open>k\<close>: every disk has \<open>k\<close> gigabytes of the task, or all it can have.\<close>

definition at_level :: "int \<Rightarrow> JSON \<Rightarrow> bool" where
  "at_level k d \<longleftrightarrow> disk_use d = min k (avail_srd d)"

lemma disk_step_level:
  assumes "disk_step must d d'" and "at_level k d" and "0 \<le> k"
  shows "disk_ok d'" and "at_level k d' \<or> at_level (k + 1) d'" and "must \<Longrightarrow> at_level (k + 1) d'"
proof -
  have av: "avail_srd d' = avail_srd d" using assms(1) by (simp add: disk_step_def)
  show "disk_ok d'" using assms(1) by (simp add: disk_step_def)
  show "at_level k d' \<or> at_level (k + 1) d'" "must \<Longrightarrow> at_level (k + 1) d'"
    using assms av by (auto simp: disk_step_def at_level_def)
qed

definition same_disk :: "JSON \<Rightarrow> JSON \<Rightarrow> bool" where
  "same_disk d d' \<longleftrightarrow> (\<forall>k. k \<noteq> WL_DISK_USE \<longrightarrow> jget d' k = jget d k)"

lemma steps_same_disk: "list_all2 (disk_step must) ds ds' \<Longrightarrow> list_all2 same_disk ds ds'"
  by (erule list_all2_mono) (simp add: disk_step_def same_disk_def)

lemma same_disk_trans: "list_all2 same_disk a b \<Longrightarrow> list_all2 same_disk b c \<Longrightarrow> list_all2 same_disk a c"
  by (rule list_all2_trans [of same_disk same_disk same_disk]) (auto simp: same_disk_def)

lemma steps_sum:
  "list_all2 (disk_step True) ds ds' \<Longrightarrow> sum_list (map disk_use ds) \<le> sum_list (map disk_use ds') \<and>
    (sum_list (map disk_use ds') = sum_list (map disk_use ds) \<longrightarrow> list_all (\<lambda>d. disk_use d = avail_srd d) ds')"
proof (induction rule: list_all2_induct)
  case (Cons d ds d' ds')
  have "avail_srd d' = avail_srd d" "disk_use d \<le> disk_use d'" "disk_use d' = disk_use d \<Longrightarrow> disk_use d' = avail_srd d'"
    using Cons.hyps(1) by (auto simp: disk_step_def)
  then show ?case using Cons.IH by auto
qed simp

lemma share_out_spec:
  assumes "list_all disk_ok ds" and "list_all (at_level k) ds" and "0 \<le> k" and "0 \<le> change"
  shows "case share_out change ds of (left, ds') \<Rightarrow>
    0 \<le> left \<and> sum_list (map disk_use ds') + left = sum_list (map disk_use ds) + change \<and> list_all disk_ok ds' \<and>
    list_all2 same_disk ds ds' \<and> (0 < left \<longrightarrow> list_all (\<lambda>d. disk_use d = avail_srd d) ds') \<and>
    (\<exists>k \<ge> 0. list_all (\<lambda>d. at_level k d \<or> at_level (k + 1) d) ds')"
  using assms
proof (induction change ds arbitrary: k rule: share_out.induct)
  case (1 change ds)
  show ?case
  proof (cases "0 < change")
    case False
    then show ?thesis using 1(2-5)
      by (subst share_out.simps) (auto simp: list_all_iff same_disk_def intro!: list.rel_refl exI [of _ k])
  next
    case True
    obtain c avail ds1 where r: "use_round change ds = (c, avail, ds1)" by (metis prod_cases3)
    note dec = use_round_decreases [OF r 1(5)]
    note st = use_round_steps [OF r 1(2,5)]
    have ok: "list_all disk_ok ds1" and lev: "list_all (\<lambda>d. at_level k d \<or> at_level (k + 1) d) ds1"
      and full: "0 < c \<Longrightarrow> list_all (at_level (k + 1)) ds1"
      using st disk_step_level 1(3,4) by (fastforce simp: list_all_length list_all2_conv_all_nth)+
    have same: "list_all2 same_disk ds ds1" using st steps_same_disk by blast
    show ?thesis
    proof (cases "avail \<and> 0 < c")
      case a: True
      have "case share_out c ds1 of (left, ds') \<Rightarrow>
        0 \<le> left \<and> sum_list (map disk_use ds') + left = sum_list (map disk_use ds1) + c \<and> list_all disk_ok ds' \<and>
        list_all2 same_disk ds1 ds' \<and> (0 < left \<longrightarrow> list_all (\<lambda>d. disk_use d = avail_srd d) ds') \<and>
        (\<exists>k \<ge> 0. list_all (\<lambda>d. at_level k d \<or> at_level (k + 1) d) ds')"
        using 1(1) [OF True r [symmetric] refl, of "k + 1"] a ok full 1(4) dec by simp
      then show ?thesis using a True r st same_disk_trans [OF same]
        by (subst share_out.simps) (auto split: prod.splits)
    next
      case b: False
      have res: "share_out change ds = (c, ds1)"
        using b True r dec by (subst share_out.simps) (auto simp: share_out.simps [of c])
      have "0 < c \<Longrightarrow> c = change" using b dec by auto
      then have "0 < c \<Longrightarrow> list_all (\<lambda>d. disk_use d = avail_srd d) ds1"
        using st steps_sum [of ds ds1] by auto
      then show ?thesis using res dec st ok same lev 1(4) by auto
    qed
  qed
qed

section \<open>A turn\<close>

text \<open>One round of the loop that starts the tasks: the disks for which a task is started, and what is left.\<close>

fun task_round :: "JSON list \<Rightarrow> string list \<times> JSON list" where
  "task_round [] = ([], [])"
| "task_round (d # ds) =
     (let (us, ds') = task_round ds
      in if disk_use d > 0 then (ToString (jget d WL_DISK_UUID) # us, jupd d WL_DISK_USE (AddNum (- 1)) # ds') else (us, d # ds'))"

function srd_tasks :: "int \<Rightarrow> JSON list \<Rightarrow> string list" where
  "srd_tasks task ds =
     (if task > 0 then
        (case task_round ds of (us, ds') \<Rightarrow> if us = [] then [] else us @ srd_tasks (task - int (length us)) ds')
      else [])"
  by pat_completeness auto
termination
  by (relation "measure (\<lambda>(task, _). nat task)") (auto simp: length_greater_0_conv [symmetric] simp del: length_greater_0_conv)

declare srd_tasks.simps [simp del]

text \<open>
  A task of the pool: one gigabyte on the disk, in a place of the enclave. A call that got no place, or
  did not reach the enclave, counts as failed. The tasks run one after the other here; each holds the enclave's
  locks while it changes the enclave.
\<close>

definition increase_task ::
  "'b srd_scheme gate \<Rightarrow> env \<Rightarrow> string \<Rightarrow> 'a app_scheme \<times> enclave_queue \<times> 'b srd_scheme \<Rightarrow>
   (spacex_status \<times> 'a app_scheme \<times> enclave_queue \<times> 'b srd_scheme) option" where
  "increase_task g e uuid st =
     (case st of (a, c) \<Rightarrow>
        map_option (\<lambda>(ret, r, q, s).
            (case r of Some x \<Rightarrow> x | None \<Rightarrow> SPACEX_SGX_FAILED, decrease_running_srd_task a, q, s))
          (Ecall_srd_increase g e uuid c))"

fun run_tasks ::
  "'b srd_scheme gate \<Rightarrow> env \<Rightarrow> string list \<Rightarrow> nat \<Rightarrow> 'a app_scheme \<times> enclave_queue \<times> 'b srd_scheme \<Rightarrow>
   (nat \<times> 'a app_scheme \<times> enclave_queue \<times> 'b srd_scheme) option" where
  "run_tasks g e [] n st = Some (n, st)"
| "run_tasks g e (uuid # uuids) n st =
     (case increase_task g e uuid st of
        None \<Rightarrow> None
      | Some (ret, st') \<Rightarrow> run_tasks g e uuids (if ret = SPACEX_SUCCESS then Suc n else n) st')"

definition srd_change_app ::
  "os \<Rightarrow> (string \<Rightarrow> bytes) \<Rightarrow> (string \<Rightarrow> string) \<Rightarrow> 'b srd_scheme gate \<Rightarrow> env \<Rightarrow> int \<Rightarrow>
   'a app_scheme \<times> enclave_queue \<times> 'b srd_scheme \<Rightarrow> (spacex_status \<times> 'a app_scheme \<times> enclave_queue \<times> 'b srd_scheme) option" where
  "srd_change_app sys rand behind g e change st =
     (case st of (a, c) \<Rightarrow>
        if change > 0 then
          (case get_increase_srd_info sys rand behind change a of
             None \<Rightarrow> None
           | Some (left_task, inc_srd_json, a1) \<Rightarrow>
               let true_increase = change - left_task;
                   ret = (if left_task > 0 then SPACEX_SRD_NUMBER_EXCEED else SPACEX_SUCCESS)
               in if true_increase \<le> 0 then Some (SPACEX_SRD_NUMBER_EXCEED, a1, c)
                  else (case run_tasks g e (srd_tasks true_increase (ArrayRange inc_srd_json)) 0 (set_running_srd_task true_increase a1, c) of
                          None \<Rightarrow> None
                        | Some (n, a2, c2) \<Rightarrow>
                            if int n < true_increase then
                              map_option (\<lambda>(_, _, c3). (ret, set_running_srd_task 0 a2, c3))
                                (Ecall_change_srd_task g e (true_increase - int n) 0 c2)
                            else Some (ret, set_running_srd_task 0 a2, c2)))
        else if change < 0 then
          map_option (\<lambda>(_, _, c'). (SPACEX_SUCCESS, set_running_srd_task 0 (set_running_srd_task change a), c'))
            (Ecall_srd_decrease g e (nat (- change)) c)
        else Some (SPACEX_SUCCESS, a, c))"

section \<open>Every share is started as often as it is large\<close>

definition share_of :: "string \<Rightarrow> JSON list \<Rightarrow> int" where
  "share_of u ds = sum_list (map (\<lambda>d. if ToString (jget d WL_DISK_UUID) = u then disk_use d else 0) ds)"

lemma disk_use_sub:
  assumes "disk_ok d" and "0 < disk_use d"
  defines "d' \<equiv> jupd d WL_DISK_USE (AddNum (- 1))"
  shows "disk_ok d'" and "disk_use d' = disk_use d - 1" and "jget d' WL_DISK_UUID = jget d WL_DISK_UUID"
proof -
  have w: "long_wrap (disk_use d + - 1) = disk_use d - 1" using assms(1,2) by (simp add: disk_ok_def long_wrap_id)
  then show u: "disk_use d' = disk_use d - 1"
    using assms(1) by (auto simp: d'_def disk_ok_def AddNum_num)
  show "jget d' WL_DISK_UUID = jget d WL_DISK_UUID" using assms(1) by (auto simp: d'_def disk_ok_def)
  show "disk_ok d'" using assms(1,2) u unfolding disk_ok_def
    by (auto simp: d'_def AddNum_num num_wf_def)
qed

lemma task_round_spec:
  "task_round ds = (us, ds') \<Longrightarrow> list_all disk_ok ds \<Longrightarrow>
    list_all disk_ok ds' \<and> sum_list (map disk_use ds) = sum_list (map disk_use ds') + int (length us) \<and>
    (us = [] \<longrightarrow> sum_list (map disk_use ds) = 0 \<and> share_of u ds = 0) \<and> share_of u ds = share_of u ds' + int (count_list us u)"
proof (induction ds arbitrary: us ds')
  case (Cons d ds)
  obtain us1 ds1 where r: "task_round ds = (us1, ds1)" by (metis prod.exhaust)
  have d: "disk_ok d" using Cons.prems(2) by simp
  note IH = Cons.IH [OF r]
  show ?case
  proof (cases "0 < disk_use d")
    case True
    then show ?thesis using Cons.prems r IH disk_use_sub [OF d True] by (auto simp: share_of_def)
  next
    case False
    then have "disk_use d = 0" using d by (simp add: disk_ok_def)
    then show ?thesis using Cons.prems r IH by (auto simp: share_of_def)
  qed
qed (simp add: share_of_def)

lemma sum_use_nonneg: "list_all disk_ok ds \<Longrightarrow> 0 \<le> sum_list (map disk_use ds)"
  by (induction ds) (auto simp: disk_ok_def)

lemma no_use_no_share: "list_all disk_ok ds \<Longrightarrow> sum_list (map disk_use ds) \<le> 0 \<Longrightarrow> share_of u ds = 0"
proof (induction ds)
  case (Cons d ds)
  have "0 \<le> disk_use d" using Cons.prems(1) by (simp add: disk_ok_def)
  moreover have "0 \<le> sum_list (map disk_use ds)" using Cons.prems(1) by (intro sum_use_nonneg) simp
  ultimately show ?case using Cons by (auto simp: share_of_def)
qed (simp add: share_of_def)

lemma srd_tasks_shares:
  "list_all disk_ok ds \<Longrightarrow> task = sum_list (map disk_use ds) \<Longrightarrow>
    int (length (srd_tasks task ds)) = task \<and> int (count_list (srd_tasks task ds) u) = share_of u ds"
proof (induction task ds rule: srd_tasks.induct)
  case (1 task ds)
  obtain us ds' where r: "task_round ds = (us, ds')" by (metis prod.exhaust)
  note sp = task_round_spec [OF r 1(2), of u]
  show ?case
  proof (cases "0 < task")
    case True
    then have us: "us \<noteq> []" using sp 1(3) by auto
    have "int (length (srd_tasks (task - int (length us)) ds')) = task - int (length us) \<and>
        int (count_list (srd_tasks (task - int (length us)) ds') u) = share_of u ds'"
      using 1(1) [OF True r [symmetric] us] sp 1(3) by simp
    then show ?thesis using True r us sp by (subst (1 2) srd_tasks.simps) auto
  next
    case False
    then have "task = 0" using 1(2,3) sum_use_nonneg by fastforce
    then show ?thesis using 1 no_use_no_share by (subst (1 2) srd_tasks.simps) auto
  qed
qed

lemma run_tasks_bound: "run_tasks g e us n st = Some (n', st') \<Longrightarrow> n \<le> n' \<and> n' \<le> n + length us"
proof (induction us arbitrary: n st)
  case (Cons u us)
  then obtain ret st1 where "run_tasks g e us (if ret = SPACEX_SUCCESS then Suc n else n) st1 = Some (n', st')"
    by (auto split: option.splits)
  from Cons.IH [OF this] show ?case by (auto split: if_splits)
qed simp

lemma filter_used:
  "list_all disk_ok ds \<Longrightarrow> list_all disk_ok (filter (\<lambda>d. disk_use d > 0) ds) \<and>
    sum_list (map disk_use (filter (\<lambda>d. disk_use d > 0) ds)) = sum_list (map disk_use ds) \<and>
    share_of u (filter (\<lambda>d. disk_use d > 0) ds) = share_of u ds"
  by (induction ds) (auto simp: disk_ok_def share_of_def)

text \<open>The entries start without a use.\<close>

lemma disk_entry_ok: "disk_ok (disk_entry sys path uuid) \<and> disk_use (disk_entry sys path uuid) = 0"
proof -
  have "uint (get_avail_space_under_dir_g sys path) < 2 ^ 34"
    using avail_space_g_bound [of sys path] by (simp add: word_less_def)
  then show ?thesis by (simp add: disk_ok_def disk_entry_def Let_def get_reserved_space_def num_wf_def)
qed

lemma disk_entries_ok:
  "disk_entries sys rand behind paths a = Some (ds, a') \<Longrightarrow> list_all (\<lambda>d. disk_ok d \<and> disk_use d = 0) ds"
proof (induction paths arbitrary: a ds)
  case (Cons path paths)
  then show ?case using disk_entry_ok [of sys path] by (auto split: option.splits if_splits)
qed simp

lemma sum_use_zero: "list_all (\<lambda>d. disk_ok d \<and> disk_use d = 0) ds \<Longrightarrow> sum_list (map disk_use ds) = 0"
  by (induction ds) auto

text \<open>
  What \<open>get_increase_srd_info\<close> gives: with \<open>full\<close> the disks as they are shared out, the task is split into the part on
  the disks and the part that is left, no disk gets more than it can have, something is left only when
  every disk is full, and the shares differ by at most one gigabyte between disks that are not full.
\<close>

lemma get_increase_srd_info_spec:
  assumes "get_increase_srd_info sys rand behind change a = Some (left, inc, a')" and "0 \<le> change"
  shows "\<exists>full. get_increase_srd_info_r sys rand behind change a = Some (left, JArray full, a') \<and>
    inc = JArray (filter (\<lambda>d. disk_use d > 0) full) \<and> list_all disk_ok full \<and> 0 \<le> left \<and>
    sum_list (map disk_use full) + left = change \<and> (0 < left \<longrightarrow> list_all (\<lambda>d. disk_use d = avail_srd d) full) \<and>
    (\<exists>k \<ge> 0. list_all (\<lambda>d. disk_use d = min k (avail_srd d) \<or> disk_use d = min (k + 1) (avail_srd d)) full)"
proof -
  obtain ds a1 where ds: "disk_entries sys rand behind (get_data_paths (app_conf a)) a = Some (ds, a1)"
    using assms(1) by (cases "disk_entries sys rand behind (get_data_paths (app_conf a)) a")
      (auto simp: get_increase_srd_info_def get_increase_srd_info_r_def)
  obtain l full where so: "share_out change ds = (l, full)" by (metis prod.exhaust)
  have r: "get_increase_srd_info_r sys rand behind change a = Some (l, JArray full, a1)"
    by (simp add: get_increase_srd_info_r_def ds so)
  have out: "left = l" "a' = a1" "inc = JArray (filter (\<lambda>d. disk_use d > 0) full)"
    using assms(1) by (simp_all add: get_increase_srd_info_def r ArrayRange_def)
  have z: "list_all (\<lambda>d. disk_ok d \<and> disk_use d = 0) ds" by (rule disk_entries_ok [OF ds])
  then have ok: "list_all disk_ok ds" and lev: "list_all (at_level 0) ds" by (auto simp: list_all_iff at_level_def disk_ok_def)
  from share_out_spec [OF ok lev _ assms(2)] show ?thesis
    unfolding so by (intro exI [of _ full]) (simp add: r out sum_use_zero [OF z] at_level_def)
qed

text \<open>A turn loses nothing: the gigabytes made, the ones put back into the enclave's task, and the ones that did not fit.\<close>

lemma srd_change_app_accounts:
  fixes a :: "'a app_scheme"
  assumes "srd_change_app sys rand behind g e change (a, c) = Some (ret, a', c')" and "0 < change"
  shows "\<exists>left n. 0 \<le> left \<and> 0 \<le> n \<and> left + n \<le> change \<and> (ret = SPACEX_SUCCESS \<longrightarrow> left = 0) \<and>
    (left = change \<and> c' = c \<or>
     (\<exists>us (a1 :: 'a app_scheme) a2 c2. int (length us) = change - left \<and> run_tasks g e us 0 (a1, c) = Some (nat n, a2, c2) \<and>
       (if left + n = change then c' = c2
        else \<exists>x y. Ecall_change_srd_task g e (change - left - n) 0 c2 = Some (x, y, c'))))"
proof -
  obtain left inc a1 where i: "get_increase_srd_info sys rand behind change a = Some (left, inc, a1)"
    using assms by (auto simp: srd_change_app_def split: option.splits)
  from get_increase_srd_info_spec [OF i] assms(2) obtain full where full: "list_all disk_ok full" "0 \<le> left"
    "sum_list (map disk_use full) + left = change" "inc = JArray (filter (\<lambda>d. disk_use d > 0) full)" by auto
  let ?us = "srd_tasks (change - left) (ArrayRange inc)"
  have len: "int (length ?us) = change - left"
    using srd_tasks_shares [of "ArrayRange inc" "change - left" "[]"] filter_used [OF full(1), of "[]"] full(3,4) by (simp add: ArrayRange_def)
  show ?thesis
  proof (cases "change - left \<le> 0")
    case True
    have "0 \<le> sum_list (map disk_use full)" by (rule sum_use_nonneg [OF full(1)])
    then have "left = change" using True full(3) by simp
    moreover have "ret = SPACEX_SRD_NUMBER_EXCEED" "c' = c" using assms True by (auto simp: srd_change_app_def i Let_def)
    ultimately show ?thesis using assms(2) by (intro exI [of _ left] exI [of _ 0]) auto
  next
    case False
    then obtain n a2 c2 where r: "run_tasks g e ?us 0 (set_running_srd_task (change - left) a1, c) = Some (n, a2, c2)"
      using assms by (auto simp: srd_change_app_def i Let_def split: option.splits)
    have n: "int n \<le> change - left" using run_tasks_bound [OF r] len by simp
    have ret: "ret = (if left > 0 then SPACEX_SRD_NUMBER_EXCEED else SPACEX_SUCCESS)"
      and c': "if left + int n = change then c' = c2 else \<exists>x y. Ecall_change_srd_task g e (change - left - int n) 0 c2 = Some (x, y, c')"
      using assms False r n by (auto simp: srd_change_app_def i Let_def split: if_splits)
    have run: "int (length ?us) = change - left \<and>
        run_tasks g e ?us 0 (set_running_srd_task (change - left) a1, c) = Some (nat (int n), a2, c2) \<and>
        (if left + int n = change then c' = c2 else \<exists>x y. Ecall_change_srd_task g e (change - left - int n) 0 c2 = Some (x, y, c'))"
      using len r c' by simp
    have "0 \<le> left \<and> 0 \<le> int n \<and> left + int n \<le> change \<and> (ret = SPACEX_SUCCESS \<longrightarrow> left = 0)"
      using full(2) n ret by auto
    note bounds = this
    show ?thesis
    proof (rule exI [of _ left], rule exI [of _ "int n"], intro conjI)
      show "left = change \<and> c' = c \<or>
        (\<exists>us (a1 :: 'a app_scheme) a2 c2. int (length us) = change - left \<and> run_tasks g e us 0 (a1, c) = Some (nat (int n), a2, c2) \<and>
          (if left + int n = change then c' = c2
           else \<exists>x y. Ecall_change_srd_task g e (change - left - int n) 0 c2 = Some (x, y, c')))"
        by (rule disjI2, rule exI [of _ ?us], (rule exI)+, rule run)
    qed (use bounds in auto)
  qed
qed

end
