(* ===== verification/SrdReserve.thy ===== *)
theory SrdReserve
  imports AppSrd
begin

text \<open>
  The watch over the space that has to stay free, \<open>srd_check_reserved\<close> in \<open>src/src/app/process/Srd.cpp\<close>: when a disk has less
  than 50 gigabytes left, the application asks the enclave to remove random data from it. The request is
  built from the information that the enclave sent last; as long as this information is right, the loop in the
  enclave that picks the items stays inside its vector.
\<close>

section \<open>The request\<close>

definition srd_on_disk :: "string \<Rightarrow> 'a enclave_data_scheme \<Rightarrow> int" where
  "srd_on_disk uuid d = ToInt (jget (jget (get_srd_info_app d) WL_SRD_DETAIL) uuid)"

definition del_space :: "os \<Rightarrow> 'a app_scheme \<Rightarrow> string \<Rightarrow> int" where
  "del_space sys a path =
     (let avail_space = uint (get_avail_space_under_dir_g sys path)
      in if avail_space < get_reserved_space
         then min (get_reserved_space - avail_space) (srd_on_disk (get_uuid path a) a) else 0)"

definition reserve_request :: "os \<Rightarrow> 'a app_scheme \<Rightarrow> string list \<Rightarrow> JSON \<Rightarrow> JSON" where
  "reserve_request sys a paths srd_del_json =
     fold (\<lambda>path del. if del_space sys a path > 0 then jupd del (get_uuid path a) (AddNum (del_space sys a path)) else del)
       paths srd_del_json"

definition squeeze :: "string \<Rightarrow> string" where
  "squeeze s = remove_char (remove_char (remove_char s (CHR '' '')) (CHR 0x5C)) (CHR 0x0A)"

definition reserve_turn ::
  "os \<Rightarrow> 'b workload_scheme gate \<Rightarrow> env \<Rightarrow> float_lib \<Rightarrow> 'a app_scheme \<times> enclave_queue \<times> 'b workload_scheme \<Rightarrow>
   ('a app_scheme \<times> enclave_queue \<times> 'b workload_scheme) option" where
  "reserve_turn sys g e fl st =
     (case st of (a, c) \<Rightarrow>
        let srd_del_json = reserve_request sys a (get_data_paths (app_conf a)) JNull;
            a' = a\<lparr>app_conf := refresh_data_paths sys (app_conf a)\<rparr>
        in if json_size srd_del_json > 0
           then map_option (\<lambda>(_, _, c'). (a', c')) (Ecall_srd_remove_space g e fl (squeeze (dump_json e srd_del_json)) c)
           else Some (a', c))"

text \<open>The ten seconds between two turns; the first component tells whether to stop.\<close>

fun reserve_wait :: "(nat \<Rightarrow> 's \<Rightarrow> 's) \<Rightarrow> ('s \<Rightarrow> bool) \<Rightarrow> nat list \<Rightarrow> 's \<Rightarrow> bool \<times> 's" where
  "reserve_wait other stop [] st = (False, st)"
| "reserve_wait other stop (i # is) st = (if stop st then (True, st) else reserve_wait other stop is (other i st))"

text \<open>\<open>srd_check_reserved\<close> for at most \<open>n\<close> turns.\<close>

fun srd_check_reserved ::
  "os \<Rightarrow> 'b workload_scheme gate \<Rightarrow> env \<Rightarrow> float_lib \<Rightarrow>
   (nat \<Rightarrow> nat \<Rightarrow> 'a app_scheme \<times> enclave_queue \<times> 'b workload_scheme \<Rightarrow> 'a app_scheme \<times> enclave_queue \<times> 'b workload_scheme) \<Rightarrow>
   nat \<Rightarrow> 'a app_scheme \<times> enclave_queue \<times> 'b workload_scheme \<Rightarrow>
   (bool \<times> 'a app_scheme \<times> enclave_queue \<times> 'b workload_scheme) option" where
  "srd_check_reserved sys g e fl other 0 st = Some (get_upgrade_status_app (fst st) = UPGRADE_STATUS_EXIT, st)"
| "srd_check_reserved sys g e fl other (Suc n) st =
     (if get_upgrade_status_app (fst st) = UPGRADE_STATUS_EXIT then Some (True, st)
      else case reserve_turn sys g e fl st of
             None \<Rightarrow> None
           | Some st1 \<Rightarrow>
               (case reserve_wait (other n) (\<lambda>st. get_upgrade_status_app (fst st) = UPGRADE_STATUS_EXIT) [0..<10] st1 of
                  (stop, st2) \<Rightarrow> if stop then Some (True, st2) else srd_check_reserved sys g e fl other n st2))"

section \<open>The text of a request\<close>

text \<open>Without blanks and line breaks the indented form is the compact one.\<close>

lemma squeeze_filter: "squeeze s = filter (\<lambda>c. c \<noteq> CHR '' '' \<and> c \<noteq> CHR 0x5C \<and> c \<noteq> CHR 0x0A) s"
  unfolding squeeze_def remove_char_def filter_filter by (rule filter_cong) auto

definition dense :: "string \<Rightarrow> bool" where
  "dense s \<longleftrightarrow> list_all (\<lambda>c. c \<noteq> CHR '' '' \<and> c \<noteq> CHR 0x5C \<and> c \<noteq> CHR 0x0A) s"

lemma squeeze_append [simp]: "squeeze (s @ t) = squeeze s @ squeeze t"
  by (simp add: squeeze_filter)

lemma squeeze_Nil [simp]: "squeeze [] = []"
  by (simp add: squeeze_filter)

lemma squeeze_dense: "dense s \<Longrightarrow> squeeze s = s"
  by (simp add: squeeze_filter dense_def list_all_iff filter_id_conv)

lemma dense_int: "dense (int_to_string i)"
proof -
  have "is_digit c \<Longrightarrow> c \<noteq> CHR '' '' \<and> c \<noteq> CHR 0x5C \<and> c \<noteq> CHR 0x0A" for c by (auto simp: is_digit_def)
  then show ?thesis
    using nat_to_string_digits [of "nat i"] nat_to_string_digits [of "nat (- i)"]
    by (auto simp: dense_def int_to_string_def list_all_iff)
qed

lemma squeeze_sep_by: "squeeze (sep_by s xs) = sep_by (squeeze s) (map squeeze xs)"
  by (induction s xs rule: sep_by.induct) auto

definition flat_value :: "JSON \<Rightarrow> bool" where
  "flat_value v \<longleftrightarrow> (\<exists>i. v = JIntegral i) \<or> (\<exists>t. v = JString t \<and> dense t \<and> json_plain t)"

lemma json_escape_pad_plain: "json_plain t \<Longrightarrow> json_escape_pad t pad = t"
proof (induction t)
  case (Cons c t)
  then have "c \<noteq> CHR 0x0A" "json_escape_char c = [c]" "json_plain t" by (auto simp: json_plain_def json_escape_char_def)
  then show ?case using Cons.IH by simp
qed simp

lemma squeeze_quoted: "dense t \<Longrightarrow> squeeze (quoted t) = quoted t"
  using squeeze_append [of "[CHR 0x22]" "t @ [CHR 0x22]"] by (simp add: quoted_def squeeze_dense squeeze_filter [of "[CHR 0x22]"])

lemma squeeze_flat_value: "flat_value v \<Longrightarrow> squeeze (dump fd n v) = dump_str v"
  by (auto simp: flat_value_def squeeze_dense [OF dense_int] json_escape_pad_plain json_escape_plain squeeze_quoted)

lemma squeeze_dump_flat:
  assumes "\<forall>(k, v) \<in> set m. dense k \<and> flat_value v"
  shows "squeeze (dump fd 1 (JObject m)) = dump_str (JObject m)"
proof -
  have blanks: "squeeze (json_pad n) = []" for n
    by (induction n) (auto simp: json_pad_def squeeze_filter)
  have "squeeze (json_pad 1 @ quoted (fst p) @ '' : '' @ dump fd (Suc 1) (snd p)) = quoted (fst p) @ '':'' @ dump_str (snd p)"
    if "p \<in> set m" for p
  proof -
    have d: "dense (fst p)" and v: "flat_value (snd p)" using assms that by auto
    have c: "squeeze '' : '' = '':''" by (simp add: squeeze_filter)
    show ?thesis by (simp only: squeeze_append blanks c append_Nil squeeze_quoted [OF d] squeeze_flat_value [OF v])
  qed
  then have m: "map squeeze (map (\<lambda>p. json_pad 1 @ quoted (fst p) @ '' : '' @ dump fd (Suc 1) (snd p)) m) =
      map (\<lambda>p. quoted (fst p) @ '':'' @ dump_str (snd p)) m" by simp
  have "squeeze ''{'' = ''{''" "squeeze newline = []" "squeeze ''}'' = ''}''" "squeeze ('','' @ newline) = '',''"
    by (simp_all add: squeeze_filter)
  moreover have "squeeze (drop 2 (json_pad 1)) = []" by (simp add: json_pad_def squeeze_filter)
  ultimately show ?thesis by (simp only: dump.simps squeeze_append squeeze_sep_by m) simp
qed

section \<open>What is asked for\<close>

text \<open>Each disk is asked once, for what is missing, and never for more than the enclave said it has there.\<close>

lemma del_space_bounds: "0 < del_space sys a path \<Longrightarrow> del_space sys a path \<le> 50 \<and> del_space sys a path \<le> srd_on_disk (get_uuid path a) a"
proof -
  have "0 \<le> x \<Longrightarrow> 0 < (if x < 50 then min (50 - x) y else 0) \<Longrightarrow>
      (if x < 50 then min (50 - x) y else 0) \<le> 50 \<and> (if x < 50 then min (50 - x) y else 0) \<le> y" for x y :: int
    by (cases "x < 50") (auto simp: min_def)
  from this [of "uint (get_avail_space_under_dir_g sys path)" "srd_on_disk (get_uuid path a) a"]
  show "0 < del_space sys a path \<Longrightarrow> ?thesis" by (simp only: del_space_def Let_def get_reserved_space_def) simp
qed

definition request_ok :: "JSON \<Rightarrow> bool" where
  "request_ok del \<longleftrightarrow> (case del of JNull \<Rightarrow> True | JObject m \<Rightarrow> om_sorted m \<and> (\<forall>(k, v) \<in> set m. \<exists>i. v = JIntegral i) | _ \<Rightarrow> False)"

lemma request_ok_put:
  assumes "request_ok del" and "jget del u = JNull" and "0 < n" and "n \<le> 50"
  shows "request_ok (jupd del u (AddNum n))" and "jget (jupd del u (AddNum n)) v = (if v = u then JIntegral n else jget del v)"
    and "set (ObjectRange (jupd del u (AddNum n))) \<subseteq> insert (u, JIntegral n) (set (ObjectRange del))"
proof -
  have w: "AddNum n JNull = JIntegral n" using assms(3,4) by (simp add: AddNum_num num_wf_def long_wrap_id)
  show "request_ok (jupd del u (AddNum n))" "set (ObjectRange (jupd del u (AddNum n))) \<subseteq> insert (u, JIntegral n) (set (ObjectRange del))"
    using assms(1,2) w set_om_put [of u "JIntegral n"]
    by (auto simp: request_ok_def jupd_def jset_def ObjectRange_def om_sorted_put om_sorted_def [of "[_]"] split: JSON.splits)
      (fastforce)+
  show "jget (jupd del u (AddNum n)) v = (if v = u then JIntegral n else jget del v)"
    using assms(1,2) w by (cases del) (auto simp: request_ok_def)
qed

lemma reserve_request_spec:
  assumes "distinct (map (\<lambda>p. get_uuid p a) paths)" and "request_ok del" and "\<forall>p \<in> set paths. jget del (get_uuid p a) = JNull"
  shows "request_ok (reserve_request sys a paths del) \<and>
    fst ` set (ObjectRange (reserve_request sys a paths del)) \<subseteq> fst ` set (ObjectRange del) \<union> (\<lambda>p. get_uuid p a) ` set paths \<and>
    (\<forall>u. jget (reserve_request sys a paths del) u =
      (case find (\<lambda>p. get_uuid p a = u) paths of
         Some p \<Rightarrow> if del_space sys a p > 0 then JIntegral (del_space sys a p) else JNull
       | None \<Rightarrow> jget del u))"
  using assms
proof (induction paths arbitrary: del)
  case (Cons p paths)
  let ?u = "get_uuid p a" and ?n = "del_space sys a p"
  let ?del = "if ?n > 0 then jupd del ?u (AddNum ?n) else del"
  have run: "reserve_request sys a (p # paths) del = reserve_request sys a paths ?del" by (simp add: reserve_request_def)
  have put: "request_ok ?del \<and> (\<forall>v. jget ?del v = (if v = ?u then (if ?n > 0 then JIntegral ?n else JNull) else jget del v)) \<and>
      fst ` set (ObjectRange ?del) \<subseteq> insert ?u (fst ` set (ObjectRange del))"
  proof (cases "?n > 0")
    case True
    have "jget del ?u = JNull" "?n \<le> 50" using Cons.prems(3) del_space_bounds [OF True] by auto
    note r = request_ok_put [OF Cons.prems(2) this(1) True this(2)]
    have "fst ` set (ObjectRange (jupd del ?u (AddNum ?n))) \<subseteq> fst ` insert (?u, JIntegral ?n) (set (ObjectRange del))"
      using r(3) by (rule image_mono)
    then show ?thesis using True r(1,2) by simp
  next
    case False
    then show ?thesis using Cons.prems(2,3) by auto
  qed
  define D where "D = ?del"
  define R where "R = reserve_request sys a paths D"
  have other: "\<forall>q \<in> set paths. get_uuid q a \<noteq> ?u" using Cons.prems(1) by (auto simp: image_iff)
  have none: "find (\<lambda>q. get_uuid q a = ?u) paths = None" using other by (auto simp: find_None_iff)
  have D: "request_ok D" "\<And>v. jget D v = (if v = ?u then (if ?n > 0 then JIntegral ?n else JNull) else jget del v)"
    "fst ` set (ObjectRange D) \<subseteq> insert ?u (fst ` set (ObjectRange del))"
    using put unfolding D_def by blast+
  have "\<forall>q \<in> set paths. jget D (get_uuid q a) = JNull" using other D(2) Cons.prems(3) by simp
  moreover have "distinct (map (\<lambda>p. get_uuid p a) paths)" using Cons.prems(1) by simp
  ultimately have R: "request_ok R" "fst ` set (ObjectRange R) \<subseteq> fst ` set (ObjectRange D) \<union> (\<lambda>p. get_uuid p a) ` set paths"
    "\<And>u. jget R u = (case find (\<lambda>p. get_uuid p a = u) paths of
       Some p \<Rightarrow> if del_space sys a p > 0 then JIntegral (del_space sys a p) else JNull | None \<Rightarrow> jget D u)"
    using Cons.IH [of D] D(1) unfolding R_def by blast+
  have "jget R u = (case find (\<lambda>p. get_uuid p a = u) (p # paths) of
       Some p \<Rightarrow> if del_space sys a p > 0 then JIntegral (del_space sys a p) else JNull | None \<Rightarrow> jget del u)" for u
    using none by (cases "u = ?u") (simp_all add: R(3) D(2) split: option.split)
  moreover have "fst ` set (ObjectRange R) \<subseteq> fst ` set (ObjectRange del) \<union> (\<lambda>p. get_uuid p a) ` set (p # paths)"
    using R(2) D(3) by auto
  ultimately show ?case using R(1) unfolding run D_def [symmetric] R_def [symmetric] by blast
qed (simp add: reserve_request_def)

text \<open>The information of the application is right about the items of the enclave.\<close>

definition srd_in_sync :: "'a enclave_data_scheme \<Rightarrow> bytes list \<Rightarrow> bool" where
  "srd_in_sync d hs \<longleftrightarrow> (\<forall>u. srd_on_disk u d \<le> int (disk_count hs u))"

lemma sum_changes:
  assumes "\<forall>(k, v) \<in> set m. \<exists>i. v = JIntegral i \<and> 0 \<le> i \<and> i \<le> 50" and "length m < 2 ^ 50" and "0 \<le> c" and "c + 50 * int (length m) < 2 ^ 62"
  shows "fold (\<lambda>item c. long_add c (ToInt (snd item))) m c = c + sum_list (map (\<lambda>p. ToInt (snd p)) m)"
  using assms
proof (induction m arbitrary: c)
  case (Cons p m)
  obtain i where i: "snd p = JIntegral i" "0 \<le> i" "i \<le> 50" using Cons.prems(1) by (cases p) auto
  have "long_add c i = c + i" using i Cons.prems(3,4) by (simp add: long_add_def long_wrap_id)
  moreover have "fold (\<lambda>item c. long_add c (ToInt (snd item))) m (c + i) = c + i + sum_list (map (\<lambda>p. ToInt (snd p)) m)"
    using Cons i by (intro Cons.IH) auto
  ultimately show ?case by (simp add: i)
qed simp

lemma sum_map_of:
  "distinct (map fst m) \<Longrightarrow> sum_list (map (\<lambda>p. ToInt (snd p)) m) = (\<Sum>u \<in> fst ` set m. need (JObject m) u)"
proof -
  assume d: "distinct (map fst m)"
  have "sum_list (map (\<lambda>p. ToInt (snd p)) m) = sum_list (map (need (JObject m)) (map fst m))"
    using d by (auto simp: need_def jget_def map_get_def intro!: arg_cong [where f = sum_list])
  also have "\<dots> = (\<Sum>u \<in> set (map fst m). need (JObject m) u)" by (rule sum_list_distinct_conv_sum_set [OF d])
  finally show ?thesis by simp
qed

text \<open>The request as the enclave reads it.\<close>

lemma request_reads_back:
  assumes "heap_ok e" and "reserve_request sys a paths JNull = JObject m" and "distinct (map (\<lambda>p. get_uuid p a) paths)"
    and "\<forall>p \<in> set paths. dense (get_uuid p a) \<and> json_plain (get_uuid p a) \<and> \<not> prefix HASH_TAG (get_uuid p a)"
  shows "Load e fl (squeeze (dump_json e (JObject m))) = POk (JObject m, SPACEX_SUCCESS)"
    and "om_sorted m" and "fst ` set m \<subseteq> (\<lambda>p. get_uuid p a) ` set paths"
    and "\<forall>(k, v) \<in> set m. \<exists>i. v = JIntegral i \<and> 0 < i \<and> i \<le> 50 \<and> i \<le> srd_on_disk k a"
proof -
  have sp: "request_ok (JObject m)" "fst ` set m \<subseteq> (\<lambda>p. get_uuid p a) ` set paths"
    "\<And>u. jget (JObject m) u = (case find (\<lambda>p. get_uuid p a = u) paths of
       Some p \<Rightarrow> if del_space sys a p > 0 then JIntegral (del_space sys a p) else JNull | None \<Rightarrow> JNull)"
    using reserve_request_spec [OF assms(3), of JNull sys] unfolding assms(2)
    by (simp_all add: request_ok_def ObjectRange_def del: find.simps cong: option.case_cong)
  then show so: "om_sorted m" and keys: "fst ` set m \<subseteq> (\<lambda>p. get_uuid p a) ` set paths" by (auto simp: request_ok_def)
  show vals: "\<forall>(k, v) \<in> set m. \<exists>i. v = JIntegral i \<and> 0 < i \<and> i \<le> 50 \<and> i \<le> srd_on_disk k a"
  proof clarify
    fix k v assume kv: "(k, v) \<in> set m"
    then have v: "jget (JObject m) k = v" using om_sorted_distinct [OF so] by (simp add: jget_def map_get_def)
    have "\<exists>i. v = JIntegral i" using kv sp(1) by (auto simp: request_ok_def)
    then obtain p where p: "find (\<lambda>p. get_uuid p a = k) paths = Some p" "0 < del_space sys a p" "v = JIntegral (del_space sys a p)"
      using v sp(3) [of k] by (auto split: option.splits if_splits)
    then have "get_uuid p a = k" by (auto simp: find_Some_iff)
    then show "\<exists>i. v = JIntegral i \<and> 0 < i \<and> i \<le> 50 \<and> i \<le> srd_on_disk k a" using p del_space_bounds [OF p(2)] by auto
  qed
  have k: "dense k \<and> json_plain k \<and> \<not> prefix HASH_TAG k" if "(k, v) \<in> set m" for k v
  proof -
    have "k \<in> (\<lambda>p. get_uuid p a) ` set paths" using that keys by force
    then show ?thesis using assms(4) by blast
  qed
  have "squeeze (dump_json e (JObject m)) = dump_str (JObject m)"
    unfolding dump_json_def by (rule squeeze_dump_flat) (use k vals in \<open>fastforce simp: flat_value_def\<close>)
  note squeezed = this
  have rt: "json_rt (JObject m)" using so k vals by fastforce
  show "Load e fl (squeeze (dump_json e (JObject m))) = POk (JObject m, SPACEX_SUCCESS)"
    using Load_dump_vector [OF assms(1) rt, of fl "double_to_string e" "[]"]
    unfolding squeezed dump_vector_str [OF rt] bytes_str_str_bytes append_Nil2 by simp
qed

text \<open>The composition: the enclave serves every request that was built from right information.\<close>

lemma request_is_served:
  assumes "heap_ok e" and "distinct (map (\<lambda>p. get_uuid p a) paths)" and "length paths < 2 ^ 50"
    and "\<forall>p \<in> set paths. dense (get_uuid p a) \<and> json_plain (get_uuid p a) \<and> \<not> prefix HASH_TAG (get_uuid p a)"
    and "srd_in_sync a (srd_hashs s)" and "json_size (reserve_request sys a paths JNull) > 0"
  shows "\<exists>s'. srd_remove_space e fl (squeeze (dump_json e (reserve_request sys a paths JNull))) s = Some s'"
proof -
  obtain m where m: "reserve_request sys a paths JNull = JObject m"
    using reserve_request_spec [OF assms(2), of JNull sys] assms(6)
    by (cases "reserve_request sys a paths JNull") (auto simp: request_ok_def json_size_def)
  note r = request_reads_back [OF assms(1) m assms(2,4)]
  let ?hs = "srd_hashs s" and ?U = "fst ` set m"
  let ?change = "fold (\<lambda>item c. long_add c (ToInt (snd item))) m 0"
  have "finite ((\<lambda>p. get_uuid p a) ` set paths)" by simp
  then have "card ?U \<le> length paths" using r(3) by (meson card_length card_image_le card_mono finite_set le_trans)
  then have len: "length m < 2 ^ 50" using assms(3) om_sorted_distinct [OF r(2)] by (metis distinct_card le_less_trans length_map set_map)
  have vals: "\<forall>(k, v) \<in> set m. \<exists>i. v = JIntegral i \<and> 0 \<le> i \<and> i \<le> 50" using r(4) by fastforce
  have "?change = sum_list (map (\<lambda>p. ToInt (snd p)) m)" using sum_changes [OF vals len, of 0] len by simp
  then have change: "?change = (\<Sum>u \<in> ?U. need (JObject m) u)" using sum_map_of om_sorted_distinct [OF r(2)] by simp
  have get: "jget (JObject m) u = JNull \<or> (\<exists>i. jget (JObject m) u = JIntegral i \<and> 0 < i \<and> i \<le> 50 \<and> i \<le> srd_on_disk u a)" for u
    using r(4) by (auto simp: jget_def map_get_def dest!: map_of_SomeD split: option.splits)
  have need: "0 \<le> need (JObject m) u \<and> need (JObject m) u < 2 ^ 63 \<and> need (JObject m) u \<le> int (disk_count ?hs u)" for u
    using get [of u] assms(5) by (auto simp: need_def srd_in_sync_def dest!: spec [of _ u])
  have inv: "remove_inv ?hs ?U (length ?hs) (JObject m) ?change"
    unfolding remove_inv_def
  proof (intro conjI allI)
    show "num_wf (jget (JObject m) u)" for u using get [of u] by (auto simp: num_wf_def)
    have "0 \<le> (\<Sum>u \<in> ?U. need (JObject m) u)" using need by (intro sum_nonneg) blast
    then show "0 \<le> ?change" "?change \<le> (\<Sum>u \<in> ?U. need (JObject m) u)" unfolding change by auto
  qed (use need in simp_all)
  show ?thesis
  proof (cases "?hs = []")
    case True
    then show ?thesis by (simp add: srd_remove_space_def m r(1) ObjectRange_def Let_def)
  next
    case False
    then have "length ?hs - 1 < length ?hs" "Suc (length ?hs - 1) = length ?hs" by simp_all
    with remove_loop_ok [OF assms(1), of ?U "length ?hs - 1" ?hs "JObject m" ?change "[]" "[]"] inv
    obtain srds idxs where "remove_loop e ?hs (length ?hs - 1) (JObject m) ?change [] [] = Some (srds, idxs)" by auto
    then show ?thesis using False by (simp add: srd_remove_space_def m r(1) ObjectRange_def Let_def)
  qed
qed

end
