(* ===== verification/Clients.thy ===== *)
theory Clients
  imports EnclaveData
begin

text \<open>
  The two clients of the application: the chain, \<open>src/src/app/chain/Chain.cpp\<close>, and IPFS, \<open>src/src/app/ipfs/Ipfs.cpp\<close>.

  The HTTP library below them is a parameter \<open>web\<close>: what a request is answered with after those sent
  before it. A response is a code and a body. The requests are kept in the state of a client, so the statements
  can speak of what was sent. Sleeping between two attempts has no effect on the state. A result \<open>None\<close>
  is an answer on which the JSON parser reads past its end, or a loop that does not end.
\<close>

section \<open>Requests\<close>

datatype http_request =
    HttpGet string
  | HttpGetBody string string "(string \<times> string) list"
  | HttpPost string string string "(string \<times> string) list"

record response =
  result_code :: int
  body :: string

type_synonym web = "http_request list \<Rightarrow> http_request \<Rightarrow> response"

record http_client =
  requests :: "http_request list"

definition http_do :: "web \<Rightarrow> http_request \<Rightarrow> 'a http_client_scheme \<Rightarrow> response \<times> 'a http_client_scheme" where
  "http_do web r c = (web (requests c) r, c\<lparr>requests := requests c @ [r]\<rparr>)"

abbreviation (input) http_ok :: "response \<Rightarrow> bool" where
  "http_ok res \<equiv> result_code res = 200"

text \<open>\<open>while (true)\<close> around a body that says whether to leave.\<close>

partial_function (option) poll :: "('s \<Rightarrow> (bool \<times> 's) option) \<Rightarrow> 's \<Rightarrow> 's option" where
  "poll step s = (case step s of None \<Rightarrow> None | Some (leave, s') \<Rightarrow> if leave then Some s' else poll step s')"

declare poll.simps [code]

text \<open>A loop whose body counts up to a point from which on it leaves comes to an end.\<close>

lemma poll_returns:
  assumes "P s" and step: "\<And>s. P s \<Longrightarrow> \<exists>leave s'. step s = Some (leave, s') \<and> P s' \<and> count s < (count s' :: nat) \<and> (n \<le> count s \<longrightarrow> leave)"
  shows "\<exists>s'. poll step s = Some s' \<and> P s' \<and> count s < count s'"
  using assms(1)
proof (induction "n - count s" arbitrary: s rule: less_induct)
  case less
  obtain leave s' where r: "step s = Some (leave, s')" "P s'" "count s < count s'" "n \<le> count s \<longrightarrow> leave"
    using step [OF less.prems] by blast
  show ?case
  proof (cases leave)
    case True
    then show ?thesis using r by (subst poll.simps) auto
  next
    case False
    then have "n - count s' < n - count s" using r(3,4) by linarith
    from less.hyps [OF this r(2)] r False show ?thesis by (subst poll.simps) auto
  qed
qed

section \<open>The chain\<close>

record chain = http_client +
  ch_url :: string
  ch_password :: string
  ch_backup :: string
  is_offline :: bool
  offline_block_height :: size_t
  height_key :: "string option"

record BlockHeader =
  bh_number :: size_t
  bh_hash :: string

abbreviation (input) offline_hash :: string where
  "offline_hash \<equiv> ''1000000000000000000000000000000000000000000000000000000000000001''"

definition Chain_init :: "string \<Rightarrow> string \<Rightarrow> string \<Rightarrow> bool \<Rightarrow> string option \<Rightarrow> chain" where
  "Chain_init url password_tmp backup_tmp offline key =
     \<lparr>requests = [], ch_url = url, ch_password = password_tmp, ch_backup = backup_tmp, is_offline = offline,
      offline_block_height = 0, height_key = key\<rparr>"

text \<open>
  The height of a run without a chain, under one key of the database. \<open>sstream >> h\<close> takes the digits; a number
  that is too large becomes the largest.
\<close>

definition get_offline_block_height :: "'a chain_scheme \<Rightarrow> size_t" where
  "get_offline_block_height c =
     (case height_key c of
        None \<Rightarrow> 0
      | Some s \<Rightarrow> of_int (min (digits_val (takeWhile is_digit s) 0) (2 ^ 64 - 1)))"

text \<open>\<open>db_ok\<close> tells whether the database takes the value; the status of \<open>set\<close> is not looked at.\<close>

definition add_offline_block_height :: "bool \<Rightarrow> size_t \<Rightarrow> 'a chain_scheme \<Rightarrow> 'a chain_scheme" where
  "add_offline_block_height db_ok h c =
     c\<lparr>height_key := (if db_ok then Some (nat_to_string (unat (offline_block_height c + h))) else height_key c),
       offline_block_height := offline_block_height c + h\<rparr>"

definition get_block_header ::
  "env \<Rightarrow> float_lib \<Rightarrow> web \<Rightarrow> 'a chain_scheme \<Rightarrow> (BlockHeader option \<times> 'a chain_scheme) option" where
  "get_block_header e fl web c =
     (if is_offline c then
        (let c' = (if offline_block_height c = 0 then c\<lparr>offline_block_height := get_offline_block_height c\<rparr> else c)
         in Some (Some \<lparr>bh_number = offline_block_height c', bh_hash = offline_hash\<rparr>, c'))
      else
        (let (res, c') = http_do web (HttpGet (ch_url c @ ''/block/header'')) c
         in if http_ok res then
              map_option (\<lambda>j. (Some \<lparr>bh_number = of_int (ToInt (jget j ''number'')), bh_hash = drop 2 (ToString (jget j ''hash''))\<rparr>, c'))
                (Load_unsafe e fl (body res))
            else Some (None, c')))"

definition get_block_hash :: "web \<Rightarrow> size_t \<Rightarrow> 'a chain_scheme \<Rightarrow> string \<times> 'a chain_scheme" where
  "get_block_hash web n c =
     (if is_offline c then (offline_hash, c)
      else let (res, c') = http_do web (HttpGet (ch_url c @ ''/block/hash?blockNumber='' @ nat_to_string (unat n))) c
           in (if http_ok res \<and> 3 < length (body res) then substr (body res) 3 64 else [], c'))"

definition get_swork_code :: "web \<Rightarrow> 'a chain_scheme \<Rightarrow> string \<times> 'a chain_scheme" where
  "get_swork_code web c =
     (if is_offline c then (''04579f4102301d39f68032446b63fc0cede4817cf099312a0c397a760651af98'', c)
      else let (res, c') = http_do web (HttpGet (ch_url c @ ''/storage/code'')) c
           in (if http_ok res \<and> 3 < length (body res) then substr (body res) 3 64 else [], c'))"

definition is_online :: "web \<Rightarrow> 'a chain_scheme \<Rightarrow> bool \<times> 'a chain_scheme" where
  "is_online web c =
     (if is_offline c then (True, c)
      else let (res, c') = http_do web (HttpGet (ch_url c @ ''/block/header'')) c in (http_ok res, c'))"

definition is_syncing :: "env \<Rightarrow> float_lib \<Rightarrow> web \<Rightarrow> 'a chain_scheme \<Rightarrow> (bool \<times> 'a chain_scheme) option" where
  "is_syncing e fl web c =
     (if is_offline c then Some (False, c)
      else let (res, c') = http_do web (HttpGet (ch_url c @ ''/system/health'')) c
           in if http_ok res then map_option (\<lambda>j. (ToBool (jget j ''isSyncing''), c')) (Load_unsafe e fl (body res))
              else Some (True, c'))"

text \<open>The bodies of the three loops of \<open>wait_for_running\<close>.\<close>

definition height_reached :: "env \<Rightarrow> float_lib \<Rightarrow> web \<Rightarrow> 'a chain_scheme \<Rightarrow> (bool \<times> 'a chain_scheme) option" where
  "height_reached e fl web c =
     map_option (\<lambda>(h, c'). (case h of None \<Rightarrow> False | Some bh \<Rightarrow> bh_number bh \<ge> 10, c')) (get_block_header e fl web c)"

definition sync_finished :: "env \<Rightarrow> float_lib \<Rightarrow> web \<Rightarrow> 'a chain_scheme \<Rightarrow> (bool \<times> 'a chain_scheme) option" where
  "sync_finished e fl web c =
     Option.bind (is_syncing e fl web c) (\<lambda>(syncing, c1).
       if syncing then map_option (\<lambda>(_, c2). (False, c2)) (get_block_header e fl web c1)
       else Option.bind (is_syncing e fl web c1) (\<lambda>(syncing, c2).
              if syncing then map_option (\<lambda>(_, c3). (False, c3)) (get_block_header e fl web c2)
              else Some (True, c2)))"

definition wait_for_running :: "env \<Rightarrow> float_lib \<Rightarrow> web \<Rightarrow> 'a chain_scheme \<Rightarrow> (bool \<times> 'a chain_scheme) option" where
  "wait_for_running e fl web c =
     (if is_offline c then Some (True, c)
      else Option.bind (poll (\<lambda>c. Some (is_online web c)) c) (\<lambda>c1.
           Option.bind (poll (height_reached e fl web) c1) (\<lambda>c2.
           map_option (\<lambda>c3. (True, c3)) (poll (sync_finished e fl web) c2))))"

text \<open>
  The loops of the two posts, with the number of attempts left. The text that is sent is parsed in each round; a
  text that does not parse ends the loop.
\<close>

definition post_request :: "env \<Rightarrow> string \<Rightarrow> JSON \<Rightarrow> 'a chain_scheme \<Rightarrow> http_request" where
  "post_request e path obj c =
     HttpPost (ch_url c @ path) (dump_json e (jset obj ''backup'' (JString (ch_backup c)))) ''application/json''
       [(''password'', ch_password c), (''Content-Type'', ''application/json'')]"

fun post_identity_loop ::
  "env \<Rightarrow> float_lib \<Rightarrow> web \<Rightarrow> string \<Rightarrow> nat \<Rightarrow> 'a chain_scheme \<Rightarrow> (bool \<times> 'a chain_scheme) option" where
  "post_identity_loop e fl web identity 0 c = Some (False, c)"
| "post_identity_loop e fl web identity (Suc n) c =
     (case Load_string e fl identity of
        POk (obj, st) \<Rightarrow>
          if st \<noteq> SPACEX_SUCCESS then Some (False, c)
          else let (res, c') = http_do web (post_request e ''/storage/identity'' obj c) c
               in if http_ok res then Some (True, c') else post_identity_loop e fl web identity n c'
      | _ \<Rightarrow> None)"

definition post_sworker_identity :: "env \<Rightarrow> float_lib \<Rightarrow> web \<Rightarrow> string \<Rightarrow> 'a chain_scheme \<Rightarrow> (bool \<times> 'a chain_scheme) option" where
  "post_sworker_identity e fl web identity c =
     (if is_offline c then Some (True, c) else post_identity_loop e fl web identity 20 c)"

definition final_messages :: "string list" where
  "final_messages =
     [''swork.InvalidReportTime'', ''swork.IllegalReporter'', ''swork.OutdatedReporter'', ''swork.IllegalWorkReportSig'',
      ''swork.IllegalFilesTransition'', ''swork.ABUpgradeFailed'']"

definition final_refusal :: "env \<Rightarrow> float_lib \<Rightarrow> response \<Rightarrow> bool option" where
  "final_refusal e fl res =
     (if body res = [] then Some False
      else map_option (\<lambda>j. ToString (jget j ''message'') \<in> set final_messages) (Load_unsafe e fl (body res)))"

fun post_report_loop ::
  "env \<Rightarrow> float_lib \<Rightarrow> web \<Rightarrow> string \<Rightarrow> nat \<Rightarrow> 'a chain_scheme \<Rightarrow> (bool \<times> 'a chain_scheme) option" where
  "post_report_loop e fl web work_report 0 c = Some (False, c)"
| "post_report_loop e fl web work_report (Suc n) c =
     (case Load_string e fl work_report of
        POk (obj, st) \<Rightarrow>
          if st \<noteq> SPACEX_SUCCESS then Some (False, c)
          else let (res, c') = http_do web (post_request e ''/storage/workreport'' obj c) c
               in if http_ok res then Some (True, c')
                  else (case final_refusal e fl res of
                          None \<Rightarrow> None
                        | Some True \<Rightarrow> Some (False, c')
                        | Some False \<Rightarrow> post_report_loop e fl web work_report n c')
      | _ \<Rightarrow> None)"

definition post_sworker_work_report ::
  "env \<Rightarrow> float_lib \<Rightarrow> web \<Rightarrow> string \<Rightarrow> 'a chain_scheme \<Rightarrow> (bool \<times> 'a chain_scheme) option" where
  "post_sworker_work_report e fl web work_report c =
     (if is_offline c then Some (True, c) else post_report_loop e fl web work_report 20 c)"

section \<open>IPFS\<close>

record ipfs = http_client +
  ipfs_url :: string
  form_boundary :: string

definition Ipfs_init :: "string \<Rightarrow> int \<Rightarrow> ipfs" where
  "Ipfs_init url now =
     \<lparr>requests = [], ipfs_url = url, form_boundary = ''sWorker'' @ int_to_string now @ ''FormBoundary''\<rparr>"

abbreviation (input) plain_post :: "string \<Rightarrow> http_request" where
  "plain_post path \<equiv> HttpPost path [] ''text/plain'' []"

definition ipfs_is_online :: "web \<Rightarrow> 'a ipfs_scheme \<Rightarrow> bool \<times> 'a ipfs_scheme" where
  "ipfs_is_online web c =
     (let (res, c') = http_do web (plain_post (ipfs_url c @ ''/version'')) c in (http_ok res, c'))"

text \<open>The data of a block and of a file; no data stands for an error.\<close>

definition block_get :: "web \<Rightarrow> string \<Rightarrow> 'a ipfs_scheme \<Rightarrow> bytes \<times> 'a ipfs_scheme" where
  "block_get web cid c =
     (let (res, c') = http_do web (plain_post (ipfs_url c @ ''/block/get?arg='' @ cid @ ''&timeout=1s'')) c
      in (if http_ok res then str_bytes (body res) else [], c'))"

definition ipfs_cat :: "web \<Rightarrow> string \<Rightarrow> 'a ipfs_scheme \<Rightarrow> bytes \<times> 'a ipfs_scheme" where
  "ipfs_cat web cid c =
     (let (res, c') = http_do web (plain_post (ipfs_url c @ ''/cat?arg='' @ cid @ ''&timeout=6s'')) c
      in (if http_ok res then str_bytes (body res) else [], c'))"

abbreviation (input) crlf :: string where "crlf \<equiv> [CHR 0x0D, CHR 0x0A]"

definition form_data :: "string \<Rightarrow> string \<Rightarrow> string" where
  "form_data boundary data =
     crlf @ ''--'' @ boundary @ crlf @ ''Content-Disposition: form-data; name='' @ quoted [] @ crlf @ crlf @
     data @ crlf @ ''--'' @ boundary @ ''--'' @ crlf @ crlf"

definition ipfs_add :: "env \<Rightarrow> float_lib \<Rightarrow> web \<Rightarrow> bytes \<Rightarrow> 'a ipfs_scheme \<Rightarrow> (string \<times> 'a ipfs_scheme) option" where
  "ipfs_add e fl web data c =
     (let (res, c') = http_do web (HttpPost (ipfs_url c @ ''/add?timeout=600s'') (form_data (form_boundary c) (bytes_str data))
                        (''multipart/form-data; boundary='' @ form_boundary c) []) c
      in if http_ok res then map_option (\<lambda>j. (ToString (jget j ''Hash''), c')) (Load_unsafe e fl (body res))
         else Some ([], c'))"

definition ipfs_del :: "web \<Rightarrow> string \<Rightarrow> 'a ipfs_scheme \<Rightarrow> bool \<times> 'a ipfs_scheme" where
  "ipfs_del web cid c =
     (let (res, c') = http_do web (plain_post (ipfs_url c @ ''/pin/rm?arg='' @ cid @ ''&timeout=60s'')) c in (http_ok res, c'))"

section \<open>Waiting for the chain\<close>

text \<open>Every answer can be parsed, and from the \<open>n\<close>-th request on the chain is up, high enough and in step.\<close>

definition readable :: "env \<Rightarrow> float_lib \<Rightarrow> web \<Rightarrow> bool" where
  "readable e fl web \<longleftrightarrow> (\<forall>h r. Load_unsafe e fl (body (web h r)) \<noteq> None)"

definition chain_up :: "env \<Rightarrow> float_lib \<Rightarrow> web \<Rightarrow> string \<Rightarrow> nat \<Rightarrow> bool" where
  "chain_up e fl web url n \<longleftrightarrow>
     (\<forall>h. n \<le> length h \<longrightarrow>
        (let hd = web h (HttpGet (url @ ''/block/header'')); he = web h (HttpGet (url @ ''/system/health''))
         in http_ok hd \<and> http_ok he \<and>
            (\<forall>j. Load_unsafe e fl (body hd) = Some j \<longrightarrow> (10::size_t) \<le> of_int (ToInt (jget j ''number''))) \<and>
            (\<forall>j. Load_unsafe e fl (body he) = Some j \<longrightarrow> \<not> ToBool (jget j ''isSyncing''))))"

definition on_chain :: "string \<Rightarrow> 'a chain_scheme \<Rightarrow> bool" where
  "on_chain url c \<longleftrightarrow> \<not> is_offline c \<and> ch_url c = url"

lemma http_do_simps [simp]:
  "fst (http_do web r c) = web (requests c) r"
  "on_chain url (snd (http_do web r c)) = on_chain url c"
  "length (requests (snd (http_do web r c))) = Suc (length (requests c))"
  by (simp_all add: http_do_def on_chain_def)

lemma header_step:
  assumes "readable e fl web" and "on_chain url c"
  shows "\<exists>h c'. get_block_header e fl web c = Some (h, c') \<and> on_chain url c' \<and> length (requests c') = Suc (length (requests c)) \<and>
    (chain_up e fl web url n \<longrightarrow> n \<le> length (requests c) \<longrightarrow> (\<exists>bh. h = Some bh \<and> 10 \<le> bh_number bh))"
proof -
  let ?r = "HttpGet (url @ ''/block/header'')"
  obtain j where j: "Load_unsafe e fl (body (web (requests c) ?r)) = Some j" using assms(1) by (auto simp: readable_def)
  have c: "\<not> is_offline c" "ch_url c = url" using assms(2) by (simp_all add: on_chain_def)
  show ?thesis
    using j c by (auto simp: get_block_header_def http_do_def on_chain_def chain_up_def Let_def)
qed

lemma syncing_step:
  assumes "readable e fl web" and "on_chain url c"
  shows "\<exists>b c'. is_syncing e fl web c = Some (b, c') \<and> on_chain url c' \<and> length (requests c') = Suc (length (requests c)) \<and>
    (chain_up e fl web url n \<longrightarrow> n \<le> length (requests c) \<longrightarrow> \<not> b)"
proof -
  let ?r = "HttpGet (url @ ''/system/health'')"
  obtain j where j: "Load_unsafe e fl (body (web (requests c) ?r)) = Some j" using assms(1) by (auto simp: readable_def)
  have c: "\<not> is_offline c" "ch_url c = url" using assms(2) by (simp_all add: on_chain_def)
  show ?thesis
    using j c by (auto simp: is_syncing_def http_do_def on_chain_def chain_up_def Let_def)
qed

lemma height_reached_step:
  assumes "readable e fl web" and "chain_up e fl web url n" and "on_chain url c"
  shows "\<exists>leave c'. height_reached e fl web c = Some (leave, c') \<and> on_chain url c' \<and>
    length (requests c) < length (requests c') \<and> (n \<le> length (requests c) \<longrightarrow> leave)"
  using header_step [OF assms(1,3), of n] assms(2) by (auto simp: height_reached_def)

lemma sync_finished_step:
  assumes "readable e fl web" and "chain_up e fl web url n" and "on_chain url c"
  shows "\<exists>leave c'. sync_finished e fl web c = Some (leave, c') \<and> on_chain url c' \<and>
    length (requests c) < length (requests c') \<and> (n \<le> length (requests c) \<longrightarrow> leave)"
proof -
  obtain b1 c1 where 1: "is_syncing e fl web c = Some (b1, c1)" "on_chain url c1" "length (requests c1) = Suc (length (requests c))"
    "n \<le> length (requests c) \<longrightarrow> \<not> b1"
    using syncing_step [OF assms(1,3), of n] assms(2) by auto
  obtain b2 c2 where 2: "is_syncing e fl web c1 = Some (b2, c2)" "on_chain url c2" "length (requests c2) = Suc (length (requests c1))"
    "n \<le> length (requests c1) \<longrightarrow> \<not> b2"
    using syncing_step [OF assms(1) 1(2), of n] assms(2) by auto
  obtain h1 d1 where 3: "get_block_header e fl web c1 = Some (h1, d1)" "on_chain url d1" "length (requests d1) = Suc (length (requests c1))"
    using header_step [OF assms(1) 1(2)] by blast
  obtain h2 d2 where 4: "get_block_header e fl web c2 = Some (h2, d2)" "on_chain url d2" "length (requests d2) = Suc (length (requests c2))"
    using header_step [OF assms(1) 2(2)] by blast
  show ?thesis using 1 2 3 4 by (cases b1; cases b2) (auto simp: sync_finished_def)
qed

text \<open>The wait ends once the chain is up for good.\<close>

lemma wait_for_running_ends:
  assumes "readable e fl web" and "is_offline c \<or> chain_up e fl web (ch_url c) n"
  shows "\<exists>c'. wait_for_running e fl web c = Some (True, c')"
proof (cases "is_offline c")
  case False
  let ?P = "on_chain (ch_url c)"
  have up: "chain_up e fl web (ch_url c) n" using assms(2) False by blast
  have P: "?P c" using False by (simp add: on_chain_def)
  have "\<exists>c1. poll (\<lambda>c. Some (is_online web c)) c = Some c1 \<and> ?P c1 \<and> length (requests c) < length (requests c1)"
  proof (rule poll_returns [where P = ?P and count = "\<lambda>c. length (requests c)" and n = n, OF P])
    fix s assume s: "?P s"
    then show "\<exists>leave s'. Some (is_online web s) = Some (leave, s') \<and> ?P s' \<and> length (requests s) < length (requests s') \<and>
        (n \<le> length (requests s) \<longrightarrow> leave)"
      using up by (auto simp: is_online_def http_do_def on_chain_def chain_up_def Let_def)
  qed
  then obtain c1 where 1: "poll (\<lambda>c. Some (is_online web c)) c = Some c1" "?P c1" by blast
  obtain c2 where 2: "poll (height_reached e fl web) c1 = Some c2" "?P c2"
    using poll_returns [where P = ?P and count = "\<lambda>c. length (requests c)" and n = n, OF 1(2) height_reached_step [OF assms(1) up]]
    by blast
  obtain c3 where "poll (sync_finished e fl web) c2 = Some c3"
    using poll_returns [where P = ?P and count = "\<lambda>c. length (requests c)" and n = n, OF 2(2) sync_finished_step [OF assms(1) up]]
    by blast
  then show ?thesis using False 1 2 by (simp add: wait_for_running_def)
qed (simp add: wait_for_running_def)

section \<open>Posting a report\<close>

text \<open>
  Every attempt sends the same request. Before the last one each answer was an error that does not rule out a
  retry; the last one is a success, or an error that rules it out, or the twentieth.
\<close>

lemma post_report_loop_spec:
  fixes c :: "'a chain_scheme"
  assumes "Load_string e fl report = POk (obj, SPACEX_SUCCESS)" and "post_report_loop e fl web report n c = Some (ok, c')"
  defines "r \<equiv> post_request e ''/storage/workreport'' obj c"
  defines "answer \<equiv> \<lambda>i. web (requests c @ replicate i r) r"
  shows "\<exists>k \<le> n. c' = c\<lparr>requests := requests c @ replicate k r\<rparr> \<and>
    (\<forall>i. Suc i < k \<longrightarrow> \<not> http_ok (answer i) \<and> final_refusal e fl (answer i) = Some False) \<and>
    (if ok then 0 < k \<and> http_ok (answer (k - 1))
     else (0 < k \<longrightarrow> \<not> http_ok (answer (k - 1))) \<and> (k = n \<or> 0 < k \<and> final_refusal e fl (answer (k - 1)) = Some True))"
  using assms(2) unfolding r_def answer_def
proof (induction n arbitrary: c)
  case 0
  then show ?case by (intro exI [of _ 0]) auto
next
  case (Suc n)
  let ?r = "post_request e ''/storage/workreport'' obj c"
  let ?c1 = "c\<lparr>requests := requests c @ [?r]\<rparr>" and ?a = "web (requests c) ?r"
  have same: "post_request e ''/storage/workreport'' obj ?c1 = ?r" by (simp add: post_request_def)
  have run: "post_report_loop e fl web report (Suc n) c =
      (if http_ok ?a then Some (True, ?c1)
       else case final_refusal e fl ?a of None \<Rightarrow> None | Some True \<Rightarrow> Some (False, ?c1)
            | Some False \<Rightarrow> post_report_loop e fl web report n ?c1)"
    by (simp add: assms(1) http_do_def)
  consider (last) "c' = ?c1" "if ok then http_ok ?a else \<not> http_ok ?a \<and> final_refusal e fl ?a = Some True"
    | (more) "\<not> http_ok ?a" "final_refusal e fl ?a = Some False" "post_report_loop e fl web report n ?c1 = Some (ok, c')"
    using Suc.prems unfolding run by (auto split: if_splits option.splits bool.splits)
  then show ?case
  proof cases
    case last
    then show ?thesis by (intro exI [of _ 1]) (auto split: if_splits)
  next
    case more
    from Suc.IH [OF more(3)] obtain k where k: "k \<le> n" "c' = ?c1\<lparr>requests := requests ?c1 @ replicate k ?r\<rparr>"
      "\<forall>i. Suc i < k \<longrightarrow> \<not> http_ok (web (requests ?c1 @ replicate i ?r) ?r) \<and> final_refusal e fl (web (requests ?c1 @ replicate i ?r) ?r) = Some False"
      "if ok then 0 < k \<and> http_ok (web (requests ?c1 @ replicate (k - 1) ?r) ?r)
       else (0 < k \<longrightarrow> \<not> http_ok (web (requests ?c1 @ replicate (k - 1) ?r) ?r)) \<and>
            (k = n \<or> 0 < k \<and> final_refusal e fl (web (requests ?c1 @ replicate (k - 1) ?r) ?r) = Some True)"
      unfolding same by blast
    have shift: "web (requests ?c1 @ replicate i ?r) ?r = web (requests c @ replicate (Suc i) ?r) ?r" for i by simp
    have "\<not> http_ok (web (requests c @ replicate i ?r) ?r) \<and> final_refusal e fl (web (requests c @ replicate i ?r) ?r) = Some False"
      if "Suc i < Suc k" for i
      using that k(3) more(1,2) unfolding shift by (cases i) auto
    moreover have "if ok then 0 < Suc k \<and> http_ok (web (requests c @ replicate (Suc k - 1) ?r) ?r)
       else (0 < Suc k \<longrightarrow> \<not> http_ok (web (requests c @ replicate (Suc k - 1) ?r) ?r)) \<and>
            (Suc k = Suc n \<or> 0 < Suc k \<and> final_refusal e fl (web (requests c @ replicate (Suc k - 1) ?r) ?r) = Some True)"
      using k(4) more(1,2) unfolding shift by (cases k) (auto split: if_splits)
    ultimately show ?thesis using k(1,2) by (intro exI [of _ "Suc k"]) auto
  qed
qed

section \<open>The height without a chain\<close>

text \<open>What a process adds is where the next one starts.\<close>

lemma offline_height_kept:
  assumes "is_offline c" and "is_offline d" and "offline_block_height d = 0" and "height_key d = height_key (add_offline_block_height True h c)"
  shows "\<exists>d'. get_block_header e fl web d = Some (Some \<lparr>bh_number = offline_block_height c + h, bh_hash = offline_hash\<rparr>, d')"
proof -
  let ?n = "unat (offline_block_height c + h)"
  have "takeWhile is_digit (nat_to_string ?n) = nat_to_string ?n"
    using nat_to_string_digits [of ?n] by (simp add: takeWhile_eq_all_conv list_all_iff)
  then have v: "digits_val (takeWhile is_digit (nat_to_string ?n)) 0 = int ?n" by (simp only: digits_val_nat)
  have "int ?n \<le> 2 ^ 64 - 1" using uint_lt2p [of "offline_block_height c + h"] by simp
  then have m: "min (int ?n) (2 ^ 64 - 1) = int ?n" by (rule min.absorb1)
  have k: "height_key d = Some (nat_to_string ?n)" using assms(4) by (simp add: add_offline_block_height_def)
  have "get_offline_block_height d = offline_block_height c + h"
    unfolding get_offline_block_height_def k option.case v m by simp
  then show ?thesis using assms(2,3) by (simp add: get_block_header_def Let_def)
qed

end
