(* ===== verification/OCalls.thy ===== *)
theory OCalls
  imports SrdReserve Clients
begin

text \<open>
  The handlers of the enclave's calls to the application: \<open>src/src/app/ocalls/OCalls.cpp\<close>,
  \<open>src/src/app/ocalls/IpfsOCalls.cpp\<close> and \<open>ocall_set_srd_info\<close> of \<open>src/src/app/ocalls/StoreOCalls.cpp\<close>. The
  receiver of large data, \<open>ocall_safe_store2\<close>, is in \<open>Boundary\<close>; here are the functions it hands the data to. A result \<open>None\<close> is
  undefined behaviour or a loop that does not end.
\<close>

section \<open>The chain\<close>

text \<open>\<open>memcpy(block_hash, hash.c_str(), hash_size)\<close> may read the null behind the text, and nothing behind that.\<close>

definition ocall_get_block_hash ::
  "web \<Rightarrow> size_t \<Rightarrow> nat \<Rightarrow> 'a chain_scheme \<Rightarrow> (spacex_status \<times> string \<times> 'a chain_scheme) option" where
  "ocall_get_block_hash web block_height hash_size c =
     (let (hash, c') = get_block_hash web block_height c
      in if hash = [] then Some (SPACEX_UPGRADE_GET_BLOCK_HASH_FAILED, [], c')
         else if hash_size \<le> Suc (length hash) then Some (SPACEX_SUCCESS, take hash_size (hash @ [CHR 0x00]), c')
         else None)"

definition ocall_upload_workreport ::
  "env \<Rightarrow> float_lib \<Rightarrow> web \<Rightarrow> 'b enclave_data_scheme \<Rightarrow> 'a chain_scheme \<Rightarrow> (spacex_status \<times> 'a chain_scheme) option" where
  "ocall_upload_workreport e fl web d c =
     (let work_str = remove_char (remove_char (remove_char (get_workreport d) (CHR 0x5C)) (CHR 0x0A)) (CHR '' '')
      in map_option (\<lambda>(ok, c'). (if ok then SPACEX_SUCCESS else SPACEX_UPGRADE_SEND_WORKREPORT_FAILED, c'))
           (post_sworker_work_report e fl web work_str c))"

definition ocall_upload_identity ::
  "env \<Rightarrow> float_lib \<Rightarrow> web \<Rightarrow> string \<Rightarrow> string \<Rightarrow> 'a chain_scheme \<Rightarrow> (spacex_status \<times> 'a chain_scheme) option" where
  "ocall_upload_identity e fl web chain_address ident c =
     (case Load_string e fl ident of
        POk (entrance_info, st) \<Rightarrow>
          if st \<noteq> SPACEX_SUCCESS then Some (st, c)
          else Option.bind (wait_for_running e fl web c) (\<lambda>(ok, c1).
                 if \<not> ok then Some (SPACEX_UNEXPECTED_ERROR, c1)
                 else map_option (\<lambda>(ok, c2). (if ok then SPACEX_SUCCESS else SPACEX_UNEXPECTED_ERROR, c2))
                        (post_sworker_identity e fl web
                          (dump_json e (jset entrance_info ''account_id'' (JString chain_address))) c1))
      | _ \<Rightarrow> None)"

text \<open>The status, the value of \<open>real_size\<close> and the data, when it fits.\<close>

definition block_info_text :: "env \<Rightarrow> BlockHeader \<Rightarrow> string" where
  "block_info_text e bh =
     (let bh_json = jset (jset JNull CHAIN_BLOCK_NUMBER (JIntegral (sint (bh_number bh)))) CHAIN_BLOCK_HASH (JString (bh_hash bh))
      in remove_char (remove_char (remove_char (dump_json e bh_json) (CHR 0x0A)) (CHR 0x5C)) (CHR '' ''))"

definition ocall_chain_get_block_info ::
  "env \<Rightarrow> float_lib \<Rightarrow> web \<Rightarrow> nat \<Rightarrow> 'a chain_scheme \<Rightarrow> (spacex_status \<times> nat \<times> bytes \<times> 'a chain_scheme) option" where
  "ocall_chain_get_block_info e fl web data_size c =
     map_option (\<lambda>(header, c'). case header of
           None \<Rightarrow> (SPACEX_UNEXPECTED_ERROR, 0, [], c')
         | Some bh \<Rightarrow>
             (let bh_str = block_info_text e bh
              in if data_size < length bh_str then (SPACEX_OCALL_NO_ENOUGH_BUFFER, length bh_str, [], c')
                 else (SPACEX_SUCCESS, length bh_str, str_bytes bh_str, c')))
       (get_block_header e fl web c)"

section \<open>What the application keeps\<close>

definition ocall_store_enclave_id_info :: "string \<Rightarrow> 'a enclave_data_scheme \<Rightarrow> 'a enclave_data_scheme" where
  "ocall_store_enclave_id_info info d = set_enclave_id_info info d"

definition ocall_store_upgrade_data :: "bytes \<Rightarrow> 'a enclave_data_scheme \<Rightarrow> spacex_status \<times> 'a enclave_data_scheme" where
  "ocall_store_upgrade_data data d = (SPACEX_SUCCESS, set_upgrade_data (bytes_str data) d)"

definition ocall_store_file_info :: "int \<Rightarrow> string \<Rightarrow> string \<Rightarrow> string \<Rightarrow> 'a enclave_data_scheme \<Rightarrow> 'a enclave_data_scheme" where
  "ocall_store_file_info now cid data type d = add_file_info now cid type data d"

definition ocall_store_file_info_all ::
  "env \<Rightarrow> float_lib \<Rightarrow> bytes \<Rightarrow> 'a enclave_data_scheme \<Rightarrow> (spacex_status \<times> 'a enclave_data_scheme) option" where
  "ocall_store_file_info_all e fl data d = map_option (\<lambda>d'. (SPACEX_SUCCESS, d')) (restore_file_info_app e fl data d)"

definition ocall_store_workreport :: "bytes \<Rightarrow> 'a enclave_data_scheme \<Rightarrow> spacex_status \<times> 'a enclave_data_scheme" where
  "ocall_store_workreport data d = (SPACEX_SUCCESS, set_workreport data d)"

text \<open>The table of the functions that take large data.\<close>

definition g_ocall_store2_func_m ::
  "env \<Rightarrow> float_lib \<Rightarrow> ocall_store_type \<Rightarrow> bytes \<Rightarrow> 'a enclave_data_scheme \<Rightarrow> (spacex_status \<times> 'a enclave_data_scheme) option" where
  "g_ocall_store2_func_m e fl t data d =
     (case t of
        OCALL_FILE_INFO_ALL \<Rightarrow> ocall_store_file_info_all e fl data d
      | OCALL_STORE_WORKREPORT \<Rightarrow> Some (ocall_store_workreport data d)
      | OCALL_STORE_UPGRADE_DATA \<Rightarrow> Some (ocall_store_upgrade_data data d))"

definition ocall_change_file_type :: "string \<Rightarrow> string \<Rightarrow> string \<Rightarrow> 'a enclave_data_scheme \<Rightarrow> 'a enclave_data_scheme" where
  "ocall_change_file_type cid old_type new_type d = change_file_type cid old_type new_type d"

definition ocall_delete_file_info :: "string \<Rightarrow> string \<Rightarrow> 'a enclave_data_scheme \<Rightarrow> 'a enclave_data_scheme" where
  "ocall_delete_file_info cid type d = del_file_info_type cid type d"

definition ocall_set_srd_info :: "env \<Rightarrow> float_lib \<Rightarrow> bytes \<Rightarrow> 'a enclave_data_scheme \<Rightarrow> 'a enclave_data_scheme option" where
  "ocall_set_srd_info e fl data d = set_srd_info_app e fl data d"

section \<open>IPFS\<close>

definition ocall_ipfs_online :: "web \<Rightarrow> 'a ipfs_scheme \<Rightarrow> bool \<times> 'a ipfs_scheme" where
  "ocall_ipfs_online web c = ipfs_is_online web c"

definition ocall_ipfs_get_block :: "web \<Rightarrow> string \<Rightarrow> 'a ipfs_scheme \<Rightarrow> spacex_status \<times> bytes \<times> 'a ipfs_scheme" where
  "ocall_ipfs_get_block web cid c =
     (let (data, c1) = block_get web cid c
      in if data = [] then
           (let (up, c2) = ipfs_is_online web c1
            in (if \<not> up then SPACEX_SERVICE_UNAVAILABLE else SPACEX_STORAGE_IPFS_BLOCK_GET_ERROR, [], c2))
         else (SPACEX_SUCCESS, data, c1))"

definition ocall_ipfs_cat :: "web \<Rightarrow> string \<Rightarrow> 'a ipfs_scheme \<Rightarrow> spacex_status \<times> bytes \<times> 'a ipfs_scheme" where
  "ocall_ipfs_cat web cid c =
     (let (up, c1) = ipfs_is_online web c
      in if \<not> up then (SPACEX_SERVICE_UNAVAILABLE, [], c1)
         else let (data, c2) = ipfs_cat web cid c1
              in (if data = [] then SPACEX_STORAGE_IPFS_CAT_ERROR else SPACEX_SUCCESS, data, c2))"

definition ocall_ipfs_add :: "env \<Rightarrow> float_lib \<Rightarrow> web \<Rightarrow> bytes \<Rightarrow> 'a ipfs_scheme \<Rightarrow> (spacex_status \<times> string \<times> 'a ipfs_scheme) option" where
  "ocall_ipfs_add e fl web data c =
     map_option (\<lambda>(cid, c'). (if cid = [] then SPACEX_STORAGE_IPFS_ADD_ERROR else SPACEX_SUCCESS, cid, c')) (ipfs_add e fl web data c)"

definition ocall_ipfs_del :: "web \<Rightarrow> string \<Rightarrow> 'a ipfs_scheme \<Rightarrow> spacex_status \<times> 'a ipfs_scheme" where
  "ocall_ipfs_del web cid c =
     (let (ok, c') = ipfs_del web cid c in (if \<not> ok then SPACEX_UNEXPECTED_ERROR else SPACEX_SUCCESS, c'))"

section \<open>Choosing a disk for a block\<close>

abbreviation (input) FILE_DISK_LIMIT :: nat where "FILE_DISK_LIMIT \<equiv> 8"
abbreviation (input) choose_len :: nat where "choose_len \<equiv> 40"

text \<open>A \<open>char\<close> as an \<open>int\<close>, and the remainder of the sum of four of them as an index.\<close>

definition char_int :: "char \<Rightarrow> int" where
  "char_int c = (let n = of_char c in if n < 128 then n else n - 256)"

definition disk_index :: "string \<Rightarrow> nat \<Rightarrow> nat \<Rightarrow> nat option" where
  "disk_index for_choose ii disks =
     (let n = (\<Sum>k \<leftarrow> [0..<4]. char_int (for_choose ! ((ii + k) mod choose_len)));
          r = (if n < 0 then - ((- n) mod int disks) else n mod int disks)
      in if r < 0 then None else Some (nat r))"

text \<open>One attempt on a disk: whether the block is stored, the identifier that was written, and the state.\<close>

definition try_disk ::
  "os \<Rightarrow> string \<Rightarrow> string \<Rightarrow> bytes \<Rightarrow> JSON \<Rightarrow> string option \<times> 'a app_scheme \<Rightarrow> (bool \<times> string option \<times> 'a app_scheme) option" where
  "try_disk sys cid path data disk u =
     (case u of (uuid, a) \<Rightarrow>
        let reserved = (of_int (ToInt (jget disk WL_DISK_AVAILABLE) * 1024 * 1024 * 1024) :: size_t);
            uuid_str = get_uuid (ToString (jget disk WL_DISK_PATH)) a
        in if reserved > of_nat (length data) * 4 \<and> length uuid_str = UUID_LENGTH * 2 then
             Option.bind (get_real_path_by_type a (uuid_str @ path) STORE_TYPE_FILE) (\<lambda>file_path.
             Option.bind (save_file_ex sys file_path data SF_CREATE_DIR (app_tree a)) (\<lambda>(st, t).
               let a' = a\<lparr>app_tree := t\<rparr>
               in Some (if st = SPACEX_SUCCESS then (True, Some uuid_str, add_pending_file_size cid (int (length data)) a')
                        else (False, Some uuid_str, a'))))
           else Some (False, uuid, a))"

text \<open>
  The loop over the disks. It starts at a random one of eight places and goes round; \<open>i\<close> is the number of rounds.
  The two other conditions on the places are never false.
\<close>

function choose_loop ::
  "os \<Rightarrow> string \<Rightarrow> string \<Rightarrow> bytes \<Rightarrow> string \<Rightarrow> JSON list \<Rightarrow> nat \<Rightarrow> nat \<Rightarrow> nat \<Rightarrow> string option \<times> 'a app_scheme \<Rightarrow>
   (spacex_status \<times> string option \<times> 'a app_scheme) option" where
  "choose_loop sys cid path data for_choose disks start_index i ci u =
     (if i < choose_len div FILE_DISK_LIMIT \<and> ci < FILE_DISK_LIMIT \<and> start_index < FILE_DISK_LIMIT then
        (case disk_index for_choose (ci + i * FILE_DISK_LIMIT) (length disks) of
           None \<Rightarrow> None
         | Some di \<Rightarrow>
             (case try_disk sys cid path data (disks ! di) u of
                None \<Rightarrow> None
              | Some (stored, u') \<Rightarrow>
                  if stored then Some (SPACEX_SUCCESS, u')
                  else let ci' = (ci + 1) mod FILE_DISK_LIMIT
                       in choose_loop sys cid path data for_choose disks start_index
                            (if ci' = start_index then i + 1 else i) ci' u'))
      else Some (SPACEX_STORAGE_NO_ENOUGH_SPACE, u))"
  by pat_completeness auto

text \<open>The attempts that are left: the places of the round that is running, and eight for each round to come.\<close>

definition attempts_left :: "nat \<Rightarrow> nat \<Rightarrow> nat \<Rightarrow> nat" where
  "attempts_left start_index i ci = (5 - i) * 8 - (ci + 8 - start_index) mod 8"

lemma attempts_decrease:
  assumes "i < 5" and "ci < 8" and "start_index < 8"
  defines "ci' \<equiv> (ci + 1) mod 8"
  shows "Suc (attempts_left start_index (if ci' = start_index then i + 1 else i) ci') = attempts_left start_index i ci"
proof -
  have cases: "ci < 8 \<Longrightarrow> s < 8 \<Longrightarrow> k \<in> {1, 2, 3, 4, 5} \<Longrightarrow>
      Suc ((if (ci + 1) mod 8 = s then k - 1 else k) * 8 - ((ci + 1) mod 8 + 8 - s) mod 8) = k * 8 - (ci + 8 - s) mod 8" for s k :: nat
  proof -
    assume a: "ci < 8" "s < 8" "k \<in> {1, 2, 3, 4, 5}"
    have "ci \<in> {0, 1, 2, 3, 4, 5, 6, 7}" "s \<in> {0, 1, 2, 3, 4, 5, 6, 7}" using a by auto
    with a(3) show ?thesis by (elim insertE emptyE) simp_all
  qed
  have "5 - i \<in> {1, 2, 3, 4, 5}" using assms(1) by auto
  from cases [OF assms(2,3) this] show ?thesis
    by (cases "ci' = start_index") (simp_all add: attempts_left_def ci'_def)
qed

termination choose_loop
proof (relation "measure (\<lambda>(_, _, _, _, _, _, start_index, i, ci, _). attempts_left start_index i ci)", simp)
  fix start_index i ci ci' :: nat
  assume "i < 40 div 8 \<and> ci < 8 \<and> start_index < 8" and "ci' = (ci + 1) mod 8"
  then show "((sys, cid, path, data, for_choose, disks, start_index, if ci' = start_index then i + 1 else i, ci', u'),
      (sys, cid, path, data, for_choose, disks, start_index, i, ci, u)) \<in>
    measure (\<lambda>(_, _, _, _, _, _, start_index, i, ci, _). attempts_left start_index i ci)"
    for sys :: os and cid path :: string and data :: bytes and for_choose :: string and disks :: "JSON list"
      and u u' :: "string option \<times> 'a app_scheme"
    using attempts_decrease [of i ci start_index] by simp
qed

declare choose_loop.simps [simp del]

text \<open>
  \<open>start\<close> is the random number; \<open>disk_json\<close> is made by \<open>get_disk_info\<close>. A path without a slash makes the length of its first
  part negative, and the string constructor throws.
\<close>

definition ocall_save_ipfs_block ::
  "os \<Rightarrow> (string \<Rightarrow> bytes) \<Rightarrow> (string \<Rightarrow> string) \<Rightarrow> nat \<Rightarrow> string \<Rightarrow> bytes \<Rightarrow> 'a app_scheme \<Rightarrow>
   (spacex_status \<times> string option \<times> 'a app_scheme) option" where
  "ocall_save_ipfs_block sys rand behind start path data a =
     Option.bind (get_disk_info sys rand behind a) (\<lambda>(disk_json, a1).
       if CHR ''/'' \<notin> set path then None
       else let cid = parent_path path; cid_len = length cid
            in if JSONType disk_json \<noteq> CArray \<or> json_size disk_json \<le> 0 \<or> length path \<le> choose_len
               then Some (SPACEX_UNEXPECTED_ERROR, None, a1)
               else let for_choose = (if cid_len > choose_len then substr path (cid_len - choose_len) choose_len
                                      else substr path 0 choose_len);
                        start_index = start mod FILE_DISK_LIMIT
                    in choose_loop sys cid path data for_choose (ArrayRange disk_json) start_index 0 start_index (None, a1))"

section \<open>Deleting\<close>

text \<open>\<open>rm_dir\<close> is what the recursive removal leaves of the file system.\<close>

definition ocall_delete_ipfs_file ::
  "os \<Rightarrow> (string \<Rightarrow> bytes) \<Rightarrow> (string \<Rightarrow> string) \<Rightarrow> (string \<Rightarrow> file_tree \<Rightarrow> file_tree) \<Rightarrow> string \<Rightarrow> 'a app_scheme \<Rightarrow>
   (spacex_status \<times> 'a app_scheme) option" where
  "ocall_delete_ipfs_file sys rand behind rm_dir cid a =
     Option.bind (get_disk_info sys rand behind a) (\<lambda>(disk_json, a1).
       if JSONType disk_json \<noteq> CArray \<or> json_size disk_json \<le> 0 then Some (SPACEX_UNEXPECTED_ERROR, a1)
       else Option.bind (those (map (\<lambda>disk. get_real_path_by_type a1 (ToString (jget disk WL_DISK_UUID) @ cid) STORE_TYPE_FILE)
                                 (ArrayRange disk_json)))
              (\<lambda>paths. Some (SPACEX_SUCCESS, a1\<lparr>app_tree := fold rm_dir paths (app_tree a1)\<rparr>)))"

text \<open>Everything the application has of a file. The database is the one of \<open>Boundary\<close>; \<open>ipfs_del_all\<close> of \<open>Storage\<close> deletes there.\<close>

definition ocall_ipfs_del_all ::
  "os \<Rightarrow> (string \<Rightarrow> bytes) \<Rightarrow> (string \<Rightarrow> string) \<Rightarrow> (string \<Rightarrow> file_tree \<Rightarrow> file_tree) \<Rightarrow> web \<Rightarrow> string \<Rightarrow> 'a app_scheme \<times> 'b ipfs_scheme \<Rightarrow>
   (spacex_status \<times> 'a app_scheme \<times> 'b ipfs_scheme) option" where
  "ocall_ipfs_del_all sys rand behind rm_dir web cid u =
     (case u of (a, c) \<Rightarrow>
        let (_, c') = ipfs_del web cid c
        in map_option (\<lambda>(_, a'). (SPACEX_SUCCESS, del_file_info cid a', c'))
             (ocall_delete_ipfs_file sys rand behind rm_dir cid a))"

section \<open>A stored block is found again\<close>

text \<open>Only the file system may differ.\<close>

definition same_but_tree :: "'a app_scheme \<Rightarrow> 'a app_scheme \<Rightarrow> bool" where
  "same_but_tree a a' \<longleftrightarrow> (\<exists>t. a' = a\<lparr>app_tree := t\<rparr>)"

lemma same_but_tree_trans: "same_but_tree a b \<Longrightarrow> same_but_tree b c \<Longrightarrow> same_but_tree a c"
  by (auto simp: same_but_tree_def)

lemma real_path_frames [simp]:
  "get_real_path_by_type (a\<lparr>app_tree := t\<rparr>) path type = get_real_path_by_type a path type"
  "get_real_path_by_type (add_pending_file_size cid n a) path type = get_real_path_by_type a path type"
  by (simp_all add: get_real_path_by_type_def get_disk_path_def add_pending_file_size_def Let_def)

lemma try_disk_cases:
  assumes "try_disk sys cid path data disk (u, a) = Some (stored, u', a')"
  shows "\<not> stored \<Longrightarrow> same_but_tree a a'"
    and "stored \<Longrightarrow> \<exists>us p t. u' = Some us \<and> length us = UUID_LENGTH * 2 \<and>
      get_real_path_by_type a (us @ path) STORE_TYPE_FILE = Some p \<and>
      save_file_ex sys p data SF_CREATE_DIR (app_tree a) = Some (SPACEX_SUCCESS, t) \<and>
      a' = add_pending_file_size cid (int (length data)) (a\<lparr>app_tree := t\<rparr>)"
proof -
  have "(\<not> stored \<longrightarrow> (\<exists>t. a' = a\<lparr>app_tree := t\<rparr>)) \<and> (stored \<longrightarrow> (\<exists>us p t. u' = Some us \<and> length us = UUID_LENGTH * 2 \<and>
      get_real_path_by_type a (us @ path) STORE_TYPE_FILE = Some p \<and>
      save_file_ex sys p data SF_CREATE_DIR (app_tree a) = Some (SPACEX_SUCCESS, t) \<and>
      a' = add_pending_file_size cid (int (length data)) (a\<lparr>app_tree := t\<rparr>)))"
    using assms by (auto simp: try_disk_def Let_def bind_eq_Some_conv split: if_splits intro: exI [of _ "app_tree a"])
  then show "\<not> stored \<Longrightarrow> same_but_tree a a'"
    and "stored \<Longrightarrow> \<exists>us p t. u' = Some us \<and> length us = UUID_LENGTH * 2 \<and>
      get_real_path_by_type a (us @ path) STORE_TYPE_FILE = Some p \<and>
      save_file_ex sys p data SF_CREATE_DIR (app_tree a) = Some (SPACEX_SUCCESS, t) \<and>
      a' = add_pending_file_size cid (int (length data)) (a\<lparr>app_tree := t\<rparr>)"
    by (auto simp: same_but_tree_def)
qed

lemma choose_loop_cases:
  "choose_loop sys cid path data for_choose disks start_index i ci (u, a) = Some (st, u', a') \<Longrightarrow>
   st = SPACEX_STORAGE_NO_ENOUGH_SPACE \<and> same_but_tree a a' \<or>
   st = SPACEX_SUCCESS \<and> (\<exists>b us p t. same_but_tree a b \<and> u' = Some us \<and> length us = UUID_LENGTH * 2 \<and>
      get_real_path_by_type a (us @ path) STORE_TYPE_FILE = Some p \<and>
      save_file_ex sys p data SF_CREATE_DIR (app_tree b) = Some (SPACEX_SUCCESS, t) \<and>
      a' = add_pending_file_size cid (int (length data)) (b\<lparr>app_tree := t\<rparr>))"
proof (induction sys cid path data for_choose disks start_index i ci "(u, a)" arbitrary: u a rule: choose_loop.induct)
  case (1 sys cid path data for_choose disks start_index i ci u a)
  show ?case
  proof (cases "i < choose_len div FILE_DISK_LIMIT \<and> ci < FILE_DISK_LIMIT \<and> start_index < FILE_DISK_LIMIT")
    case False
    then show ?thesis using 1(2) by (subst (asm) choose_loop.simps) (auto simp: same_but_tree_def intro: exI [of _ "app_tree a"])
  next
    case True
    obtain di stored u1 a1 where di: "disk_index for_choose (ci + i * FILE_DISK_LIMIT) (length disks) = Some di"
      and t: "try_disk sys cid path data (disks ! di) (u, a) = Some (stored, u1, a1)"
      using 1(2) True by (subst (asm) choose_loop.simps) (auto split: option.splits)
    note tc = try_disk_cases [OF t]
    let ?ci = "(ci + 1) mod FILE_DISK_LIMIT"
    have run: "choose_loop sys cid path data for_choose disks start_index i ci (u, a) =
        (if stored then Some (SPACEX_SUCCESS, u1, a1)
         else choose_loop sys cid path data for_choose disks start_index (if ?ci = start_index then i + 1 else i) ?ci (u1, a1))"
      using True by (subst choose_loop.simps) (simp add: di t Let_def)
    show ?thesis
    proof (cases stored)
      case s: True
      then have "st = SPACEX_SUCCESS" "u' = u1" "a' = a1"
        using 1(2) by (simp_all add: run)
      moreover have "same_but_tree a a" by (auto simp: same_but_tree_def intro: exI [of _ "app_tree a"])
      ultimately show ?thesis using tc(2) [OF s] by blast
    next
      case s: False
      then have "choose_loop sys cid path data for_choose disks start_index (if ?ci = start_index then i + 1 else i) ?ci (u1, a1) = Some (st, u', a')"
        using 1(2) by (simp only: run if_False)
      note ih = 1(1) [OF True di t refl s refl this]
      have sb: "same_but_tree a a1" using tc(1) [OF s] .
      then have "get_real_path_by_type a1 q STORE_TYPE_FILE = get_real_path_by_type a q STORE_TYPE_FILE" for q
        by (auto simp: same_but_tree_def)
      with ih sb show ?thesis by (auto intro: same_but_tree_trans)
    qed
  qed
qed

text \<open>Looking at the disks does not touch the files of the list nor the sizes.\<close>

abbreviation (input) same_files :: "'a enclave_data_scheme \<Rightarrow> 'a enclave_data_scheme \<Rightarrow> bool" where
  "same_files d d' \<equiv> sealed_file d' = sealed_file d \<and> pending_file_size_um d' = pending_file_size_um d"

lemma check_disk_files: "check_or_init_disk sys rand behind path a = Some (ok, a') \<Longrightarrow> same_files a a'"
  by (auto simp: check_or_init_disk_def disk_srd_dir_def set_uuid_disk_path_map_def Let_def split: if_splits option.splits prod.splits)

lemma disk_entries_files: "disk_entries sys rand behind paths a = Some (ds, a') \<Longrightarrow> same_files a a'"
proof (induction paths arbitrary: a ds)
  case (Cons path paths)
  then obtain ok a1 ds1 where "check_or_init_disk sys (rand path) (behind path) path a = Some (ok, a1)"
    "disk_entries sys rand behind paths a1 = Some (ds1, a')" by (auto split: option.splits prod.splits)
  with Cons.IH [of a1 ds1] check_disk_files show ?case by metis
qed simp

lemma get_disk_info_files: "get_disk_info sys rand behind a = Some (j, a') \<Longrightarrow> same_files a a'"
  by (auto simp: get_disk_info_def get_increase_srd_info_r_def case_prod_beta Let_def dest!: disk_entries_files)

text \<open>
  A success names the disk on which the block lies, where the enclave's later read finds it, and the size of
  the file being sealed has grown by it. No other outcome changes the sizes.
\<close>

lemma save_file_ex_get:
  assumes "save_file_ex sys p data ty t = Some (SPACEX_SUCCESS, t')" and "written sys p data = data" and "p \<notin> ft_dirs t'"
  shows "get_file_app p t' = (SPACEX_SUCCESS, data)"
  using assms by (auto simp: save_file_ex_def write_file_def get_file_app_def exists_path_def split: if_splits option.splits)

lemma real_path_suffix:
  assumes "get_real_path_by_type d (us @ path) STORE_TYPE_FILE = Some p" and "length us = UUID_LENGTH * 2"
  shows "p = [] \<or> suffix path p"
  using assms by (auto simp: get_real_path_by_type_def suffix_def Let_def split: if_splits)

lemma save_ipfs_block_stored:
  assumes "ocall_save_ipfs_block sys rand behind start path data a = Some (SPACEX_SUCCESS, u, a')"
    and "\<forall>p. written sys p data = data" and "\<forall>d \<in> ft_dirs (app_tree a'). d \<noteq> [] \<and> \<not> suffix path d"
  shows "\<exists>us. u = Some us \<and> length us = UUID_LENGTH * 2 \<and>
      ocall_get_file a' (us @ path) STORE_TYPE_FILE (app_tree a') = Some (SPACEX_SUCCESS, data) \<and> sealed_file a' = sealed_file a \<and>
      pending_file_size_um a' = (pending_file_size_um a)(parent_path path := long_add (pending_file_size_um a (parent_path path)) (int (length data)))"
proof -
  obtain j a1 for_choose disks st where g: "get_disk_info sys rand behind a = Some (j, a1)"
    and l: "choose_loop sys (parent_path path) path data for_choose disks st 0 st (None, a1) = Some (SPACEX_SUCCESS, u, a')"
    using assms(1) by (auto simp: ocall_save_ipfs_block_def Let_def bind_eq_Some_conv split: if_splits)
  from choose_loop_cases [OF l] obtain b us p t where b: "same_but_tree a1 b" "u = Some us" "length us = UUID_LENGTH * 2"
    "get_real_path_by_type a1 (us @ path) STORE_TYPE_FILE = Some p"
    "save_file_ex sys p data SF_CREATE_DIR (app_tree b) = Some (SPACEX_SUCCESS, t)"
    "a' = add_pending_file_size (parent_path path) (int (length data)) (b\<lparr>app_tree := t\<rparr>)" by auto
  have at: "app_tree a' = t" by (simp add: b(6) add_pending_file_size_def)
  have rp: "get_real_path_by_type a' (us @ path) STORE_TYPE_FILE = Some p"
    using b(1,4,6) by (auto simp: same_but_tree_def)
  have f: "same_files a b" using get_disk_info_files [OF g] b(1) by (auto simp: same_but_tree_def)
  have "ocall_get_file a' (us @ path) STORE_TYPE_FILE (app_tree a') = Some (SPACEX_SUCCESS, data)"
    using save_file_ex_get [OF b(5)] assms(2,3) real_path_suffix [OF rp b(3)] by (auto simp: ocall_get_file_def rp at)
  with b(2,3) f show ?thesis by (simp add: b(6) add_pending_file_size_def)
qed

lemma save_ipfs_block_refused:
  assumes "ocall_save_ipfs_block sys rand behind start path data a = Some (st, u, a')" and "st \<noteq> SPACEX_SUCCESS"
  shows "same_files a a'"
proof -
  obtain j a1 where g: "get_disk_info sys rand behind a = Some (j, a1)"
    and "a' = a1 \<or> (\<exists>for_choose disks n. choose_loop sys (parent_path path) path data for_choose disks n 0 n (None, a1) = Some (st, u, a'))"
    using assms(1) by (auto simp: ocall_save_ipfs_block_def Let_def bind_eq_Some_conv split: if_splits)
  then have "same_but_tree a1 a' \<or> a' = a1" using choose_loop_cases [of sys "parent_path path" path data _ _ _ 0 _ None a1] assms(2) by blast
  then show ?thesis using get_disk_info_files [OF g] by (auto simp: same_but_tree_def)
qed

section \<open>The information about a block\<close>

text \<open>The enclave reads the number of the block that the application has got from the chain.\<close>

lemma block_info_reads_back:
  assumes "heap_ok e" and "get_block_header e fl web c = Some (Some bh, c')" and "0 \<le> sint (bh_number bh)"
    and "dense (bh_hash bh)" and "json_plain (bh_hash bh)" and "\<not> prefix HASH_TAG (bh_hash bh)" and "length (block_info_text e bh) \<le> data_size"
  shows "\<exists>n data. ocall_chain_get_block_info e fl web data_size c = Some (SPACEX_SUCCESS, n, data, c') \<and>
    block_number e fl (SPACEX_SUCCESS, data) = Some (bh_number bh)"
proof -
  let ?m = "[(CHAIN_BLOCK_HASH, JString (bh_hash bh)), (CHAIN_BLOCK_NUMBER, JIntegral (sint (bh_number bh)))]"
  have obj: "jset (jset JNull CHAIN_BLOCK_NUMBER (JIntegral (sint (bh_number bh)))) CHAIN_BLOCK_HASH (JString (bh_hash bh)) = JObject ?m"
    by (simp add: jset_def)
  have sq: "remove_char (remove_char (remove_char s (CHR 0x0A)) (CHR 0x5C)) (CHR '' '') = squeeze s" for s
    unfolding squeeze_def remove_char_def filter_filter by (rule filter_cong) auto
  have d: "dense CHAIN_BLOCK_HASH" "dense CHAIN_BLOCK_NUMBER" by (simp_all add: dense_def)
  have "block_info_text e bh = squeeze (dump (double_to_string e) 1 (JObject ?m))"
    by (simp only: block_info_text_def Let_def obj sq dump_json_def)
  also have "\<dots> = dump_str (JObject ?m)"
    by (rule squeeze_dump_flat) (use assms(4,5) d in \<open>auto simp: flat_value_def\<close>)
  finally have t: "block_info_text e bh = dump_str (JObject ?m)" .
  have "sint (bh_number bh) < 2 ^ 63" using sint_lt [of "bh_number bh"] by simp
  then have rt: "json_rt (JObject ?m)"
    using assms(3,6) by (simp add: om_sorted_def json_plain_def json_escape_char_def prefix_def)
  have "Load e fl (bytes_str (str_bytes (block_info_text e bh))) = POk (JObject ?m, SPACEX_SUCCESS)"
    using Load_dump_vector [OF assms(1) rt, of fl "double_to_string e" "[]"]
    unfolding dump_vector_str [OF rt] t append_Nil2 by simp
  then have "block_number e fl (SPACEX_SUCCESS, str_bytes (block_info_text e bh)) = Some (bh_number bh)"
    by (simp add: block_number_def jget_def map_get_def)
  moreover have "ocall_chain_get_block_info e fl web data_size c =
      Some (SPACEX_SUCCESS, length (block_info_text e bh), str_bytes (block_info_text e bh), c')"
    using assms(2,7) by (simp add: ocall_chain_get_block_info_def Let_def)
  ultimately show ?thesis by blast
qed

section \<open>The search for a disk comes to an end\<close>

text \<open>Making directories and writing files takes nothing away.\<close>

lemma create_dir_grows: "create_dir_loop sys sub_paths t = Some r \<Longrightarrow> exists_path p t \<longrightarrow> exists_path p (snd r)"
proof (induction rule: create_dir_loop.raw_induct [rotated, consumes 1, case_names step])
  case (step f sys sub_paths t r)
  have mono: "exists_path p t \<Longrightarrow> exists_path p (make_dir q t)" for q t by (auto simp: exists_path_def make_dir_def)
  show ?case using step(2) by (auto split: list.splits if_splits dest!: step(1) intro: mono)
qed

lemma create_dir_keeps: "create_dir_loop sys sub_paths t = Some (st, t') \<Longrightarrow> exists_path p t \<Longrightarrow> exists_path p t'"
  using create_dir_grows [of sys sub_paths t "(st, t')" p] by simp

lemma save_file_keeps: "save_file_ex sys q data ty t = Some (st, t') \<Longrightarrow> exists_path p t \<Longrightarrow> exists_path p t'"
  by (auto simp: save_file_ex_def write_file_def create_directory_def exists_path_def [of p "_\<lparr>ft_files := _\<rparr>"]
      dest!: create_dir_keeps split: if_splits option.splits) (auto simp: exists_path_def)

text \<open>Below a directory that exists the search of \<open>create_directory\<close> comes to an end.\<close>

lemma parent_path_below:
  "parent_path (p @ CHR ''/'' # x) = (if CHR ''/'' \<in> set x then p @ CHR ''/'' # parent_path x else p)"
proof (cases "CHR ''/'' \<in> set x")
  case True
  then have "dropWhile (\<lambda>c. c \<noteq> CHR ''/'') (rev x @ CHR ''/'' # rev p) = dropWhile (\<lambda>c. c \<noteq> CHR ''/'') (rev x) @ CHR ''/'' # rev p"
    by (subst dropWhile_append1 [of "CHR ''/''"]) auto
  moreover have "dropWhile (\<lambda>c. c \<noteq> CHR ''/'') (rev x) \<noteq> []" using True by auto
  ultimately show ?thesis using True by (simp add: parent_path_def)
next
  case False
  then have "dropWhile (\<lambda>c. c \<noteq> CHR ''/'') (rev x @ CHR ''/'' # rev p) = CHR ''/'' # rev p" by (subst dropWhile_append2) auto
  then show ?thesis using False by (simp add: parent_path_def)
qed

lemma parent_path_shorter: "CHR ''/'' \<in> set x \<Longrightarrow> length (parent_path x) < length x"
proof -
  assume a: "CHR ''/'' \<in> set x"
  have "length (dropWhile (\<lambda>c. c \<noteq> CHR ''/'') (rev x)) \<le> length x" by (metis length_dropWhile_le length_rev)
  moreover have "dropWhile (\<lambda>c. c \<noteq> CHR ''/'') (rev x) \<noteq> []" using a by auto
  ultimately show ?thesis using a by (cases "dropWhile (\<lambda>c. c \<noteq> CHR ''/'') (rev x)") (auto simp: parent_path_def)
qed

lemma grounded_below: "exists_path p t \<Longrightarrow> 1 < length p \<Longrightarrow> grounded (p @ CHR ''/'' # x) t"
proof (induction x rule: length_induct)
  case (1 x)
  then have "CHR ''/'' \<in> set x \<Longrightarrow> grounded (p @ CHR ''/'' # parent_path x) t" using parent_path_shorter by blast
  with 1(2,3) show ?case by (subst grounded_step) (auto simp: parent_path_below grounded_step [of p])
qed

lemma save_below_returns:
  assumes "exists_path p t" and "1 < length p"
  shows "\<exists>r. save_file_ex sys (p @ CHR ''/'' # x) data SF_CREATE_DIR t = Some r"
proof -
  have "grounded (parent_path (p @ CHR ''/'' # x)) t" and "parent_path (p @ CHR ''/'' # x) \<noteq> []"
    using assms grounded_below [OF assms] by (auto simp: parent_path_below grounded_step [of p])
  then obtain st t' where "create_directory sys (parent_path (p @ CHR ''/'' # x)) t = Some (st, t')"
    using create_directory_returns_iff by (metis surj_pair)
  then show ?thesis by (auto simp: save_file_ex_def)
qed

text \<open>The disks that the application knows are there.\<close>

definition disks_there :: "'a app_scheme \<Rightarrow> bool" where
  "disks_there a \<longleftrightarrow> (\<forall>u p. uuid_to_disk_path a u = Some p \<longrightarrow> exists_path p (app_tree a) \<and> 1 < length p)"

definition grows :: "'a app_scheme \<Rightarrow> 'a app_scheme \<Rightarrow> bool" where
  "grows a a' \<longleftrightarrow> disks_there a' \<and> (\<forall>p. exists_path p (app_tree a) \<longrightarrow> exists_path p (app_tree a'))"

lemma grows_trans: "grows a b \<Longrightarrow> grows b c \<Longrightarrow> grows a c"
  by (simp add: grows_def)

lemma grows_tree:
  "disks_there a \<Longrightarrow> (\<And>p. exists_path p (app_tree a) \<Longrightarrow> exists_path p t) \<Longrightarrow> grows a (a\<lparr>app_tree := t\<rparr>)"
  by (auto simp: grows_def disks_there_def)

lemma disk_srd_dir_returns:
  assumes "disks_there a" and "exists_path path (app_tree a)" and "1 < length path"
  shows "\<exists>ok a'. disk_srd_dir sys path a = Some (ok, a') \<and> grows a a'"
proof -
  have "grounded (path @ DISK_SRD_DIR) (app_tree a)" using grounded_below [OF assms(2,3), of "''storage/srd''"] by simp
  moreover have "path @ DISK_SRD_DIR \<noteq> []" by simp
  ultimately obtain st t where r: "create_directory sys (path @ DISK_SRD_DIR) (app_tree a) = Some (st, t)"
    using create_directory_returns_iff by (metis surj_pair)
  then have "exists_path p (app_tree a) \<Longrightarrow> exists_path p t" for p
    using create_dir_keeps by (auto simp: create_directory_def split: if_splits)
  then show ?thesis using r grows_tree [OF assms(1)] by (auto simp: disk_srd_dir_def)
qed

lemma grows_set_uuid:
  "disks_there a \<Longrightarrow> exists_path path (app_tree a) \<Longrightarrow> 1 < length path \<Longrightarrow> grows a (set_uuid_disk_path_map uuid path a)"
  by (auto simp: grows_def disks_there_def set_uuid_disk_path_map_def Let_def)

lemma check_disk_returns:
  assumes "disks_there a" and "exists_path path (app_tree a)" and "1 < length path"
  shows "\<exists>ok a'. check_or_init_disk sys rand behind path a = Some (ok, a') \<and> grows a a'"
proof -
  have refl: "grows a a" using assms(1) by (simp add: grows_def)
  have dir: "\<exists>ok a'. disk_srd_dir sys path b = Some (ok, a') \<and> grows a a'" if "grows a b" for b
    using disk_srd_dir_returns [of b path sys] that assms(2,3) grows_trans [OF that] by (auto simp: grows_def)
  have init: "\<exists>ok a'. disk_srd_dir sys path (set_uuid_disk_path_map u path b) = Some (ok, a') \<and> grows a a'" if "grows a b" for b u
    using grows_set_uuid [of b path u] assms(2,3) that by (intro dir) (auto simp: grows_def)
  have save: "\<exists>st t. save_file_ex sys (path @ DISK_UUID_FILE) d SF_CREATE_DIR (app_tree a) = Some (st, t) \<and> grows a (a\<lparr>app_tree := t\<rparr>)" for d
  proof -
    obtain st t where r: "save_file_ex sys (path @ DISK_UUID_FILE) d SF_CREATE_DIR (app_tree a) = Some (st, t)"
      using save_below_returns [OF assms(2,3), of sys "''storage/uuid''" d] by auto
    then have "exists_path p (app_tree a) \<Longrightarrow> exists_path p t" for p using save_file_keeps by blast
    then show ?thesis using r grows_tree [OF assms(1)] by auto
  qed
  show ?thesis
  proof (cases "is_valid_or_normal_disk sys path (app_conf a)")
    case valid: True
    show ?thesis
    proof (cases "exists_path (path @ DISK_UUID_FILE) (app_tree a)")
      case True
      then show ?thesis
        using valid refl init [OF refl]
        by (cases "get_file_app (path @ DISK_UUID_FILE) (app_tree a)") (auto simp: check_or_init_disk_def Let_def)
    next
      case False
      obtain uuid where uuid: "uuid = (if is_disk_exist path a then get_uuid path a else json_hexstring (take UUID_LENGTH rand))" by blast
      obtain st t where st: "save_file_ex sys (path @ DISK_UUID_FILE) (str_bytes uuid) SF_CREATE_DIR (app_tree a) = Some (st, t)"
        and g: "grows a (a\<lparr>app_tree := t\<rparr>)" using save by blast
      show ?thesis
        using valid False st g init [OF g, of uuid] dir [OF g] uuid by (auto simp: check_or_init_disk_def Let_def split: if_splits)
    qed
  qed (use refl in \<open>auto simp: check_or_init_disk_def\<close>)
qed

lemma disk_entries_return:
  assumes "disks_there a" and "\<forall>path \<in> set paths. exists_path path (app_tree a) \<and> 1 < length path"
  shows "\<exists>ds a'. disk_entries sys rand behind paths a = Some (ds, a') \<and> grows a a'"
  using assms
proof (induction paths arbitrary: a)
  case Nil
  then show ?case by (simp add: grows_def)
next
  case (Cons path paths)
  then obtain ok a1 where 1: "check_or_init_disk sys (rand path) (behind path) path a = Some (ok, a1)" "grows a a1"
    using check_disk_returns [of a path sys] by (meson list.set_intros(1))
  then obtain ds a' where "disk_entries sys rand behind paths a1 = Some (ds, a')" "grows a1 a'"
    using Cons.IH [of a1] Cons.prems by (auto simp: grows_def)
  with 1 show ?case using grows_trans by auto
qed

lemma get_disk_info_returns:
  assumes "disks_there a" and "\<forall>path \<in> set (get_data_paths (app_conf a)). exists_path path (app_tree a) \<and> 1 < length path"
  shows "\<exists>ds a'. get_disk_info sys rand behind a = Some (JArray ds, a') \<and> disks_there a'"
  using disk_entries_return [OF assms, of sys rand behind]
  by (fastforce simp: get_disk_info_def get_increase_srd_info_r_def case_prod_beta Let_def grows_def)

lemma disk_index_ascii:
  assumes "length for_choose = choose_len" and "\<forall>c \<in> set for_choose. of_char c < (128::int)" and "0 < disks"
  shows "\<exists>di. disk_index for_choose ii disks = Some di \<and> di < disks"
proof -
  have "0 \<le> char_int (for_choose ! (j mod choose_len))" for j
  proof -
    have "for_choose ! (j mod choose_len) \<in> set for_choose" using assms(1) by simp
    then have lt: "of_char (for_choose ! (j mod choose_len)) < (128::int)" using assms(2) by blast
    have "(0::int) \<le> of_char (for_choose ! (j mod choose_len))" by (metis of_nat_0_le_iff of_nat_of_char)
    with lt show ?thesis by (simp add: char_int_def Let_def)
  qed
  then have s: "0 \<le> (\<Sum>k \<leftarrow> [0..<4]. char_int (for_choose ! ((ii + k) mod choose_len)))" by (intro sum_list_nonneg) auto
  define n where "n = (\<Sum>k \<leftarrow> [0..<4]. char_int (for_choose ! ((ii + k) mod choose_len)))"
  have "0 \<le> n mod int disks" "n mod int disks < int disks" using assms(3) by simp_all
  moreover have "disk_index for_choose ii disks = (if n mod int disks < 0 then None else Some (nat (n mod int disks)))"
    using s unfolding disk_index_def n_def [symmetric] Let_def by simp
  ultimately show ?thesis by (simp add: nat_less_iff)
qed

lemma try_disk_returns:
  assumes "disks_there a" and "choose_len < length path"
  shows "\<exists>stored u' a'. try_disk sys cid path data disk (u, a) = Some (stored, u', a') \<and> (\<not> stored \<longrightarrow> disks_there a')"
proof -
  let ?us = "get_uuid (ToString (jget disk WL_DISK_PATH)) a"
  show ?thesis
  proof (cases "(of_int (ToInt (jget disk WL_DISK_AVAILABLE) * 1024 * 1024 * 1024) :: size_t) > of_nat (length data) * 4 \<and> length ?us = UUID_LENGTH * 2")
    case False
    then show ?thesis using assms(1) unfolding try_disk_def Let_def by auto
  next
    case True
    let ?d = "get_disk_path (take (UUID_LENGTH * 2) (?us @ path)) a"
    have "\<exists>p. get_real_path_by_type a (?us @ path) STORE_TYPE_FILE = Some p \<and> (p = [] \<or> ?d \<noteq> [] \<and> (\<exists>x. p = ?d @ CHR ''/'' # x))"
      using assms(2) True by (auto simp: get_real_path_by_type_def Let_def)
    then obtain p where p: "get_real_path_by_type a (?us @ path) STORE_TYPE_FILE = Some p"
      "p = [] \<or> ?d \<noteq> [] \<and> (\<exists>x. p = ?d @ CHR ''/'' # x)" by blast
    have "?d \<noteq> [] \<Longrightarrow> exists_path ?d (app_tree a) \<and> 1 < length ?d"
      using assms(1) by (auto simp: get_disk_path_def disks_there_def split: option.splits)
    then have "p \<noteq> [] \<Longrightarrow> \<exists>r. save_file_ex sys p data SF_CREATE_DIR (app_tree a) = Some r"
      using p(2) save_below_returns [of ?d "app_tree a" sys _ data] by blast
    moreover have "p = [] \<Longrightarrow> \<exists>r. save_file_ex sys p data SF_CREATE_DIR (app_tree a) = Some r" by (simp add: save_file_ex_def)
    ultimately obtain st t where st: "save_file_ex sys p data SF_CREATE_DIR (app_tree a) = Some (st, t)" by (metis surj_pair)
    have "grows a (a\<lparr>app_tree := t\<rparr>)" using grows_tree [OF assms(1)] save_file_keeps [OF st] by blast
    then show ?thesis using True p(1) st by (auto simp: try_disk_def Let_def grows_def)
  qed
qed

lemma choose_loop_returns:
  assumes "length for_choose = choose_len" and "\<forall>c \<in> set for_choose. of_char c < (128::int)" and "disks \<noteq> []" and "choose_len < length path"
  shows "disks_there a \<Longrightarrow> \<exists>r. choose_loop sys cid path data for_choose disks start_index i ci (u, a) = Some r"
proof (induction "attempts_left start_index i ci" arbitrary: i ci u a rule: less_induct)
  case less
  show ?case
  proof (cases "i < choose_len div FILE_DISK_LIMIT \<and> ci < FILE_DISK_LIMIT \<and> start_index < FILE_DISK_LIMIT")
    case False
    then show ?thesis by (subst choose_loop.simps) auto
  next
    case True
    let ?ci = "(ci + 1) mod FILE_DISK_LIMIT"
    obtain di where di: "disk_index for_choose (ci + i * FILE_DISK_LIMIT) (length disks) = Some di"
      using disk_index_ascii [OF assms(1,2), of "length disks"] assms(3) by blast
    obtain stored u1 a1 where t: "try_disk sys cid path data (disks ! di) (u, a) = Some (stored, u1, a1)" "\<not> stored \<longrightarrow> disks_there a1"
      using try_disk_returns [OF less.prems assms(4)] by blast
    have "attempts_left start_index (if ?ci = start_index then i + 1 else i) ?ci < attempts_left start_index i ci"
      using attempts_decrease [of i ci start_index] True by auto
    from less.hyps [OF this] t show ?thesis
      using True di by (subst choose_loop.simps) (auto simp: Let_def)
  qed
qed

text \<open>With its disks in place the handler returns for every block of a path in ASCII.\<close>

lemma save_ipfs_block_returns:
  assumes "disks_there a" and "\<forall>path \<in> set (get_data_paths (app_conf a)). exists_path path (app_tree a) \<and> 1 < length path"
    and "CHR ''/'' \<in> set path" and "\<forall>c \<in> set path. of_char c < (128::int)"
  shows "\<exists>st u a'. ocall_save_ipfs_block sys rand behind start path data a = Some (st, u, a')"
proof -
  obtain ds a1 where g: "get_disk_info sys rand behind a = Some (JArray ds, a1)" "disks_there a1"
    using get_disk_info_returns [OF assms(1,2)] by blast
  let ?n = "length (parent_path path)"
  let ?fc = "if choose_len < ?n then substr path (?n - choose_len) choose_len else substr path 0 choose_len"
  have n: "?n < length path" using parent_path_shorter [OF assms(3)] .
  have ascii: "\<forall>c \<in> set ?fc. of_char c < (128::int)"
    using assms(4) by (auto simp: substr_def dest!: in_set_takeD in_set_dropD split: if_splits)
  show ?thesis
  proof (cases "ds = [] \<or> length path \<le> choose_len")
    case True
    then show ?thesis using g(1) assms(3) by (auto simp: ocall_save_ipfs_block_def json_size_def)
  next
    case False
    then have "length ?fc = choose_len" using n by (simp add: substr_def)
    from choose_loop_returns [OF this ascii _ _ g(2), of ds path sys "parent_path path" data "start mod FILE_DISK_LIMIT" 0 "start mod FILE_DISK_LIMIT" None]
      False g(1) assms(3) show ?thesis
      by (auto simp: ocall_save_ipfs_block_def json_size_def ArrayRange_def Let_def)
  qed
qed

end
