(* ===== verification/AppMirror.thy ===== *)
theory AppMirror
  imports OCalls Validator
begin

text \<open>
  The application keeps a list of the enclave's files by type, and learns of every change through a call. Here
  the calls that an enclave has made are replayed on the application, and the list that comes out is compared
  with the table of the enclave: run one at a time, the operations on files keep the two in step. The contract that
  this rests on is the locale \<open>file_listing\<close>; the handlers of \<open>OCalls\<close> meet it.
\<close>

section \<open>Replaying the calls\<close>

fun replay :: "(ocall list \<Rightarrow> ocall \<Rightarrow> 'd \<Rightarrow> 'd option) \<Rightarrow> ocall list \<Rightarrow> ocall list \<Rightarrow> 'd \<Rightarrow> 'd option" where
  "replay act h [] d = Some d"
| "replay act h (c # cs) d = Option.bind (act h c d) (replay act (h @ [c]) cs)"

lemma replay_snoc: "replay act h (cs @ [c]) d = Option.bind (replay act h cs d) (act (h @ cs) c)"
proof (induction cs arbitrary: h d)
  case Nil
  then show ?case by (cases "act h c d") simp_all
next
  case (Cons a cs)
  then show ?case by (cases "act h a d") simp_all
qed

text \<open>
  What each call does to the data that the application keeps about the enclave. \<open>now h\<close> is the time of the call after the
  calls \<open>h\<close>; a block is counted to its file when it was stored.
\<close>

definition app_ocall ::
  "env \<Rightarrow> float_lib \<Rightarrow> (ocall list \<Rightarrow> int) \<Rightarrow> ocall list \<Rightarrow> ocall \<Rightarrow> 'a enclave_data_scheme \<Rightarrow> 'a enclave_data_scheme option" where
  "app_ocall e fl now h c d =
     (case c of
        Ocall_set_srd_info info \<Rightarrow> ocall_set_srd_info e fl (str_bytes info) d
      | Ocall_store_file_info cid info type \<Rightarrow> Some (ocall_store_file_info (now h) cid info type d)
      | Ocall_delete_file_info cid type \<Rightarrow> Some (ocall_delete_file_info cid type d)
      | Ocall_change_file_type cid old_type new_type \<Rightarrow> Some (ocall_change_file_type cid old_type new_type d)
      | Ocall_ipfs_del_all cid \<Rightarrow> Some (del_file_info cid d)
      | Ocall_store2 t data \<Rightarrow> map_option snd (g_ocall_store2_func_m e fl t data d)
      | Ocall_save_ipfs_block path data \<Rightarrow>
          Some (if ocall_ret e h c = SPACEX_SUCCESS then add_pending_file_size (parent_path path) (int (length data)) d else d)
      | Ocall_store_enclave_id_info info \<Rightarrow> Some (ocall_store_enclave_id_info info d)
      | _ \<Rightarrow> Some d)"

section \<open>What the list should show\<close>

text \<open>The type under which the application should show an entry of the enclave's table.\<close>

definition shown_type :: "JSON option \<Rightarrow> string option" where
  "shown_type f = (case f of None \<Rightarrow> None | Some f \<Rightarrow> map_of g_file_spec_status (file_status f CURRENT_STATUS))"

abbreviation (input) shown :: "JSON option \<Rightarrow> string set" where
  "shown f \<equiv> set_option (shown_type f)"

lemma shown_simps:
  "shown_type None = None"
  "file_status f CURRENT_STATUS = FILE_STATUS_PENDING \<Longrightarrow> shown_type (Some f) = Some FILE_TYPE_PENDING"
  "file_status f CURRENT_STATUS = FILE_STATUS_VALID \<Longrightarrow> shown_type (Some f) = Some FILE_TYPE_VALID"
  "file_status f CURRENT_STATUS = FILE_STATUS_LOST \<Longrightarrow> shown_type (Some f) = Some FILE_TYPE_LOST"
  "file_status f CURRENT_STATUS = FILE_STATUS_DELETED \<Longrightarrow> shown_type (Some f) = None"
  by (simp_all add: shown_type_def g_file_spec_status_def)

lemma shown_sealable: "sealable f \<Longrightarrow> shown_type f = None"
  by (cases f) (auto simp: sealable_def shown_simps)

lemma shown_pending: "is_pending f \<longleftrightarrow> shown_type f = Some FILE_TYPE_PENDING"
  by (cases f) (auto simp: is_pending_def shown_type_def g_file_spec_status_def split: if_splits)

section \<open>The calls of each operation\<close>

lemma ocalls_frames [simp]:
  "ocalls (set_file_spec c n s) = ocalls s" "ocalls (upd_file pos g s) = ocalls s"
  "ocalls (add_file_nolock_at f pos s) = ocalls s" "ocalls (del_file_nolock_at pos s) = ocalls s" "ocalls (del_file_nolock cid s) = ocalls s"
  "ocalls (recover_from_deleted_file_buffer cid s) = ocalls s" "ocalls (pending_upd cid g s) = ocalls s" "ocalls (pending_erase cid s) = ocalls s"
  "ocalls (emit oc s) = ocalls s @ [oc]" "ocalls (snd (persist_set_unsafe e k v s)) = ocalls s"
  by (simp_all add: set_file_spec_def upd_file_def add_file_nolock_at_def del_file_nolock_at_def del_file_nolock_def
      recover_from_deleted_file_buffer_def pending_upd_def pending_erase_def emit_def persist_set_unsafe_eq DataBase_set_def DataBase_put_def
      split: option.split prod.split)

lemma ocalls_check_dup: "ocalls (snd (check_seal_file_dup cid s)) = ocalls s"
  by (simp add: check_seal_file_dup_def Let_def split: prod.split)

lemma seal_start_ocalls:
  fixes s :: "'a workload_scheme" and root b58 :: string
  defines "r \<equiv> storage_seal_file_start alone root b58 s"
  shows "ocalls (snd r) = ocalls s @ (if fst r = SPACEX_SUCCESS then [Ocall_store_file_info root ''{}'' FILE_TYPE_PENDING] else [])"
  using ocalls_check_dup [of root s] unfolding r_def storage_seal_file_start_def by (auto simp: Let_def split: prod.split)

lemma drop_pending_ocalls:
  assumes "files_sorted s"
  shows "ocalls (drop_pending_entry root s) =
    ocalls s @ (if is_pending (files_of s root) then [Ocall_delete_file_info root FILE_TYPE_PENDING] else [])"
proof (cases "root \<in> set (cids s)")
  case True
  then show ?thesis
    using files_of_position [OF assms True] by (auto simp: drop_pending_entry_def is_file_dup_sorted [OF assms] is_pending_def)
next
  case False
  then have "files_of s root = None" using dom_files_of [of s root] by blast
  with False show ?thesis by (simp add: drop_pending_entry_def is_file_dup_sorted [OF assms] is_pending_def)
qed

lemma finish_file_ocalls:
  "\<exists>info. ocalls (finish_file root f n s) = ocalls s @ [Ocall_store_file_info root info FILE_TYPE_VALID]"
  by (simp add: finish_file_def put_sealed_entry_def Let_def split: prod.split)

lemma delete_ocalls:
  "ocalls (ipfs_del_all e cid (mark_deleted cid s)) = ocalls s @ [Ocall_ipfs_del_all cid]"
  by (simp add: ipfs_del_all_def DataBase_del_def mark_deleted_def add_to_deleted_file_buffer_def split: option.split)

text \<open>A file in the map of pending files is pending in the table.\<close>

definition tracked :: "'a workload_scheme \<Rightarrow> bool" where
  "tracked s \<longleftrightarrow> (\<forall>cid. pending_has cid s \<longrightarrow> is_pending (files_of s cid))"

definition tracked_but :: "string \<Rightarrow> 'a workload_scheme \<Rightarrow> bool" where
  "tracked_but root s \<longleftrightarrow> (\<forall>cid. cid \<noteq> root \<longrightarrow> pending_has cid s \<longrightarrow> is_pending (files_of s cid))"

lemma tracked_but: "tracked s \<Longrightarrow> tracked_but root s"
  by (simp add: tracked_def tracked_but_def)

lemma pending_has_frames [simp]:
  "pending_has cid (emit oc s) = pending_has cid s" "pending_has cid (set_file_spec c n s) = pending_has cid s"
  "pending_has cid (pending_upd root g s) \<longleftrightarrow> cid = root \<or> pending_has cid s"
  "pending_has cid (pending_erase root s) \<longleftrightarrow> cid \<noteq> root \<and> pending_has cid s"
  by (auto simp: pending_has_def frame_simps pending_upd_def pending_erase_def)

lemma tracked_frames [simp]:
  "tracked (emit oc s) = tracked s" "tracked (set_file_spec c n s) = tracked s"
  by (simp_all add: tracked_def frame_simps)

lemma tracked_pending_upd: "tracked s \<Longrightarrow> pending_has root s \<Longrightarrow> tracked (pending_upd root g s)"
  by (auto simp: tracked_def frame_simps)

lemma tracked_drop:
  assumes "tracked_but root s" and "files_sorted s"
  shows "tracked (drop_pending_entry root (pending_erase root s))"
proof -
  let ?u = "pending_erase root s"
  have srt: "files_sorted ?u" using assms(2) by (simp add: files_sorted_def pending_erase_def)
  have "pending_files_um (drop_pending_entry root ?u) = pending_files_um ?u"
    by (simp add: drop_pending_entry_def frame_simps split: prod.split)
  then have "pending_has cid (drop_pending_entry root ?u) \<longleftrightarrow> cid \<noteq> root \<and> pending_has cid s" for cid
    using pending_has_frames(4) [of cid root s] by (simp add: pending_has_def)
  then show ?thesis
    using assms(1) files_of_drop_pending [OF srt, of root] by (auto simp: tracked_def tracked_but_def frame_simps)
qed

lemma tracked_seal_failed:
  assumes "tracked s" and "files_sorted s"
  shows "tracked (seal_failed root s)"
proof -
  have "emit (Ocall_delete_ipfs_file root) (pending_erase root s) = pending_erase root (emit (Ocall_delete_ipfs_file root) s)"
    by (simp add: emit_def pending_erase_def)
  moreover have "files_sorted (emit (Ocall_delete_ipfs_file root) s)" using assms(2) by (simp add: files_sorted_def emit_def)
  ultimately show ?thesis using tracked_drop [of root "emit (Ocall_delete_ipfs_file root) s"] assms(1) by (simp add: seal_failed_def tracked_but)
qed

lemma tracked_seal_start:
  assumes t: "tracked s" and inv: "st_inv s" and plain: "json_plain root"
  shows "tracked (snd (storage_seal_file_start alone root b58 s))"
proof (cases "upgrade_status s = ENC_UPGRADE_STATUS_NONE \<and> length (sealed_files s) < FILE_NUMBER_UPPER_LIMIT")
  case False
  then have "snd (storage_seal_file_start alone root b58 s) = s" by (auto simp: storage_seal_file_start_def)
  then show ?thesis using t by simp
next
  case True
  let ?r = "storage_seal_file_start alone root b58 s"
  note sp = seal_start_spec [OF inv plain True [THEN conjunct1] True [THEN conjunct2], of b58]
  have p: "fst ?r \<noteq> SPACEX_SUCCESS \<Longrightarrow> pending_files_um (snd ?r) = pending_files_um s"
    using check_seal_file_dup_spec(4) [OF inv plain]
    by (auto simp: storage_seal_file_start_def frame_simps Let_def split: prod.split) 
  show ?thesis
  proof (cases "sealable (files_of s root) \<and> length (pending_files_um s) \<le> FILE_PENDING_LIMIT")
    case ok: True
    note r = sp(3) [OF ok [THEN conjunct1] ok [THEN conjunct2]]
    show ?thesis
      using r t file_wf_pending_entry(3) [OF plain] by (auto simp: tracked_def pending_has_def is_pending_def)
  next
    case no: False
    have f: "fst ?r \<noteq> SPACEX_SUCCESS" using sp(1,2) no by (cases "sealable (files_of s root)") (auto simp: dup_status_def)
    have "sealable (files_of s root) \<Longrightarrow> \<not> pending_has root s"
      using t shown_sealable [of "files_of s root"] by (auto simp: tracked_def shown_pending)
    then show ?thesis
      using p [OF f] sp(1,2) no t by (cases "sealable (files_of s root)") (auto simp: tracked_def pending_has_def)
  qed
qed

lemma tracked_seal_end:
  assumes t: "tracked_but root s" and inv: "st_inv s" and plain: "json_plain root"
    and run: "storage_seal_file_end e fl alone root s = Some (ret, s')"
  shows "tracked s'"
proof (cases "pending_has root s")
  case False
  then show ?thesis using run t by (auto simp: storage_seal_file_end_def tracked_def tracked_but_def)
next
  case True
  obtain st u where body: "seal_end_body e fl alone root (pending_get root s) s = Some (ret, st, u)"
    and s': "s' = drop_pending_entry root (pending_erase root (if st \<noteq> SPACEX_SUCCESS then emit (Ocall_delete_ipfs_file root) u else u))"
    using run True by (auto simp: storage_seal_file_end_def split: option.splits prod.splits)
  have stored: "st_inv v \<and> files_of v = files_of s \<and> pending_files_um v = pending_files_um s"
    if "persist_set_unsafe e root hashs s = (x, v)" for hashs x v
  proof -
    have v: "v = snd (persist_set_unsafe e root hashs s)" using that by simp
    have "boundary.more v = boundary.more s" unfolding v by (rule more_persist)
    then show ?thesis using st_inv_boundary(2) [OF inv, of e root hashs] v files_of_more pending_more by metis
  qed
  have "st_inv u \<and> pending_files_um u = pending_files_um s \<and> (\<forall>c. c \<noteq> root \<longrightarrow> files_of u c = files_of s c)"
    using seal_end_body_cases [OF body]
  proof (elim disjE exE conjE)
    fix hashs n s1
    assume p: "persist_set_unsafe e root hashs s = (SPACEX_SUCCESS, s1)"
      and u: "u = finish_file root (sealed_entry root (sgx_sha256_msg e hashs) n (jget (pending_get root s) FILE_META)) n s1"
    from finish_file_spec [of s1 root "pending_get root s" "sgx_sha256_msg e hashs" n, OF _ plain pend_wf_get [OF inv]] stored [OF p]
    show ?thesis unfolding u by simp
  qed (use inv stored in \<open>auto dest!: stored\<close>)
  then have "st_inv u" and "tracked_but root u" using t by (auto simp: tracked_but_def pending_has_def)
  then show ?thesis
    unfolding s' by (intro tracked_drop) (auto simp: tracked_but_def frame_simps intro: st_inv_sorted st_inv_emit)
qed

section \<open>The contract of the list\<close>

locale file_listing =
  fixes act :: "ocall list \<Rightarrow> ocall \<Rightarrow> 'd \<Rightarrow> 'd option" and listed :: "string \<Rightarrow> 'd \<Rightarrow> string set" and ok :: "'d \<Rightarrow> bool"
  assumes act_pending: "ok d \<Longrightarrow> \<exists>d'. act h (Ocall_store_file_info cid info FILE_TYPE_PENDING) d = Some d' \<and> ok d' \<and>
      (\<forall>c. listed c d' = (if c = cid then insert FILE_TYPE_PENDING (listed c d) else listed c d))"
    and act_valid: "ok d \<Longrightarrow> \<exists>d'. act h (Ocall_store_file_info cid info FILE_TYPE_VALID) d = Some d' \<and> ok d' \<and>
      (\<forall>c. listed c d' = (if c = cid then insert FILE_TYPE_VALID (listed c d - {FILE_TYPE_PENDING}) else listed c d))"
    and act_delete: "ok d \<Longrightarrow> \<exists>d'. act h (Ocall_delete_file_info cid t) d = Some d' \<and> ok d' \<and>
      (\<forall>c. listed c d' = (if c = cid then listed c d - {t} else listed c d))"
    and act_change: "ok d \<Longrightarrow> t \<noteq> t' \<Longrightarrow> \<exists>d'. act h (Ocall_change_file_type cid t t') d = Some d' \<and> ok d' \<and>
      (\<forall>c. listed c d' = (if c = cid \<and> t \<in> listed c d then insert t' (listed c d - {t}) else listed c d))"
    and act_del_all: "ok d \<Longrightarrow> \<exists>d'. act h (Ocall_ipfs_del_all cid) d = Some d' \<and> ok d' \<and>
      (\<forall>c. listed c d' = (if c = cid then {} else listed c d))"
    and act_quiet: "ok d \<Longrightarrow> c = Ocall_delete_ipfs_file cid \<or> c = Ocall_save_ipfs_block p b \<Longrightarrow>
      \<exists>d'. act h c d = Some d' \<and> ok d' \<and> (\<forall>c. listed c d' = listed c d)"
begin

text \<open>After the calls \<open>h\<close> the list, which was \<open>d0\<close> at the start, shows each file under the types of \<open>M\<close>.\<close>

definition view :: "'d \<Rightarrow> ocall list \<Rightarrow> (string \<Rightarrow> string set) \<Rightarrow> bool" where
  "view d0 h M \<longleftrightarrow> (\<exists>d. replay act [] h d0 = Some d \<and> ok d \<and> (\<forall>c. listed c d = M c))"

definition mirror :: "'d \<Rightarrow> 'a workload_scheme \<Rightarrow> bool" where
  "mirror d0 s \<longleftrightarrow> view d0 (ocalls s) (\<lambda>cid. shown (files_of s cid))"

lemma view_act:
  assumes "view d0 h M" and "\<And>d. ok d \<Longrightarrow> \<exists>d'. act h c d = Some d' \<and> ok d' \<and> (\<forall>x. listed x d' = F x (listed x d))"
  shows "view d0 (h @ [c]) (\<lambda>x. F x (M x))"
proof -
  obtain d where d: "replay act [] h d0 = Some d" "ok d" "\<forall>x. listed x d = M x" using assms(1) by (auto simp: view_def)
  then obtain d' where "act h c d = Some d'" "ok d'" "\<forall>x. listed x d' = F x (listed x d)" using assms(2) by blast
  then show ?thesis using d(1,3) by (simp add: view_def replay_snoc)
qed

lemmas view_pending = view_act [where c = "Ocall_store_file_info cid info FILE_TYPE_PENDING" for cid info, OF _ act_pending]
lemmas view_valid = view_act [where c = "Ocall_store_file_info cid info FILE_TYPE_VALID" for cid info, OF _ act_valid]
lemmas view_delete = view_act [where c = "Ocall_delete_file_info cid t" for cid t, OF _ act_delete]
lemmas view_change = view_act [where c = "Ocall_change_file_type cid t t'" for cid t t', OF _ act_change, OF _ asm_rl]
lemmas view_del_all = view_act [where c = "Ocall_ipfs_del_all cid" for cid, OF _ act_del_all]

lemma view_quiet: "view d0 h M \<Longrightarrow> c = Ocall_delete_ipfs_file cid \<or> c = Ocall_save_ipfs_block p b \<Longrightarrow> view d0 (h @ [c]) M"
  using view_act [of d0 h M c "\<lambda>_ x. x"] act_quiet [of _ c cid p b h] by blast

lemma mirror_from: "view d0 (ocalls s') M \<Longrightarrow> (\<And>c. M c = shown (files_of s' c)) \<Longrightarrow> mirror d0 s'"
  unfolding mirror_def by (erule ssubst [of _ M, rotated]) auto

lemma mirror_same:
  assumes "mirror d0 s" and "ocalls s' = ocalls s" and "\<And>c. shown_type (files_of s' c) = shown_type (files_of s c)"
  shows "mirror d0 s'"
  using assms by (simp add: mirror_def)

lemma mirror_frames [simp]:
  "mirror d0 (pending_upd cid g s) = mirror d0 s" "mirror d0 (pending_erase cid s) = mirror d0 s"
  "mirror d0 (set_file_spec c n s) = mirror d0 s"
  by (simp_all add: mirror_def frame_simps)

lemma mirror_quiet:
  "mirror d0 s \<Longrightarrow> mirror d0 (emit (Ocall_delete_ipfs_file cid) s)" "mirror d0 s \<Longrightarrow> mirror d0 (emit (Ocall_save_ipfs_block p b) s)"
  unfolding mirror_def ocalls_frames files_of_frames using view_quiet by blast+

lemma mirror_drop_pending:
  assumes "mirror d0 s" and "files_sorted s"
  shows "mirror d0 (drop_pending_entry root s)"
proof (cases "is_pending (files_of s root)")
  case True
  let ?t = "drop_pending_entry root s"
  have v: "view d0 (ocalls ?t) (\<lambda>x. if x = root then shown (files_of s x) - {FILE_TYPE_PENDING} else shown (files_of s x))"
    using view_delete [OF assms(1) [unfolded mirror_def], of root FILE_TYPE_PENDING] True by (simp add: drop_pending_ocalls [OF assms(2)])
  have "files_of ?t = (files_of s)(root := None)" using files_of_drop_pending [OF assms(2), of root] True by simp
  then show ?thesis using True by (intro mirror_from [OF v]) (simp add: shown_pending shown_simps)
next
  case False
  then show ?thesis
    using drop_pending_ocalls [OF assms(2), of root] files_of_drop_pending [OF assms(2), of root] by (intro mirror_same [OF assms(1)]) auto
qed

lemma mirror_seal_failed: "mirror d0 s \<Longrightarrow> st_inv s \<Longrightarrow> mirror d0 (seal_failed root s)"
  unfolding seal_failed_def
  by (intro mirror_drop_pending mirror_quiet st_inv_sorted st_inv_emit st_inv_pending_erase) simp_all

lemma mirror_seal_start:
  assumes m: "mirror d0 s" and inv: "st_inv s" and plain: "json_plain root"
  shows "mirror d0 (snd (storage_seal_file_start alone root b58 s))"
proof (cases "upgrade_status s = ENC_UPGRADE_STATUS_NONE \<and> length (sealed_files s) < FILE_NUMBER_UPPER_LIMIT")
  case False
  then have "snd (storage_seal_file_start alone root b58 s) = s" by (auto simp: storage_seal_file_start_def)
  then show ?thesis using m by simp
next
  case True
  let ?r = "storage_seal_file_start alone root b58 s"
  note sp = seal_start_spec [OF inv plain True [THEN conjunct1] True [THEN conjunct2], of b58]
  note oc = seal_start_ocalls [of root b58 s]
  show ?thesis
  proof (cases "sealable (files_of s root) \<and> length (pending_files_um s) \<le> FILE_PENDING_LIMIT")
    case ok: True
    note r = sp(3) [OF ok [THEN conjunct1] ok [THEN conjunct2]]
    have v: "view d0 (ocalls (snd ?r)) (\<lambda>x. if x = root then insert FILE_TYPE_PENDING (shown (files_of s x)) else shown (files_of s x))"
      using view_pending [OF m [unfolded mirror_def], of root "''{}''"] r oc by simp
    show ?thesis
      using r file_wf_pending_entry(3) [OF plain] shown_sealable [OF ok [THEN conjunct1]]
      by (intro mirror_from [OF v]) (simp add: shown_simps)
  next
    case no: False
    have "fst ?r \<noteq> SPACEX_SUCCESS"
      using sp(1,2) no by (cases "sealable (files_of s root)") (auto simp: dup_status_def)
    then have "ocalls (snd ?r) = ocalls s" using oc by simp
    moreover have "shown_type (files_of (snd ?r) c) = shown_type (files_of s c)" for c
      using sp(1,2) no shown_sealable [of "files_of s root"] by (cases "sealable (files_of s root)") (auto simp: shown_simps)
    ultimately show ?thesis by (rule mirror_same [OF m])
  qed
qed

lemma mirror_finish:
  assumes "mirror d0 s" and "st_inv s" and "json_plain root" and "pend_wf file" and "shown (files_of s root) \<subseteq> {FILE_TYPE_PENDING}"
  shows "mirror d0 (finish_file root (sealed_entry root h n (jget file FILE_META)) n s)"
proof -
  let ?f = "sealed_entry root h n (jget file FILE_META)" and ?t = "finish_file root (sealed_entry root h n (jget file FILE_META)) n s"
  have m: "obj_wf (jget file FILE_META)" "jget (jget file FILE_META) FILE_STATUS = JNull" using assms(4) by (simp_all add: pend_wf_def)
  have c: "file_status ?f CURRENT_STATUS = FILE_STATUS_VALID" using file_wf_sealed_entry(4) [OF assms(3) m, of CURRENT_STATUS] by simp
  obtain info where "ocalls ?t = ocalls s @ [Ocall_store_file_info root info FILE_TYPE_VALID]" using finish_file_ocalls by blast
  then have v: "view d0 (ocalls ?t) (\<lambda>x. if x = root then insert FILE_TYPE_VALID (shown (files_of s x) - {FILE_TYPE_PENDING}) else shown (files_of s x))"
    using view_valid [OF assms(1) [unfolded mirror_def], of root info] by simp
  have "insert FILE_TYPE_VALID (shown (files_of s root) - {FILE_TYPE_PENDING}) = {FILE_TYPE_VALID}" using assms(5) by auto
  then show ?thesis
    using finish_file_spec(2) [OF assms(2-4)] shown_simps(3) [OF c] by (intro mirror_from [OF v]) simp
qed

lemma mirror_seal_end:
  assumes m: "mirror d0 s" and inv: "st_inv s" and plain: "json_plain root" and sub: "shown (files_of s root) \<subseteq> {FILE_TYPE_PENDING}"
    and run: "storage_seal_file_end e fl alone root s = Some (ret, s')"
  shows "mirror d0 s'"
proof (cases "pending_has root s")
  case False
  then show ?thesis using run m by (simp add: storage_seal_file_end_def)
next
  case True
  obtain st t where body: "seal_end_body e fl alone root (pending_get root s) s = Some (ret, st, t)"
    and s': "s' = drop_pending_entry root (pending_erase root (if st \<noteq> SPACEX_SUCCESS then emit (Ocall_delete_ipfs_file root) t else t))"
    using run True by (auto simp: storage_seal_file_end_def split: option.splits prod.splits)
  have stored: "st_inv u \<and> mirror d0 u \<and> files_of u = files_of s" if "persist_set_unsafe e root hashs s = (x, u)" for hashs x u
  proof -
    have u: "u = snd (persist_set_unsafe e root hashs s)" using that by simp
    have f: "files_of u = files_of s" unfolding u by (rule files_of_more) (rule more_persist)
    moreover have "ocalls u = ocalls s" unfolding u by simp
    ultimately show ?thesis using st_inv_boundary(2) [OF inv, of e root hashs] mirror_same [OF m, of u] u by simp
  qed
  have "st_inv t \<and> mirror d0 t"
    using seal_end_body_cases [OF body]
  proof (elim disjE exE conjE)
    fix hashs n s1
    assume p: "persist_set_unsafe e root hashs s = (SPACEX_SUCCESS, s1)"
      and t: "t = finish_file root (sealed_entry root (sgx_sha256_msg e hashs) n (jget (pending_get root s) FILE_META)) n s1"
    have s1: "st_inv s1" "mirror d0 s1" "shown (files_of s1 root) \<subseteq> {FILE_TYPE_PENDING}" using stored [OF p] sub by simp_all
    show ?thesis
      unfolding t using finish_file_spec(1) [OF s1(1) plain pend_wf_get [OF inv]] mirror_finish [OF s1(2,1) plain pend_wf_get [OF inv] s1(3)] by simp
  qed (use m inv stored in blast)+
  then show ?thesis
    unfolding s' by (intro mirror_drop_pending) (auto intro: mirror_quiet st_inv_sorted st_inv_pending_erase st_inv_emit)
qed

text \<open>The table, the map of pending files and the list of the application agree.\<close>

definition in_step :: "'d \<Rightarrow> 'a workload_scheme \<Rightarrow> bool" where
  "in_step d0 s \<longleftrightarrow> st_inv s \<and> tracked s \<and> mirror d0 s"

lemma in_step_failed: "in_step d0 s \<Longrightarrow> in_step d0 (seal_failed root s)"
  unfolding in_step_def by (simp add: st_inv_seal_failed tracked_seal_failed mirror_seal_failed st_inv_sorted)

lemma in_step_saved: "in_step d0 s \<Longrightarrow> in_step d0 (emit (Ocall_save_ipfs_block p b) s)"
  unfolding in_step_def by (simp add: st_inv_emit mirror_quiet)

lemma in_step_pending_upd:
  "in_step d0 s \<Longrightarrow> pending_has root s \<Longrightarrow> (\<And>j. pend_wf j \<Longrightarrow> pend_wf (g j)) \<Longrightarrow> in_step d0 (pending_upd root g s)"
  unfolding in_step_def by (simp add: st_inv_pending_upd tracked_pending_upd)

lemma in_step_seal_store: "in_step d0 s \<Longrightarrow> in_step d0 (snd (snd (seal_store e alone root d w s)))"
  unfolding seal_store_def ocall_do_def
  by (auto simp: Let_def in_step_failed in_step_saved in_step_pending_upd pend_wf_record_block split: sum.split option.split)

lemma in_step_seal_block:
  assumes "in_step d0 s" and "pending_has root s" and "seal_block e alone root d w s = Some (ret, path, s')"
  shows "in_step d0 s'"
proof -
  have fold: "in_step d0 (fold (\<lambda>h. pending_upd root (add_block (f h) 1)) hs t)"
    if "in_step d0 t" "pending_has root t" for f hs and t :: "'a workload_scheme"
    using that by (induction hs arbitrary: t) (simp_all add: in_step_pending_upd pend_wf_add_block)
  obtain c where c: "hash_to_cid (sgx_sha256_msg e d) = Some c" using assms(3) by (auto simp: seal_block_def split: option.splits)
  let ?s1 = "pending_upd root (add_block c (- 1)) s"
  have s1: "in_step d0 ?s1" "pending_has root ?s1" using assms(1,2) by (simp_all add: in_step_pending_upd pend_wf_add_block)
  obtain st hs where g: "get_hashs_from_block e d = Some (st, hs)" using assms(3) c by (auto simp: seal_block_def Let_def split: option.splits)
  let ?s2 = "fold (\<lambda>h. pending_upd root (add_block (the (hash_to_cid h)) 1)) hs ?s1"
  have "s' = seal_failed root ?s1 \<or> s' = snd (snd (seal_store e alone root d w ?s2))"
    using assms(3) c g s1(2) by (auto simp: seal_block_def Let_def split: if_splits)
  moreover have "in_step d0 (snd (snd (seal_store e alone root d w ?s2)))" by (rule in_step_seal_store [OF fold [OF s1]])
  moreover have "in_step d0 (seal_failed root ?s1)" by (rule in_step_failed [OF s1(1)])
  ultimately show ?thesis by (elim disjE) simp_all
qed

lemma in_step_seal_file:
  assumes "in_step d0 s" and "storage_seal_file e fl alone root data is_link s = Some (ret, path, s')"
  shows "in_step d0 s'"
  using assms in_step_seal_block [OF assms(1)]
  by (auto simp: storage_seal_file_def in_step_failed in_step_pending_upd pend_wf_add_block Let_def split: if_splits option.splits prod.splits)

lemma in_step_seal_start: "in_step d0 s \<Longrightarrow> json_plain root \<Longrightarrow> in_step d0 (snd (storage_seal_file_start alone root b58 s))"
  by (simp add: in_step_def st_inv_seal_start [OF _ _ keeps_inv_alone] tracked_seal_start mirror_seal_start)

lemma in_step_seal_end:
  assumes "in_step d0 s" and "json_plain root" and "storage_seal_file_end e fl alone root s = Some (ret, s')"
  shows "in_step d0 s'"
proof (cases "pending_has root s")
  case True
  then have "shown (files_of s root) \<subseteq> {FILE_TYPE_PENDING}" using assms(1) by (auto simp: in_step_def tracked_def shown_pending)
  then show ?thesis
    using assms seal_end_spec(1) [OF _ assms(2) keeps_inv_alone assms(3)] tracked_seal_end [OF tracked_but _ assms(2,3)] mirror_seal_end [OF _ _ assms(2) _ assms(3)]
    by (simp add: in_step_def)
qed (use assms in \<open>simp add: storage_seal_file_end_def\<close>)

lemma in_step_delete:
  assumes step: "in_step d0 s" and run: "storage_delete_file e fl alone cid s = Some (ret, s')"
  shows "in_step d0 s'"
proof -
  have inv: "st_inv s" and t: "tracked s" and m: "mirror d0 s" using step by (simp_all add: in_step_def)
  show ?thesis
  proof (cases "files_of s cid")
    case None
    then show ?thesis using delete_file_none(1) [OF inv None] run step by simp
  next
    case (Some f)
    show ?thesis
    proof (cases "file_status f CURRENT_STATUS = FILE_STATUS_DELETED")
      case True
      then show ?thesis using delete_file_none(2) [OF inv Some] run step by simp
    next
      case live: False
      let ?s2 = "set_file_spec (file_status f CURRENT_STATUS) (- file_size f) (ipfs_del_all e cid (mark_deleted cid s))"
      note md = mark_deleted_spec [OF inv Some]
      note fr = delete_state_frames [where s = "mark_deleted cid s" and c = "file_status f CURRENT_STATUS" and n = "- file_size f" and e = e and cid = cid]
      have wf: "file_wf f" "file_cid f = cid" using files_of_cid [OF Some] inv by (auto simp: st_inv_def wl_inv_def list_all_iff)
      have plain: "json_plain cid" using file_wf_cid wf by blast
      have inv2: "st_inv ?s2" by (rule fr(1) [OF md(1)])
      have files: "files_of ?s2 = (files_of s)(cid \<mapsto> deleted f)" using fr(2) md(2) by simp
      have d: "shown_type (Some (deleted f)) = None" using wf by (simp add: shown_simps file_simps)
      have v: "view d0 (ocalls ?s2) (\<lambda>x. if x = cid then {} else shown (files_of s x))"
        using view_del_all [OF m [unfolded mirror_def], of cid] by (simp add: delete_ocalls)
      have m2: "mirror d0 ?s2" by (rule mirror_from [OF v]) (simp add: files d)
      have p2: "pending_has c ?s2 = pending_has c s" for c using fr(4) md(4) by (simp add: pending_has_def)
      have tb: "tracked_but cid ?s2" using t by (simp add: tracked_but_def tracked_def files p2 del: pending_has_frames)
      show ?thesis
      proof (cases "file_status f CURRENT_STATUS = FILE_STATUS_PENDING")
        case True
        then obtain r where e: "storage_seal_file_end e fl alone cid ?s2 = Some (r, s')"
          using run by (auto simp: delete_file_run [OF inv Some live])
        have "shown (files_of ?s2 cid) \<subseteq> {FILE_TYPE_PENDING}" by (simp add: files d)
        then show ?thesis
          using seal_end_spec(1) [OF inv2 plain keeps_inv_alone e] tracked_seal_end [OF tb inv2 plain e] mirror_seal_end [OF m2 inv2 plain _ e]
          by (simp add: in_step_def)
      next
        case False
        then have "s' = ?s2" using run by (simp add: delete_file_run [OF inv Some live])
        moreover have "\<not> pending_has cid s" using t Some False by (auto simp: tracked_def is_pending_def)
        moreover from this have "tracked ?s2" using tb p2 unfolding tracked_def tracked_but_def by metis
        ultimately show ?thesis using inv2 m2 by (simp add: in_step_def)
      qed
    qed
  qed
qed

lemma in_step_change:
  fixes s :: "'a validator_scheme"
  assumes step: "in_step d0 s" and key: "map_of (g_validate_files_m s) cid = Some file" "file_cid file = cid"
    and f: "files_of s cid = Some f" "ToInt (jget f CHAIN_BLOCK_NUMBER) = ToInt (jget file CHAIN_BLOCK_NUMBER)"
    and now: "file_status f CURRENT_STATUS = file_status file CURRENT_STATUS"
  shows "in_step d0 (change_file e cid s)"
proof -
  have inv: "st_inv s" and t: "tracked s" and m: "mirror d0 s" using step by (simp_all add: in_step_def)
  have srt: "files_sorted s" using inv by (rule st_inv_sorted)
  have mem: "cid \<in> set (cids s)" using f(1) dom_files_of [of s cid] by auto
  have fp: "sealed_files s ! lower_bound cid (cids s) = f" using files_of_position [OF srt mem] f(1) by simp
  have wf: "file_wf f" using files_of_cid [OF f(1)] inv by (auto simp: st_inv_def wl_inv_def list_all_iff)
  show ?thesis
  proof (cases "flipped (file_status file CURRENT_STATUS)")
    case None
    then have "change_file e cid s = s" using key by (simp add: change_file_def map_get_def Let_def split: prod.split)
    then show ?thesis using step by simp
  next
    case (Some n)
    obtain d x y where n: "flipped (file_status file CURRENT_STATUS) = Some (d, x, y)" using Some by (cases n) auto
    have run: "change_file e cid s = emit (Ocall_change_file_type cid x y)
        (set_file_spec (file_status file CURRENT_STATUS) (- file_size file)
          (set_file_spec d (file_size file) (upd_file (lower_bound cid (cids s)) (flip_entry file d) s)))"
      using key f n fp mem by (simp add: change_file_def map_get_def is_file_dup_sorted [OF srt])
    have files: "files_of (change_file e cid s) = (files_of s)(cid \<mapsto> flip_entry file d f)"
      using change_file_spec [OF inv key f n] .
    have d: "d \<in> set status_chars" using flipped_cases [OF n] by blast
    have xy: "x \<noteq> y" "shown_type (Some f) = Some x" "shown_type (Some (flip_entry file d f)) = Some y"
      using n now flip_entry_wf(3) [OF wf d, of "file" CURRENT_STATUS] by (auto simp: flipped_def shown_simps split: if_splits)
    have v: "view d0 (ocalls (change_file e cid s))
        (\<lambda>c. if c = cid \<and> x \<in> shown (files_of s c) then insert y (shown (files_of s c) - {x}) else shown (files_of s c))"
      using view_change [OF m [unfolded mirror_def] _ xy(1), of cid] by (simp add: run)
    have "mirror d0 (change_file e cid s)" by (rule mirror_from [OF v]) (auto simp: files f(1) xy)
    moreover have "tracked (change_file e cid s)"
    proof -
      have "\<not> is_pending (files_of s cid)" using xy(2) n by (auto simp: f(1) shown_pending flipped_def split: if_splits)
      then have "\<not> pending_has cid s" using t by (auto simp: tracked_def)
      moreover have "pending_has c (change_file e cid s) = pending_has c s" for c by (simp add: run pending_has_def frame_simps)
      ultimately show ?thesis using t by (auto simp: tracked_def files)
    qed
    ultimately show ?thesis using st_inv_change_file [OF inv, of e cid] by (simp add: in_step_def)
  qed
qed

end

section \<open>Runs of operations\<close>

text \<open>
  One operation on files after the other, each run alone. A file of a validation round is changed while the copy that the
  round works on has its status still.
\<close>

inductive file_step :: "env \<Rightarrow> float_lib \<Rightarrow> 'a validator_scheme \<Rightarrow> 'a validator_scheme \<Rightarrow> bool" for e fl where
  start: "json_plain root \<Longrightarrow> file_step e fl s (snd (storage_seal_file_start alone root b58 s))"
| seal: "storage_seal_file e fl alone root data is_link s = Some (ret, path, s') \<Longrightarrow> file_step e fl s s'"
| finish: "json_plain root \<Longrightarrow> storage_seal_file_end e fl alone root s = Some (ret, s') \<Longrightarrow> file_step e fl s s'"
| delete: "storage_delete_file e fl alone cid s = Some (ret, s') \<Longrightarrow> file_step e fl s s'"
| change: "map_of (g_validate_files_m s) cid = Some file \<Longrightarrow> file_cid file = cid \<Longrightarrow> files_of s cid = Some f \<Longrightarrow>
    ToInt (jget f CHAIN_BLOCK_NUMBER) = ToInt (jget file CHAIN_BLOCK_NUMBER) \<Longrightarrow>
    file_status f CURRENT_STATUS = file_status file CURRENT_STATUS \<Longrightarrow> file_step e fl s (change_file e cid s)"
| round: "s' = s\<lparr>g_validate_files_m := m\<rparr> \<Longrightarrow> file_step e fl s s'"

context file_listing
begin

lemma in_step_file_step: "file_step e fl s s' \<Longrightarrow> in_step d0 s \<Longrightarrow> in_step d0 s'"
proof (induction rule: file_step.induct)
  case (round s' s m)
  then show ?case
    by (simp add: in_step_def mirror_def tracked_def pending_has_def st_inv_def wl_inv_def files_sorted_def files_of_def)
qed (auto intro: in_step_seal_start in_step_seal_file in_step_seal_end in_step_delete in_step_change)

lemma in_step_run: "(file_step e fl)\<^sup>*\<^sup>* s s' \<Longrightarrow> in_step d0 s \<Longrightarrow> in_step d0 s'"
  by (induction rule: rtranclp_induct) (auto intro: in_step_file_step)

end

section \<open>The application meets the contract\<close>

interpretation app_list: file_listing "app_ocall e fl now" listed_as ed_inv
  for e fl now
proof unfold_locales
  show "\<exists>d'. app_ocall e fl now h c d = Some d' \<and> ed_inv d' \<and> (\<forall>c. listed_as c d' = listed_as c d)"
    if "ed_inv d" "c = Ocall_delete_ipfs_file cid \<or> c = Ocall_save_ipfs_block p b"
    for d :: "'a enclave_data_scheme" and h c cid p b
    using that by (auto simp: app_ocall_def listed_as_def add_pending_file_size_def files_of_type_def ed_inv_def)
qed (auto simp: app_ocall_def ocall_store_file_info_def ocall_delete_file_info_def ocall_change_file_type_def ed_inv_ops
    listed_add listed_del listed_del_type listed_change)

text \<open>What the application's lookup answers is the type of the enclave's entry.\<close>

lemma mirror_lookup:
  fixes d0 :: "'b enclave_data_scheme" and s :: "'a validator_scheme"
  assumes "app_list.in_step e fl now d0 s"
  shows "\<exists>d. replay (app_ocall e fl now) [] (ocalls s) d0 = Some d \<and> (\<forall>cid. find_file_type cid d = shown_type (files_of s cid))"
proof -
  obtain d where d: "replay (app_ocall e fl now) [] (ocalls s) d0 = Some d" "ed_inv d" "\<forall>c. listed_as c d = shown (files_of s c)"
    using assms by (auto simp: app_list.in_step_def app_list.mirror_def app_list.view_def)
  have "find_file_type cid d = shown_type (files_of s cid)" for cid
    using find_file_type_listed [OF d(2), of cid] d(3) by (cases "find_file_type cid d"; cases "shown_type (files_of s cid)") auto
  with d(1) show ?thesis by blast
qed

text \<open>No call can make the data of the application ill-formed.\<close>

lemma ed_inv_fields [simp]:
  "ed_inv (d\<lparr>ed_srd_info := j\<rparr>) = ed_inv d" "ed_inv (set_enclave_id_info i d) = ed_inv d" "ed_inv (set_workreport b d) = ed_inv d"
  "ed_inv (set_upgrade_data t d) = ed_inv d" "ed_inv (add_pending_file_size c n d) = ed_inv d"
  by (simp_all add: ed_inv_def set_enclave_id_info_def set_workreport_def set_upgrade_data_def add_pending_file_size_def)

lemma store2_ed_inv: "ed_inv d \<Longrightarrow> g_ocall_store2_func_m e fl t data d = Some (st, d') \<Longrightarrow> ed_inv d'"
  by (cases t) (auto simp: g_ocall_store2_func_m_def ocall_store_file_info_all_def restore_file_info_app_def ocall_store_workreport_def
      ocall_store_upgrade_data_def ed_inv_ops(5))

lemma app_ocall_ed_inv: "ed_inv d \<Longrightarrow> app_ocall e fl now h c d = Some d' \<Longrightarrow> ed_inv d'"
  by (cases c) (auto simp: app_ocall_def ocall_set_srd_info_def set_srd_info_app_def ocall_store_file_info_def ocall_delete_file_info_def
      ocall_change_file_type_def ocall_store_enclave_id_info_def ed_inv_ops store2_ed_inv split: if_splits)

lemma replay_ed_inv: "ed_inv d \<Longrightarrow> replay (app_ocall e fl now) h cs d = Some d' \<Longrightarrow> ed_inv d'"
  by (induction cs arbitrary: h d) (auto simp: bind_eq_Some_conv intro: app_ocall_ed_inv)

text \<open>The list of the application follows a run of the enclave.\<close>

lemma mirror_run:
  fixes d0 :: "'b enclave_data_scheme" and s :: "'a validator_scheme"
  assumes run: "(file_step e fl)\<^sup>*\<^sup>* s s'" and inv: "st_inv s" "tracked s" "ed_inv d0"
    and d: "replay (app_ocall e fl now) [] (ocalls s) d0 = Some d" "\<forall>cid. listed_as cid d = set_option (shown_type (files_of s cid))"
  shows "\<exists>d'. replay (app_ocall e fl now) [] (ocalls s') d0 = Some d' \<and> (\<forall>cid. find_file_type cid d' = shown_type (files_of s' cid))"
proof -
  have "app_list.in_step e fl now d0 s"
    using inv d replay_ed_inv [OF inv(3) d(1)] by (auto simp: app_list.in_step_def app_list.mirror_def app_list.view_def)
  then have "app_list.in_step e fl now d0 s'" by (rule app_list.in_step_run [OF run])
  then show ?thesis by (rule mirror_lookup)
qed

end
