(* ===== verification/AppReport.thy ===== *)
theory AppReport
  imports SrdReserve Clients
begin

text \<open>
  The thread of the application that asks the enclave for work reports, \<open>src/src/app/process/WorkReport.cpp\<close>: it follows the height of
  the chain, waits some time into each slot of 1200 blocks and calls the enclave with the first block of the slot.

  \<open>rnd\<close> is what \<open>rand()\<close> gives, and \<open>other\<close> is what happens elsewhere during each second of a sleep. The loop takes
  the number of its turns as an argument; the code has no other end than the exit of the process.
\<close>

section \<open>Waiting\<close>

abbreviation (input) BLOCK_INTERVAL :: nat where "BLOCK_INTERVAL \<equiv> 3"
abbreviation (input) REPORT_INTERVAL_UPPER :: nat where "REPORT_INTERVAL_UPPER \<equiv> 400"
abbreviation (input) REPORT_INTERVAL_LOWER :: nat where "REPORT_INTERVAL_LOWER \<equiv> 10"

definition get_random_wait_time :: "nat \<Rightarrow> nat" where
  "get_random_wait_time rnd =
     (rnd mod (REPORT_INTERVAL_UPPER - REPORT_INTERVAL_LOWER + 1) + REPORT_INTERVAL_LOWER - 1) * BLOCK_INTERVAL"

record 'e report_world =
  rw_data :: enclave_data
  rw_chain :: chain
  rw_queue :: enclave_queue
  rw_enclave :: 'e

definition wait_and_check_exit ::
  "(nat \<Rightarrow> 'e report_world \<Rightarrow> 'e report_world) \<Rightarrow> nat \<Rightarrow> 'e report_world \<Rightarrow> bool \<times> 'e report_world" where
  "wait_and_check_exit other t w =
     reserve_wait other (\<lambda>w. get_upgrade_status_app (rw_data w) = UPGRADE_STATUS_EXIT) [0..<t] w"

text \<open>The seconds to wait for a report, from the height that the chain has.\<close>

definition report_wait_time :: "nat \<Rightarrow> size_t \<Rightarrow> nat" where
  "report_wait_time rnd number =
     (let cut_wait_time = (unat number - unat number div REPORT_SLOT * REPORT_SLOT) * BLOCK_INTERVAL;
          wait_time = get_random_wait_time rnd;
          wait_time' = (if cut_wait_time \<ge> wait_time then 0 else wait_time - cut_wait_time)
      in max wait_time' REPORT_INTERVAL_LOWER)"

section \<open>The loop\<close>

text \<open>The variables of the loop, with the calls it has made: the height and what the enclave answered, if the call got there.\<close>

record report_locals =
  target_block_height :: size_t
  stop_tryout :: int
  asked :: "(size_t \<times> spacex_status option) list"

definition report_ask ::
  "'a workload_scheme gate \<Rightarrow> env \<Rightarrow> string \<Rightarrow> size_t \<Rightarrow> 'a workload_scheme report_world \<Rightarrow>
   (spacex_status option \<times> 'a workload_scheme report_world) option" where
  "report_ask g e hash n w =
     map_option (\<lambda>(_, st, q, s). (st, w\<lparr>rw_queue := q, rw_enclave := s\<rparr>))
       (Ecall_gen_and_upload_work_report g e hash n (rw_queue w, rw_enclave w))"

text \<open>The part of a turn before the label \<open>loop\<close>; the first component tells whether to return.\<close>

definition report_try ::
  "env \<Rightarrow> float_lib \<Rightarrow> web \<Rightarrow> 'a workload_scheme gate \<Rightarrow> nat \<Rightarrow>
   (nat \<Rightarrow> 'a workload_scheme report_world \<Rightarrow> 'a workload_scheme report_world) \<Rightarrow> report_locals \<times> 'a workload_scheme report_world \<Rightarrow>
   (bool \<times> report_locals \<times> 'a workload_scheme report_world) option" where
  "report_try e fl web g rnd other u =
     (case u of (l, w) \<Rightarrow>
        Option.bind (get_block_header e fl web (rw_chain w)) (\<lambda>(header, c).
          let w1 = w\<lparr>rw_chain := c\<rparr>
          in case header of
               None \<Rightarrow> Some (False, l, w1)
             | Some bh \<Rightarrow>
                 if bh_number bh < target_block_height l then Some (False, l, w1)
                 else
                   let stopping = get_upgrade_status_app (rw_data w1) = UPGRADE_STATUS_STOP_WORKREPORT;
                       tryout = stop_tryout l - 1;
                       l1 = (if \<not> stopping then l else l\<lparr>stop_tryout := if tryout < 0 then 30 else tryout\<rparr>)
                   in if stopping \<and> \<not> tryout < 0 then Some (False, l1, w1)
                      else
                        let number = bh_number bh div of_nat REPORT_SLOT * of_nat REPORT_SLOT;
                            (leave, w2) = wait_and_check_exit other
                              (if is_offline (rw_chain w1) then 10 else report_wait_time rnd (bh_number bh)) w1
                        in if leave then Some (True, l1, w2)
                           else
                             let (hash, c') = get_block_hash web number (rw_chain w2);
                                 w3 = w2\<lparr>rw_chain := c'\<rparr>
                             in if hash = [] \<or> hash = replicate 64 (CHR ''0'') then Some (False, l1, w3)
                                else map_option (\<lambda>(st, w4).
                                         (False, l1\<lparr>target_block_height := number + of_nat REPORT_SLOT, asked := asked l1 @ [(number, st)]\<rparr>, w4))
                                       (report_ask g e hash number w3)))"

definition report_turn ::
  "env \<Rightarrow> float_lib \<Rightarrow> web \<Rightarrow> 'a workload_scheme gate \<Rightarrow> nat \<Rightarrow> (nat \<Rightarrow> nat \<Rightarrow> 'a workload_scheme report_world \<Rightarrow> 'a workload_scheme report_world) \<Rightarrow>
   bool \<Rightarrow> report_locals \<times> 'a workload_scheme report_world \<Rightarrow> (bool \<times> report_locals \<times> 'a workload_scheme report_world) option" where
  "report_turn e fl web g rnd other db_ok u =
     (if get_upgrade_status_app (rw_data (snd u)) = UPGRADE_STATUS_EXIT then Some (True, u)
      else map_option (\<lambda>(leave, l, w).
               if leave then (True, l, w)
               else case wait_and_check_exit (other 1) (BLOCK_INTERVAL div 2) w of
                      (leave', w') \<Rightarrow>
                        if leave' then (True, l, w')
                        else (False, l, if is_offline (rw_chain w')
                                        then w'\<lparr>rw_chain := add_offline_block_height db_ok (of_nat (REPORT_SLOT div 60)) (rw_chain w')\<rparr> else w'))
             (report_try e fl web g rnd (other 0) u))"

text \<open>The height from which on the first report is due.\<close>

definition first_target :: "BlockHeader option \<Rightarrow> size_t" where
  "first_target header =
     (case header of None \<Rightarrow> of_nat REPORT_SLOT | Some bh \<Rightarrow> (bh_number bh div of_nat REPORT_SLOT + 1) * of_nat REPORT_SLOT)"

fun report_turns ::
  "env \<Rightarrow> float_lib \<Rightarrow> web \<Rightarrow> (nat \<Rightarrow> 'a workload_scheme gate) \<Rightarrow> (nat \<Rightarrow> nat) \<Rightarrow>
   (nat \<Rightarrow> nat \<Rightarrow> nat \<Rightarrow> 'a workload_scheme report_world \<Rightarrow> 'a workload_scheme report_world) \<Rightarrow> (nat \<Rightarrow> bool) \<Rightarrow> nat \<Rightarrow>
   report_locals \<times> 'a workload_scheme report_world \<Rightarrow> (report_locals \<times> 'a workload_scheme report_world) option" where
  "report_turns e fl web g rnd other db_ok 0 u = Some u"
| "report_turns e fl web g rnd other db_ok (Suc n) u =
     Option.bind (report_turn e fl web (g n) (rnd n) (other n) (db_ok n) u) (\<lambda>(leave, u').
       if leave then Some u' else report_turns e fl web g rnd other db_ok n u')"

definition work_report_loop ::
  "env \<Rightarrow> float_lib \<Rightarrow> web \<Rightarrow> (nat \<Rightarrow> 'a workload_scheme gate) \<Rightarrow> (nat \<Rightarrow> nat) \<Rightarrow>
   (nat \<Rightarrow> nat \<Rightarrow> nat \<Rightarrow> 'a workload_scheme report_world \<Rightarrow> 'a workload_scheme report_world) \<Rightarrow> (nat \<Rightarrow> bool) \<Rightarrow> nat \<Rightarrow>
   'a workload_scheme report_world \<Rightarrow> (report_locals \<times> 'a workload_scheme report_world) option" where
  "work_report_loop e fl web g rnd other db_ok n w =
     Option.bind (get_block_header e fl web (rw_chain w)) (\<lambda>(header, c).
       report_turns e fl web g rnd other db_ok n
         (\<lparr>target_block_height = first_target header, stop_tryout = 30, asked = []\<rparr>, w\<lparr>rw_chain := c\<rparr>))"

section \<open>How long a report waits\<close>

text \<open>The comment in the code says 9 to 199; the number of blocks is between 9 and 399.\<close>

lemma random_wait_bounds: "get_random_wait_time rnd \<in> {27..1197}"
proof -
  have "rnd mod 391 \<le> 390" using mod_less_divisor [of 391 rnd] by simp
  then show ?thesis by (simp add: get_random_wait_time_def)
qed

lemma report_wait_bounds: "report_wait_time rnd number \<in> {10..1197}"
  using random_wait_bounds [of rnd] by (auto simp: report_wait_time_def Let_def)

lemma random_wait_reaches: "get_random_wait_time 390 = 399 * BLOCK_INTERVAL"
  by (simp add: get_random_wait_time_def)

section \<open>What the enclave does with the height\<close>

lemma handle_report_height: "report_height (handle_report_result e s) = report_height s"
proof -
  have "report_height (snd (fold confirm_file cs (h, s))) = report_height s" for cs h
  proof (induction cs arbitrary: h s)
    case (Cons c cs)
    obtain h1 s1 where c: "confirm_file c (h, s) = (h1, s1)" by fastforce
    then have "report_height s1 = report_height s" by (auto simp: confirm_file_def upd_file_def Let_def split: prod.splits if_splits)
    with Cons c show ?case by simp
  qed simp
  from this [of "reported_files_idx s" False] show ?thesis
    by (auto simp: handle_report_result_def workload_more(8) [OF id_store_metadata_more] Let_def split: prod.splits)
qed

lemma store2_status: "fst (store2_loop e n t data key off s) \<in> {SPACEX_SUCCESS, SPACEX_SGX_FAILED, SPACEX_MALLOC_FAILED}"
proof (induction e n t data key off s rule: store2_loop.induct)
  case (1 e n t data key off s)
  have "fst (ocall_safe_store2 e t p l off key s) \<in> {SPACEX_SUCCESS, SPACEX_MALLOC_FAILED}" for p l
    by (auto simp: ocall_safe_store2_def Let_def split: option.splits)
  then have st: "ocall_safe_store2 e t p l off key s = (st, s') \<Longrightarrow> st = SPACEX_SUCCESS \<or> st = SPACEX_MALLOC_FAILED" for p l st s'
    by (metis fst_conv insertE singletonD)
  show ?case using 1 by (subst store2_loop.simps) (auto simp: Let_def split: prod.splits dest: st)
qed

lemma report_body_not_expired: "fst (report_body e bh n u s) \<noteq> SPACEX_BLOCK_HEIGHT_EXPIRED"
proof -
  have "fst (safe_ocall_store2 e t d s') \<noteq> SPACEX_BLOCK_HEIGHT_EXPIRED" for t d and s' :: "'a workload_scheme"
    using store2_status [of e BOUNDARY_SIZE_THRESHOLD t d "rand_key e (length (ocalls s'))" 0 s'] by (auto simp: safe_ocall_store2_def)
  then show ?thesis by (auto simp: report_body_def sign_and_store_def Let_def split: option.split)
qed

text \<open>A height that is one slot past the last one is not refused as expired, and it is the last one afterwards.\<close>

lemma ecall_report_height:
  fixes s :: "'a workload_scheme" and bh :: string
  assumes "n \<noteq> 0" and "\<not> n < report_height s + of_nat REPORT_SLOT" and "\<And>h. ocall_ret e h Ocall_upload_workreport \<noteq> SPACEX_BLOCK_HEIGHT_EXPIRED"
  defines "r \<equiv> ecall_gen_and_upload_work_report e bh n s"
  shows "fst r \<noteq> SPACEX_BLOCK_HEIGHT_EXPIRED" and "report_height (snd r) = n \<or> report_height (snd r) = report_height s"
proof -
  obtain st s1 where g: "gen_work_report e bh n False s = (st, s1)" by fastforce
  then have h: "report_height s1 = n" and st: "st \<noteq> SPACEX_BLOCK_HEIGHT_EXPIRED"
    using assms(1,2) report_body_not_expired [of e bh n False s] by (auto simp: gen_work_report_def report_defer_fields(1) split: prod.splits)
  have "report_height (emit c s1) = n" for c using h by (simp add: emit_def)
  then have "report_height (handle_report_result e (emit c s1)) = n" for c by (simp add: handle_report_height)
  then show "fst r \<noteq> SPACEX_BLOCK_HEIGHT_EXPIRED" and "report_height (snd r) = n \<or> report_height (snd r) = report_height s"
    using g h st assms(3) by (auto simp: r_def ecall_gen_and_upload_work_report_def gen_and_upload_work_report_def ocall_do_def emit_def Let_def)
qed

section \<open>The heights of the reports\<close>

text \<open>
  Each height that was asked for is the first block of a slot and one slot past the one before; the enclave's height is at
  least one slot below the target.
\<close>

definition report_inv :: "report_locals \<times> 'a workload_scheme report_world \<Rightarrow> bool" where
  "report_inv u \<longleftrightarrow>
     (let (l, w) = u; t = unat (target_block_height l); hs = map (\<lambda>p. unat (fst p)) (asked l)
      in REPORT_SLOT dvd t \<and> REPORT_SLOT \<le> t \<and> sorted_wrt (\<lambda>a b. a + REPORT_SLOT \<le> b) hs \<and>
         (\<forall>h \<in> set hs. REPORT_SLOT dvd h \<and> h + REPORT_SLOT \<le> t) \<and>
         unat (report_height (rw_enclave w)) + REPORT_SLOT \<le> t \<and>
         (\<forall>p \<in> set (asked l). snd p \<noteq> Some SPACEX_BLOCK_HEIGHT_EXPIRED))"

text \<open>The heights asked for are far from the end of 64 bits.\<close>

definition low_heights :: "report_locals \<Rightarrow> bool" where
  "low_heights l \<longleftrightarrow> (\<forall>p \<in> set (asked l). unat (fst p) < 2 ^ 63)"

definition keeps_height :: "('a workload_scheme report_world \<Rightarrow> 'a workload_scheme report_world) \<Rightarrow> bool" where
  "keeps_height f \<longleftrightarrow> (\<forall>w. report_height (rw_enclave (f w)) = report_height (rw_enclave w))"

lemma reserve_wait_keeps:
  "reserve_wait other stop is w = (b, w') \<Longrightarrow> (\<And>i. keeps_height (other i)) \<Longrightarrow> report_height (rw_enclave w') = report_height (rw_enclave w)"
  by (induction other stop "is" w rule: reserve_wait.induct) (auto simp: keeps_height_def split: if_splits)

lemma slot_start:
  assumes "REPORT_SLOT dvd t" and "t \<le> n"
  shows "t \<le> n div REPORT_SLOT * (REPORT_SLOT :: nat)"
  using assms by (auto elim!: dvdE)

lemma unat_slot_start: "unat (n div of_nat REPORT_SLOT * of_nat REPORT_SLOT :: size_t) = unat n div REPORT_SLOT * REPORT_SLOT"
proof -
  have d: "unat (n div of_nat REPORT_SLOT) = unat n div REPORT_SLOT" by (simp add: unat_div)
  have "unat n div REPORT_SLOT * REPORT_SLOT \<le> unat n" by simp
  also have "unat n < 2 ^ 64" using unsigned_less [of n] by simp
  finally have "unat n div REPORT_SLOT * REPORT_SLOT < 2 ^ 64" .
  then show ?thesis using d by (simp add: unat_word_ariths)
qed

lemma report_inv_asked:
  assumes inv: "report_inv (l, w)" and n: "unat (target_block_height l) \<le> unat number" and low: "unat m < 2 ^ 63"
    and m: "m = number div of_nat REPORT_SLOT * of_nat REPORT_SLOT"
    and h: "unat (report_height (rw_enclave w')) \<le> unat m" and st: "st \<noteq> Some SPACEX_BLOCK_HEIGHT_EXPIRED"
    and l': "l' = l\<lparr>target_block_height := m + of_nat REPORT_SLOT, asked := asked l @ [(m, st)]\<rparr>"
  shows "report_inv (l', w')"
proof -
  let ?t = "unat (target_block_height l)"
  have um: "unat m = unat number div REPORT_SLOT * REPORT_SLOT" unfolding m by (rule unat_slot_start)
  have t: "REPORT_SLOT dvd ?t" using inv by (simp add: report_inv_def Let_def)
  have le: "?t \<le> unat m" unfolding um by (rule slot_start [OF t n])
  have "unat (m + of_nat REPORT_SLOT) = unat m + REPORT_SLOT" using low by (simp add: unat_word_ariths)
  then show ?thesis
    using inv le h st um by (fastforce simp: report_inv_def l' Let_def sorted_wrt_append)
qed

lemma report_ask_inv:
  assumes g: "\<And>s. report_height (meanwhile g s) = report_height s"
    and up: "\<And>h. ocall_ret e h Ocall_upload_workreport \<noteq> SPACEX_BLOCK_HEIGHT_EXPIRED"
    and ask: "report_ask g e hash n w = Some (st, w')"
    and h: "0 < unat n" "unat (report_height (rw_enclave w)) + REPORT_SLOT \<le> unat n"
  shows "st \<noteq> Some SPACEX_BLOCK_HEIGHT_EXPIRED" and "unat (report_height (rw_enclave w')) \<le> unat n"
proof -
  obtain ret q s where c: "Ecall_gen_and_upload_work_report g e hash n (rw_queue w, rw_enclave w) = Some (ret, st, q, s)"
    and w': "w' = w\<lparr>rw_queue := q, rw_enclave := s\<rparr>" using ask by (auto simp: report_ask_def)
  let ?s = "meanwhile g (rw_enclave w)"
  have "unat (report_height ?s + of_nat REPORT_SLOT) \<le> unat n"
    using h(2) unat_word_ariths(1) [of "report_height ?s" "of_nat REPORT_SLOT"] by (simp add: g)
  then have guard: "n \<noteq> 0" "\<not> n < report_height ?s + of_nat REPORT_SLOT" using h(1) by (auto simp: word_less_nat_alt not_less)
  note r = ecall_report_height [OF guard up, of hash]
  show "st \<noteq> Some SPACEX_BLOCK_HEIGHT_EXPIRED" and "unat (report_height (rw_enclave w')) \<le> unat n"
    using with_enclave_effect [OF c [unfolded Ecall_gen_and_upload_work_report_def]] r g [of "rw_enclave w"] h(2)
    by (auto simp: w' split: if_splits)
qed

lemma report_try_inv:
  assumes inv: "report_inv (l, w)" and g: "\<And>s. report_height (meanwhile g s) = report_height s"
    and up: "\<And>h. ocall_ret e h Ocall_upload_workreport \<noteq> SPACEX_BLOCK_HEIGHT_EXPIRED" and other: "\<And>i. keeps_height (other i)"
    and run: "report_try e fl web g rnd other (l, w) = Some (leave, l', w')" and low: "low_heights l'"
  shows "report_inv (l', w')"
proof -
  have frame: "report_inv (l\<lparr>stop_tryout := k\<rparr>, v)" if "report_height (rw_enclave v) = report_height (rw_enclave w)" for k v
    using inv that by (simp add: report_inv_def Let_def)
  have frame0: "report_inv (l, v)" if "report_height (rw_enclave v) = report_height (rw_enclave w)" for v
    using inv that by (simp add: report_inv_def Let_def)
  obtain header c where hd: "get_block_header e fl web (rw_chain w) = Some (header, c)"
    using run by (auto simp: report_try_def bind_eq_Some_conv)
  let ?w1 = "w\<lparr>rw_chain := c\<rparr>"
  show ?thesis
  proof (cases header)
    case None
    then show ?thesis using run hd frame0 [of ?w1] by (auto simp: report_try_def)
  next
    case (Some bh)
    let ?stopping = "get_upgrade_status_app (rw_data ?w1) = UPGRADE_STATUS_STOP_WORKREPORT"
    let ?l1 = "if \<not> ?stopping then l else l\<lparr>stop_tryout := if stop_tryout l - 1 < 0 then 30 else stop_tryout l - 1\<rparr>"
    let ?n = "bh_number bh div of_nat REPORT_SLOT * of_nat REPORT_SLOT :: size_t"
    obtain b w2 where wt: "wait_and_check_exit other (if is_offline (rw_chain ?w1) then 10 else report_wait_time rnd (bh_number bh)) ?w1 = (b, w2)"
      by fastforce
    have w2: "report_height (rw_enclave w2) = report_height (rw_enclave w)"
      using reserve_wait_keeps [OF wt [unfolded wait_and_check_exit_def] other] by simp
    have l1: "report_inv (?l1, v)" if "report_height (rw_enclave v) = report_height (rw_enclave w)" for v
      using frame [OF that] frame0 [OF that] by simp
    consider (quiet) "l' = l \<or> l' = ?l1" "report_height (rw_enclave w') = report_height (rw_enclave w)"
      | (ask) hash c' st where "\<not> bh_number bh < target_block_height l" "report_ask g e hash ?n (w2\<lparr>rw_chain := c'\<rparr>) = Some (st, w')"
          "l' = ?l1\<lparr>target_block_height := ?n + of_nat REPORT_SLOT, asked := asked ?l1 @ [(?n, st)]\<rparr>"
      using run hd Some wt w2 unfolding report_try_def by (auto simp: Let_def split: if_splits prod.splits)
    then show ?thesis
    proof cases
      case quiet
      then show ?thesis using l1 frame0 by auto
    next
      case ask
      have i1: "report_inv (?l1, w2\<lparr>rw_chain := c'\<rparr>)" by (rule l1) (use w2 in simp)
      have t: "unat (target_block_height ?l1) \<le> unat (bh_number bh)" using ask(1) by (simp add: word_less_nat_alt not_less)
      have lw: "unat ?n < 2 ^ 63" using low by (simp add: ask(3) low_heights_def)
      have td: "REPORT_SLOT dvd unat (target_block_height ?l1)" "REPORT_SLOT \<le> unat (target_block_height ?l1)"
        "unat (report_height (rw_enclave (w2\<lparr>rw_chain := c'\<rparr>))) + REPORT_SLOT \<le> unat (target_block_height ?l1)"
        using i1 by (simp_all add: report_inv_def Let_def)
      have le: "unat (target_block_height ?l1) \<le> unat ?n" unfolding unat_slot_start by (rule slot_start [OF td(1) t])
      note a = report_ask_inv [OF g up ask(2)]
      have "st \<noteq> Some SPACEX_BLOCK_HEIGHT_EXPIRED" and "unat (report_height (rw_enclave w')) \<le> unat ?n"
        using a td le by auto
      then show ?thesis using report_inv_asked [OF i1 t lw refl] ask(3) by blast
    qed
  qed
qed

lemma report_turn_inv:
  assumes inv: "report_inv (l, w)" and g: "\<And>s. report_height (meanwhile g s) = report_height s"
    and up: "\<And>h. ocall_ret e h Ocall_upload_workreport \<noteq> SPACEX_BLOCK_HEIGHT_EXPIRED" and other: "\<And>j i. keeps_height (other j i)"
    and run: "report_turn e fl web g rnd other db_ok (l, w) = Some (leave, l', w')" and low: "low_heights l'"
  shows "report_inv (l', w')"
proof (cases "get_upgrade_status_app (rw_data w) = UPGRADE_STATUS_EXIT")
  case True
  then show ?thesis using run inv by (simp add: report_turn_def)
next
  case False
  obtain b w1 where t: "report_try e fl web g rnd (other 0) (l, w) = Some (b, l', w1)"
    using run False by (auto simp: report_turn_def split: if_splits prod.splits)
  have "report_height (rw_enclave w') = report_height (rw_enclave w1)"
    using run False t other by (auto simp: report_turn_def wait_and_check_exit_def keeps_height_def split: if_splits prod.splits)
  then show ?thesis
    using report_try_inv [OF inv g up other t low] by (simp add: report_inv_def)
qed

lemma report_try_asked:
  assumes run: "report_try e fl web g rnd other (l, w) = Some (leave, l', w')"
  shows "set (asked l) \<subseteq> set (asked l')"
proof -
  obtain header c where hd: "get_block_header e fl web (rw_chain w) = Some (header, c)"
    using run by (auto simp: report_try_def bind_eq_Some_conv)
  show ?thesis
  proof (cases header)
    case None
    then show ?thesis using run hd by (auto simp: report_try_def)
  next
    case (Some bh)
    obtain b w2 where "wait_and_check_exit other (if is_offline c then 10 else report_wait_time rnd (bh_number bh)) (w\<lparr>rw_chain := c\<rparr>) = (b, w2)"
      by fastforce
    then show ?thesis
      using run hd Some unfolding report_try_def by (auto simp: Let_def split: if_splits prod.splits)
  qed
qed

lemma asked_grows:
  assumes "report_turns e fl web g rnd other db_ok n (l, w) = Some (l', w')"
  shows "set (asked l) \<subseteq> set (asked l')"
  using assms
proof (induction n arbitrary: l w)
  case (Suc n)
  obtain leave l1 w1 where t: "report_turn e fl web (g n) (rnd n) (other n) (db_ok n) (l, w) = Some (leave, l1, w1)"
    and r: "if leave then (l1, w1) = (l', w') else report_turns e fl web g rnd other db_ok n (l1, w1) = Some (l', w')"
    using Suc.prems by (auto simp: bind_eq_Some_conv split: if_splits)
  have "l1 = l \<or> (\<exists>b w2. report_try e fl web (g n) (rnd n) (other n 0) (l, w) = Some (b, l1, w2))"
    using t unfolding report_turn_def by (cases "get_upgrade_status_app (rw_data w) = UPGRADE_STATUS_EXIT") (auto split: if_splits prod.splits)
  then have "set (asked l) \<subseteq> set (asked l1)" using report_try_asked by blast
  then show ?case using r Suc.IH [of l1 w1] by (cases leave) auto
qed simp

lemma report_turns_inv:
  assumes "report_inv (l, w)" and "\<And>n s. report_height (meanwhile (g n) s) = report_height s"
    and "\<And>h. ocall_ret e h Ocall_upload_workreport \<noteq> SPACEX_BLOCK_HEIGHT_EXPIRED" and "\<And>k j i. keeps_height (other k j i)"
    and "report_turns e fl web g rnd other db_ok n (l, w) = Some (l', w')" and "low_heights l'"
  shows "report_inv (l', w')"
  using assms(1,5)
proof (induction n arbitrary: l w)
  case (Suc n)
  obtain leave l1 w1 where t: "report_turn e fl web (g n) (rnd n) (other n) (db_ok n) (l, w) = Some (leave, l1, w1)"
    and r: "if leave then (l1, w1) = (l', w') else report_turns e fl web g rnd other db_ok n (l1, w1) = Some (l', w')"
    using Suc.prems(2) by (auto simp: bind_eq_Some_conv split: if_splits)
  have "set (asked l1) \<subseteq> set (asked l')"
    using r asked_grows [of e fl web g rnd other db_ok n l1 w1 l' w'] by (cases leave) auto
  then have "low_heights l1" using assms(6) by (auto simp: low_heights_def)
  then have "report_inv (l1, w1)" by (rule report_turn_inv [OF Suc.prems(1) assms(2,3,4) t])
  then show ?case using r Suc.IH by (cases leave) auto
qed simp

text \<open>
  From the start of the loop: with the enclave's height at 0, as it is after a start, no report is refused as expired.
\<close>

lemma unat_first_target:
  assumes "\<And>bh. header = Some bh \<Longrightarrow> unat (bh_number bh) < 2 ^ 63"
  shows "REPORT_SLOT dvd unat (first_target header) \<and> REPORT_SLOT \<le> unat (first_target header)"
proof (cases header)
  case (Some bh)
  let ?k = "unat (bh_number bh) div REPORT_SLOT + 1"
  have lt: "?k * REPORT_SLOT < 2 ^ 64" using assms [OF Some] by simp
  have "unat (bh_number bh div of_nat REPORT_SLOT) = unat (bh_number bh) div REPORT_SLOT" by (simp add: unat_div)
  then have "unat (bh_number bh div of_nat REPORT_SLOT + 1) = ?k" using lt by (simp add: unat_word_ariths(1))
  then have "unat ((bh_number bh div of_nat REPORT_SLOT + 1) * of_nat REPORT_SLOT) = ?k * REPORT_SLOT"
    using lt unfolding unat_word_ariths(2) by simp
  then have "unat (first_target header) = ?k * REPORT_SLOT" unfolding first_target_def Some by (simp only: option.case)
  then show ?thesis by simp
qed (simp add: first_target_def)

lemma report_loop_heights:
  assumes "report_height (rw_enclave w) = 0" and "\<And>n s. report_height (meanwhile (g n) s) = report_height s"
    and "\<And>h. ocall_ret e h Ocall_upload_workreport \<noteq> SPACEX_BLOCK_HEIGHT_EXPIRED" and "\<And>k j i. keeps_height (other k j i)"
    and "\<And>bh c. get_block_header e fl web (rw_chain w) = Some (Some bh, c) \<Longrightarrow> unat (bh_number bh) < 2 ^ 63"
    and "work_report_loop e fl web g rnd other db_ok n w = Some (l', w')" and "low_heights l'"
  shows "report_inv (l', w')"
proof -
  obtain header c where hd: "get_block_header e fl web (rw_chain w) = Some (header, c)"
    and r: "report_turns e fl web g rnd other db_ok n
         (\<lparr>target_block_height = first_target header, stop_tryout = 30, asked = []\<rparr>, w\<lparr>rw_chain := c\<rparr>) = Some (l', w')"
    using assms(6) by (auto simp: work_report_loop_def bind_eq_Some_conv)
  have "report_inv (\<lparr>target_block_height = first_target header, stop_tryout = 30, asked = []\<rparr>, w\<lparr>rw_chain := c\<rparr>)"
    using unat_first_target [of header] assms(1,5) hd by (auto simp: report_inv_def)
  from report_turns_inv [OF this assms(2,3,4) r assms(7)] show ?thesis .
qed

end
