(* ===== verification/Overview.thy ===== *)
theory Overview
  imports AppSrd
begin

text \<open>
  The overview of the workload that the application gives to its users, from \<open>src/src/app/process/EnclaveData.cpp\<close>: the random data by
  disk, the files by type, as a text that is a document again.

  The buffers for \<open>sprintf\<close> are large enough: a line for a disk has at most 62 characters besides its path and
  four numbers of at most 11 characters for sizes in gigabytes, and 128 are there.
\<close>

section \<open>Random data\<close>

abbreviation (input) WL_SYS_DISK_AVAILABLE :: string where "WL_SYS_DISK_AVAILABLE \<equiv> ''sys_disk_available''"

definition disk_line :: "JSON \<Rightarrow> JSON \<Rightarrow> 'a app_scheme \<Rightarrow> string" where
  "disk_line srd_info disk a =
     (let disk_path = ToString (jget disk WL_DISK_PATH);
          uuid = get_uuid disk_path a
      in ''  '' @ quoted disk_path @ '' : { '' @ quoted ''srd'' @ '' : '' @ int_to_string (ToInt (jget (jget srd_info WL_SRD_DETAIL) uuid)) @
         '', '' @ quoted ''srd_avail'' @ '' : '' @ int_to_string (ToInt (jget disk WL_DISK_AVAILABLE_FOR_SRD)) @
         '', '' @ quoted ''avail'' @ '' : '' @ int_to_string (ToInt (jget disk WL_DISK_AVAILABLE)) @
         '', '' @ quoted ''volumn'' @ '' : '' @ int_to_string (ToInt (jget disk WL_DISK_VOLUME)) @ '' }'')"

text \<open>A sum over the disks in a variable of type \<open>int\<close>.\<close>

definition sum_int32 :: "string \<Rightarrow> JSON list \<Rightarrow> int" where
  "sum_int32 k disks = fold (\<lambda>d n. int32 (n + ToInt (jget d k))) disks 0"

definition srd_overview :: "os \<Rightarrow> int \<Rightarrow> JSON list \<Rightarrow> 'a app_scheme \<Rightarrow> string" where
  "srd_overview sys srd_task disks a =
     (let srd_info = get_srd_info_app a;
          entry = (\<lambda>k text. quoted k @ '' : '' @ text);
          disk_info = ''{'' @ newline @ sep_by ('','' @ newline) (map (\<lambda>d. disk_line srd_info d a) disks) @
                      (if disks = [] then [] else newline) @ ''}''
      in ''{'' @ newline @
         entry WL_SRD_COMPLETE (int_to_string (ToInt (jget srd_info WL_SRD_COMPLETE))) @ '','' @ newline @
         entry WL_SRD_REMAINING_TASK (int_to_string (long_add (ToInt (jget srd_info WL_SRD_REMAINING_TASK)) srd_task)) @ '','' @ newline @
         entry WL_DISK_AVAILABLE_FOR_SRD (int_to_string (sum_int32 WL_DISK_AVAILABLE_FOR_SRD disks)) @ '','' @ newline @
         entry WL_DISK_AVAILABLE (int_to_string (sum_int32 WL_DISK_AVAILABLE disks)) @ '','' @ newline @
         entry WL_DISK_VOLUME (int_to_string (sum_int32 WL_DISK_VOLUME disks)) @ '','' @ newline @
         entry WL_SYS_DISK_AVAILABLE (nat_to_string (unat (get_avail_space_under_dir_g sys (cf_base_path (app_conf a))))) @ '','' @ newline @
         entry WL_SRD_DETAIL disk_info @ newline @ ''}'')"

section \<open>Files\<close>

text \<open>The set \<open>file_spec_type\<close>, in its order.\<close>

definition file_spec_type :: "string list" where
  "file_spec_type = [FILE_TYPE_LOST, FILE_TYPE_PENDING, FILE_TYPE_VALID]"

fun sum_file_sizes :: "env \<Rightarrow> float_lib \<Rightarrow> (string \<times> string) list \<Rightarrow> size_t \<Rightarrow> size_t option" where
  "sum_file_sizes e fl [] sz = Some sz"
| "sum_file_sizes e fl ((cid, info) # files) sz =
     Option.bind (Load_unsafe e fl info) (\<lambda>j. sum_file_sizes e fl files (sz + of_int (ToInt (jget j FILE_SIZE))))"

definition count_files :: "env \<Rightarrow> float_lib \<Rightarrow> 'a app_scheme \<Rightarrow> string \<Rightarrow> JSON \<Rightarrow> JSON option" where
  "count_files e fl a type file_info =
     map_option (\<lambda>sz.
         jupd (jupd file_info type (\<lambda>j. jupd j ''num'' (AddNum (int (length (files_of_type type a))))))
           type (\<lambda>j. jupd j ''size'' (AddNum (sint sz))))
       (sum_file_sizes e fl (files_of_type type a) 0)"

fun count_types :: "env \<Rightarrow> float_lib \<Rightarrow> 'a app_scheme \<Rightarrow> string list \<Rightarrow> JSON \<Rightarrow> JSON option" where
  "count_types e fl a [] file_info = Some file_info"
| "count_types e fl a (type # types) file_info = Option.bind (count_files e fl a type file_info) (count_types e fl a types)"

text \<open>\<open>%-6ld\<close>.\<close>

definition pad_right :: "nat \<Rightarrow> string \<Rightarrow> string" where
  "pad_right n s = s @ replicate (n - length s) (CHR '' '')"

definition file_line :: "nat \<Rightarrow> string \<Rightarrow> JSON \<Rightarrow> string" where
  "file_line space_num type j =
     replicate (space_num - length type) (CHR '' '') @ ''{  '' @ quoted ''num'' @ '' : '' @ pad_right 6 (int_to_string (ToInt (jget j ''num''))) @
     '', '' @ quoted ''size'' @ '' : '' @ int_to_string (ToInt (jget j ''size'')) @ ''  }''"

definition file_overview :: "env \<Rightarrow> float_lib \<Rightarrow> 'a app_scheme \<Rightarrow> JSON option" where
  "file_overview e fl a =
     map_option (\<lambda>file_info.
         let file_info' = jupd file_info FILE_TYPE_PENDING (\<lambda>j. jupd j ''size'' (AddNum (sint (get_pending_files_size_all a))));
             entries = ObjectRange file_info';
             space_num = foldr (\<lambda>(type, _) n. max n (length type)) entries 0
         in fold (\<lambda>(type, j) n_file_info. jset n_file_info type (JString (file_line space_num type j))) entries JNull)
       (count_types e fl a file_spec_type JNull)"

section \<open>The whole\<close>

definition gen_workload_for_print ::
  "env \<Rightarrow> float_lib \<Rightarrow> os \<Rightarrow> (string \<Rightarrow> bytes) \<Rightarrow> (string \<Rightarrow> string) \<Rightarrow> int \<Rightarrow> 'a app_scheme \<Rightarrow> (JSON \<times> 'a app_scheme) option" where
  "gen_workload_for_print e fl sys rand behind srd_task a =
     Option.bind (get_disk_info sys rand behind a) (\<lambda>(disk_json, a').
       map_option (\<lambda>files.
           (jset (jset JNull WL_SRD (JString (srd_overview sys srd_task (ArrayRange disk_json) a'))) ''files'' files, a'))
         (file_overview e fl a'))"

definition gen_workload_str ::
  "env \<Rightarrow> float_lib \<Rightarrow> os \<Rightarrow> (string \<Rightarrow> bytes) \<Rightarrow> (string \<Rightarrow> string) \<Rightarrow> int \<Rightarrow> 'a app_scheme \<Rightarrow> (string \<times> 'a app_scheme) option" where
  "gen_workload_str e fl sys rand behind srd_task a =
     map_option (\<lambda>(wl_json, a').
         (let wl_str = dump_json e wl_json;
              wl_str = replace_from wl_str [CHR 0x22, CHR ''{''] ''{'';
              wl_str = replace_from wl_str ('': '' @ [CHR 0x22, CHR '' '']) '':  '';
              wl_str = replace_from wl_str [CHR ''}'', CHR 0x22] ''}'';
              wl_str = replace_from wl_str [CHR 0x5C, CHR ''n''] newline
          in remove_char wl_str (CHR 0x5C), a'))
       (gen_workload_for_print e fl sys rand behind srd_task a)"

definition gen_workload ::
  "env \<Rightarrow> float_lib \<Rightarrow> os \<Rightarrow> (string \<Rightarrow> bytes) \<Rightarrow> (string \<Rightarrow> string) \<Rightarrow> int \<Rightarrow> 'a app_scheme \<Rightarrow> (JSON \<times> 'a app_scheme) option" where
  "gen_workload e fl sys rand behind srd_task a =
     Option.bind (gen_workload_str e fl sys rand behind srd_task a) (\<lambda>(text, a'). map_option (\<lambda>j. (j, a')) (Load_unsafe e fl text))"

text \<open>The disks that are configured get their identifiers at the start.\<close>

fun construct_uuid_disk_path_map ::
  "os \<Rightarrow> (string \<Rightarrow> bytes) \<Rightarrow> (string \<Rightarrow> string) \<Rightarrow> string list \<Rightarrow> 'a app_scheme \<Rightarrow> 'a app_scheme option" where
  "construct_uuid_disk_path_map sys rand behind [] a = Some a"
| "construct_uuid_disk_path_map sys rand behind (path # paths) a =
     (case check_or_init_disk sys (rand path) (behind path) path a of
        None \<Rightarrow> None
      | Some (_, a') \<Rightarrow> construct_uuid_disk_path_map sys rand behind paths a')"

section \<open>What the overview leaves alone\<close>

text \<open>Looking at the disks does not touch what the application knows about files, upgrades and random data.\<close>

definition same_data :: "'a app_scheme \<Rightarrow> 'a app_scheme \<Rightarrow> bool" where
  "same_data a a' \<longleftrightarrow> ed_upgrade_status a' = ed_upgrade_status a \<and> ed_upgrade_data a' = ed_upgrade_data a \<and> sealed_file a' = sealed_file a \<and>
     pending_file_size_um a' = pending_file_size_um a \<and> ed_srd_info a' = ed_srd_info a \<and> enclave_id_info a' = enclave_id_info a \<and>
     ed_workreport a' = ed_workreport a \<and> app_conf a' = app_conf a \<and> g_running_srd_task a' = g_running_srd_task a"

lemma same_data_refl [simp]: "same_data a a"
  by (simp add: same_data_def)

lemma same_data_trans [trans]: "same_data a b \<Longrightarrow> same_data b c \<Longrightarrow> same_data a c"
  by (simp add: same_data_def)

lemma same_data_frames [simp]:
  "same_data (a\<lparr>app_tree := t\<rparr>) b \<longleftrightarrow> same_data a b" "same_data a (b\<lparr>app_tree := t\<rparr>) \<longleftrightarrow> same_data a b"
  "same_data (set_uuid_disk_path_map uuid path a) b \<longleftrightarrow> same_data a b"
  by (simp_all add: same_data_def set_uuid_disk_path_map_def Let_def)

lemma disk_srd_dir_same: "disk_srd_dir sys path a = Some (ok, a') \<Longrightarrow> same_data a a'"
  by (auto simp: disk_srd_dir_def)

lemma check_or_init_disk_same: "check_or_init_disk sys rnd bhd path a = Some (ok, a') \<Longrightarrow> same_data a a'"
  unfolding check_or_init_disk_def Let_def
  by (auto split: if_splits prod.splits option.splits dest!: disk_srd_dir_same)

lemma disk_entries_same: "disk_entries sys rand behind paths a = Some (ds, a') \<Longrightarrow> same_data a a'"
proof (induction paths arbitrary: a ds)
  case (Cons path paths)
  then show ?case
    by (auto split: option.splits if_splits dest!: check_or_init_disk_same intro: same_data_trans)
qed simp

lemma get_disk_info_same: "get_disk_info sys rand behind a = Some (j, a') \<Longrightarrow> same_data a a'"
proof -
  assume r: "get_disk_info sys rand behind a = Some (j, a')"
  then obtain ds b where d: "disk_entries sys rand behind (get_data_paths (app_conf a)) a = Some (ds, b)"
    by (auto simp: get_disk_info_def get_increase_srd_info_r_def)
  then have "b = a'" using r by (auto simp: get_disk_info_def get_increase_srd_info_r_def case_prod_beta)
  with d show ?thesis using disk_entries_same by blast
qed

lemma gen_workload_same: "gen_workload e fl sys rand behind n a = Some (j, a') \<Longrightarrow> same_data a a'"
  by (auto simp: gen_workload_def gen_workload_str_def gen_workload_for_print_def dest: get_disk_info_same
      split: Option.bind_splits prod.splits)

lemma gen_workload_str_same: "gen_workload_str e fl sys rand behind n a = Some (j, a') \<Longrightarrow> same_data a a'"
  by (auto simp: gen_workload_str_def gen_workload_for_print_def dest: get_disk_info_same
      split: Option.bind_splits prod.splits)

end
