(* ===== verification/Node.thy ===== *)
theory Node
  imports Overview AppMirror
begin

text \<open>
  A running node: the application with its data, the client of the chain, the queue and the enclave. A call into the
  enclave asks the queue for a place, runs, and the calls that it makes to the outside are handled by the
  application on the way (\<open>replay\<close>). The HTTP interface and the main function of the process work on this state.
\<close>

section \<open>The state\<close>

record node =
  nd_app :: app
  nd_chain :: chain
  nd_queue :: enclave_queue
  nd_enclave :: enclave
  change_srd_num :: int
  nd_debug :: bool

text \<open>
  What a node is run with: the libraries, the operating system, the answers of the network, the clock, what other threads do in the
  places of a handler (\<open>s_gate\<close>, \<open>s_other\<close>) and while it sleeps (\<open>s_elsewhere\<close>), the numbers of the SGX library's statuses, and the
  configuration that does not change.
\<close>

record site =
  s_env :: env
  s_fl :: float_lib
  s_web :: web
  s_sys :: os
  s_rand :: "string \<Rightarrow> bytes"
  s_behind :: "string \<Rightarrow> string"
  s_now :: "ocall list \<Rightarrow> int"
  s_gate :: "nat \<Rightarrow> enclave gate"
  s_other :: "nat \<Rightarrow> enclave \<Rightarrow> enclave"
  s_elsewhere :: "nat \<Rightarrow> node \<Rightarrow> node"
  s_sgx_code :: "sgx_status \<Rightarrow> size_t"
  base_url :: string
  chain_address :: string
  config_file_path :: string

section \<open>Calls into the enclave\<close>

definition node_call ::
  "site \<Rightarrow> (enclave_queue \<times> enclave \<Rightarrow> ('r, enclave) ecall_result) \<Rightarrow> node \<Rightarrow> (sgx_status \<times> 'r option \<times> node) option" where
  "node_call x f n =
     (case f (nd_queue n, nd_enclave n) of
        None \<Rightarrow> None
      | Some (ret, r, q, s) \<Rightarrow>
          let h = ocalls (nd_enclave n)
          in map_option (\<lambda>a. (ret, r, n\<lparr>nd_app := a, nd_queue := q, nd_enclave := s\<rparr>))
               (replay (app_ocall (s_env x) (s_fl x) (s_now x)) h (drop (length h) (ocalls s)) (nd_app n)))"

abbreviation (input) node_status :: "node \<Rightarrow> upgrade_status_t" where
  "node_status n \<equiv> get_upgrade_status_app (nd_app n)"

text \<open>Back to \<open>UPGRADE_STATUS_NONE\<close> means to open the enclave again.\<close>

definition set_node_status :: "site \<Rightarrow> upgrade_status_t \<Rightarrow> node \<Rightarrow> node option" where
  "set_node_status x status n =
     (case set_upgrade_status_app id status (nd_app n) of
        (disable, a) \<Rightarrow>
          let n1 = n\<lparr>nd_app := a\<rparr>
          in if disable then map_option (\<lambda>(_, _, n2). n2) (node_call x (Ecall_disable_upgrade (s_gate x 1)) n1) else Some n1)"

definition node_enclave_id_info :: "site \<Rightarrow> node \<Rightarrow> (string \<times> node) option" where
  "node_enclave_id_info x n =
     (if enclave_id_info (nd_app n) = [] then
        map_option (\<lambda>(ret, _, n1). (if ret \<noteq> SGX_SUCCESS then [] else enclave_id_info (nd_app n1), n1))
          (node_call x (Ecall_id_get_info (s_gate x 0) (s_env x)) n)
      else Some (enclave_id_info (nd_app n), n))"

definition node_block_header :: "site \<Rightarrow> node \<Rightarrow> (BlockHeader option \<times> node) option" where
  "node_block_header x n =
     map_option (\<lambda>(header, c). (header, n\<lparr>nd_chain := c\<rparr>)) (get_block_header (s_env x) (s_fl x) (s_web x) (nd_chain n))"

section \<open>What the calls of the enclave change\<close>

text \<open>The data for an upgrade that the enclave sent last.\<close>

fun last_upgrade_data :: "ocall list \<Rightarrow> bytes option" where
  "last_upgrade_data [] = None"
| "last_upgrade_data (c # cs) =
     (case last_upgrade_data cs of
        Some d \<Rightarrow> Some d
      | None \<Rightarrow> (case c of Ocall_store2 OCALL_STORE_UPGRADE_DATA d \<Rightarrow> Some d | _ \<Rightarrow> None))"

lemma last_upgrade_append:
  "last_upgrade_data (cs @ ds) = (case last_upgrade_data ds of Some d \<Rightarrow> Some d | None \<Rightarrow> last_upgrade_data cs)"
  by (induction cs) (auto split: option.splits)

text \<open>A handler leaves the status of the upgrade alone, and the upgrade data is what was sent last.\<close>

definition upgrade_view :: "ocall list \<Rightarrow> 'a enclave_data_scheme \<Rightarrow> 'a enclave_data_scheme \<Rightarrow> bool" where
  "upgrade_view cs d d' \<longleftrightarrow> ed_upgrade_status d' = ed_upgrade_status d \<and>
     ed_upgrade_data d' = (case last_upgrade_data cs of Some b \<Rightarrow> bytes_str b | None \<Rightarrow> ed_upgrade_data d)"

lemma restore_items_upgrade:
  "ed_upgrade_status (restore_items j d) = ed_upgrade_status d \<and> ed_upgrade_data (restore_items j d) = ed_upgrade_data d"
proof -
  have item: "ed_upgrade_status (restore_item t f d) = ed_upgrade_status d \<and> ed_upgrade_data (restore_item t f d) = ed_upgrade_data d"
    for t f and d :: "'a enclave_data_scheme"
    by (auto simp: restore_item_def upd_type_def split: JSON.splits list.splits)
  have inner: "ed_upgrade_status (fold (restore_item t) fs d) = ed_upgrade_status d \<and> ed_upgrade_data (fold (restore_item t) fs d) = ed_upgrade_data d"
    for t fs and d :: "'a enclave_data_scheme"
    by (induction fs arbitrary: d) (auto simp: item)
  have "ed_upgrade_status (fold (\<lambda>(t, fs) d. fold (restore_item t) (ArrayRange fs) d) xs d) = ed_upgrade_status d \<and>
      ed_upgrade_data (fold (\<lambda>(t, fs) d. fold (restore_item t) (ArrayRange fs) d) xs d) = ed_upgrade_data d"
    for xs and d :: "'a enclave_data_scheme"
    by (induction xs arbitrary: d) (auto simp: inner)
  then show ?thesis by (simp add: restore_items_def)
qed

lemma app_ocall_view:
  assumes "app_ocall e fl now h c d = Some d'"
  shows "upgrade_view [c] d d'"
proof (cases c)
  case (Ocall_store2 t b)
  with assms show ?thesis
    by (cases t) (auto simp: app_ocall_def upgrade_view_def g_ocall_store2_func_m_def ocall_store_file_info_all_def restore_file_info_app_def
        ocall_store_workreport_def ocall_store_upgrade_data_def set_workreport_def set_upgrade_data_def restore_items_upgrade)
qed (use assms in \<open>auto simp: app_ocall_def upgrade_view_def ocall_set_srd_info_def set_srd_info_app_def ocall_store_file_info_def
    add_file_info_def ocall_delete_file_info_def del_file_info_type_def ocall_change_file_type_def change_file_type_def
    del_file_info_def add_pending_file_size_def ocall_store_enclave_id_info_def set_enclave_id_info_def upd_type_def
    del_pending_file_size_def Let_def split: if_splits option.splits\<close>)

lemma replay_view:
  "replay (app_ocall e fl now) h cs d = Some d' \<Longrightarrow> upgrade_view cs d d'"
proof (induction cs arbitrary: h d)
  case (Cons c cs)
  then obtain d1 where 1: "app_ocall e fl now h c d = Some d1" and 2: "replay (app_ocall e fl now) (h @ [c]) cs d1 = Some d'"
    by (auto simp: bind_eq_Some_conv)
  from app_ocall_view [OF 1] Cons.IH [OF 2] show ?case
    by (cases "last_upgrade_data cs") (auto simp: upgrade_view_def)
qed (simp add: upgrade_view_def)

end
