(* ===== verification/ApiHandler.thy ===== *)
theory ApiHandler
  imports Node
begin

text \<open>
  The HTTP interface of a node, \<open>src/src/app/http/ApiHandler.h\<close> and \<open>ApiHandler.cpp\<close>: how a request finds its route, which routes are closed
  during an upgrade, and what each route does. Reading and writing the connection is Boost.Beast; a
  request is its method, target and body, and an answer its status and body. The branch for tests is not
  compiled into the program.

  A result \<open>None\<close> is an exception, undefined behaviour, or a wait that does not end.
\<close>

section \<open>Requests and answers\<close>

datatype verb = GET | POST | HEAD | OTHER_METHOD

record http_req =
  req_method :: verb
  req_target :: string
  req_body :: bytes

definition answer :: "env \<Rightarrow> int \<Rightarrow> int \<Rightarrow> string \<Rightarrow> response" where
  "answer e result code message =
     \<lparr>result_code = result, body = dump_json e (jset (jset JNull ''status_code'' (JIntegral code)) ''message'' (JString message))\<rparr>"

definition status_text :: "spacex_status \<Rightarrow> string" where
  "status_text st = num_to_hexstring (of_nat (status_code st))"

definition sgx_text :: "site \<Rightarrow> sgx_status \<Rightarrow> string" where
  "sgx_text x ret = num_to_hexstring (s_sgx_code x ret)"

text \<open>\<open>std::stoi(num_to_hexstring(status), NULL, 10)\<close>: the decimal digits in front, an exception when there are none or too many.\<close>

definition shown_status :: "spacex_status \<Rightarrow> int option" where
  "shown_status st =
     (let ds = takeWhile is_digit (status_text st); n = digits_val ds 0
      in if ds = [] \<or> 2 ^ 31 \<le> n then None else Some n)"

text \<open>The answers that carry the status of the enclave.\<close>

definition status_answer :: "env \<Rightarrow> spacex_status \<Rightarrow> int \<times> string \<Rightarrow> response option" where
  "status_answer e st r = map_option (\<lambda>n. answer e (fst r) n (snd r)) (shown_status st)"

text \<open>The message for a missing parameter, for a type with its article left out.\<close>

definition bad_parameter :: "string \<Rightarrow> string \<Rightarrow> string" where
  "bad_parameter type name = ''Bad parameter! Need a '' @ type @ '' type parameter:'' @ [CHR 0x27] @ name @ [CHR 0x27]"

definition in_quotes :: "string \<Rightarrow> string" where
  "in_quotes s = [CHR 0x27] @ s @ [CHR 0x27]"

abbreviation (input) has_param :: "JSON \<Rightarrow> string \<Rightarrow> json_class \<Rightarrow> bool" where
  "has_param j name c \<equiv> hasKey j name \<and> JSONType (jget j name) = c"

section \<open>The route of a request\<close>

lemma find_first_ge: "find_first pat s i = Some p \<Longrightarrow> i \<le> p"
  by (induction s arbitrary: i) (auto split: if_splits dest: Suc_leD)

lemma str_find_ge: "str_find s pat pos = Some p \<Longrightarrow> pos \<le> p"
  by (auto simp: str_find_def find_first_ge split: if_splits)

function params_loop :: "string \<Rightarrow> nat \<Rightarrow> (string \<rightharpoonup> string) \<Rightarrow> (string \<rightharpoonup> string)" where
  "params_loop url spos ans =
     (if spos < length url then
        (let epos = (case str_find url ''&'' spos of None \<Rightarrow> length url | Some p \<Rightarrow> p)
         in case str_find url ''='' spos of
              None \<Rightarrow> ans
            | Some ppos \<Rightarrow>
                if epos < ppos then ans
                else params_loop url (epos + 1)
                       (ans(substr url spos (ppos - spos) \<mapsto> substr url (ppos + 1) (epos - (ppos + 1)))))
      else ans)"
  by pat_completeness auto
termination
  by (relation "measure (\<lambda>(url, spos, _). length url - spos)") (auto dest: str_find_ge split: option.splits)

declare params_loop.simps [simp del]

definition get_params :: "string \<Rightarrow> (string \<rightharpoonup> string)" where
  "get_params url =
     (case str_find url ''?'' 0 of
        None \<Rightarrow> [''req_route'' \<mapsto> url]
      | Some spos \<Rightarrow> params_loop url (spos + 1) [''req_route'' \<mapsto> substr url 0 spos])"

text \<open>
  What follows the base of the interface in the route. When the base is not found, the sum of \<open>npos\<close> and its length wraps;
  \<open>substr\<close> throws for a position behind the end.
\<close>

definition route_tag :: "string \<Rightarrow> string \<Rightarrow> string option" where
  "route_tag api_base req_route =
     (let pos = (case str_find req_route api_base 0 of Some p \<Rightarrow> p + length api_base | None \<Rightarrow> length api_base - 1)
      in if pos \<le> length req_route then Some (substr req_route pos (length req_route)) else None)"

definition upgrade_block_s :: "string list" where
  "upgrade_block_s = [''/srd/change'', ''/storage/delete'', ''/storage/seal_start'']"

definition sealed_file_types :: "string list" where
  "sealed_file_types = [''all'', FILE_TYPE_PENDING, FILE_TYPE_VALID, FILE_TYPE_LOST]"

definition path_cat :: "string \<Rightarrow> string \<Rightarrow> string" where
  "path_cat b path = (if b = [] then path else (if last b = CHR ''/'' then butlast b else b) @ path)"

section \<open>Requests that read\<close>

definition api_workload :: "site \<Rightarrow> node \<Rightarrow> (response \<times> node) option" where
  "api_workload x n =
     map_option (\<lambda>(text, a). (\<lparr>result_code = 200, body = text\<rparr>, n\<lparr>nd_app := a\<rparr>))
       (gen_workload_str (s_env x) (s_fl x) (s_sys x) (s_rand x) (s_behind x) 0 (nd_app n))"

definition api_thread_info :: "site \<Rightarrow> node \<Rightarrow> (response \<times> node) option" where
  "api_thread_info x n = Some (\<lparr>result_code = 200, body = get_running_ecalls_info (s_env x) (nd_queue n)\<rparr>, n)"

definition api_id_info :: "site \<Rightarrow> node \<Rightarrow> (response \<times> node) option" where
  "api_id_info x n =
     Option.bind (node_enclave_id_info x n) (\<lambda>(id_info_str, n1).
       if id_info_str = [] then Some (answer (s_env x) 400 400 ''Get id info failed!Invoke SGX API failed!'', n1)
       else map_option (\<lambda>id_json.
                (\<lparr>result_code = 200,
                  body = dump_json (s_env x)
                    (jset (jset (jset id_json ''account'' (JString (chain_address x))) ''version'' (JString ''1.1.0''))
                       ''xstorage_version'' (JString ''1.1.0''))\<rparr>, n1))
              (Load_unsafe (s_env x) (s_fl x) id_info_str))"

definition api_file_info :: "site \<Rightarrow> (string \<rightharpoonup> string) \<Rightarrow> node \<Rightarrow> (response \<times> node) option" where
  "api_file_info x params n =
     (case params ''cid'' of
        None \<Rightarrow> Some (answer (s_env x) 400 400 (bad_parameter ''string'' ''cid''), n)
      | Some cid \<Rightarrow>
          map_option (\<lambda>file_info.
              (if file_info = [] then answer (s_env x) 404 404 ''File not found.'' else \<lparr>result_code = 200, body = file_info\<rparr>, n))
            (get_file_info (s_env x) (s_fl x) (s_now x (ocalls (nd_enclave n))) cid (nd_app n)))"

definition api_info_by_type :: "site \<Rightarrow> (string \<rightharpoonup> string) \<Rightarrow> node \<Rightarrow> (response \<times> node) option" where
  "api_info_by_type x params n =
     (let now = s_now x (ocalls (nd_enclave n));
          wrong = answer (s_env x) 400 400
            (bad_parameter ''string'' ''type'' @ '' which should be '' @ in_quotes ''all'' @ '', '' @ in_quotes ''pending'' @ '', '' @
             in_quotes ''valid'' @ '', '' @ in_quotes ''lost'')
      in case params ''type'' of
           None \<Rightarrow> Some (wrong, n)
         | Some type \<Rightarrow>
             if type \<notin> set sealed_file_types then Some (wrong, n)
             else map_option (\<lambda>text. (\<lparr>result_code = 200, body = text\<rparr>, n))
                    (if type = ''all'' then get_file_info_all (s_env x) (s_fl x) now (nd_app n)
                     else get_file_info_by_type (s_env x) (s_fl x) now type (nd_app n)))"

section \<open>Stopping\<close>

text \<open>
  The wait, second by second, for the reports and the main loop to leave the enclave. The answer keeps the status
  400 with which it was made: no branch sets another.
\<close>

definition wait_for_stop :: "site \<Rightarrow> node \<Rightarrow> node option" where
  "wait_for_stop x n =
     map_option snd
       (poll (\<lambda>(k, n). Some (if has_stopping_block_task (nd_queue n) then (False, Suc k, s_elsewhere x k n) else (True, k, n))) (0, n))"

definition api_stop :: "site \<Rightarrow> node \<Rightarrow> (response \<times> node) option" where
  "api_stop x n =
     Option.bind (node_call x (Ecall_stop_all (s_gate x 0) (s_env x)) n) (\<lambda>(ret, _, n1).
       if ret \<noteq> SGX_SUCCESS then Some (answer (s_env x) 400 500 ''Stop enclave failed! Invoke SGX API failed!'', n1)
       else Option.bind (wait_for_stop x n1) (\<lambda>n2.
              map_option (Pair (answer (s_env x) 400 200 ''Stop storage successfully.'')) (set_node_status x UPGRADE_STATUS_EXIT n2)))"

section \<open>Upgrades\<close>

definition upgrade_start_answer :: "spacex_status \<Rightarrow> string" where
  "upgrade_start_answer st =
     (if st = SPACEX_UPGRADE_BLOCK_EXPIRE then ''Block expired!Wait for next report slot('' @ nat_to_string REPORT_SLOT @ '' blocks).''
      else if st = SPACEX_UPGRADE_NO_VALIDATE then ''Necessary validation not completed!''
      else if st = SPACEX_UPGRADE_RESTART then ''Cannot report due to restart!Wait for report slot('' @ nat_to_string REPORT_SLOT @ '' blocks).''
      else if st = SPACEX_UPGRADE_NO_FILE then ''Cannot get files for check!Please check ipfs!''
      else ''Unknown error.'')"

text \<open>After a success the handler sleeps for ten seconds, in which running tasks go into the queue.\<close>

definition api_upgrade_start :: "site \<Rightarrow> node \<Rightarrow> (response \<times> node) option" where
  "api_upgrade_start x n =
     (if node_status n \<noteq> UPGRADE_STATUS_NONE \<and> node_status n \<noteq> UPGRADE_STATUS_STOP_WORKREPORT
      then Some (answer (s_env x) 502 502 ''Another upgrading is still running!'', n)
      else
        Option.bind (set_node_status x UPGRADE_STATUS_STOP_WORKREPORT n) (\<lambda>n1.
        Option.bind (node_block_header x n1) (\<lambda>(header, n2).
          case header of
            None \<Rightarrow> Some (answer (s_env x) 400 400 ''Chain is not running!Get block header failed!'', n2)
          | Some bh \<Rightarrow>
              Option.bind (node_call x (Ecall_enable_upgrade (s_gate x 0) (bh_number bh)) n2) (\<lambda>(ret, st, n3).
                case st of
                  None \<Rightarrow> Some (answer (s_env x) 500 500 ''Invoke SGX API failed!'', n3)
                | Some st \<Rightarrow>
                    if st = SPACEX_SUCCESS then
                      map_option (\<lambda>n4. (answer (s_env x) 200 200 ''Receive upgrade inform successfully!'', s_elsewhere x 0 n4))
                        (set_node_status x UPGRADE_STATUS_PROCESS n3)
                    else Some (answer (s_env x) 400 400 (upgrade_start_answer st), n3)))))"

definition api_upgrade_metadata :: "site \<Rightarrow> node \<Rightarrow> (response \<times> node) option" where
  "api_upgrade_metadata x n =
     Some (if node_status n \<noteq> UPGRADE_STATUS_COMPLETE then answer (s_env x) 502 502 ''Metadata is still collecting!''
           else \<lparr>result_code = 200, body = get_upgrade_data (nd_app n)\<rparr>, n)"

text \<open>The old metadata is kept under another key, as far as the database allows, and then deleted; only the status of the deletion is shown.\<close>

definition drop_metadata :: "env \<Rightarrow> 'a boundary_scheme \<Rightarrow> spacex_status \<times> 'a boundary_scheme" where
  "drop_metadata e s =
     (let (st, metadata_old) = DataBase_get ID_METADATA s;
          s1 = (if st \<noteq> SPACEX_SUCCESS then s else snd (DataBase_set e ''metadata_old'' metadata_old s))
      in DataBase_del e ID_METADATA s1)"

definition api_upgrade_complete :: "site \<Rightarrow> bytes \<Rightarrow> node \<Rightarrow> (response \<times> node) option" where
  "api_upgrade_complete x data n =
     Option.bind (Load_unsafe_buffer (s_env x) (s_fl x) data) (\<lambda>req_json.
       if \<not> has_param req_json ''success'' CBoolean then Some (answer (s_env x) 400 400 (bad_parameter ''boolean'' ''success''), n)
       else if \<not> ToBool (jget req_json ''success'') then
         map_option (Pair (answer (s_env x) 200 0 ''Upgrade failed! Current version will restore work.'')) (set_node_status x UPGRADE_STATUS_NONE n)
       else if node_status n = UPGRADE_STATUS_COMPLETE then
         (let (st, s) = drop_metadata (s_env x) (nd_enclave n);
              info = (if st \<noteq> SPACEX_SUCCESS then ''Upgrade: delete old metadata failed!Status code:'' @ status_text st
                      else ''Upgrade: clean old version'' @ [CHR 0x27] @ ''s data successfully!'')
          in Option.bind (set_node_status x UPGRADE_STATUS_EXIT (n\<lparr>nd_enclave := s\<rparr>)) (\<lambda>n1.
               map_option (\<lambda>res. (res, n1)) (status_answer (s_env x) st (200, info))))
       else Some (answer (s_env x) 200 0 ''Cannot exit upgrade because of unexpected upgrade status!'', n))"

section \<open>Requests that set something\<close>

definition api_debug :: "site \<Rightarrow> bytes \<Rightarrow> node \<Rightarrow> (response \<times> node) option" where
  "api_debug x data n =
     map_option (\<lambda>req_json.
         if \<not> has_param req_json ''debug'' CBoolean then (answer (s_env x) 400 400 (bad_parameter ''boolean'' ''debug''), n)
         else let debug_flag = ToBool (jget req_json ''debug'');
                  s = snd (DataBase_set (s_env x) ''debug_flag'' (str_bytes (if debug_flag then ''1'' else ''0'')) (nd_enclave n))
              in (answer (s_env x) 200 200 ''Set debug flag successfully!'', n\<lparr>nd_debug := debug_flag, nd_enclave := s\<rparr>))
       (Load_unsafe_buffer (s_env x) (s_fl x) data)"

definition api_add_path :: "site \<Rightarrow> bytes \<Rightarrow> node \<Rightarrow> (response \<times> node) option" where
  "api_add_path x data n =
     Option.bind (Load_unsafe_buffer (s_env x) (s_fl x) data) (\<lambda>req_json.
       map_option (\<lambda>(ok, c, t).
           (if \<not> ok then answer (s_env x) 400 400 ''Add data paths to config failed!''
            else answer (s_env x) 200 200 ''Change config data path successfully!'',
            n\<lparr>nd_app := (nd_app n)\<lparr>app_conf := c, app_tree := t\<rparr>\<rparr>))
         (config_file_add_data_paths (s_env x) (s_fl x) (s_sys x) (config_file_path x) req_json (app_conf (nd_app n)) (app_tree (nd_app n))))"

text \<open>
  How much of a change is asked of the enclave: no more than the disks have left, or than there is to remove. \<open>None\<close> in
  the result stands for a request that is refused. The absolute value of the smallest number is undefined.
\<close>

definition srd_change_amount :: "JSON \<Rightarrow> int \<Rightarrow> int \<Rightarrow> int option option" where
  "srd_change_amount wl_info running_srd_task change =
     (let wl = (\<lambda>k. ToInt (jget (jget wl_info WL_SRD) k))
      in if change > 0 then
           (let avail_space = long_add (max (long_add (wl WL_DISK_AVAILABLE_FOR_SRD) (- running_srd_task)) 0) (- wl WL_SRD_REMAINING_TASK);
                true_increase = min change avail_space
            in Some (if true_increase \<le> 0 then None else Some true_increase))
         else if change = - (2 ^ 63) then None
         else
           (let avail_space = long_add (long_add (wl WL_SRD_COMPLETE) (wl WL_SRD_REMAINING_TASK)) running_srd_task;
                true_decrease = min (\<bar>change\<bar>) avail_space
            in Some (if true_decrease \<le> 0 then None else Some (- true_decrease))))"

definition srd_change_answer :: "spacex_status \<Rightarrow> int \<Rightarrow> int \<times> string" where
  "srd_change_answer st real_change =
     (if st = SPACEX_SUCCESS then (200, ''Change task:'' @ int_to_string real_change @ ''G has been added, will be executed later.'')
      else if st = SPACEX_SRD_NUMBER_EXCEED then
        (200, ''Only '' @ int_to_string real_change @ ''G srd will be added. Rest srd task exceeds upper limit.'')
      else if st = SPACEX_UPGRADE_IS_UPGRADING then (503, ''Change srd interface is stopped due to upgrading or exiting'')
      else (500, ''Unexpected error has occurred!''))"

definition api_srd_change :: "site \<Rightarrow> bytes \<Rightarrow> node \<Rightarrow> (response \<times> node) option" where
  "api_srd_change x data n =
     Option.bind (Load_unsafe_buffer (s_env x) (s_fl x) data) (\<lambda>req_json.
       if \<not> has_param req_json ''change'' CIntegral then Some (answer (s_env x) 400 400 (bad_parameter ''integral'' ''change''), n)
       else
         let change = ToInt (jget req_json ''change''); n1 = n\<lparr>change_srd_num := change\<rparr>
         in if change = 0 then Some (answer (s_env x) 400 400 ''Invalid change'', n1)
            else
              Option.bind (gen_workload (s_env x) (s_fl x) (s_sys x) (s_rand x) (s_behind x) 0 (nd_app n1)) (\<lambda>(wl_info, a).
              let n2 = n1\<lparr>nd_app := a\<rparr>
              in Option.bind (srd_change_amount wl_info (get_running_srd_task a) change) (\<lambda>amount.
                case amount of
                  None \<Rightarrow>
                    Some (answer (s_env x) 400 400
                      ((if change > 0 then ''No more srd can be added.'' else ''No srd space to be deleted.'') @ '' Use '' @
                       in_quotes ''sudo spacex tools workload'' @ '' to check.''), n2)
                | Some amount \<Rightarrow>
                    map_option (\<lambda>(ret, r, n3).
                        (case r of
                           None \<Rightarrow> answer (s_env x) 500 500 ''Change srd failed! Invoke SGX api failed!''
                         | Some (st, real_change) \<Rightarrow>
                             let (code, info) = srd_change_answer st real_change in answer (s_env x) code code info, n3))
                      (node_call x (Ecall_change_srd_task (s_gate x 0) (s_env x) amount 0) (n2\<lparr>change_srd_num := amount\<rparr>)))))"

section \<open>Requests about files\<close>

definition api_delete :: "site \<Rightarrow> bytes \<Rightarrow> node \<Rightarrow> (response \<times> node) option" where
  "api_delete x data n =
     Option.bind (Load_unsafe_buffer (s_env x) (s_fl x) data) (\<lambda>req_json.
       if \<not> has_param req_json ''cid'' CString then Some (answer (s_env x) 400 400 (bad_parameter ''string'' ''cid''), n)
       else
         let cid = ToString (jget req_json ''cid'')
         in map_option (\<lambda>(ret, st, n1).
              case st of
                None \<Rightarrow>
                  (answer (s_env x) 500 500 (''Delete file '' @ in_quotes cid @ '' failed! Invoke SGX API failed! Error code:'' @ sgx_text x ret), n1)
              | Some st \<Rightarrow>
                  if st = SPACEX_SUCCESS then
                    (answer (s_env x) 200 200 (''Deleting file '' @ in_quotes cid @ '' successfully''), n1\<lparr>nd_app := del_file_info cid (nd_app n1)\<rparr>)
                  else if st = SPACEX_STORAGE_NEW_FILE_NOTFOUND then
                    (answer (s_env x) 404 404 (''File '' @ in_quotes cid @ '' is not existed in storage''), n1)
                  else if st = SPACEX_UPGRADE_IS_UPGRADING then
                    (answer (s_env x) 503 503 (''Deleting file '' @ in_quotes cid @ '' stoped due to upgrading or exiting''), n1)
                  else (answer (s_env x) 500 500 (''Unexpected error: '' @ status_text st), n1))
              (node_call x (Ecall_delete_file (s_gate x 0) (s_env x) (s_fl x) (s_other x) cid) n))"

definition seal_start_answer :: "string \<Rightarrow> spacex_status \<Rightarrow> int \<times> string" where
  "seal_start_answer cid st =
     (if st = SPACEX_SUCCESS then (200, ''Ready for sealing file '' @ in_quotes cid @ '', waiting for file block'')
      else if st = SPACEX_FILE_NUMBER_EXCEED then
        (500, ''Seal file '' @ in_quotes cid @ '' failed! No more file can be sealed! File number reachs the upper limit'')
      else if st = SPACEX_UPGRADE_IS_UPGRADING then (503, ''Seal file '' @ in_quotes cid @ '' stopped due to upgrading or exiting'')
      else if st = SPACEX_STORAGE_FILE_DUP then (200, ''This file '' @ in_quotes cid @ '' has been sealed'')
      else if st = SPACEX_STORAGE_FILE_SEALING then (200, ''Same file '' @ in_quotes cid @ '' is being sealed.'')
      else if st = SPACEX_STORAGE_FILE_DELETING then (400, ''Same file '' @ in_quotes cid @ '' is being deleted.'')
      else (500, ''Seal file '' @ in_quotes cid @ '' failed! Unexpected error, error code:'' @ status_text st))"

text \<open>The message for a call that did not reach the enclave has its placeholder left in.\<close>

definition no_seal :: "site \<Rightarrow> string \<Rightarrow> sgx_status \<Rightarrow> int \<times> string" where
  "no_seal x what ret = (500, what @ '' file '' @ in_quotes ''%s'' @ '' failed! Invoke SGX API failed! Error code:'' @ sgx_text x ret)"

definition api_seal_start :: "site \<Rightarrow> bytes \<Rightarrow> node \<Rightarrow> (response \<times> node) option" where
  "api_seal_start x data n =
     Option.bind (Load_unsafe_buffer (s_env x) (s_fl x) data) (\<lambda>req_json.
       if \<not> has_param req_json ''cid'' CString \<or> \<not> has_param req_json ''cid_b58'' CString then
         Some (answer (s_env x) 400 0 (bad_parameter ''string'' ''cid'' @ '' or '' @ in_quotes ''cid_b58''), n)
       else
         let cid = ToString (jget req_json ''cid''); cid_b58 = ToString (jget req_json ''cid_b58'')
         in Option.bind (node_call x (Ecall_seal_file_start (s_gate x 0) (s_other x) cid cid_b58) n) (\<lambda>(ret, st, n1).
              map_option (\<lambda>res. (res, n1))
                (case st of
                   None \<Rightarrow> status_answer (s_env x) SPACEX_SUCCESS (no_seal x ''Start seal'' ret)
                 | Some st \<Rightarrow> status_answer (s_env x) st (seal_start_answer cid st))))"

definition seal_answer :: "string \<Rightarrow> spacex_status \<Rightarrow> int \<times> string" where
  "seal_answer cid st =
     (if st = SPACEX_SUCCESS then (200, ''Seal file '' @ in_quotes cid @ '' successfully'')
      else if st = SPACEX_SEAL_DATA_FAILED then (500, ''Seal file '' @ in_quotes cid @ '' failed! Internal error: seal data failed'')
      else if st = SPACEX_UPGRADE_IS_UPGRADING then (503, ''Seal file '' @ in_quotes cid @ '' stopped due to upgrading or exiting'')
      else if st = SPACEX_STORAGE_NEW_FILE_NOTFOUND then (500, ''Seal file '' @ in_quotes cid @ '' failed, no request or file has been removed'')
      else if st = SPACEX_STORAGE_NO_ENOUGH_SPACE then (500, ''Seal file '' @ in_quotes cid @ '' failed, no enough space'')
      else (500, ''Seal file '' @ in_quotes cid @ '' failed! Unexpected error, error code:'' @ status_text st))"

text \<open>The path of the block is part of the answer to a success.\<close>

definition with_path :: "env \<Rightarrow> string \<Rightarrow> int \<times> string \<Rightarrow> int \<Rightarrow> response" where
  "with_path e path r code =
     \<lparr>result_code = fst r,
      body = dump_json e (jset (jset (jset JNull ''path'' (JString path)) ''status_code'' (JIntegral code)) ''message'' (JString (snd r)))\<rparr>"

definition api_seal :: "site \<Rightarrow> (string \<rightharpoonup> string) \<Rightarrow> bytes \<Rightarrow> node \<Rightarrow> (response \<times> node) option" where
  "api_seal x params data n =
     (let cid = (case params ''cid'' of Some c \<Rightarrow> c | None \<Rightarrow> []);
          is_link = (params ''new_block'' = Some ''true'')
      in Option.bind (node_call x (Ecall_seal_file (s_gate x 0) (s_env x) (s_fl x) (s_other x) cid data is_link) n) (\<lambda>(ret, r, n1).
           map_option (\<lambda>res. (res, n1))
             (case r of
                None \<Rightarrow> status_answer (s_env x) SPACEX_SUCCESS (no_seal x ''Seal'' ret)
              | Some (st, path) \<Rightarrow>
                  if st = SPACEX_SUCCESS then map_option (with_path (s_env x) path (seal_answer cid st)) (shown_status st)
                  else status_answer (s_env x) st (seal_answer cid st))))"

definition seal_end_answer :: "string \<Rightarrow> spacex_status \<Rightarrow> int \<times> string" where
  "seal_end_answer cid st =
     (if st = SPACEX_SUCCESS then (200, ''Seal file '' @ in_quotes cid @ '' successfully'')
      else if st = SPACEX_UPGRADE_IS_UPGRADING then (503, ''Seal file '' @ in_quotes cid @ '' stopped due to upgrading or exiting'')
      else if st = SPACEX_STORAGE_NEW_FILE_NOTFOUND then (404, ''File '' @ in_quotes cid @ '' is not being sealed'')
      else if st = SPACEX_STORAGE_INCOMPLETE_BLOCK then (500, ''Seal file '' @ in_quotes cid @ '' failed due to incomplete file blocks'')
      else (500, ''Seal file '' @ in_quotes cid @ '' failed! Error code:'' @ status_text st))"

definition api_seal_end :: "site \<Rightarrow> bytes \<Rightarrow> node \<Rightarrow> (response \<times> node) option" where
  "api_seal_end x data n =
     Option.bind (Load_unsafe_buffer (s_env x) (s_fl x) data) (\<lambda>req_json.
       if \<not> has_param req_json ''cid'' CString then Some (answer (s_env x) 400 0 (bad_parameter ''string'' ''cid''), n)
       else
         let cid = ToString (jget req_json ''cid'')
         in Option.bind (node_call x (Ecall_seal_file_end (s_gate x 0) (s_env x) (s_fl x) (s_other x) cid) n) (\<lambda>(ret, st, n1).
              map_option (\<lambda>res. (res, n1))
                (case st of
                   None \<Rightarrow> status_answer (s_env x) SPACEX_SUCCESS (no_seal x ''Start seal'' ret)
                 | Some st \<Rightarrow> status_answer (s_env x) st (seal_end_answer cid st))))"

text \<open>A block that is not on disk: whether its file is known decides between lost and never there.\<close>

definition missing_block_answer :: "string \<Rightarrow> 'a enclave_data_scheme \<Rightarrow> int \<times> string" where
  "missing_block_answer index_path d =
     (let cid_header = parent_path index_path
      in if length cid_header \<le> UUID_LENGTH * 2 then (404, ''Malwared index path:'' @ index_path)
         else
           let cid = drop (UUID_LENGTH * 2) cid_header
           in case find_file_type cid d of
                None \<Rightarrow> (404, ''Requested cid:'' @ in_quotes cid @ '' is not existed.'')
              | Some type \<Rightarrow>
                  if type = FILE_TYPE_PENDING then (404, ''Requested cid:'' @ in_quotes cid @ '' is not existed.'')
                  else (410, ''File block:'' @ in_quotes index_path @ '' is lost''))"

definition unseal_answer :: "spacex_status \<Rightarrow> int \<times> string" where
  "unseal_answer st =
     (if st = SPACEX_UNSEAL_DATA_FAILED then (400, ''Unseal data failed! SGX unseal data failed!'')
      else if st = SPACEX_UPGRADE_IS_UPGRADING then (503, ''Unseal file stoped due to upgrading or exiting'')
      else (404, ''Unseal data failed! Error code:'' @ status_text st))"

definition api_unseal :: "site \<Rightarrow> bytes \<Rightarrow> node \<Rightarrow> (response \<times> node) option" where
  "api_unseal x data n =
     (let e = s_env x; refuse = (\<lambda>(code, info). answer e code code info)
      in Option.bind (Load_unsafe_buffer e (s_fl x) data) (\<lambda>req_json.
       if \<not> has_param req_json ''path'' CString then Some (answer e 400 400 (bad_parameter ''string'' ''path''), n)
       else
         let index_path = ToString (jget req_json ''path'')
         in if index_path = EMPTY_BLOCK_FLAG then Some (\<lparr>result_code = 200, body = []\<rparr>, n)
            else Option.bind (is_file_exist (nd_app n) index_path STORE_TYPE_FILE (app_tree (nd_app n))) (\<lambda>there.
              if \<not> there then Some (refuse (missing_block_answer index_path (nd_app n)), n)
              else Option.bind (get_file_size (nd_app n) index_path STORE_TYPE_FILE (app_tree (nd_app n))) (\<lambda>decrypted_data_sz.
                if \<not> app_malloc e (nat decrypted_data_sz) then None
                else map_option (\<lambda>(ret, r, n1).
                         (case r of
                            None \<Rightarrow> answer e 500 500 (''Unseal failed! Invoke SGX API failed! Error code:'' @ sgx_text x ret)
                          | Some (st, d) \<Rightarrow>
                              if st = SPACEX_SUCCESS then \<lparr>result_code = 200, body = bytes_str d\<rparr> else refuse (unseal_answer st), n1))
                       (node_call x (Ecall_unseal_file (s_gate x 0) e index_path) n)))))"

definition recover_usage :: string where
  "recover_usage =
     ''Invalid parameter! Need a json format parameter like:{'' @ quoted ''added_files'' @ '':['' @ quoted ''Qmxxx'' @ ''],'' @
     quoted ''deleted_files'' @ '':['' @ quoted ''Qmxxx'' @ '']}''"

text \<open>The answer has its backslashes removed, which also unescapes the quotes in the message.\<close>

definition recover_answer :: "env \<Rightarrow> int \<Rightarrow> string \<Rightarrow> response" where
  "recover_answer e code info = (let r = answer e code code info in r\<lparr>body := remove_char (body r) (CHR 0x5C)\<rparr>)"

definition recover_request_ok :: "JSON \<Rightarrow> bool" where
  "recover_request_ok j \<longleftrightarrow>
     \<not> (\<not> hasKey j WORKREPORT_FILES_ADDED \<and> \<not> hasKey j WORKREPORT_FILES_DELETED \<or>
        hasKey j WORKREPORT_FILES_ADDED \<and> JSONType (jget j WORKREPORT_FILES_ADDED) \<noteq> CArray \<or>
        hasKey j WORKREPORT_FILES_DELETED \<and> JSONType (jget j WORKREPORT_FILES_DELETED) \<noteq> CArray)"

definition api_recover :: "site \<Rightarrow> bytes \<Rightarrow> node \<Rightarrow> (response \<times> node) option" where
  "api_recover x data n =
     (case Load (s_env x) (s_fl x) (bytes_str data) of
        POk (req_json, st) \<Rightarrow>
          if st \<noteq> SPACEX_SUCCESS \<or> \<not> recover_request_ok req_json then Some (recover_answer (s_env x) 400 recover_usage, n)
          else map_option (\<lambda>(ret, st, n1).
                   (case st of
                      None \<Rightarrow> recover_answer (s_env x) 500 (''Recover illegal file failed! Invoke SGX API failed! Error code:'' @ sgx_text x ret)
                    | Some st \<Rightarrow>
                        if st \<noteq> SPACEX_SUCCESS then recover_answer (s_env x) 500 (''Unexpected error:'' @ status_text st)
                        else recover_answer (s_env x) 200 ''Recover illegal file done.'', n1))
                 (node_call x (Ecall_recover_illegal_file (s_gate x 0) (s_env x) (s_fl x) data) n)
      | _ \<Rightarrow> None)"

section \<open>Choosing the handler\<close>

definition get_handler :: "site \<Rightarrow> string \<Rightarrow> (string \<rightharpoonup> string) \<Rightarrow> string \<Rightarrow> bytes \<Rightarrow> node \<Rightarrow> (response \<times> node) option" where
  "get_handler x b params req_route data n =
     (if req_route = b @ ''/workload'' then api_workload x n
      else if req_route = b @ ''/stop'' then api_stop x n
      else if req_route = b @ ''/enclave/thread_info'' then api_thread_info x n
      else if req_route = b @ ''/enclave/id_info'' then api_id_info x n
      else if req_route = b @ ''/file/info'' then api_file_info x params n
      else if req_route = b @ ''/file/info_by_type'' then api_info_by_type x params n
      else if req_route = b @ ''/upgrade/start'' then api_upgrade_start x n
      else if req_route = b @ ''/upgrade/metadata'' then api_upgrade_metadata x n
      else if req_route = b @ ''/upgrade/complete'' then api_upgrade_complete x data n
      else Some (\<lparr>result_code = 400, body = ''Unknown request target''\<rparr>, n))"

definition post_handler :: "site \<Rightarrow> string \<Rightarrow> (string \<rightharpoonup> string) \<Rightarrow> string \<Rightarrow> bytes \<Rightarrow> node \<Rightarrow> (response \<times> node) option" where
  "post_handler x b params req_route data n =
     (if req_route = b @ ''/debug'' then api_debug x data n
      else if req_route = b @ ''/config/add_path'' then api_add_path x data n
      else if req_route = b @ ''/srd/change'' then api_srd_change x data n
      else if req_route = b @ ''/storage/delete'' then api_delete x data n
      else if req_route = b @ ''/storage/seal_start'' then api_seal_start x data n
      else if req_route = b @ ''/storage/seal'' then api_seal x params data n
      else if req_route = b @ ''/storage/seal_end'' then api_seal_end x data n
      else if req_route = b @ ''/storage/unseal'' then api_unseal x data n
      else if req_route = b @ ''/file/recover_illegal'' then api_recover x data n
      else Some (\<lparr>result_code = 400, body = ''Unknown request!''\<rparr>, n))"

text \<open>
  The comparison of the target with the base reads as far as the base is long; a shorter target differs from it at its
  terminating null.
\<close>

definition http_handler :: "site \<Rightarrow> http_req \<Rightarrow> node \<Rightarrow> (response \<times> node) option" where
  "http_handler x req n =
     (let b = base (get_url_end_point (base_url x));
          target = req_target req;
          bad_request = (\<lambda>why. Some (\<lparr>result_code = 400, body = why\<rparr>, n))
      in if req_method req = OTHER_METHOD then bad_request ''Unknown HTTP-method''
         else if target = [] \<or> hd target \<noteq> CHR ''/'' \<or> str_find target ''..'' 0 \<noteq> None then bad_request ''Illegal request-target''
         else if \<not> prefix b target then bad_request ''Illegal request-target''
         else
           let params = get_params target;
               req_route = (case params ''req_route'' of Some r \<Rightarrow> r | None \<Rightarrow> [])
           in case route_tag b req_route of
                None \<Rightarrow> None
              | Some tag \<Rightarrow>
                  if node_status n = UPGRADE_STATUS_EXIT then
                    Some (answer (s_env x) 501 501 ''No service will be provided because of upgrade!'', n)
                  else if node_status n \<noteq> UPGRADE_STATUS_NONE \<and> node_status n \<noteq> UPGRADE_STATUS_STOP_WORKREPORT \<and>
                          tag \<in> set upgrade_block_s then
                    Some (answer (s_env x) 501 501 ''Current service is closed due to upgrade!'', n)
                  else case req_method req of
                         HEAD \<Rightarrow> Some (\<lparr>result_code = 200, body = []\<rparr>, n)
                       | GET \<Rightarrow> get_handler x b params req_route (req_body req) n
                       | POST \<Rightarrow> post_handler x b params req_route (req_body req) n
                       | OTHER_METHOD \<Rightarrow> None)"

end
