(* ===== verification/Process.thy ===== *)
theory Process
  imports ApiHandler "HOL-Library.AList"
begin

text \<open>
  The main function of the application, \<open>src/src/app/process/Process.cpp\<close>: the three ways to start a node (new, restored from the database, taking over
  from an old version), the threads that it supervises, and the loop that carries an upgrade forward. The old
  version is reached over HTTP, as the chain is.

  What the SGX library answers when the enclave is created, whether the web server and the database come up, the attestation (\<open>entry_network\<close>),
  and which threads end during a sleep are parameters.
\<close>

section \<open>What the process is run with\<close>

datatype task_func = Start_webservice | Work_report_loop | Srd_check_reserved | Main_loop

text \<open>The threads that were started, and whether each is still running.\<close>

type_synonym tasks = "(task_func \<times> bool) list"

record run_env =
  r_sgx_supported :: bool
  r_create_enclave :: "nat \<Rightarrow> bool"
  r_web_ok :: bool
  r_db_ok :: "nat \<Rightarrow> bool"
  r_entry_network :: "nat \<Rightarrow> node \<Rightarrow> spacex_status \<times> node"
  r_ended :: "nat \<Rightarrow> tasks \<Rightarrow> tasks"
  r_buffer_key :: nat
  r_account_id :: string
  r_backup :: string
  r_offline :: bool

record process =
  pr_node :: node
  pr_tasks :: tasks
  upgrade_tryout :: int

section \<open>Threads\<close>

text \<open>Only the web server can fail to start, and then its thread has ended.\<close>

definition start_task :: "run_env \<Rightarrow> task_func \<Rightarrow> tasks \<Rightarrow> bool \<times> tasks" where
  "start_task p func ts =
     (if map_of ts func = Some True then (True, ts)
      else let ok = (func = Start_webservice \<longrightarrow> r_web_ok p) in (ok, AList.update func ok ts))"

fun restore_loop :: "run_env \<Rightarrow> task_func list \<Rightarrow> tasks \<Rightarrow> bool \<times> tasks" where
  "restore_loop p [] ts = (True, ts)"
| "restore_loop p (func # funcs) ts =
     (if map_of ts func = Some False then
        (let (ok, ts') = start_task p func ts in if \<not> ok then (False, ts') else restore_loop p funcs ts')
      else restore_loop p funcs ts)"

definition restore_tasks :: "run_env \<Rightarrow> tasks \<Rightarrow> bool \<times> tasks" where
  "restore_tasks p ts = restore_loop p (map fst ts) ts"

definition has_task_running :: "tasks \<Rightarrow> bool" where
  "has_task_running ts \<longleftrightarrow> list_ex (\<lambda>(func, running). func \<noteq> Start_webservice \<and> running) ts"

section \<open>Making an enclave\<close>

text \<open>A new enclave, in front of the same database and with the calls so far behind it.\<close>

definition new_enclave :: "enclave \<Rightarrow> enclave" where
  "new_enclave s =
     \<lparr>ocalls = ocalls s, db = db s, db_ops = db_ops s, ocall_buffer_pool = ocall_buffer_pool s,
      srd_hashs = [], sealed_files = [], reported_files_idx = [], pre_pub_key = replicate 64 0,
      pending_files_um = [], account_id = [], id_key_pair = (replicate 64 0, replicate 32 0),
      is_set_key_pair = False, mr_enclave = replicate 32 0, report_height = 0, restart_flag = 0,
      validated_srd_proof = 0, validated_file_proof = 0, report_files = True, srd_info_json = JNull,
      upgrade = False, upgrade_status = ENC_UPGRADE_STATUS_NONE, wl_file_spec = file_spec_init,
      srd_del_idx_s = [], file_del_cid_s = [], g_srd_task = 0, g_base_rand_buffer = None,
      g_del_srd_v = [], g_validate_srd_m = [], g_validate_srd_m_iter = 0, g_validated_srd_num = 0,
      g_changed_files_v = [], g_validate_files_m = [], g_validate_files_m_iter = 0,
      g_validated_files_num = 0, g_validate_random = 0, g_ecall_buffer_pool = (\<lambda>_. None)\<rparr>"

text \<open>The status that the measurement itself gives is not looked at.\<close>

definition initialize_enclave :: "site \<Rightarrow> run_env \<Rightarrow> nat \<Rightarrow> node \<Rightarrow> (bool \<times> node) option" where
  "initialize_enclave x p k n =
     (if \<not> r_sgx_supported p \<or> \<not> r_create_enclave p k then Some (False, n)
      else map_option (\<lambda>(ret, _, n1). (ret = SGX_SUCCESS, n1))
             (node_call x (Ecall_gen_sgx_measurement (s_gate x 0) (s_env x)) (n\<lparr>nd_enclave := new_enclave (nd_enclave n)\<rparr>)))"

definition initialize_components :: "site \<Rightarrow> run_env \<Rightarrow> nat \<Rightarrow> node \<Rightarrow> (bool \<times> node) option" where
  "initialize_components x p k n =
     map_option (\<lambda>(st, t).
         let n1 = n\<lparr>nd_app := (nd_app n)\<lparr>app_tree := t\<rparr>\<rparr>
         in if st \<noteq> SPACEX_SUCCESS \<or> \<not> r_db_ok p k then (False, n1)
            else (True, case DataBase_get ''debug_flag'' (nd_enclave n1) of
                          (st, v) \<Rightarrow> if st = SPACEX_SUCCESS \<and> v = str_bytes ''1'' then n1\<lparr>nd_debug := True\<rparr> else n1))
       (create_directory (s_sys x) (cf_base_path (app_conf (nd_app n))) (app_tree (nd_app n)))"

definition gen_key_pair :: "site \<Rightarrow> run_env \<Rightarrow> node \<Rightarrow> (bool \<times> node) option" where
  "gen_key_pair x p n =
     map_option (\<lambda>(ret, ok, n1). (ok = Some True, n1)) (node_call x (Ecall_gen_key_pair (s_gate x 0) (s_env x) (r_account_id p)) n)"

section \<open>Taking over from an old version\<close>

definition old_get :: "site \<Rightarrow> run_env \<Rightarrow> string \<Rightarrow> string \<Rightarrow> http_request" where
  "old_get x p path data = HttpGetBody (base_url x @ path) data [(''backup'', r_backup p)]"

text \<open>Ask again until the answer is one of \<open>codes\<close>; the answer comes with the state of the client.\<close>

definition ask_until :: "web \<Rightarrow> (int \<Rightarrow> bool) \<Rightarrow> http_request \<Rightarrow> http_client \<Rightarrow> (response \<times> http_client) option" where
  "ask_until web wanted r c =
     poll (\<lambda>(_, c). let (res, c') = http_do web r c in Some (wanted (result_code res), res, c')) (\<lparr>result_code = 0, body = []\<rparr>, c)"

definition upgrade_try_start :: "site \<Rightarrow> run_env \<Rightarrow> http_client \<Rightarrow> (bool \<times> http_client) option" where
  "upgrade_try_start x p c =
     map_option (\<lambda>(res, c'). (result_code res = 200, c'))
       (ask_until (s_web x) (\<lambda>code. code = 200 \<or> code = 404) (old_get x p ''/upgrade/start'' []) c)"

text \<open>The parts of the upgrade data go into the enclave one call each; of no data there are no parts, which counts as a success.\<close>

function store2_calls ::
  "enclave gate \<Rightarrow> env \<Rightarrow> float_lib \<Rightarrow> bytes \<Rightarrow> nat \<Rightarrow> nat \<Rightarrow> enclave_queue \<times> enclave \<Rightarrow> (spacex_status, enclave) ecall_result" where
  "store2_calls g e fl data key off c =
     (if off < length data then
        (let part = take BOUNDARY_SIZE_THRESHOLD (drop off data)
         in case Ecall_safe_store2 g e fl part (length data) off key c of
              None \<Rightarrow> None
            | Some (ret, st, c') \<Rightarrow>
                if st = Some SPACEX_SUCCESS then store2_calls g e fl data key (off + length part) c' else Some (ret, st, c'))
      else Some (SGX_SUCCESS, Some SPACEX_SUCCESS, c))"
  by pat_completeness auto
termination
  by (relation "measure (\<lambda>(_, _, _, data, _, off, _). length data - off)") auto

declare store2_calls.simps [simp del]

text \<open>At most three enclaves, when the attestation of one cannot start.\<close>

fun restore_try :: "site \<Rightarrow> run_env \<Rightarrow> bytes \<Rightarrow> nat \<Rightarrow> nat \<Rightarrow> node \<Rightarrow> (bool \<times> node) option" where
  "restore_try x p data restore_tryout k n =
     Option.bind (initialize_enclave x p k n) (\<lambda>(ok, n1).
       if \<not> ok then Some (False, n1)
       else Option.bind (gen_key_pair x p n1) (\<lambda>(ok, n2).
         if \<not> ok then Some (False, n2)
         else Option.bind (node_call x (store2_calls (s_gate x 0) (s_env x) (s_fl x) data (r_buffer_key p) 0) n2) (\<lambda>(ret, st, n3).
           case restore_tryout of
             Suc m \<Rightarrow>
               if st = Some SPACEX_INIT_QUOTE_FAILED \<and> m > 0 then restore_try x p data m (Suc k) n3
               else Some (st = Some SPACEX_SUCCESS, n3)
           | 0 \<Rightarrow> Some (st = Some SPACEX_SUCCESS, n3))))"

declare restore_try.simps [simp del]

definition upgrade_try_restore :: "site \<Rightarrow> run_env \<Rightarrow> http_client \<Rightarrow> node \<Rightarrow> (bool \<times> http_client \<times> node) option" where
  "upgrade_try_restore x p c n =
     Option.bind (ask_until (s_web x) (\<lambda>code. code = 200 \<or> code = 404) (old_get x p ''/upgrade/metadata'' []) c) (\<lambda>(res, c').
       if result_code res = 404 then Some (False, c', n)
       else map_option (\<lambda>(ok, n'). (ok, c', n')) (restore_try x p (str_bytes (body res)) 3 0 n))"

definition upgrade_try_complete :: "site \<Rightarrow> run_env \<Rightarrow> bool \<Rightarrow> http_client \<Rightarrow> node \<Rightarrow> (http_client \<times> node) option" where
  "upgrade_try_complete x p success c n =
     Option.bind (ask_until (s_web x) (\<lambda>code. code = 200 \<or> code = 404)
         (old_get x p ''/upgrade/complete'' (dump_json (s_env x) (jset JNull ''success'' (JBoolean success)))) c) (\<lambda>(_, c1).
       if \<not> success then Some (c1, n)
       else Option.bind (ask_until (s_web x) (\<lambda>code. code = 404) (old_get x p ''/enclave/thread_info'' []) c1) (\<lambda>(_, c2).
         map_option (\<lambda>(_, n'). (c2, n'))
           (poll (\<lambda>(k, n). map_option (\<lambda>(ok, n'). (ok, Suc k, n')) (initialize_components x p k n)) (0, n))))"

text \<open>The whole takeover; each step has a client of its own, and the requests of all are kept in one sequence.\<close>

definition do_upgrade :: "site \<Rightarrow> run_env \<Rightarrow> http_client \<Rightarrow> node \<Rightarrow> (http_client \<times> node) option" where
  "do_upgrade x p c n =
     poll (\<lambda>(c, n).
         Option.bind (upgrade_try_start x p c) (\<lambda>(ok, c1).
           if \<not> ok then Some (False, c1, n)
           else Option.bind (upgrade_try_restore x p c1 n) (\<lambda>(res, c2, n2).
                  map_option (\<lambda>(c3, n3). (res, c3, n3)) (upgrade_try_complete x p res c2 n2)))) (c, n)"

section \<open>The loop of the main thread\<close>

abbreviation (input) upgrade_tryouts :: int where "upgrade_tryouts \<equiv> 720"
abbreviation (input) check_interval :: nat where "check_interval \<equiv> 15"

text \<open>The running tasks are done when none of the calls that an upgrade has to wait for is in the enclave.\<close>

definition upgrade_drained :: "site \<Rightarrow> node \<Rightarrow> node option" where
  "upgrade_drained x n =
     (if node_status n = UPGRADE_STATUS_PROCESS \<and> get_upgrade_ecalls_num (nd_queue n) = 0
      then set_node_status x UPGRADE_STATUS_END n else Some n)"

definition upgrade_collect :: "site \<Rightarrow> node \<Rightarrow> node option" where
  "upgrade_collect x n =
     (if node_status n \<noteq> UPGRADE_STATUS_END then Some n
      else Option.bind (node_block_header x n) (\<lambda>(header, n1).
        case header of
          None \<Rightarrow> Some n1
        | Some bh \<Rightarrow>
            Option.bind (node_call x (Ecall_gen_upgrade_data (s_gate x 0) (s_env x) (bh_number bh)) n1) (\<lambda>(_, st, n2).
              if st = Some SPACEX_SUCCESS then set_node_status x UPGRADE_STATUS_COMPLETE n2 else Some n2)))"

text \<open>
  An upgrade that takes too long is given up; outside of an upgrade the threads that have ended are started again. The
  number of turns that are left is set back only here, not at the end of an upgrade. \<open>None\<close> in the first component: go on.
\<close>

definition check_tryout :: "site \<Rightarrow> run_env \<Rightarrow> process \<Rightarrow> (bool \<times> process) option" where
  "check_tryout x p s =
     (if node_status (pr_node s) \<noteq> UPGRADE_STATUS_NONE then
        (let left = upgrade_tryout s - 1
         in if left < 0 then
              map_option (\<lambda>n. (False, s\<lparr>pr_node := n, upgrade_tryout := upgrade_tryouts\<rparr>))
                (set_node_status x UPGRADE_STATUS_NONE (pr_node s))
            else Some (False, s\<lparr>upgrade_tryout := left\<rparr>))
      else let (ok, ts) = restore_tasks p (pr_tasks s) in Some (\<not> ok, s\<lparr>pr_tasks := ts\<rparr>))"

text \<open>A second of the sleep at the end of a turn.\<close>

definition second :: "site \<Rightarrow> run_env \<Rightarrow> nat \<Rightarrow> process \<Rightarrow> process" where
  "second x p i s = s\<lparr>pr_node := s_elsewhere x i (pr_node s), pr_tasks := r_ended p i (pr_tasks s)\<rparr>"

definition may_exit :: "process \<Rightarrow> bool" where
  "may_exit s \<longleftrightarrow> node_status (pr_node s) = UPGRADE_STATUS_EXIT \<and> \<not> has_task_running (pr_tasks s)"

text \<open>The first component tells whether the process leaves the loop.\<close>

definition process_turn :: "site \<Rightarrow> run_env \<Rightarrow> process \<Rightarrow> (bool \<times> process) option" where
  "process_turn x p s =
     Option.bind (upgrade_drained x (pr_node s)) (\<lambda>n1.
     Option.bind (upgrade_collect x n1) (\<lambda>n2.
     map_option (\<lambda>(leave, s1). if leave then (True, s1) else reserve_wait (second x p) may_exit [0..<check_interval] s1)
       (check_tryout x p (s\<lparr>pr_node := n2\<rparr>))))"

fun process_turns :: "site \<Rightarrow> run_env \<Rightarrow> nat \<Rightarrow> process \<Rightarrow> (bool \<times> process) option" where
  "process_turns x p 0 s = Some (False, s)"
| "process_turns x p (Suc k) s =
     Option.bind (process_turn x p s) (\<lambda>(leave, s'). if leave then Some (True, s') else process_turns x p k s')"

section \<open>Starting\<close>

text \<open>\<open>sstream >> srd_task_remain\<close>: blanks, a sign, digits; a value that is too large gives the largest one.\<close>

definition read_size :: "string \<Rightarrow> size_t" where
  "read_size str =
     (let t = dropWhile isspace str;
          (neg, t) = (case t of
                        c # cs \<Rightarrow> if c = CHR ''-'' then (True, cs) else if c = CHR ''+'' then (False, cs) else (False, t)
                      | [] \<Rightarrow> (False, []));
          n = digits_val (takeWhile is_digit t) 0
      in if 2 ^ 64 \<le> n then - 1 else if neg then - of_int n else of_int n)"

datatype start_mode = New_node | Restarted

text \<open>
  Without an upgrade: an enclave is made and its data restored; when that fails the node is a new one and has to be
  attested. An attestation that cannot start is tried again with another enclave, three times. \<open>Inl\<close> is the status
  with which the process ends.
\<close>

fun normal_start :: "site \<Rightarrow> run_env \<Rightarrow> nat \<Rightarrow> nat \<Rightarrow> tasks \<Rightarrow> node \<Rightarrow> (int + start_mode \<times> tasks \<times> node) option" where
  "normal_start x p entry_tryout k ts n =
     Option.bind (initialize_enclave x p k n) (\<lambda>(ok, n1).
       if \<not> ok then Some (Inl (- 1))
       else Option.bind (node_call x (Ecall_restore_metadata (s_gate x 0) (s_env x) (s_fl x)) n1) (\<lambda>(_, st, n2).
         if st \<noteq> Some SPACEX_SUCCESS then
           Option.bind (gen_key_pair x p n2) (\<lambda>(ok, n3).
             if \<not> ok then Some (Inl (- 1))
             else let (web, ts1) = start_task p Start_webservice ts
                  in if \<not> web then Some (Inl 1)
                     else if r_offline p then map_option (\<lambda>(_, n4). Inr (New_node, ts1, n4)) (node_enclave_id_info x n3)
                     else let (entry, n4) = r_entry_network p k n3
                          in if entry = SPACEX_SUCCESS then Some (Inr (New_node, ts1, n4))
                             else case entry_tryout of
                                    Suc m \<Rightarrow> if entry = SPACEX_INIT_QUOTE_FAILED then normal_start x p m (Suc k) ts1 n4 else Some (Inl 1)
                                  | 0 \<Rightarrow> Some (Inl 1))
         else
           Option.bind (node_call x (Ecall_cmp_chain_account_id (s_gate x 0) (r_account_id p)) n2) (\<lambda>(_, st, n3).
             if st \<noteq> Some SPACEX_SUCCESS then Some (Inl (- 1))
             else Option.bind (wait_for_running (s_env x) (s_fl x) (s_web x) (nd_chain n3)) (\<lambda>(ok, c).
                    if \<not> ok then Some (Inl (- 1)) else Some (Inr (Restarted, ts, n3\<lparr>nd_chain := c\<rparr>))))))"

declare normal_start.simps [simp del]

text \<open>The task that the database has for a node that goes on, with the overview that is printed.\<close>

definition recovered_srd_task :: "site \<Rightarrow> size_t \<Rightarrow> node \<Rightarrow> (size_t \<times> node) option" where
  "recovered_srd_task x srd_task n =
     (let (st, v) = DataBase_get WL_SRD_REMAINING_TASK (nd_enclave n);
          srd_task' = (if st = SPACEX_SUCCESS then max srd_task (read_size (bytes_str v)) else srd_task)
      in map_option (\<lambda>(_, a). (srd_task', n\<lparr>nd_app := a\<rparr>))
           (gen_workload_str (s_env x) (s_fl x) (s_sys x) (s_rand x) (s_behind x) (sint srd_task') (nd_app n)))"

text \<open>What all ways to start have in common.\<close>

definition start_work :: "site \<Rightarrow> run_env \<Rightarrow> size_t \<Rightarrow> tasks \<Rightarrow> node \<Rightarrow> (int + process) option" where
  "start_work x p srd_task ts n =
     Option.bind
       (if srd_task > 0 then
          map_option (\<lambda>(_, _, n'). n') (node_call x (Ecall_change_srd_task (s_gate x 0) (s_env x) (sint srd_task) 0) n)
        else Some n) (\<lambda>n1.
     let (web, ts1) = start_task p Start_webservice ts
     in if \<not> web then Some (Inl 1)
        else Some (Inr \<lparr>pr_node = n1,
               pr_tasks = snd (start_task p Main_loop (snd (start_task p Srd_check_reserved (snd (start_task p Work_report_loop ts1))))),
               upgrade_tryout = upgrade_tryouts\<rparr>))"

definition process_start :: "site \<Rightarrow> run_env \<Rightarrow> bool \<Rightarrow> http_client \<Rightarrow> node \<Rightarrow> (int + process) option" where
  "process_start x p upgrade_flag c n =
     Option.bind (construct_uuid_disk_path_map (s_sys x) (s_rand x) (s_behind x) (get_data_paths (app_conf (nd_app n))) (nd_app n)) (\<lambda>a.
     let n1 = n\<lparr>nd_app := a\<rparr>
     in if upgrade_flag then
          Option.bind (do_upgrade x p c n1) (\<lambda>(_, n2).
          Option.bind (recovered_srd_task x 0 n2) (\<lambda>(srd_task, n3). start_work x p srd_task [] n3))
        else
          Option.bind (initialize_components x p 0 n1) (\<lambda>(ok, n2).
            if \<not> ok then Some (Inl (- 1))
            else Option.bind (normal_start x p 3 0 [] n2) (\<lambda>r.
              case r of
                Inl code \<Rightarrow> Some (Inl code)
              | Inr (New_node, ts, n3) \<Rightarrow> start_work x p 1 ts n3
              | Inr (Restarted, ts, n3) \<Rightarrow> Option.bind (recovered_srd_task x 0 n3) (\<lambda>(srd_task, n4). start_work x p srd_task ts n4))))"

text \<open>The whole process for a number of turns: the status when it ends, or the state that it has come to.\<close>

definition process_run :: "site \<Rightarrow> run_env \<Rightarrow> bool \<Rightarrow> http_client \<Rightarrow> nat \<Rightarrow> node \<Rightarrow> (int + process) option" where
  "process_run x p upgrade_flag c turns n =
     Option.bind (process_start x p upgrade_flag c n) (\<lambda>r.
       case r of
         Inl code \<Rightarrow> Some (Inl code)
       | Inr s \<Rightarrow> map_option (\<lambda>(leave, s'). if leave then Inl 1 else Inr s') (process_turns x p turns s))"

end
