(* ===== verification/NodeSafety.thy ===== *)
theory NodeSafety
  imports Process
begin

text \<open>
  What the handlers and the main function guarantee for a node as a whole: which requests an upgrade closes, that
  the requests it leaves open do not touch the work that is handed over, how long an upgrade can last, and
  when the process ends.
\<close>

section \<open>The work that is handed over\<close>

text \<open>
  Two states of the enclave with the same work for an upgrade, where the second comes after the first and no upgrade data
  was sent in between.
\<close>

definition same_work :: "'a workload_scheme \<Rightarrow> 'a workload_scheme \<Rightarrow> bool" where
  "same_work s s' \<longleftrightarrow> srd_hashs s' = srd_hashs s \<and> filter not_pending (sealed_files s') = filter not_pending (sealed_files s) \<and>
     (\<exists>cs. ocalls s' = ocalls s @ cs \<and> last_upgrade_data cs = None)"

named_theorems work

lemma same_work_refl [work]: "same_work s s"
  by (simp add: same_work_def)

lemma same_work_trans: "same_work s t \<Longrightarrow> same_work t u \<Longrightarrow> same_work s u"
  by (auto simp: same_work_def last_upgrade_append)

lemma same_work_fields:
  assumes "same_work s s'" and "srd_hashs t = srd_hashs s'" and "sealed_files t = sealed_files s'" and "ocalls t = ocalls s'"
  shows "same_work s t"
  using assms by (simp add: same_work_def)

lemma same_work_emit: "last_upgrade_data [c] = None \<Longrightarrow> same_work s (emit c s)"
  by (auto simp: same_work_def emit_def)

lemma filter_vec_erase_rejected: "\<not> P (xs ! i) \<Longrightarrow> filter P (vec_erase i xs) = filter P xs"
proof (cases "i < length xs")
  case True
  assume "\<not> P (xs ! i)"
  with True show ?thesis
    by (subst (2) id_take_nth_drop [OF True]) (simp add: vec_erase_def)
qed (simp add: vec_erase_def)

lemma same_work_pending [work]:
  "same_work s (pending_upd root f s)" "same_work s (pending_erase root s)"
  by (auto simp: same_work_def pending_upd_def pending_erase_def)

lemma same_work_drop_pending: "same_work s (drop_pending_entry root s)"
  by (auto simp: same_work_def drop_pending_entry_def Let_def emit_def set_file_spec_def filter_vec_erase_rejected not_pending_def
      split: prod.splits option.splits)

lemma same_work_seal_failed [work]: "same_work s (seal_failed root s)"
  unfolding seal_failed_def
  by (rule same_work_trans [OF same_work_trans [OF same_work_pending(2) same_work_emit] same_work_drop_pending]) simp

lemma seal_failed_status [simp]:
  "upgrade_status (pending_upd root f s) = upgrade_status s" "upgrade_status (pending_erase root s) = upgrade_status s"
  "upgrade_status (emit c s) = upgrade_status s" "upgrade_status (drop_pending_entry root s) = upgrade_status s"
  "upgrade_status (seal_failed root s) = upgrade_status s"
  by (simp_all add: pending_upd_def pending_erase_def emit_def drop_pending_entry_def set_file_spec_def seal_failed_def
      split: prod.splits option.splits)

text \<open>The operations on files that an upgrade leaves open.\<close>

lemma seal_keeps_work:
  assumes "upgrade_status s \<noteq> ENC_UPGRADE_STATUS_NONE" and "storage_seal_file e fl other root data is_link s = Some (st, path, s')"
  shows "same_work s s' \<and> upgrade_status s' = upgrade_status s"
  using assms by (auto simp: storage_seal_file_def work split: if_splits)

lemma seal_end_keeps_work:
  assumes "upgrade_status (other 0 s) \<noteq> ENC_UPGRADE_STATUS_NONE" and "same_work s (other 0 s)"
    and "storage_seal_file_end e fl other root s = Some (st, s')" and "upgrade_status (other 0 s) = upgrade_status s"
  shows "same_work s s' \<and> upgrade_status s' = upgrade_status s"
proof (cases "pending_has root s")
  case True
  let ?t = "other 0 s"
  have "same_work s (drop_pending_entry root (pending_erase root (emit (Ocall_delete_ipfs_file root) ?t)))"
    by (rule same_work_trans [OF same_work_trans [OF same_work_trans [OF assms(2) same_work_emit] same_work_pending(2)] same_work_drop_pending])
       simp
  with True assms show ?thesis by (auto simp: storage_seal_file_end_def seal_end_body_def)
qed (use assms in \<open>simp add: storage_seal_file_end_def same_work_refl\<close>)

lemma database_keeps_work [work]:
  "same_work s (snd (DataBase_set e k v s))" "same_work s (snd (DataBase_del e k s))"
  by (auto simp: same_work_def DataBase_set_def DataBase_put_def DataBase_del_def)

lemma database_status [simp]:
  "upgrade_status (snd (DataBase_set e k v s)) = upgrade_status s" "upgrade_status (snd (DataBase_del e k s)) = upgrade_status s"
  by (simp_all add: DataBase_set_def DataBase_put_def DataBase_del_def)

section \<open>Calls into the enclave\<close>

text \<open>While a call waits for its place other threads do not change the work, nor the status of the upgrade.\<close>

definition idle :: "('a workload_scheme \<Rightarrow> 'a workload_scheme) \<Rightarrow> bool" where
  "idle f \<longleftrightarrow> (\<forall>s. same_work s (f s) \<and> upgrade_status (f s) = upgrade_status s)"

definition handed_over :: "node \<Rightarrow> node \<Rightarrow> bool" where
  "handed_over n n' \<longleftrightarrow> same_work (nd_enclave n) (nd_enclave n') \<and> get_upgrade_data (nd_app n') = get_upgrade_data (nd_app n)"

lemma handed_over_refl: "handed_over n n"
  by (simp add: handed_over_def same_work_refl)

lemma handed_over_trans: "handed_over n m \<Longrightarrow> handed_over m k \<Longrightarrow> handed_over n k"
  unfolding handed_over_def by (metis same_work_trans)

text \<open>And the status of the upgrade is the same, on both sides.\<close>

definition stays :: "node \<Rightarrow> node \<Rightarrow> bool" where
  "stays n n' \<longleftrightarrow> handed_over n n' \<and> node_status n' = node_status n \<and> upgrade_status (nd_enclave n') = upgrade_status (nd_enclave n)"

lemma node_call_keeps:
  assumes call: "node_call x (with_enclave g name f) n = Some (ret, r, n')" and g: "idle (meanwhile g)"
    and f: "\<And>s r s'. upgrade_status s = upgrade_status (nd_enclave n) \<Longrightarrow> f s = Some (r, s') \<Longrightarrow> same_work s s'"
  shows "handed_over n n' \<and> node_status n' = node_status n"
proof -
  obtain q s a where w: "with_enclave g name f (nd_queue n, nd_enclave n) = Some (ret, r, q, s)"
    and a: "replay (app_ocall (s_env x) (s_fl x) (s_now x)) (ocalls (nd_enclave n)) (drop (length (ocalls (nd_enclave n))) (ocalls s)) (nd_app n) = Some a"
    and n': "n' = n\<lparr>nd_app := a, nd_queue := q, nd_enclave := s\<rparr>"
    using call by (auto simp: node_call_def Let_def split: option.splits)
  have m: "same_work (nd_enclave n) (meanwhile g (nd_enclave n))" "upgrade_status (meanwhile g (nd_enclave n)) = upgrade_status (nd_enclave n)"
    using g by (simp_all add: idle_def)
  have sw: "same_work (nd_enclave n) s"
    using with_enclave_effect [OF w] m f same_work_trans [OF m(1)] by (auto split: if_splits)
  then obtain cs where "ocalls s = ocalls (nd_enclave n) @ cs" "last_upgrade_data cs = None"
    by (auto simp: same_work_def)
  with replay_view [OF a] have "ed_upgrade_status a = ed_upgrade_status (nd_app n)" "ed_upgrade_data a = ed_upgrade_data (nd_app n)"
    by (simp_all add: upgrade_view_def)
  with sw show ?thesis by (simp add: handed_over_def n' get_upgrade_data_def get_upgrade_status_app_def)
qed

lemma node_call_stays:
  assumes call: "node_call x (with_enclave g name f) n = Some (ret, r, n')" and g: "idle (meanwhile g)"
    and f: "\<And>s r s'. upgrade_status s = upgrade_status (nd_enclave n) \<Longrightarrow> f s = Some (r, s') \<Longrightarrow>
      same_work s s' \<and> upgrade_status s' = upgrade_status s"
  shows "stays n n'"
proof -
  have h: "handed_over n n' \<and> node_status n' = node_status n"
    by (rule node_call_keeps [OF call g]) (rule f [THEN conjunct1])
  obtain q s where w: "with_enclave g name f (nd_queue n, nd_enclave n) = Some (ret, r, q, s)" and n': "nd_enclave n' = s"
    using call by (auto simp: node_call_def Let_def split: option.splits)
  have m: "upgrade_status (meanwhile g (nd_enclave n)) = upgrade_status (nd_enclave n)" using g by (simp add: idle_def)
  have "upgrade_status s = upgrade_status (nd_enclave n)"
  proof (cases "ret = SGX_SUCCESS")
    case True
    then obtain y where "f (meanwhile g (nd_enclave n)) = Some (y, s)" using with_enclave_effect [OF w] by auto
    from f [OF m this] m show ?thesis by simp
  next
    case False
    with with_enclave_effect [OF w] m show ?thesis by simp
  qed
  with h n' show ?thesis by (simp add: stays_def)
qed

lemma set_node_status_keeps:
  assumes "set_node_status x st n = Some n'" and "idle (meanwhile (s_gate x 1))"
  shows "handed_over n n' \<and> node_status n' = st"
proof -
  let ?a = "snd (set_upgrade_status_app id st (nd_app n))"
  have 1: "handed_over n (n\<lparr>nd_app := ?a\<rparr>)" "get_upgrade_status_app ?a = st"
    by (simp_all add: handed_over_def same_work_refl set_upgrade_status_app_def get_upgrade_status_app_def get_upgrade_data_def Let_def)
  show ?thesis
  proof (cases "fst (set_upgrade_status_app id st (nd_app n))")
    case True
    then obtain ret r where "node_call x (Ecall_disable_upgrade (s_gate x 1)) (n\<lparr>nd_app := ?a\<rparr>) = Some (ret, r, n')"
      using assms(1) by (auto simp: set_node_status_def split: prod.splits)
    then have "handed_over (n\<lparr>nd_app := ?a\<rparr>) n' \<and> node_status n' = node_status (n\<lparr>nd_app := ?a\<rparr>)"
      unfolding Ecall_disable_upgrade_def
      by (rule node_call_keeps [OF _ assms(2)]) (auto simp: ecall_disable_upgrade_def set_upgrade_status_def intro: same_work_fields [OF same_work_refl])
    with 1 handed_over_trans show ?thesis by auto
  next
    case False
    with assms(1) 1 show ?thesis by (auto simp: set_node_status_def split: prod.splits)
  qed
qed

section \<open>Requests during an upgrade\<close>

definition quiet :: "site \<Rightarrow> bool" where
  "quiet x \<longleftrightarrow> (\<forall>i. idle (meanwhile (s_gate x i)) \<and> idle (s_other x i))"

lemma app_only_keeps:
  assumes "get_upgrade_data a = get_upgrade_data (nd_app n)" and "ed_upgrade_status a = ed_upgrade_status (nd_app n)"
  shows "stays n (n\<lparr>nd_app := a\<rparr>)"
  using assms by (simp add: stays_def handed_over_def same_work_refl get_upgrade_status_app_def)

lemma poll_invariant:
  assumes "poll step s = Some s'" and "P s" and "\<And>s b t. P s \<Longrightarrow> step s = Some (b, t) \<Longrightarrow> P t"
  shows "P s'"
proof -
  have "P s \<longrightarrow> P s'"
  proof (rule poll.raw_induct [OF _ assms(1), of "\<lambda>st s s'. st = step \<longrightarrow> P s \<longrightarrow> P s'", THEN mp])
    fix p st s s'
    assume IH: "\<And>st s s'. p st s = Some s' \<Longrightarrow> st = step \<longrightarrow> P s \<longrightarrow> P s'"
      and r: "(case st s of None \<Rightarrow> None | Some (leave, s'') \<Rightarrow> if leave then Some s'' else p st s'') = Some s'"
    show "st = step \<longrightarrow> P s \<longrightarrow> P s'"
    proof (intro impI)
      assume st: "st = step" and P: "P s"
      from r [unfolded st] obtain b t where t: "step s = Some (b, t)" "(if b then Some t else p step t) = Some s'"
        by (auto split: option.splits)
      show "P s'"
        using assms(3) [OF P t(1)] t(2) IH [of step t s'] by (cases b) simp_all
    qed
  qed simp
  with assms(2) show ?thesis by simp
qed

text \<open>The routes that leave the status of the upgrade alone.\<close>

lemma stays_refl [simp]: "stays n n"
  by (simp add: stays_def handed_over_refl)

named_theorems route_stays

lemma workload_stays [route_stays]: "api_workload x n = Some (r, n') \<Longrightarrow> stays n n'"
proof -
  assume r: "api_workload x n = Some (r, n')"
  then obtain wl a where a: "gen_workload_str (s_env x) (s_fl x) (s_sys x) (s_rand x) (s_behind x) 0 (nd_app n) = Some (wl, a)"
    and n': "n' = n\<lparr>nd_app := a\<rparr>"
    by (auto simp: api_workload_def)
  show ?thesis
    unfolding n'
    by (rule app_only_keeps) (use gen_workload_str_same [OF a] in \<open>simp_all add: same_data_def get_upgrade_data_def\<close>)
qed

lemma readers_stay [route_stays]:
  "api_thread_info x n = Some (r, n') \<Longrightarrow> stays n n'"
  "api_file_info x params n = Some (r, n') \<Longrightarrow> stays n n'"
  "api_info_by_type x params n = Some (r, n') \<Longrightarrow> stays n n'"
  "api_upgrade_metadata x n = Some (r, n') \<Longrightarrow> stays n n'"
  by (auto simp: api_thread_info_def api_file_info_def api_info_by_type_def api_upgrade_metadata_def Let_def
      split: option.splits if_splits)

lemma id_info_stays [route_stays]:
  assumes "api_id_info x n = Some (r, n')" and "quiet x"
  shows "stays n n'"
proof -
  have i: "idle (meanwhile (s_gate x 0))" using assms(2) by (simp add: quiet_def)
  have "stays n n1" if "node_call x (Ecall_id_get_info (s_gate x 0) (s_env x)) n = Some (ret, u, n1)" for ret u n1
    by (rule node_call_stays [OF that [unfolded Ecall_id_get_info_def] i]) (auto simp: id_get_info_def same_work_emit)
  then show ?thesis
    using assms(1) by (auto simp: api_id_info_def node_enclave_id_info_def bind_eq_Some_conv split: if_splits)
qed

lemma debug_stays [route_stays]: "api_debug x data n = Some (r, n') \<Longrightarrow> stays n n'"
  by (auto simp: api_debug_def stays_def handed_over_def Let_def work same_work_refl split: if_splits)

lemma add_path_stays [route_stays]: "api_add_path x data n = Some (r, n') \<Longrightarrow> stays n n'"
  by (auto simp: api_add_path_def stays_def handed_over_def same_work_refl bind_eq_Some_conv get_upgrade_data_def get_upgrade_status_app_def)

lemma seal_stays [route_stays]:
  assumes "api_seal x params data n = Some (r, n')" and "quiet x" and "upgrade_status (nd_enclave n) \<noteq> ENC_UPGRADE_STATUS_NONE"
  shows "stays n n'"
proof -
  have i: "idle (meanwhile (s_gate x 0))" using assms(2) by (simp add: quiet_def)
  have "stays n n1" if "node_call x (Ecall_seal_file (s_gate x 0) (s_env x) (s_fl x) (s_other x) cid data link) n = Some (ret, u, n1)"
    for cid link ret u n1
  proof (rule node_call_stays [OF that [unfolded Ecall_seal_file_def] i])
    fix s r s'
    assume "upgrade_status s = upgrade_status (nd_enclave n)"
      and "map_option (\<lambda>(st, path, s'). ((st, path), s')) (storage_seal_file (s_env x) (s_fl x) (s_other x) cid data link s) = Some (r, s')"
    with assms(3) obtain st path where "storage_seal_file (s_env x) (s_fl x) (s_other x) cid data link s = Some (st, path, s')"
      and "upgrade_status s \<noteq> ENC_UPGRADE_STATUS_NONE" by auto
    then show "same_work s s' \<and> upgrade_status s' = upgrade_status s" by (metis seal_keeps_work)
  qed
  then show ?thesis
    using assms(1) by (auto simp: api_seal_def bind_eq_Some_conv Let_def)
qed

lemma seal_end_stays [route_stays]:
  assumes "api_seal_end x data n = Some (r, n')" and "quiet x" and "upgrade_status (nd_enclave n) \<noteq> ENC_UPGRADE_STATUS_NONE"
  shows "stays n n'"
proof -
  have i: "idle (meanwhile (s_gate x 0))" "idle (s_other x 0)" using assms(2) by (simp_all add: quiet_def)
  have "stays n n1" if "node_call x (Ecall_seal_file_end (s_gate x 0) (s_env x) (s_fl x) (s_other x) cid) n = Some (ret, u, n1)"
    for cid ret u n1
  proof (rule node_call_stays [OF that [unfolded Ecall_seal_file_end_def] i(1)])
    fix s r s'
    assume u: "upgrade_status s = upgrade_status (nd_enclave n)" and r: "storage_seal_file_end (s_env x) (s_fl x) (s_other x) cid s = Some (r, s')"
    have "same_work s (s_other x 0 s)" "upgrade_status (s_other x 0 s) = upgrade_status s" using i(2) by (simp_all add: idle_def)
    with assms(3) u r show "same_work s s' \<and> upgrade_status s' = upgrade_status s" by (metis seal_end_keeps_work)
  qed
  then show ?thesis
    using assms(1) by (auto simp: api_seal_end_def bind_eq_Some_conv Let_def split: if_splits)
qed

lemma unseal_stays [route_stays]:
  assumes "api_unseal x data n = Some (r, n')" and "quiet x"
  shows "stays n n'"
proof -
  have i: "idle (meanwhile (s_gate x 0))" using assms(2) by (simp add: quiet_def)
  have "stays n n1" if "node_call x (Ecall_unseal_file (s_gate x 0) (s_env x) path) n = Some (ret, u, n1)" for path ret u n1
    by (rule node_call_stays [OF that [unfolded Ecall_unseal_file_def] i]) (auto simp: same_work_refl)
  then show ?thesis
    using assms(1) by (auto simp: api_unseal_def bind_eq_Some_conv Let_def split: if_splits)
qed

lemma upgrade_start_stays:
  assumes "api_upgrade_start x n = Some (r, n')" and "node_status n = UPGRADE_STATUS_COMPLETE"
  shows "n' = n"
  using assms by (simp add: api_upgrade_start_def)

section \<open>Which requests are served\<close>

abbreviation site_base :: "site \<Rightarrow> string" where
  "site_base x \<equiv> base (get_url_end_point (base_url x))"

lemma route_tag_behind [simp]: "route_tag b (b @ t) = Some t"
proof -
  have "str_find (b @ t) b 0 = Some 0"
  proof (cases "b @ t")
    case (Cons c cs)
    moreover have "prefix b (b @ t)" by simp
    ultimately show ?thesis by (simp add: str_find_def)
  qed (simp add: str_find_def)
  then show ?thesis by (simp add: route_tag_def substr_def)
qed

lemma http_handler_cases:
  assumes "http_handler x req n = Some (r, n')"
  obtains (refused) "n' = n" and "result_code r \<in> {400, 501}"
  | (head) "n' = n" and "req_method req = HEAD" and "node_status n \<noteq> UPGRADE_STATUS_EXIT"
  | (get) params route tag where "params = get_params (req_target req)" and "route = (case params ''req_route'' of Some r \<Rightarrow> r | None \<Rightarrow> [])"
      and "route_tag (site_base x) route = Some tag" and "node_status n \<noteq> UPGRADE_STATUS_EXIT"
      and "node_status n \<in> {UPGRADE_STATUS_NONE, UPGRADE_STATUS_STOP_WORKREPORT} \<or> tag \<notin> set upgrade_block_s"
      and "get_handler x (site_base x) params route (req_body req) n = Some (r, n')"
  | (post) params route tag where "params = get_params (req_target req)" and "route = (case params ''req_route'' of Some r \<Rightarrow> r | None \<Rightarrow> [])"
      and "route_tag (site_base x) route = Some tag" and "node_status n \<noteq> UPGRADE_STATUS_EXIT"
      and "node_status n \<in> {UPGRADE_STATUS_NONE, UPGRADE_STATUS_STOP_WORKREPORT} \<or> tag \<notin> set upgrade_block_s"
      and "post_handler x (site_base x) params route (req_body req) n = Some (r, n')"
  using assms
  by (cases "req_method req")
    (auto simp: http_handler_def Let_def answer_def split: if_splits option.splits)

lemma post_stays:
  assumes "post_handler x b params route data n = Some (r, n')" and "quiet x"
    and "route_tag b route = Some tag" and "tag \<notin> set upgrade_block_s"
    and "upgrade_status (nd_enclave n) = ENC_UPGRADE_STATUS_SUCCESS" and "route \<noteq> b @ ''/file/recover_illegal''"
  shows "stays n n'"
proof -
  have up: "upgrade_status (nd_enclave n) \<noteq> ENC_UPGRADE_STATUS_NONE" using assms(5) by simp
  have open_routes: "route \<noteq> b @ ''/srd/change''" "route \<noteq> b @ ''/storage/delete''" "route \<noteq> b @ ''/storage/seal_start''"
    using assms(3,4) by (auto simp: upgrade_block_s_def)
  have "api_debug x data n = Some (r, n') \<or> api_add_path x data n = Some (r, n') \<or> api_seal x params data n = Some (r, n') \<or>
      api_seal_end x data n = Some (r, n') \<or> api_unseal x data n = Some (r, n') \<or> n' = n"
    using assms(1) unfolding post_handler_def if_not_P [OF open_routes(1)] if_not_P [OF open_routes(2)] if_not_P [OF open_routes(3)]
      if_not_P [OF assms(6)]
    by (simp split: if_split_asm)
  then show ?thesis
    by (auto intro: debug_stays add_path_stays seal_stays [OF _ assms(2) up] seal_end_stays [OF _ assms(2) up]
        unseal_stays [OF _ assms(2)])
qed

text \<open>A target without parameters is its own route.\<close>

lemma get_params_plain: "CHR ''?'' \<notin> set url \<Longrightarrow> get_params url = [''req_route'' \<mapsto> url]"
  using str_find_none [of "CHR ''?''" url "[]" "[]"] by (simp add: get_params_def)

text \<open>The routes that an upgrade closes.\<close>

lemma closed_route_refused:
  assumes "node_status n \<in> {UPGRADE_STATUS_PROCESS, UPGRADE_STATUS_END, UPGRADE_STATUS_COMPLETE}" and "tag \<in> set upgrade_block_s"
    and "CHR ''?'' \<notin> set (site_base x)" and "site_base x = CHR ''/'' # b'" and "str_find (site_base x @ tag) ''..'' 0 = None"
  shows "http_handler x \<lparr>req_method = POST, req_target = site_base x @ tag, req_body = data\<rparr> n =
     Some (answer (s_env x) 501 501 ''Current service is closed due to upgrade!'', n)"
proof -
  have "CHR ''?'' \<notin> set (site_base x @ tag)" using assms(2,3) by (auto simp: upgrade_block_s_def)
  from get_params_plain [OF this] show ?thesis
    using assms(1,2,5) by (simp add: http_handler_def Let_def assms(4) [symmetric]) (auto simp: assms(4))
qed

lemma stop_stays:
  assumes "api_stop x n = Some (r, n')" and q: "quiet x" and "upgrade_status (nd_enclave n) = ENC_UPGRADE_STATUS_SUCCESS"
    and "node_status n' \<noteq> UPGRADE_STATUS_EXIT"
  shows "stays n n'"
proof -
  have i: "idle (meanwhile (s_gate x i))" for i using q by (simp add: quiet_def)
  obtain ret u n1 where c: "node_call x (Ecall_stop_all (s_gate x 0) (s_env x)) n = Some (ret, u, n1)"
    using assms(1) by (auto simp: api_stop_def bind_eq_Some_conv)
  have s1: "stays n n1"
  proof (rule node_call_stays [OF c [unfolded Ecall_stop_all_def] i])
    fix s r s'
    assume "upgrade_status s = upgrade_status (nd_enclave n)" "Some ((), ecall_stop_all (s_env x) s) = Some (r, s')"
    with assms(3) show "same_work s s' \<and> upgrade_status s' = upgrade_status s"
      by (auto simp: ecall_stop_all_def id_store_metadata_def set_upgrade_status_def intro: same_work_fields [OF same_work_refl])
  qed
  show ?thesis
  proof (cases "ret = SGX_SUCCESS")
    case True
    then obtain n2 where "set_node_status x UPGRADE_STATUS_EXIT n2 = Some n'"
      using assms(1) c by (auto simp: api_stop_def bind_eq_Some_conv)
    from set_node_status_keeps [OF this i] assms(4) show ?thesis by simp
  qed (use assms(1) c s1 in \<open>simp add: api_stop_def\<close>)
qed

lemma complete_stays:
  assumes "api_upgrade_complete x data n = Some (r, n')" and "quiet x"
    and "node_status n = UPGRADE_STATUS_COMPLETE" and "node_status n' = UPGRADE_STATUS_COMPLETE"
  shows "n' = n"
proof -
  have i: "idle (meanwhile (s_gate x 1))" using assms(2) by (simp add: quiet_def)
  have no: "st = UPGRADE_STATUS_COMPLETE" if "set_node_status x st m = Some n'" for st m
    using set_node_status_keeps [OF that i] assms(4) by simp
  show ?thesis
    using assms(1,3) no
    by (auto simp: api_upgrade_complete_def bind_eq_Some_conv Let_def split: if_splits prod.splits)
qed

section \<open>Requests while the new version fetches the data\<close>

lemma get_stays:
  assumes "get_handler x b params route data n = Some (r, n')" and q: "quiet x"
    and st: "node_status n = UPGRADE_STATUS_COMPLETE" "node_status n' = UPGRADE_STATUS_COMPLETE"
    and up: "upgrade_status (nd_enclave n) = ENC_UPGRADE_STATUS_SUCCESS"
  shows "stays n n'"
proof -
  have "api_workload x n = Some (r, n') \<or> api_stop x n = Some (r, n') \<or> api_thread_info x n = Some (r, n') \<or>
      api_id_info x n = Some (r, n') \<or> api_file_info x params n = Some (r, n') \<or> api_info_by_type x params n = Some (r, n') \<or>
      api_upgrade_start x n = Some (r, n') \<or> api_upgrade_metadata x n = Some (r, n') \<or> api_upgrade_complete x data n = Some (r, n') \<or> n' = n"
    using assms(1) unfolding get_handler_def by (simp split: if_split_asm)
  moreover have "api_stop x n = Some (r, n') \<Longrightarrow> stays n n'" using stop_stays [OF _ q up] st(2) by simp
  moreover have "api_upgrade_start x n = Some (r, n') \<Longrightarrow> stays n n'" using upgrade_start_stays [OF _ st(1)] stays_refl by metis
  moreover have "api_upgrade_complete x data n = Some (r, n') \<Longrightarrow> stays n n'" using complete_stays [OF _ q st] stays_refl by metis
  ultimately show ?thesis
    by (auto intro: workload_stays readers_stay id_info_stays [OF _ q])
qed

text \<open>A request that is served while the data waits, and that is not the correction of an illegal transfer.\<close>

definition open_request :: "site \<Rightarrow> node \<Rightarrow> node \<Rightarrow> bool" where
  "open_request x n n' \<longleftrightarrow> (\<exists>req r. http_handler x req n = Some (r, n') \<and>
     get_params (req_target req) ''req_route'' \<noteq> Some (site_base x @ ''/file/recover_illegal'')) \<and>
     node_status n = UPGRADE_STATUS_COMPLETE \<and> node_status n' = UPGRADE_STATUS_COMPLETE"

lemma stays_trans: "stays n m \<Longrightarrow> stays m k \<Longrightarrow> stays n k"
  unfolding stays_def by (metis handed_over_trans)

lemma open_request_stays:
  assumes "open_request x n n'" and q: "quiet x" and up: "upgrade_status (nd_enclave n) = ENC_UPGRADE_STATUS_SUCCESS"
  shows "stays n n'"
proof -
  from assms(1) obtain req r where h: "http_handler x req n = Some (r, n')"
    and route: "get_params (req_target req) ''req_route'' \<noteq> Some (site_base x @ ''/file/recover_illegal'')"
    and st: "node_status n = UPGRADE_STATUS_COMPLETE" "node_status n' = UPGRADE_STATUS_COMPLETE"
    by (auto simp: open_request_def)
  from h show ?thesis
  proof (cases rule: http_handler_cases)
    case (get params route tag)
    show ?thesis by (rule get_stays [OF get(6) q st up])
  next
    case (post params r' tag)
    have "r' \<noteq> site_base x @ ''/file/recover_illegal''"
      using route post(1,2) by (auto split: option.splits)
    with post(5) st show ?thesis by (intro post_stays [OF post(6) q post(3) _ up]) auto
  qed simp_all
qed

lemma open_requests_stay:
  assumes "(open_request x)\<^sup>*\<^sup>* n n'" and "quiet x" and "upgrade_status (nd_enclave n) = ENC_UPGRADE_STATUS_SUCCESS"
  shows "stays n n'"
  using assms(1)
proof (induction rule: rtranclp_induct)
  case (step m k)
  then have "upgrade_status (nd_enclave m) = ENC_UPGRADE_STATUS_SUCCESS" using assms(3) by (simp add: stays_def)
  from stays_trans [OF step.IH open_request_stays [OF step.hyps(2) assms(2) this]] show ?case .
qed simp

section \<open>The amount of a change of the random data\<close>

text \<open>Numbers far from the ends of the range, for which the sums do not wrap.\<close>

definition moderate :: "int \<Rightarrow> bool" where
  "moderate n \<longleftrightarrow> - (2 ^ 60) \<le> n \<and> n \<le> 2 ^ 60"

lemma long_add_exact: "- (2 ^ 63) \<le> a + b \<Longrightarrow> a + b < 2 ^ 63 \<Longrightarrow> long_add a b = a + b"
  by (simp add: long_add_def long_wrap_def)

lemma srd_change_amount_bounds:
  fixes wl_info :: JSON
  defines "srd \<equiv> \<lambda>k. ToInt (jget (jget wl_info WL_SRD) k)"
  assumes "\<forall>k. moderate (srd k)" and "moderate running" and "- (2 ^ 63) < change" and "change < 2 ^ 63" and "change \<noteq> 0"
  defines "room \<equiv> if change > 0 then max (srd WL_DISK_AVAILABLE_FOR_SRD - running) 0 - srd WL_SRD_REMAINING_TASK
      else srd WL_SRD_COMPLETE + srd WL_SRD_REMAINING_TASK + running"
  shows "srd_change_amount wl_info running change =
    Some (if room \<le> 0 then None else Some (sgn change * min \<bar>change\<bar> room))"
proof -
  have m: "moderate (srd k)" for k using assms(2) by simp
  note m = m [of WL_DISK_AVAILABLE_FOR_SRD] m [of WL_SRD_REMAINING_TASK] m [of WL_SRD_COMPLETE] assms(3)
  show ?thesis
  proof (cases "change > 0")
    case True
    have 1: "long_add (srd WL_DISK_AVAILABLE_FOR_SRD) (- running) = srd WL_DISK_AVAILABLE_FOR_SRD - running"
      using m by (subst long_add_exact) (simp_all add: moderate_def)
    have 2: "long_add (max (srd WL_DISK_AVAILABLE_FOR_SRD - running) 0) (- srd WL_SRD_REMAINING_TASK) = room"
      using m True by (subst long_add_exact) (auto simp: moderate_def room_def)
    show ?thesis
      using True 1 2 by (auto simp: srd_change_amount_def srd_def [symmetric] Let_def)
  next
    case False
    have 1: "long_add (srd WL_SRD_COMPLETE) (srd WL_SRD_REMAINING_TASK) = srd WL_SRD_COMPLETE + srd WL_SRD_REMAINING_TASK"
      using m by (subst long_add_exact) (simp_all add: moderate_def)
    have 2: "long_add (srd WL_SRD_COMPLETE + srd WL_SRD_REMAINING_TASK) running = room"
      using m False by (subst long_add_exact) (simp_all add: moderate_def room_def)
    show ?thesis
      using False 1 2 assms(4,6) by (auto simp: srd_change_amount_def srd_def [symmetric] Let_def)
  qed
qed

section \<open>What the answers say\<close>

text \<open>The status of the answer to \<open>/stop\<close> is 400, also when the node stops.\<close>

lemma stop_answers: "api_stop x n = Some (r, n') \<Longrightarrow> result_code r = 400"
  by (auto simp: api_stop_def answer_def bind_eq_Some_conv split: if_splits)

text \<open>A route given as a parameter replaces the one of the target; one that is too short throws.\<close>

lemma short_route_throws:
  assumes "req_method req \<noteq> OTHER_METHOD" and "prefix (site_base x) (req_target req)" and "req_target req \<noteq> []"
    and "hd (req_target req) = CHR ''/''" and "str_find (req_target req) ''..'' 0 = None"
    and "get_params (req_target req) ''req_route'' = Some route" and "length route + 1 < length (site_base x)"
  shows "http_handler x req n = None"
proof -
  have short: "find_first b s i = None" if "length s < length b" for b s i
    using that
  proof (induction s arbitrary: i)
    case (Cons c s)
    have "\<not> prefix b (c # s)" using Cons.prems prefix_length_le by fastforce
    with Cons show ?case by simp
  qed auto
  have "route_tag (site_base x) route = None"
    using short [of route "site_base x" 0] assms(7) by (simp add: route_tag_def str_find_def Let_def)
  with assms(1-6) show ?thesis by (simp add: http_handler_def Let_def)
qed

section \<open>Parameters\<close>

text \<open>The parameters of a request as a client writes them.\<close>

definition query :: "(string \<times> string) list \<Rightarrow> string" where
  "query ps = sep_by ''&'' (map (\<lambda>(k, v). k @ ''='' @ v) ps)"

definition clean_param :: "string \<times> string \<Rightarrow> bool" where
  "clean_param p \<longleftrightarrow> CHR ''&'' \<notin> set (fst p) \<and> CHR ''='' \<notin> set (fst p) \<and> CHR ''&'' \<notin> set (snd p)"

lemma sep_by_cons: "xs \<noteq> [] \<Longrightarrow> sep_by s (x # xs) = x @ s @ sep_by s xs"
  by (cases xs) simp_all

lemma params_loop_end: "length url \<le> spos \<Longrightarrow> params_loop url spos ans = ans"
  by (subst params_loop.simps) simp

lemma params_loop_query:
  assumes "list_all clean_param ps"
  shows "params_loop (us @ query ps) (length us) ans = ans ++ map_of (rev ps)"
  using assms
proof (induction ps arbitrary: us ans)
  case Nil
  show ?case by (subst params_loop.simps) (simp add: query_def)
next
  case (Cons p ps)
  obtain k v where p: "p = (k, v)" by fastforce
  have c: "CHR ''&'' \<notin> set k" "CHR ''='' \<notin> set k" "CHR ''&'' \<notin> set v" and ps: "list_all clean_param ps"
    using Cons.prems by (simp_all add: p clean_param_def [of "(k, v)"])
  let ?kv = "k @ ''='' @ v"
  have eq: "str_find (us @ ?kv @ rest) ''='' (length us) = Some (length us + length k)" for rest
    using str_find_at [of "CHR ''=''" k us "[]" "v @ rest"] c(2) by simp
  show ?case
  proof (cases "ps = []")
    case True
    have amp: "str_find (us @ ?kv) ''&'' (length us) = None"
      using str_find_none [of "CHR ''&''" ?kv us "[]"] c by simp
    show ?thesis
      using eq [of "[]"] amp True
      by (subst params_loop.simps) (simp add: query_def p substr_def params_loop_end)
  next
    case False
    let ?us = "us @ ?kv @ ''&''"
    have q: "query (p # ps) = ?kv @ ''&'' @ query ps" using False by (simp add: query_def p sep_by_cons)
    have amp: "str_find (us @ ?kv @ ''&'' @ query ps) ''&'' (length us) = Some (length us + length ?kv)"
      using str_find_at [of "CHR ''&''" ?kv us "[]" "query ps"] c by simp
    have "params_loop (us @ query (p # ps)) (length us) ans = params_loop (?us @ query ps) (length ?us) (ans(k \<mapsto> v))"
      using eq [of "''&'' @ query ps"] amp unfolding q
      by (subst params_loop.simps) (simp add: substr_def add.assoc)
    also have "\<dots> = ans(k \<mapsto> v) ++ map_of (rev ps)" by (rule Cons.IH [OF ps])
    finally show ?thesis by (simp add: p map_add_upd_left)
  qed
qed

lemma get_params_query:
  assumes "CHR ''?'' \<notin> set path" and "list_all clean_param ps"
  shows "get_params (path @ ''?'' @ query ps) = [''req_route'' \<mapsto> path] ++ map_of (rev ps)"
proof -
  have f: "str_find (path @ ''?'' @ query ps) ''?'' 0 = Some (length path)"
    using str_find_at [of "CHR ''?''" path "[]" "[]" "query ps"] assms(1) by simp
  show ?thesis
    using f params_loop_query [OF assms(2), of "path @ ''?''"] by (simp add: get_params_def substr_def)
qed

end
