(* ===== verification/Takeover.thy ===== *)
theory Takeover
  imports NodeSafety
begin

text \<open>
  The takeover of the work by a new version: a turn of the main loop has the upgrade data made and keeps it, every request that is
  served afterwards leaves it alone, and the enclave of the new version restores from it the work of the old
  one.
\<close>

section \<open>The calls that make the upgrade data\<close>

lemma handle_report_ocalls: "ocalls (handle_report_result e s) = ocalls s"
proof -
  have c: "ocalls (snd (confirm_file c (h, t))) = ocalls t" for c h and t :: "'a workload_scheme"
    by (simp add: confirm_file_def Let_def upd_file_def split: prod.split)
  have f: "ocalls (snd (fold confirm_file cs p)) = ocalls (snd p)" for cs and p :: "bool \<times> 'a workload_scheme"
    by (induction cs arbitrary: p) (simp_all, metis c prod.collapse)
  have "ocalls (snd (id_store_metadata e t)) = ocalls t" for t :: "'a workload_scheme"
    by (simp add: id_store_metadata_def persist_set_eq DataBase_set_def DataBase_put_def split: sum.split)
  moreover obtain b t where "fold confirm_file (reported_files_idx s) (False, s) = (b, t)" by fastforce
  ultimately show ?thesis
    using f [of "reported_files_idx s" "(False, s)"] by (simp add: handle_report_result_def Let_def)
qed

text \<open>None of these calls is refused by the application, and none is about upgrade data.\<close>

definition report_calls :: "ocall list \<Rightarrow> bool" where
  "report_calls cs \<longleftrightarrow> (\<forall>c \<in> set cs. (\<exists>t. c = Ocall_usleep t) \<or> c = Ocall_upload_workreport \<or> (\<exists>d. c = Ocall_store2 OCALL_STORE_WORKREPORT d))"

lemma upload_calls:
  assumes guards: "n \<noteq> 0" "report_height s + of_nat REPORT_SLOT \<le> n" "restart_flag s \<le> 0" "report_files s"
      "report_has_validated_proof s"
    and env: "heap_ok e" "outside_ok e s" "\<forall>d k. sgx_ecdsa_sign e d k \<noteq> None" and bh: "HASH_LENGTH * 2 \<le> length bh"
    and takes: "\<forall>h. ocall_ret e h Ocall_upload_workreport = SPACEX_SUCCESS"
  obtains s' cs where "gen_and_upload_work_report e bh n w u s = (SPACEX_SUCCESS, s')" and "outside_ok e s'"
    and "ocalls s' = ocalls s @ cs" and "report_calls cs"
proof -
  let ?s0 = "if w \<noteq> 0 then emit (Ocall_usleep (w * 1000000)) s else s"
  have g: "report_height ?s0 = report_height s" "restart_flag ?s0 = restart_flag s" "report_files ?s0 = report_files s"
    "report_has_validated_proof ?s0 = report_has_validated_proof s" "outside_ok e ?s0" "ocall_buffer_pool ?s0 = ocall_buffer_pool s"
    using env(2) by (simp_all add: emit_def report_has_validated_proof_def outside_ok_def)
  obtain s1 d where r: "gen_work_report e bh n u ?s0 = (SPACEX_SUCCESS, s1)" and p: "ocall_buffer_pool s1 = ocall_buffer_pool ?s0"
    and o: "ocalls s1 = ocalls ?s0 @ [Ocall_store2 OCALL_STORE_WORKREPORT d]"
    by (rule gen_work_report_ok [of n ?s0 e bh u]) (use guards env bh g in simp_all)
  let ?cs = "(if w \<noteq> 0 then [Ocall_usleep (w * 1000000)] else []) @ [Ocall_store2 OCALL_STORE_WORKREPORT d, Ocall_upload_workreport]"
  show ?thesis
    by (rule that [of "handle_report_result e (emit Ocall_upload_workreport s1)" ?cs])
       (use r p g o takes env(2) in \<open>simp_all add: gen_and_upload_work_report_def ocall_do_def Let_def outside_ok_def
          handle_report_pool handle_report_ocalls emit_def report_calls_def\<close>)
qed

section \<open>What the report leaves of the work\<close>

lemma json_rt_set_status:
  assumes "file_wf f" and "json_rt f" and "c \<in> set status_chars"
  shows "json_rt (set_status i c f)"
proof -
  obtain st where st: "jget f FILE_STATUS = JString st" "length st = 3" "\<forall>i < 3. st ! i \<in> set status_chars"
    using assms(1) by (rule file_wf_status)
  have "list_all (\<lambda>c. c \<noteq> CHR ''$'') status_chars" by code_simp
  then have d: "c \<noteq> CHR ''$''" if "c \<in> set status_chars" for c using that by (auto simp: list_all_iff)
  have "st ! 0 \<in> set status_chars" using st(3) by simp
  with d assms(3) st(2) have h: "st \<noteq> []" "st ! 0 \<noteq> CHR ''$''" "c \<noteq> CHR ''$''" by auto
  then have "json_rt (set_char i c (JString st))"
    by (cases st; cases i) (simp_all add: set_char_def)
  moreover have "JSONType f = CObject" using assms(1) by (simp add: file_wf_def)
  ultimately show ?thesis
    unfolding set_status_def jupd_def st(1)
    by (intro json_rt_jset) (simp_all add: assms(2) plain_keys(2))
qed

lemma file_status_chars: "file_wf f \<Longrightarrow> i < 3 \<Longrightarrow> file_status f i \<in> set status_chars"
  by (erule file_wf_status) auto

lemma await_rt: "file_wf f \<Longrightarrow> json_rt f \<Longrightarrow> json_rt (await f)"
  by (simp add: await_def json_rt_set_status file_status_chars)

lemma confirmed_rt: "file_wf f \<Longrightarrow> json_rt f \<Longrightarrow> json_rt (confirmed f)"
  by (simp add: confirmed_def json_rt_set_status file_status_chars)

lemma not_pending_statuses:
  assumes "file_wf f"
  shows "not_pending (await f) = not_pending f" and "not_pending (confirmed f) = not_pending f"
  using assms by (simp_all add: not_pending_def await_def confirmed_def file_simps)

text \<open>What the restored enclave depends on.\<close>

definition movable :: "env \<Rightarrow> 'a workload_scheme \<Rightarrow> bool" where
  "movable e s \<longleftrightarrow> wl_inv s \<and> files_rt s \<and> length (srd_hashs s) < 2 ^ 61 \<and>
     (sealed_files s = [] \<or> filter not_pending (sealed_files s) \<noteq> []) \<and> sha256_length e \<and> sig_sound e (id_key_pair s) \<and>
     length (fst (id_key_pair s)) = 64"

lemma upload_keeps:
  assumes inv: "wl_inv s" and up: "gen_and_upload_work_report e bh n w False s = (SPACEX_SUCCESS, s')"
  shows "srd_hashs s' = srd_hashs s" and "id_key_pair s' = id_key_pair s"
proof -
  let ?s0 = "if w \<noteq> 0 then emit (Ocall_usleep (w * 1000000)) s else s"
  let ?a = "report_scan False (sealed_files ?s0)"
  obtain s1 where g: "gen_work_report e bh n False ?s0 = (SPACEX_SUCCESS, s1)"
    and s': "s' = handle_report_result e (emit Ocall_upload_workreport s1)"
    using up by (rule upload_success)
  have "wl_inv ?s0" using inv by (simp add: wl_inv_emit)
  then have i: "wl_inv (emit Ocall_upload_workreport s1)" using wl_inv_gen_work_report [of ?s0 e bh n False] g by (simp add: wl_inv_emit)
  have m: "boundary.more (emit Ocall_upload_workreport s1) =
      boundary.more (report_defer n (?s0\<lparr>sealed_files := ra_files ?a, reported_files_idx := ra_idx ?a\<rparr>))"
    using g by (rule gen_work_report_success) (simp add: frame_simps)
  have f: "srd_hashs (emit Ocall_upload_workreport s1) = srd_hashs s" "id_key_pair (emit Ocall_upload_workreport s1) = id_key_pair s"
    using workload_more(1,6) [OF m]
    by (simp_all add: report_defer_def report_reset_validated_proof_def reduce_restart_flag_def set_report_file_flag_def
        set_report_height_def Let_def emit_def)
  note h = handle_report_result_spec(4) [OF i, of e]
  show "srd_hashs s' = srd_hashs s" and "id_key_pair s' = id_key_pair s"
    using workload_more(1,6) [OF h] f by (simp_all add: s')
qed

lemma upload_movable:
  assumes m: "movable e s" and up: "gen_and_upload_work_report e bh n w False s = (SPACEX_SUCCESS, s')"
  shows "movable e s'"
proof -
  have inv: "wl_inv s" and wf: "\<forall>f \<in> set (sealed_files s). file_wf f"
    using m by (simp_all add: movable_def wl_inv_def list_all_iff)
  let ?cs = "file_cid ` set (reported_changes (sealed_files s))"
  have sf: "sealed_files s' = map (\<lambda>f. if file_cid f \<in> ?cs then confirmed f else f) (map await (sealed_files s))"
    using report_confirmed(1) [OF inv up] by (simp add: confirm_all_def)
  have "files_rt s'"
    unfolding files_rt_def
  proof
    fix f assume "f \<in> set (sealed_files s')"
    then obtain g where g: "g \<in> set (sealed_files s)" "f = (if file_cid (await g) \<in> ?cs then confirmed (await g) else await g)"
      unfolding sf by auto
    with wf m have "file_wf g" "json_rt g" "\<not> prefix HASH_TAG (file_cid g)" by (simp_all add: movable_def files_rt_def)
    then show "json_rt f \<and> \<not> prefix HASH_TAG (file_cid f)"
      by (simp add: g(2) await_rt confirmed_rt await_wf) (simp add: await_def confirmed_def file_simps file_wf_set_status file_status_chars)
  qed
  moreover have "sealed_files s' = [] \<or> filter not_pending (sealed_files s') \<noteq> []"
  proof -
    have "filter not_pending (sealed_files s') \<noteq> []" if "g \<in> set (sealed_files s)" "not_pending g" for g
    proof -
      let ?f = "if file_cid (await g) \<in> ?cs then confirmed (await g) else await g"
      have "not_pending ?f" using that wf by (simp add: not_pending_statuses await_wf)
      moreover have "?f \<in> set (sealed_files s')" unfolding sf using that(1) by auto
      ultimately show ?thesis by (auto simp: filter_empty_conv)
    qed
    then show ?thesis using m by (auto simp: movable_def sf filter_empty_conv)
  qed
  moreover have "wl_inv s'" using wl_inv_upload [OF inv, of e bh n w False] up by simp
  ultimately show ?thesis using m upload_keeps [OF inv up] by (simp add: movable_def)
qed

text \<open>What the enclave has sent and the state it is left in.\<close>

definition upgrade_sent :: "env \<Rightarrow> bytes \<Rightarrow> 'a workload_scheme \<Rightarrow> bool" where
  "upgrade_sent e d s \<longleftrightarrow>
     (\<exists>h k bh sj fj sig. fst (block_hash_at e h k) = SPACEX_SUCCESS \<and> bh = snd (block_hash_at e h k) \<and>
        get_upgrade_srd_info e s = (SPACEX_SUCCESS, sj) \<and> get_upgrade_file_info e s = (SPACEX_SUCCESS, fj) \<and>
        sgx_ecdsa_sign e (upgrade_sig_buffer (fst (id_key_pair s)) (nat_to_string (unat k)) bh
          (hash_bytes (jget sj WL_SRD_ROOT_HASH)) (hash_bytes (jget fj WL_FILE_ROOT_HASH))) (snd (id_key_pair s)) = Some sig \<and>
        d = dump_vector (double_to_string e) (upgrade_json e (fst (id_key_pair s)) (nat_to_string (unat k)) bh sj fj sig))"

lemma gen_upgrade_calls:
  assumes b: "unat b + REPORT_SLOT < 2 ^ 64" "report_height s + of_nat REPORT_SLOT < b" "report_height s < b"
    and guards: "restart_flag s \<le> 0" "report_files s" "report_has_validated_proof s"
    and env: "heap_ok e" "outside_ok e s" "\<forall>d k. sgx_ecdsa_sign e d k \<noteq> None"
    and takes: "\<forall>h. ocall_ret e h Ocall_upload_workreport = SPACEX_SUCCESS"
    and hash: "\<forall>h k. \<exists>bh. block_hash_at e h k = (SPACEX_SUCCESS, bh) \<and> HASH_LENGTH * 2 \<le> length bh"
    and mv: "movable e s"
  obtains s' cs d where "id_gen_upgrade_data e b s = Some (SPACEX_SUCCESS, s')"
    and "ocalls s' = ocalls s @ cs @ [Ocall_store2 OCALL_STORE_UPGRADE_DATA d]" and "report_calls cs"
    and "upgrade_sent e d s'" and "upgrade_status s' = ENC_UPGRADE_STATUS_SUCCESS"
    and "movable e s'" and "srd_hashs s' = srd_hashs s" and "id_key_pair s' = id_key_pair s"
proof -
  obtain h where h: "era_loop b (report_height s) = Some h" "report_height s + of_nat REPORT_SLOT \<le> h" "h \<noteq> 0"
    using era_loop_next [OF b refl] by blast
  obtain bh where bh: "block_hash_at e (ocalls s) h = (SPACEX_SUCCESS, bh)" "HASH_LENGTH * 2 \<le> length bh"
    using hash by blast
  obtain s1 cs where s1: "gen_and_upload_work_report e bh h (int (upgrade_wait e s)) False s = (SPACEX_SUCCESS, s1)" "outside_ok e s1"
    and cs: "ocalls s1 = ocalls s @ cs" "report_calls cs"
    by (rule upload_calls [OF h(3,2) guards env bh(2) takes])
  obtain r where r: "srd_root_hash e (srd_hashs s1) = Some r" using roots_defined(1) [OF env(1)] by blast
  then obtain sj where sj: "get_upgrade_srd_info e s1 = (SPACEX_SUCCESS, sj)" by (auto simp: get_upgrade_srd_info_def)
  obtain fj where fj: "get_upgrade_file_info e s1 = (SPACEX_SUCCESS, fj)" by (auto simp: get_upgrade_file_info_def)
  have ne: "dump_vector (double_to_string e) (upgrade_json e k x y sj fj sig) \<noteq> []" for k x y sig
    by (rule dump_object) (simp add: upgrade_json_def Let_def)
  obtain sig where sig: "sgx_ecdsa_sign e (upgrade_sig_buffer (fst (id_key_pair s1)) (nat_to_string (unat h)) bh
      (hash_bytes (jget sj WL_SRD_ROOT_HASH)) (hash_bytes (jget fj WL_FILE_ROOT_HASH))) (snd (id_key_pair s1)) = Some sig"
    using env(3) by blast
  let ?d = "dump_vector (double_to_string e) (upgrade_json e (fst (id_key_pair s1)) (nat_to_string (unat h)) bh sj fj sig)"
  let ?s' = "set_upgrade_status ENC_UPGRADE_STATUS_SUCCESS (emit (Ocall_store2 OCALL_STORE_UPGRADE_DATA ?d) s1)"
  have st: "store_upgrade_data e h bh s1 = (SPACEX_SUCCESS, ?s')"
    by (simp add: store_upgrade_data_def sj fj sig outside_ok_store [OF s1(2) ne] Let_def)
  have sent: "upgrade_sent e ?d ?s'"
    unfolding upgrade_sent_def
    by (rule exI [of _ "ocalls s"], rule exI [of _ h], rule exI [of _ bh], rule exI [of _ sj], rule exI [of _ fj], rule exI [of _ sig])
      (use sj fj sig bh r in \<open>simp_all add: get_upgrade_srd_info_def get_upgrade_file_info_def serialize_srd_def set_upgrade_status_def emit_def\<close>)
  have wl: "wl_inv s" using mv by (simp add: movable_def)
  have mv': "movable e ?s'"
    using upload_movable [OF mv s1(1)] by (simp add: movable_def files_rt_def set_upgrade_status_def emit_def wl_inv_def files_sorted_def)
  show ?thesis
  proof (rule that [of ?s' cs ?d])
    show "id_gen_upgrade_data e b s = Some (SPACEX_SUCCESS, ?s')"
      using b h(1) bh(1) s1(1) st by (auto simp: id_gen_upgrade_data_def add.commute dest: leD)
  qed (use cs sent mv' upload_keeps [OF wl s1(1)] in \<open>simp_all add: set_upgrade_status_def emit_def\<close>)
qed

section \<open>The turn that completes the data\<close>

text \<open>The application takes the calls of a report without an error, and they do not touch the upgrade.\<close>

lemma replay_append: "replay act h (cs @ ds) d = Option.bind (replay act h cs d) (replay act (h @ cs) ds)"
proof (induction cs arbitrary: h d)
  case (Cons c cs)
  then show ?case by (cases "act h c d") simp_all
qed simp

lemma replay_report_calls: "report_calls cs \<Longrightarrow> replay (app_ocall e fl now) h cs d \<noteq> None"
proof (induction cs arbitrary: h d)
  case (Cons c cs)
  then have "app_ocall e fl now h c d \<noteq> None"
    by (auto simp: report_calls_def app_ocall_def g_ocall_store2_func_m_def ocall_store_workreport_def)
  then obtain d' where "app_ocall e fl now h c d = Some d'" by blast
  moreover have "report_calls cs" using Cons.prems by (simp add: report_calls_def)
  ultimately show ?case using Cons.IH [of "h @ [c]" d'] by simp
qed simp

text \<open>
  What a call for the data needs: the guards of the report, an outside that answers, a place in the queue, and no other thread
  in between.
\<close>

definition upgrade_due :: "site \<Rightarrow> size_t \<Rightarrow> node \<Rightarrow> bool" where
  "upgrade_due x b n \<longleftrightarrow>
     (let e = s_env x; s = nd_enclave n
      in unat b + REPORT_SLOT < 2 ^ 64 \<and> report_height s + of_nat REPORT_SLOT < b \<and> report_height s < b \<and>
         restart_flag s \<le> 0 \<and> report_files s \<and> report_has_validated_proof s \<and> heap_ok e \<and> outside_ok e s \<and>
         (\<forall>d k. sgx_ecdsa_sign e d k \<noteq> None) \<and> (\<forall>h. ocall_ret e h Ocall_upload_workreport = SPACEX_SUCCESS) \<and>
         (\<forall>h k. \<exists>bh. block_hash_at e h k = (SPACEX_SUCCESS, bh) \<and> HASH_LENGTH * 2 \<le> length bh) \<and>
         meanwhile (s_gate x 0) s = s \<and> edge (s_gate x 0) = SGX_SUCCESS \<and>
         (\<exists>k q. try_get_enclave (gap (s_gate x 0)) ''Ecall_gen_upgrade_data'' (nd_queue n) = Some (SGX_SUCCESS, k, q)))"

lemma collect_completes:
  assumes st: "node_status n = UPGRADE_STATUS_END" and head: "node_block_header x n = Some (Some bh, n1)"
    and due: "upgrade_due x (bh_number bh) n" and mv: "movable (s_env x) (nd_enclave n)"
  obtains n2 d where "upgrade_collect x n = Some n2" and "node_status n2 = UPGRADE_STATUS_COMPLETE"
    and "get_upgrade_data (nd_app n2) = bytes_str d" and "upgrade_sent (s_env x) d (nd_enclave n2)"
    and "upgrade_status (nd_enclave n2) = ENC_UPGRADE_STATUS_SUCCESS"
    and "movable (s_env x) (nd_enclave n2)" and "srd_hashs (nd_enclave n2) = srd_hashs (nd_enclave n)"
    and "id_key_pair (nd_enclave n2) = id_key_pair (nd_enclave n)"
proof -
  let ?e = "s_env x" and ?s = "nd_enclave n"
  obtain c where n1: "n1 = n\<lparr>nd_chain := c\<rparr>" using head by (auto simp: node_block_header_def)
  obtain s' cs d where g: "id_gen_upgrade_data ?e (bh_number bh) ?s = Some (SPACEX_SUCCESS, s')"
    and o: "ocalls s' = ocalls ?s @ cs @ [Ocall_store2 OCALL_STORE_UPGRADE_DATA d]" and cs: "report_calls cs"
    and sent: "upgrade_sent ?e d s'" and up: "upgrade_status s' = ENC_UPGRADE_STATUS_SUCCESS"
    and mv': "movable ?e s'" "srd_hashs s' = srd_hashs ?s" "id_key_pair s' = id_key_pair ?s"
    by (rule gen_upgrade_calls [of "bh_number bh" ?s ?e]) (use due mv in \<open>simp_all add: upgrade_due_def Let_def\<close>)
  from due obtain k q where q: "try_get_enclave (gap (s_gate x 0)) ''Ecall_gen_upgrade_data'' (nd_queue n) = Some (SGX_SUCCESS, k, q)"
    and m: "meanwhile (s_gate x 0) ?s = ?s" "edge (s_gate x 0) = SGX_SUCCESS"
    by (auto simp: upgrade_due_def Let_def)
  obtain a where a: "replay (app_ocall ?e (s_fl x) (s_now x)) (ocalls ?s) cs (nd_app n) = Some a"
    using replay_report_calls [OF cs] by blast
  obtain a' where a': "replay (app_ocall ?e (s_fl x) (s_now x)) (ocalls ?s) (cs @ [Ocall_store2 OCALL_STORE_UPGRADE_DATA d]) (nd_app n) = Some a'"
    by (simp add: replay_append a app_ocall_def g_ocall_store2_func_m_def ocall_store_upgrade_data_def)
  have view: "ed_upgrade_status a' = ed_upgrade_status (nd_app n)" "ed_upgrade_data a' = bytes_str d"
    using replay_view [OF a'] by (simp_all add: upgrade_view_def last_upgrade_append)
  let ?n = "n1\<lparr>nd_app := a', nd_queue := free_enclave (gap (s_gate x 0)) (Suc k) ''Ecall_gen_upgrade_data'' (gap (s_gate x 0) k q), nd_enclave := s'\<rparr>"
  have call: "node_call x (Ecall_gen_upgrade_data (s_gate x 0) ?e (bh_number bh)) n1 = Some (SGX_SUCCESS, Some SPACEX_SUCCESS, ?n)"
    using q m g a' by (simp add: node_call_def Ecall_gen_upgrade_data_def with_enclave_def n1 o)
  let ?n2 = "?n\<lparr>nd_app := a'\<lparr>ed_upgrade_status := UPGRADE_STATUS_COMPLETE\<rparr>\<rparr>"
  have set: "set_node_status x UPGRADE_STATUS_COMPLETE ?n = Some ?n2"
    using view st by (simp add: set_node_status_def set_upgrade_status_app_def get_upgrade_status_app_def)
  show ?thesis
    by (rule that [of ?n2 d])
      (use st head call set sent up view mv' in \<open>simp_all add: upgrade_collect_def get_upgrade_status_app_def get_upgrade_data_def\<close>)
qed

text \<open>The text that is served is the data that was sent, byte by byte.\<close>

lemma str_bytes_str: "str_bytes (bytes_str d) = d"
proof -
  have "of_char (char_of (unat b) :: char) = b" for b :: "8 word"
  proof -
    have "unat b < 256" using unsigned_less [of b, where ?'a = nat] by simp
    then have "unat (of_char (char_of (unat b) :: char) :: 8 word) = unat b" by simp
    then show ?thesis by (simp only: word_unat_eq_iff)
  qed
  then show ?thesis by (induction d) (simp_all add: str_bytes_def bytes_str_def)
qed

lemma sent_restores:
  fixes s :: "'a workload_scheme" and s0 :: "'b workload_scheme"
  assumes sent: "upgrade_sent e d s" and mv: "movable e s" and heap: "heap_ok e"
    and hash: "\<forall>h k bh. block_hash_at e h k = (SPACEX_SUCCESS, bh) \<longrightarrow> json_plain bh \<and> \<not> prefix HASH_TAG bh"
    and fresh: "srd_hashs s0 = []" "sealed_files s0 = []"
  obtains height bh s2 where "id_restore_from_upgrade e fl d s0 = enter_network e height bh (fst (id_key_pair s)) s2"
    and "srd_hashs s2 = srd_hashs s" and "sealed_files s2 = filter not_pending (sealed_files s)"
proof -
  from sent obtain h k bh sj fj sig where b: "fst (block_hash_at e h k) = SPACEX_SUCCESS" "bh = snd (block_hash_at e h k)"
    and i: "get_upgrade_srd_info e s = (SPACEX_SUCCESS, sj)" "get_upgrade_file_info e s = (SPACEX_SUCCESS, fj)"
    and sig: "sgx_ecdsa_sign e (upgrade_sig_buffer (fst (id_key_pair s)) (nat_to_string (unat k)) bh
          (hash_bytes (jget sj WL_SRD_ROOT_HASH)) (hash_bytes (jget fj WL_FILE_ROOT_HASH))) (snd (id_key_pair s)) = Some sig"
    and d: "d = dump_vector (double_to_string e) (upgrade_json e (fst (id_key_pair s)) (nat_to_string (unat k)) bh sj fj sig)"
    unfolding upgrade_sent_def by blast
  have p: "json_plain bh" "\<not> prefix HASH_TAG bh" using hash b by (metis prod.collapse)+
  show ?thesis
    by (rule upgrade_roundtrip [of s e bh s0 sj fj "unat k" sig fl]) (use mv heap p fresh i sig that d in \<open>auto simp: movable_def\<close>)
qed

text \<open>The whole takeover: what the new version gets for the data after any requests to the old one.\<close>

lemma takeover:
  fixes s0 :: "'b workload_scheme"
  assumes st: "node_status n = UPGRADE_STATUS_END" and head: "node_block_header x n = Some (Some bh, n1)"
    and due: "upgrade_due x (bh_number bh) n" and mv: "movable (s_env x) (nd_enclave n)" and q: "quiet x"
    and hash: "\<forall>h k bh. block_hash_at (s_env x) h k = (SPACEX_SUCCESS, bh) \<longrightarrow> json_plain bh \<and> \<not> prefix HASH_TAG bh"
    and fresh: "srd_hashs s0 = []" "sealed_files s0 = []"
  obtains n2 where "upgrade_collect x n = Some n2" and "node_status n2 = UPGRADE_STATUS_COMPLETE"
    and "\<And>n3. (open_request x)\<^sup>*\<^sup>* n2 n3 \<Longrightarrow>
      \<exists>data height hash s2. api_upgrade_metadata x n3 = Some (\<lparr>result_code = 200, body = data\<rparr>, n3) \<and>
        id_restore_from_upgrade (s_env x) fl (str_bytes data) s0 = enter_network (s_env x) height hash (fst (id_key_pair (nd_enclave n))) s2 \<and>
        srd_hashs s2 = srd_hashs (nd_enclave n3) \<and> srd_hashs s2 = srd_hashs (nd_enclave n) \<and>
        sealed_files s2 = filter not_pending (sealed_files (nd_enclave n3))"
proof -
  obtain n2 d where c: "upgrade_collect x n = Some n2" "node_status n2 = UPGRADE_STATUS_COMPLETE"
    and d: "get_upgrade_data (nd_app n2) = bytes_str d" "upgrade_sent (s_env x) d (nd_enclave n2)"
    and up: "upgrade_status (nd_enclave n2) = ENC_UPGRADE_STATUS_SUCCESS"
    and e: "movable (s_env x) (nd_enclave n2)" "srd_hashs (nd_enclave n2) = srd_hashs (nd_enclave n)"
      "id_key_pair (nd_enclave n2) = id_key_pair (nd_enclave n)"
    by (rule collect_completes [OF st head due mv])
  have heap: "heap_ok (s_env x)" using due by (simp add: upgrade_due_def Let_def)
  obtain height bh' s2 where r: "id_restore_from_upgrade (s_env x) fl d s0 = enter_network (s_env x) height bh' (fst (id_key_pair (nd_enclave n2))) s2"
    and s2: "srd_hashs s2 = srd_hashs (nd_enclave n2)" "sealed_files s2 = filter not_pending (sealed_files (nd_enclave n2))"
    by (rule sent_restores [OF d(2) e(1) heap hash fresh])
  show ?thesis
  proof (rule that [OF c])
    fix n3 assume "(open_request x)\<^sup>*\<^sup>* n2 n3"
    from open_requests_stay [OF this q up] have stay: "stays n2 n3" .
    have a: "api_upgrade_metadata x n3 = Some (\<lparr>result_code = 200, body = bytes_str d\<rparr>, n3)"
      using stay c(2) d(1) by (simp add: api_upgrade_metadata_def stays_def handed_over_def)
    have w: "srd_hashs (nd_enclave n3) = srd_hashs (nd_enclave n2)"
      "filter not_pending (sealed_files (nd_enclave n3)) = filter not_pending (sealed_files (nd_enclave n2))"
      using stay by (simp_all add: stays_def handed_over_def same_work_def)
    show "\<exists>data height hash s2. api_upgrade_metadata x n3 = Some (\<lparr>result_code = 200, body = data\<rparr>, n3) \<and>
        id_restore_from_upgrade (s_env x) fl (str_bytes data) s0 = enter_network (s_env x) height hash (fst (id_key_pair (nd_enclave n))) s2 \<and>
        srd_hashs s2 = srd_hashs (nd_enclave n3) \<and> srd_hashs s2 = srd_hashs (nd_enclave n) \<and>
        sealed_files s2 = filter not_pending (sealed_files (nd_enclave n3))"
      using a r s2 w e(2,3) by (intro exI [of _ "bytes_str d"] exI [of _ height] exI [of _ bh'] exI [of _ s2]) (simp add: str_bytes_str)
  qed
qed

end
