(* ===== verification/MainLoop.thy ===== *)
theory MainLoop
  imports NodeSafety
begin

text \<open>
  The loop of the main thread: how long an upgrade can last, when the process ends, and what happens between two
  versions when the old one does not hand over.
\<close>

section \<open>The tasks\<close>

lemma start_task_fails: "start_task p func ts = (False, ts') \<Longrightarrow> \<not> r_web_ok p"
  by (auto simp: start_task_def Let_def split: if_splits)

lemma restore_loop_fails: "restore_loop p funcs ts = (False, ts') \<Longrightarrow> \<not> r_web_ok p"
  by (induction funcs arbitrary: ts) (auto split: if_splits prod.splits dest: start_task_fails)

text \<open>When nothing fails, every task that was started once runs again.\<close>

lemma start_task_runs: "start_task p func ts = (True, ts') \<Longrightarrow> map_of ts' = (map_of ts)(func \<mapsto> True)"
  by (auto simp: start_task_def Let_def update_conv' split: if_splits)

lemma restore_loop_runs:
  "restore_loop p funcs ts = (True, ts') \<Longrightarrow>
   map_of ts' = (\<lambda>f. if f \<in> set funcs \<and> map_of ts f \<noteq> None then Some True else map_of ts f)"
proof (induction funcs arbitrary: ts)
  case (Cons func funcs)
  show ?case
  proof (cases "map_of ts func = Some False")
    case True
    then obtain ts1 where s: "start_task p func ts = (True, ts1)" and r: "restore_loop p funcs ts1 = (True, ts')"
      using Cons.prems by (auto split: prod.splits if_splits)
    have m: "map_of ts1 = (map_of ts)(func \<mapsto> True)" using start_task_runs [OF s] .
    show ?thesis
      unfolding Cons.IH [OF r] m using True by (intro ext) auto
  next
    case False
    then have "map_of ts func = None \<or> map_of ts func = Some True" by (cases "map_of ts func") auto
    with False Cons.prems Cons.IH [of ts] show ?thesis by auto
  qed
qed simp

lemma restore_tasks_runs:
  assumes "restore_tasks p ts = (True, ts')"
  shows "map_of ts' = map_option (\<lambda>_. True) \<circ> map_of ts"
proof
  fix f
  have "f \<in> set (map fst ts) \<longleftrightarrow> map_of ts f \<noteq> None" by (simp add: map_of_eq_None_iff)
  with restore_loop_runs [OF assms [unfolded restore_tasks_def]] show "map_of ts' f = (map_option (\<lambda>_. True) \<circ> map_of ts) f"
    by (cases "map_of ts f") simp_all
qed

section \<open>The turns\<close>

lemma node_call_status: "node_call x f n = Some (ret, r, n') \<Longrightarrow> node_status n' = node_status n"
  by (auto simp: node_call_def Let_def get_upgrade_status_app_def upgrade_view_def split: option.splits dest!: replay_view)

lemma set_node_status_status: "set_node_status x st n = Some n' \<Longrightarrow> node_status n' = st"
  by (auto simp: set_node_status_def set_upgrade_status_app_def get_upgrade_status_app_def [symmetric] Let_def
      split: prod.splits if_splits dest!: node_call_status) (simp_all add: get_upgrade_status_app_def)

lemma reserve_wait_true: "reserve_wait other stop is s = (True, s') \<Longrightarrow> stop s'"
  by (induction other stop "is" s rule: reserve_wait.induct) (auto split: if_splits)

text \<open>Other threads leave the status alone; the handlers that change it run in other threads, so this is a period without such requests.\<close>

definition undisturbed :: "site \<Rightarrow> bool" where
  "undisturbed x \<longleftrightarrow> (\<forall>i n. node_status (s_elsewhere x i n) = node_status n)"

lemma sleep_keeps:
  assumes "undisturbed x" and "reserve_wait (second x p) stop is s = (leave, s')"
  shows "node_status (pr_node s') = node_status (pr_node s)" and "upgrade_tryout s' = upgrade_tryout s"
proof -
  have "node_status (pr_node s') = node_status (pr_node s) \<and> upgrade_tryout s' = upgrade_tryout s"
    using assms(2)
  proof (induction "is" arbitrary: s)
    case (Cons i "is")
    then show ?case using assms(1) by (auto simp: undisturbed_def second_def split: if_splits)
  qed simp
  then show "node_status (pr_node s') = node_status (pr_node s)" "upgrade_tryout s' = upgrade_tryout s" by simp_all
qed

lemma process_turn_counts:
  assumes "process_turn x p s = Some (False, s')" and "undisturbed x"
  shows "node_status (pr_node s') = UPGRADE_STATUS_NONE \<or> upgrade_tryout s' = upgrade_tryout s - 1 \<and> 0 \<le> upgrade_tryout s'"
proof -
  obtain n2 s1 where c: "check_tryout x p (s\<lparr>pr_node := n2\<rparr>) = Some (False, s1)"
    and w: "reserve_wait (second x p) may_exit [0..<check_interval] s1 = (False, s')"
    using assms(1) by (auto simp: process_turn_def bind_eq_Some_conv split: if_splits simp del: reserve_wait.simps)
  have "node_status (pr_node s1) = UPGRADE_STATUS_NONE \<or> upgrade_tryout s1 = upgrade_tryout s - 1 \<and> 0 \<le> upgrade_tryout s1"
    using c by (auto simp: check_tryout_def Let_def split: if_splits prod.splits dest: set_node_status_status)
  with sleep_keeps [OF assms(2) w] show ?thesis by simp
qed

text \<open>An upgrade lasts one turn longer than there are turns left.\<close>

lemma upgrade_ends:
  assumes "process_turns x p k s = Some (False, s')" and "undisturbed x" and "upgrade_tryout s < int k" and "0 \<le> upgrade_tryout s"
  shows "\<exists>j t. 0 < j \<and> j \<le> k \<and> process_turns x p j s = Some (False, t) \<and> node_status (pr_node t) = UPGRADE_STATUS_NONE"
  using assms(1,3,4)
proof (induction k arbitrary: s)
  case (Suc k)
  then obtain s1 where s1: "process_turn x p s = Some (False, s1)" "process_turns x p k s1 = Some (False, s')"
    by (auto simp: bind_eq_Some_conv split: if_splits)
  show ?case
  proof (cases "node_status (pr_node s1) = UPGRADE_STATUS_NONE")
    case True
    with s1(1) show ?thesis by (intro exI [of _ "Suc 0"] exI [of _ s1]) simp
  next
    case False
    with process_turn_counts [OF s1(1) assms(2)] have t: "upgrade_tryout s1 = upgrade_tryout s - 1" "0 \<le> upgrade_tryout s1" by auto
    with Suc.prems(2) have "upgrade_tryout s1 < int k" by simp
    from Suc.IH [OF s1(2) this t(2)] obtain j u where "0 < j" "j \<le> k" "process_turns x p j s1 = Some (False, u)"
      "node_status (pr_node u) = UPGRADE_STATUS_NONE" by blast
    with s1(1) show ?thesis by (intro exI [of _ "Suc j"] exI [of _ u]) simp
  qed
qed simp

text \<open>The process ends only when it was told to and its threads have ended, or when the web server cannot be started again.\<close>

lemma process_turn_leaves: "process_turn x p s = Some (True, s') \<Longrightarrow> may_exit s' \<or> \<not> r_web_ok p"
  by (auto simp: process_turn_def bind_eq_Some_conv check_tryout_def restore_tasks_def Let_def simp del: reserve_wait.simps
      split: if_splits prod.splits dest: reserve_wait_true restore_loop_fails)

lemma process_turns_leave: "process_turns x p k s = Some (True, s') \<Longrightarrow> may_exit s' \<or> \<not> r_web_ok p"
  by (induction k arbitrary: s) (auto simp: bind_eq_Some_conv split: if_splits dest: process_turn_leaves)

section \<open>Starting\<close>

lemma start_work_tasks:
  assumes "start_work x p srd_task ts n = Some (Inr s)"
  shows "(\<forall>f. map_of (pr_tasks s) f = Some True) \<and> upgrade_tryout s = upgrade_tryouts"
proof -
  have ok: "start_task p f ts = (True, snd (start_task p f ts))" if "f \<noteq> Start_webservice" for f ts
    using that by (simp add: start_task_def Let_def)
  obtain web ts1 where w: "start_task p Start_webservice ts = (True, ts1)"
    and s: "pr_tasks s = snd (start_task p Main_loop (snd (start_task p Srd_check_reserved (snd (start_task p Work_report_loop ts1)))))"
      "upgrade_tryout s = upgrade_tryouts"
    using assms by (cases "start_task p Start_webservice ts") (auto simp: start_work_def bind_eq_Some_conv split: if_splits)
  have m: "map_of (snd (start_task p f ts)) = (map_of ts)(f \<mapsto> True)" if "f \<noteq> Start_webservice" for f ts
    using start_task_runs [OF ok [OF that]] .
  have "map_of (pr_tasks s) f = Some True" for f
    unfolding s(1) by (cases f) (simp_all add: m start_task_runs [OF w])
  with s(2) show ?thesis by simp
qed

lemma process_start_works:
  assumes "process_start x p upgrade_flag c n = Some (Inr s)"
  obtains srd_task ts m where "start_work x p srd_task ts m = Some (Inr s)"
proof (cases upgrade_flag)
  case True
  with assms that show ?thesis by (auto simp: process_start_def bind_eq_Some_conv Let_def)
next
  case False
  then obtain n2 r where r: "normal_start x p 3 0 [] n2 = Some r"
    and s: "(case r of Inl code \<Rightarrow> Some (Inl code)
              | Inr (New_node, ts, n3) \<Rightarrow> start_work x p 1 ts n3
              | Inr (Restarted, ts, n3) \<Rightarrow> Option.bind (recovered_srd_task x 0 n3) (\<lambda>(srd_task, n4). start_work x p srd_task ts n4)) = Some (Inr s)"
    using assms by (auto simp: process_start_def bind_eq_Some_conv Let_def split: if_splits)
  show ?thesis
  proof (cases r)
    case (Inr y)
    then obtain m ts n3 where "r = Inr (m, ts, n3)" by (cases y) auto
    with s that show ?thesis by (cases m) (auto simp: bind_eq_Some_conv)
  qed (use s in simp)
qed

text \<open>After every way to start, all threads run and a whole upgrade period is left.\<close>

lemma process_start_tasks:
  assumes "process_start x p upgrade_flag c n = Some (Inr s)"
  shows "(\<forall>f. map_of (pr_tasks s) f = Some True) \<and> upgrade_tryout s = upgrade_tryouts"
  using process_start_works [OF assms] start_work_tasks by metis

section \<open>When the old version does not hand over\<close>

text \<open>A loop whose step never asks to leave does not end.\<close>

lemma poll_diverges:
  assumes "\<And>s. \<exists>s'. step s = Some (False, s')"
  shows "poll step s = None"
proof (rule ccontr)
  assume "poll step s \<noteq> None"
  then obtain s' where p: "poll step s = Some s'" by blast
  have "\<not> step = step"
  proof (rule poll.raw_induct [OF _ p, of "\<lambda>st s s'. st \<noteq> step"])
    fix p' st t t'
    assume IH: "\<And>st s s'. p' st s = Some s' \<Longrightarrow> st \<noteq> step"
      and r: "(case st t of None \<Rightarrow> None | Some (leave, s'') \<Rightarrow> if leave then Some s'' else p' st s'') = Some t'"
    show "st \<noteq> step"
    proof
      assume st: "st = step"
      from assms obtain t1 where "step t = Some (False, t1)" by blast
      with r [unfolded st] IH [of step t1 t'] show False by simp
    qed
  qed
  then show False by simp
qed

lemma ask_until_waits:
  assumes "\<forall>h. \<not> wanted (result_code (web h r))"
  shows "ask_until web wanted r c = None"
  unfolding ask_until_def
  by (rule poll_diverges) (use assms in \<open>auto simp: http_do_def\<close>)

text \<open>Told of a success that it does not expect, the old version says that all is well and goes on.\<close>

lemma complete_refused:
  assumes "Load_unsafe_buffer (s_env x) (s_fl x) data = Some j" and "has_param j ''success'' CBoolean" and "ToBool (jget j ''success'')"
    and "node_status n \<noteq> UPGRADE_STATUS_COMPLETE"
  shows "api_upgrade_complete x data n = Some (answer (s_env x) 200 0 ''Cannot exit upgrade because of unexpected upgrade status!'', n)"
  using assms by (simp add: api_upgrade_complete_def)

lemma complete_waits:
  assumes "\<forall>h. result_code (s_web x h (old_get x p ''/enclave/thread_info'' [])) \<noteq> 404"
  shows "upgrade_try_complete x p True c n = None"
proof -
  have "ask_until (s_web x) (\<lambda>code. code = 404) (old_get x p ''/enclave/thread_info'' []) c1 = None" for c1
    by (rule ask_until_waits) (use assms in simp)
  then show ?thesis by (auto simp: upgrade_try_complete_def split: Option.bind_splits)
qed

end
