(* ===== verification/Spec2Isabelle.thy ===== *)
theory Spec2Isabelle
  imports Base58 JsonRoundtrip AppMirror AppReport Takeover MainLoop
begin

text \<open>
  A storage node of the network runs two programs: an application (\<open>src/app\<close>) and an SGX enclave
  (\<open>src/enclave\<close>). The enclave keeps the workload of the node, which is random data that proves reserved
  space (srd) and the files that users store, validates both on disk, and signs work reports for the
  chain. The application does everything that touches the outside: the disk, the database, IPFS and the
  chain. This development models both: the enclave, and of the application the queue in front of the
  enclave, the handlers of its calls, the data kept about it, the disks, the clients of chain and IPFS, the loops that ask for
  reports and keep space free, the routes of the HTTP interface and the main function with its upgrades.

  \<^bold>\<open>The theories, bottom up.\<close>

  \<^item> \<open>Prelude\<close>: words, byte and character strings, ordered maps, vectors (\<open>vec_insert\<close>, \<open>vec_erase\<close>), \<open>lower_bound\<close>,
    64-bit signed arithmetic (\<open>long_add\<close>), the collections of rewrite rules.
  \<^item> \<open>Status\<close>: \<open>include/CrustStatus.h\<close> and \<open>include/Parameter.h\<close>.
  \<^item> \<open>Json\<close>, \<open>JsonParse\<close>, \<open>JsonRoundtrip\<close>: \<open>utils/Json.h\<close>. The value type \<open>JSON\<close> has one constructor for each class of
    \<open>JSON::Class\<close>; \<open>jget\<close>, \<open>jset\<close>, \<open>jupd\<close> are \<open>operator[]\<close> read, assigned and updated. A parser returns \<open>POk\<close> with the
    value, the status and the rest, \<open>PUndef\<close> for an exception of the standard library or a read outside the buffer, and
    \<open>PFuel\<close> when the fuel is used up, which \<open>Load_fuel\<close> excludes.
  \<^item> \<open>EUtils\<close>, \<open>Base58\<close>: \<open>utils/EUtils.cpp\<close> and \<open>utils/PathHelper.cpp\<close>. The record \<open>env\<close> holds everything that is not under
    \<open>src\<close> or lies outside the two programs: the SGX library, the heap, the disk, the database, the chain and IPFS. What the
    properties need of it are the hypotheses \<open>heap_ok\<close>, \<open>sha256_length\<close>, \<open>rand_length\<close>, \<open>unseal_inverts\<close>, \<open>sig_sound\<close>,
    \<open>outside_ok\<close>.
  \<^item> \<open>Boundary\<close>: \<open>persistence/Persistence.cpp\<close>, \<open>app/database/DataBase.cpp\<close>, \<open>app/ocalls/PersistOCalls.cpp\<close>, and the chunked
    transfer of \<open>safe_ocall_store2\<close> to \<open>ocall_safe_store2\<close>. The record \<open>boundary\<close> has the trace of calls to the outside, the database
    and the pool of half-received buffers. The locale \<open>chunked\<close> states what a sender may rely on when data is
    sent in parts; it is interpreted for the transfer out (\<open>store2\<close>), for the persistence in parts
    (\<open>pparts\<close>) and in \<open>Enclave\<close> for the transfer in (\<open>instore\<close>).
  \<^item> \<open>Workload\<close>: \<open>workload/Workload.cpp\<close>. The record \<open>workload\<close> extends \<open>boundary\<close> with the members of the class; \<open>wl_inv\<close> is its
    invariant. The locale \<open>cid_table\<close> is the contract of the file table, a map from content identifiers to
    entries; the sorted vector with its binary search is its interpretation (\<open>files\<close>).
  \<^item> \<open>Storage\<close>: \<open>storage/Storage.cpp\<close>. The critical sections of an operation are its steps; between them the parameter
    \<open>other\<close>, indexed by the place, stands for what other threads do. \<open>st_inv\<close> extends the invariant by the pending files.
  \<^item> \<open>Srd\<close>: \<open>srd/Srd.cpp\<close>. \<open>Metadata\<close>: storing and restoring in \<open>identity/Identity.cpp\<close>. \<open>Report\<close>: \<open>report/Report.cpp\<close>.
    \<open>Upgrade\<close>: the two upgrade operations of \<open>Identity.cpp\<close>. \<open>Validator\<close>: \<open>validator/Validator.cpp\<close>, whose rounds start tasks that
    other threads run.
  \<^item> \<open>Enclave\<close>: \<open>Enclave.cpp\<close>, the calls into the enclave with their guards, the main loop, the transfer into the enclave, and the step
    relation \<open>enclave_step\<close> with one rule for each handler.

  The application, \<open>src/app\<close>:

  \<^item> \<open>EnclaveQueue\<close>, \<open>ECalls\<close>: \<open>ecalls/EnclaveQueue.cpp\<close> and \<open>ecalls/ECalls.cpp\<close>. Asking for a place is modelled twice: as one thread whose
    gaps between critical sections are filled by the parameter \<open>other\<close> (\<open>try_get_enclave\<close>, a partial function, since high priorities wait
    without a limit), and as many threads with program counters (\<open>queue_step\<close>). \<open>with_enclave\<close> is the common shape of the calls; the generated
    bridge is the parameter \<open>gate\<close>.
  \<^item> \<open>AppUtils\<close>, \<open>AppFiles\<close>, \<open>Config\<close>: \<open>utils/Common.cpp\<close>, \<open>utils/FormatUtils.cpp\<close>, \<open>utils/FileUtils.cpp\<close>, \<open>ocalls/StoreOCalls.cpp\<close>, \<open>config/Config.cpp\<close>. The record \<open>os\<close> is
    the operating system, \<open>file_tree\<close> the directories and files.
  \<^item> \<open>EnclaveData\<close>: \<open>process/EnclaveData.cpp\<close>, with \<open>ed_inv\<close> as invariant. \<open>AppSrd\<close>, \<open>SrdReserve\<close>: \<open>process/Srd.cpp\<close>; the record \<open>app\<close> extends \<open>enclave_data\<close> by the
    files, the configuration and the running task.
  \<^item> \<open>Clients\<close>: \<open>chain/Chain.cpp\<close> and \<open>ipfs/Ipfs.cpp\<close>. The HTTP library is a function \<open>web\<close> from the requests made so far and the next one to an
    answer. \<open>OCalls\<close>: \<open>ocalls/OCalls.cpp\<close> and \<open>ocalls/IpfsOCalls.cpp\<close>.
  \<^item> \<open>AppMirror\<close>: the two sides together. \<open>replay\<close> runs the handlers on the enclave's trace of calls. The locale \<open>file_listing\<close> states what a listing of files
    must do with each call for it to follow the enclave; the application's lists are its interpretation (\<open>app_list\<close>).
  \<^item> \<open>AppReport\<close>: \<open>process/WorkReport.cpp\<close>, the loop that asks for reports, over the chain client, the queue and the enclave.
  \<^item> \<open>Overview\<close>: the overview of the workload in \<open>process/EnclaveData.cpp\<close>. \<open>Node\<close>: a whole node, the record \<open>node\<close> with the application's data, the
    client of the chain, the queue and the enclave, and \<open>site\<close> with everything a node is run with; \<open>node_call\<close> makes a call into the enclave and runs the handlers of
    the calls it makes on the way.
  \<^item> \<open>ApiHandler\<close>: \<open>http/ApiHandler.h\<close> and \<open>ApiHandler.cpp\<close>, one definition for each route and \<open>http_handler\<close> that chooses among them. \<open>Process\<close>: \<open>process/Process.cpp\<close>, the ways
    to start, the takeover from an old version, and the turns of the main loop (\<open>process_turn\<close>).
  \<^item> \<open>NodeSafety\<close>: which requests leave the work alone (\<open>stays\<close>, \<open>open_request\<close>). \<open>Takeover\<close>: the way of the upgrade data from the old enclave to the new
    one. \<open>MainLoop\<close>: how long an upgrade lasts, when the process ends, and the handover that fails.

  The records extend one another, so an operation of a component applies to the state of the whole
  enclave. An operation returns the status and the new state; where the code has undefined behaviour (a read or
  write out of bounds, a null pointer) or an exception, the result is \<open>None\<close>.

  \<^bold>\<open>What is shown.\<close> The invariant is kept by every handler under interference, hence holds in all reachable
  states, and a finished upgrade closes the enclave (first section). A report lists the changed files and its size is the size
  of what is confirmed (work reports). The rounds of validation remove or mark exactly what is bad (validation). The
  file table refines a map, sealing and deleting have the effect they announce (files). Metadata and upgrade data survive a
  restart and an upgrade (restart and upgrade). Blocks, documents and content identifiers are read and written
  correctly, and data crosses the boundary unchanged. Random data is made, chosen and removed within its
  bounds. The next section composes the two programs: the application's list follows the enclave's table, the heights
  at which reports are asked for are ones the enclave takes, what the application asks to be removed can be removed, a stored block and
  the number of a block arrive, the queue counts exactly and gives places back, and the searches and waits end. The last section is about a whole node: an upgrade moves the work from one version
  to the next through the HTTP interface, whatever requests come in between, closes what it has to close, and ends in time; the process
  ends only when it is told to. Some properties record what the
  code does against its intention: link blocks are always refused, a pending file that is complete is finished when it is
  deleted, an upgrade at the very end of a slot fails, refused upgrade data leaves its workload behind, a wrong tree keeps a
  file valid, block 0 is not checked again, an item index runs below zero, the limit of the task overflows,
  creating a directory directly under the root never returns, a new version waits for ever for an old one that has given up, and an illegal transfer
  can be corrected after the upgrade data was signed.

  \<^bold>\<open>Bounds and fuel.\<close> The parser has fuel \<open>2 * length + 2\<close>: every level of nesting takes at most two steps per character.
  The loop of \<open>upgrade\<close> over slots is a partial function, and \<open>upgrade_height_terminates\<close> gives its result; the loops of the rounds end
  by their time limit. The search for a disk ends by the measure \<open>attempts_left\<close>, sharing out by what is left of the task. The loops of the
  application that have no end take the number of turns as an argument. The main loop takes the number of its rounds as an argument; it has no other end than an
  upgrade. Sizes are natural numbers where the code cannot come near \<open>2 ^ 64\<close> (vectors in memory); heights are
  64-bit words, the task and the sizes of files are signed 64-bit integers with their wrap-around.

  \<^bold>\<open>Not modelled.\<close> Attestation (\<open>id_verify_and_upload_identity\<close>, \<open>id_get_quote_report\<close>), which only calls OpenSSL and the SGX library; logging;
  in the application the connections of the HTTP server and client, which are Boost libraries, the requests of the attestation (a parameter of the start), the reading of the
  configuration file, removing directories (a parameter where it is called), and the third-party thread pool, whose tasks run one after
  the other in the model. The overloads of the parser for \<open>std::string\<close> follow the same grammar as those for
  buffers and are modelled once. The properties that assume \<open>alone\<close> describe an operation that is not interrupted.
\<close>

section \<open>A concrete environment\<close>

text \<open>
  The witnesses of the properties run in this environment: the heap never fails, a digest is the
  length of its input in 32 bytes, sealing is the identity, every call to the outside succeeds.
\<close>

definition demo_sha :: "bytes \<Rightarrow> bytes" where
  "demo_sha d = of_nat (length d) # replicate 31 0"

definition demo_env :: env where
  "demo_env =
     \<lparr>malloc = (\<lambda>_ _. True), app_malloc = (\<lambda>_. True), sgx_sha256_msg = demo_sha,
      sgx_seal_data = (\<lambda>_ d. Some d), sgx_seal_data_ex = (\<lambda>_ d. Some d), sgx_unseal_data = Some,
      sgx_calc_sealed_data_size = id, sgx_get_encrypt_txt_len = length, sgx_ecdsa_sign = (\<lambda>_ _. Some (replicate 64 5)),
      double_to_string = (\<lambda>_. ''0''), rand_key = id, sgx_ocall_ok = (\<lambda>_. True), leveldb_ok = (\<lambda>_ _. True),
      ocall_ret = (\<lambda>_ _. SPACEX_SUCCESS), get_file = (\<lambda>_ _. (SPACEX_SUCCESS, [1, 2, 3])),
      disk_uuid = (\<lambda>_. ''0123456789abcdef''), chain_block_info = (\<lambda>_. (SPACEX_UNEXPECTED_ERROR, [])),
      sgx_read_rand = (\<lambda>_ n. replicate n 7), block_hash_at = (\<lambda>_ _. (SPACEX_SUCCESS, replicate 64 CHR ''0'')),
      sgx_ecdsa_verify = (\<lambda>_ _ sig. sig = replicate 64 5),
      sgx_ecc256_create_key_pair = (\<lambda>_. Some (replicate 64 1, replicate 32 2)),
      sgx_create_report = Some (replicate 32 3), ipfs_online = (\<lambda>_. True), recall_ok = (\<lambda>_. True)\<rparr>"

definition demo_fl :: float_lib where
  "demo_fl = \<lparr>stod_pow = (\<lambda>_ _. None), long_pow = (\<lambda>_ _. 0)\<rparr>"

lemma demo_env_ok:
  "heap_ok demo_env" "sha256_length demo_env" "rand_length demo_env" "unseal_inverts demo_env" "enc_malloc demo_env n"
  by (simp_all add: heap_ok_def enc_malloc_iff demo_env_def sha256_length_def rand_length_def unseal_inverts_def demo_sha_def)
    (rule exI [of _ 0], simp)+

text \<open>Files with a status, a size of 7 and a hash, and tables with them.\<close>

definition demo_file :: "string \<Rightarrow> string \<Rightarrow> JSON" where
  "demo_file cid st =
     jset (jset (jset (jset JNull FILE_CID (JString cid)) FILE_STATUS (JString st)) FILE_SIZE (JIntegral 7))
       FILE_HASH (JHash (replicate 32 0))"

definition demo_files :: workload where
  "demo_files = Workload_init\<lparr>sealed_files := [demo_file ''a'' ''100'', demo_file ''c'' ''333'']\<rparr>"

text \<open>A file that is being sealed, with one block done and none left.\<close>

definition demo_pending :: JSON where
  "demo_pending = jset (jset JNull FILE_META (jset JNull FILE_HASH (JBuffer (replicate 40 1)))) FILE_BLOCKS (JObject [])"

definition demo_sealing :: workload where
  "demo_sealing = Workload_init\<lparr>sealed_files := [pending_entry ''b''], pending_files_um := [(''b'', demo_pending)]\<rparr>"

text \<open>An enclave with these files and one item of random data.\<close>

definition demo_enclave :: enclave where
  "demo_enclave =
     \<lparr>ocalls = [], db = (\<lambda>_. None), db_ops = 0, ocall_buffer_pool = (\<lambda>_. None),
      srd_hashs = [replicate 42 9], sealed_files = sealed_files demo_files, reported_files_idx = [],
      pre_pub_key = replicate 64 0, pending_files_um = [], account_id = ''acc'',
      id_key_pair = (replicate 64 1, replicate 32 2), is_set_key_pair = True, mr_enclave = replicate 32 3,
      report_height = 0, restart_flag = 0, validated_srd_proof = 1, validated_file_proof = 1, report_files = True,
      srd_info_json = JNull, upgrade = False, upgrade_status = ENC_UPGRADE_STATUS_NONE, wl_file_spec = file_spec_init,
      srd_del_idx_s = [], file_del_cid_s = [''c''],
      g_srd_task = 100, g_base_rand_buffer = None,
      g_del_srd_v = [], g_validate_srd_m = [], g_validate_srd_m_iter = 0, g_validated_srd_num = 0,
      g_changed_files_v = [], g_validate_files_m = [(''a'', demo_file ''a'' ''100'')], g_validate_files_m_iter = 0,
      g_validated_files_num = 0, g_validate_random = 0, g_ecall_buffer_pool = (\<lambda>_. None)\<rparr>"

lemma replicate_32: "replicate 32 x = x # replicate 31 x"
  by (simp add: numeral_eq_Suc)

lemma demo_file_wf: "file_wf (demo_file cid st) \<longleftrightarrow> status_wf (JString st) \<and> json_plain cid"
  by (simp add: file_wf_def demo_file_def cid_wf_def)

lemma demo_plain: "json_plain ''a''" "json_plain ''b''" "json_plain ''c''" "json_plain ''acc''"
  "status_wf (JString ''100'')" "status_wf (JString ''333'')"
  by code_simp+

lemma demo_file_cid: "json_plain cid \<Longrightarrow> file_cid (demo_file cid st) = cid"
  by (simp add: file_cid_def demo_file_def json_escape_plain)

lemma demo_files_ok: "wl_inv demo_files" "st_inv demo_files"
proof -
  show "wl_inv demo_files"
    using wl_inv_init by (simp add: wl_inv_def demo_files_def files_sorted_def demo_file_wf demo_plain demo_file_cid)
  then show "st_inv demo_files" by (simp add: st_inv_def) (simp add: demo_files_def Workload_init_def)
qed

lemma demo_enclave_ok: "wl_inv demo_enclave" "st_inv demo_enclave"
proof -
  show "wl_inv demo_enclave"
    by (simp add: wl_inv_def demo_enclave_def demo_files_def files_sorted_def demo_file_wf demo_plain demo_file_cid om_sorted_def)
  then show "st_inv demo_enclave" by (simp add: st_inv_def) (simp add: demo_enclave_def)
qed

lemma demo_sealing_ok: "st_inv demo_sealing"
proof -
  have "wl_inv demo_sealing"
    using wl_inv_init file_wf_pending_entry [OF demo_plain(2)]
    by (simp add: wl_inv_def demo_sealing_def files_sorted_def om_sorted_def)
  moreover have "pend_wf demo_pending" by (simp add: pend_wf_def demo_pending_def obj_wf_def)
  ultimately show ?thesis by (simp add: st_inv_def) (simp add: demo_sealing_def)
qed

lemma demo_outside: "outside_ok demo_env s \<longleftrightarrow> (\<forall>k. ocall_buffer_pool s k = None)"
  "sgx_ecdsa_sign demo_env d k = Some (replicate 64 5)" "ocall_ret demo_env h c = SPACEX_SUCCESS"
  "block_hash_at demo_env h n = (SPACEX_SUCCESS, replicate 64 CHR ''0'')"
  by (simp_all add: outside_ok_def demo_env_def)

lemma demo_enclave_guards:
  "restart_flag demo_enclave = 0" "report_files demo_enclave" "report_has_validated_proof demo_enclave"
  "report_height demo_enclave = 0" "ocall_buffer_pool demo_enclave k = None" "upgrade_status demo_enclave = ENC_UPGRADE_STATUS_NONE"
  by (simp_all add: demo_enclave_def report_has_validated_proof_def)

section \<open>The whole enclave\<close>





section \<open>Work reports\<close>

text \<open>C3: a report that the chain took and the state after it agree: every reported file has its current status
  as its confirmed status, the other files keep theirs, and the size in the report is (in 64 bits) the sum of
  the sizes of all files that are now confirmed as valid.\<close>

theorem report_size_is_confirmed_size:
  assumes "wl_inv s" and "gen_and_upload_work_report e bh n w False s = (SPACEX_SUCCESS, s')"
  shows "(sealed_files s' = confirm_all (file_cid ` set (reported_changes (sealed_files s))) (map await (sealed_files s))) \<and>
    (ra_size (report_scan False (sealed_files s)) = long_wrap (origin_size (sealed_files s'))) \<and>
    (reported_files_idx s' = []) \<and>
    (report_height s' = n)"
  using report_confirmed [OF assms] by simp

theorem report_size_is_confirmed_size_witness:
  "\<exists>s'. gen_and_upload_work_report demo_env (replicate 64 CHR ''0'') 1200 0 False demo_enclave = (SPACEX_SUCCESS, s') \<and>
        ra_size (report_scan False (sealed_files demo_enclave)) = long_wrap (origin_size (sealed_files s')) \<and> report_height s' = 1200"
proof -
  obtain s' where s': "gen_and_upload_work_report demo_env (replicate 64 CHR ''0'') 1200 0 False demo_enclave = (SPACEX_SUCCESS, s')"
    by (rule upload_ok [of 1200 demo_enclave demo_env "replicate 64 CHR ''0''" 0 False])
       (simp_all add: demo_enclave_guards demo_env_ok demo_outside)
  from report_size_is_confirmed_size [OF demo_enclave_ok(1) s'] s' show ?thesis by blast
qed

text \<open>C4: a report is generated only for a block at least one slot after the last one, after a validation of both the
  random data and the files, with IPFS available and not as the first after a restart; and a call that passes the check of
  the height uses this up, whatever its result: the height moves, and the next report needs a new validation.\<close>

theorem report_guards:
  assumes "wl_inv s" and "gen_work_report e bh n u s = (st, s')"
  shows "(st = SPACEX_SUCCESS \<longrightarrow> n \<noteq> 0 \<and> report_height s + of_nat REPORT_SLOT \<le> n \<and> restart_flag s = 0 \<and> report_files s \<and>
      report_has_validated_proof s) \<and>
    (n = 0 \<or> n < report_height s + of_nat REPORT_SLOT \<longrightarrow> st = SPACEX_BLOCK_HEIGHT_EXPIRED \<and> s' = s) \<and>
    (\<not> (n = 0 \<or> n < report_height s + of_nat REPORT_SLOT) \<longrightarrow>
      report_height s' = n \<and> report_files s' \<and> \<not> report_has_validated_proof s' \<and> restart_flag s' = 0)"
proof (intro conjI)
  show "st = SPACEX_SUCCESS \<longrightarrow> n \<noteq> 0 \<and> report_height s + of_nat REPORT_SLOT \<le> n \<and> restart_flag s = 0 \<and> report_files s \<and>
      report_has_validated_proof s"
    using gen_work_report_guards [of e bh n u s s'] assms by (auto simp: wl_inv_def)
  show "n = 0 \<or> n < report_height s + of_nat REPORT_SLOT \<longrightarrow> st = SPACEX_BLOCK_HEIGHT_EXPIRED \<and> s' = s"
    using assms(2) by (auto simp: gen_work_report_def)
  show "\<not> (n = 0 \<or> n < report_height s + of_nat REPORT_SLOT) \<longrightarrow>
      report_height s' = n \<and> report_files s' \<and> \<not> report_has_validated_proof s' \<and> restart_flag s' = 0"
  proof
    assume "\<not> (n = 0 \<or> n < report_height s + of_nat REPORT_SLOT)"
    then have "n \<noteq> 0" "report_height s + of_nat REPORT_SLOT \<le> n" by auto
    from gen_work_report_consumes [OF assms(1) this assms(2)]
    show "report_height s' = n \<and> report_files s' \<and> \<not> report_has_validated_proof s' \<and> restart_flag s' = 0" by simp
  qed
qed

theorem report_guards_witness:
  "gen_work_report demo_env '''' 100 False demo_enclave = (SPACEX_BLOCK_HEIGHT_EXPIRED, demo_enclave) \<and>
   (\<exists>st s'. gen_work_report demo_env '''' 1200 False demo_enclave = (st, s') \<and> report_height s' = 1200 \<and> \<not> report_has_validated_proof s')"
proof (intro conjI)
  have h: "(100 :: size_t) < report_height demo_enclave + of_nat REPORT_SLOT" "\<not> (1200 :: size_t) < report_height demo_enclave + of_nat REPORT_SLOT"
    by (simp_all add: demo_enclave_guards)
  obtain st s' where g: "gen_work_report demo_env '''' 100 False demo_enclave = (st, s')" by fastforce
  from report_guards [OF demo_enclave_ok(1) g] g h(1)
  show "gen_work_report demo_env '''' 100 False demo_enclave = (SPACEX_BLOCK_HEIGHT_EXPIRED, demo_enclave)" by simp
  obtain st s' where g: "gen_work_report demo_env '''' 1200 False demo_enclave = (st, s')" by fastforce
  from report_guards [OF demo_enclave_ok(1) g] g h(2)
  show "\<exists>st s'. gen_work_report demo_env '''' 1200 False demo_enclave = (st, s') \<and> report_height s' = 1200 \<and> \<not> report_has_validated_proof s'"
    by simp
qed

text \<open>C5: what a report lists: the added and the deleted files are the first at most 300 files, in the order of the table,
  whose current status differs from the confirmed one in a way that matters, and the index of reported files holds
  exactly their content identifiers.\<close>

theorem report_lists_changes:
  "(reported_changes fs = take WORKREPORT_FILE_LIMIT (filter status_changed (map await fs))) \<and>
    (ra_added (report_scan False fs) = map report_entry (filter is_valid (reported_changes fs))) \<and>
    (ra_deleted (report_scan False fs) = map report_entry (filter (\<lambda>f. \<not> is_valid f) (reported_changes fs))) \<and>
    length (ra_added (report_scan False fs)) + length (ra_deleted (report_scan False fs)) \<le> WORKREPORT_FILE_LIMIT \<and>
    (set (ra_idx (report_scan False fs)) = file_cid ` set (reported_changes fs))"
proof -
  have "length (filter is_valid (reported_changes fs)) + length (filter (\<lambda>f. \<not> is_valid f) (reported_changes fs)) =
      length (reported_changes fs)"
    by (rule sum_length_filter_compl)
  then have "length (ra_added (report_scan False fs)) + length (ra_deleted (report_scan False fs)) \<le> WORKREPORT_FILE_LIMIT"
    using reported_changes_limit [of fs] by (simp add: report_scan_spec)
  moreover have "set (ra_idx (report_scan False fs)) = file_cid ` set (reported_changes fs)"
    by (simp add: report_scan_spec set_fold_insort)
  ultimately show ?thesis by (simp add: report_scan_spec reported_changes_def [of fs])
qed

text \<open>When the guards hold, no allocation fails, the signature is made and the outside takes the data, a report is
  generated and the document leaves the enclave as one transfer.\<close>

theorem report_is_generated:
  assumes "n \<noteq> 0" and "report_height s + of_nat REPORT_SLOT \<le> n" and "restart_flag s \<le> 0" and "report_files s"
    and "report_has_validated_proof s" and "heap_ok e" and "outside_ok e s" and "\<forall>d k. sgx_ecdsa_sign e d k \<noteq> None"
    and "HASH_LENGTH * 2 \<le> length bh"
  shows "\<exists>s' d. gen_work_report e bh n u s = (SPACEX_SUCCESS, s') \<and> ocalls s' = ocalls s @ [Ocall_store2 OCALL_STORE_WORKREPORT d]"
  using gen_work_report_ok [OF assms] by metis

theorem report_is_generated_witness:
  "\<exists>s' d. gen_work_report demo_env (replicate 64 CHR ''0'') 1200 False demo_enclave = (SPACEX_SUCCESS, s') \<and>
          ocalls s' = ocalls demo_enclave @ [Ocall_store2 OCALL_STORE_WORKREPORT d]"
  by (rule report_is_generated) (simp_all add: demo_enclave_guards demo_env_ok demo_outside)

section \<open>Validation\<close>



text \<open>C7: the verdict of a task on a file with an intact tree: a valid file is to become lost exactly when a checked
  block is missing or has another hash, and a lost one is to become valid again exactly when all checked blocks are
  good; nothing is deleted.\<close>

theorem file_verdict_correct:
  assumes "heap_ok e" and "\<forall>i \<in> set (check_blocks e (length (ocalls s)) file). (i + 1) * FILE_ITEM_LENGTH \<le> length tree"
    and "file_status file CURRENT_STATUS \<in> {FILE_STATUS_VALID, FILE_STATUS_LOST}"
    and "persist_get_unsafe e (file_cid file) s = (SPACEX_SUCCESS, tree)" and "\<not> is_in_deleted_file_buffer (file_cid file) s"
    and "jget file FILE_HASH = JHash r" and "take HASH_LENGTH r = sgx_sha256_msg e tree"
  shows "\<exists>v. file_task_check e file s = Some v \<and> \<not> fv_deleted v \<and>
    (fv_changed v \<longleftrightarrow>
      (file_status file CURRENT_STATUS = FILE_STATUS_VALID \<longleftrightarrow>
       (\<exists>i \<in> set (check_blocks e (length (ocalls s)) file). \<not> block_ok e tree (file_cid file) i)))"
  using file_task_check_spec [OF assms] .

definition demo_tree :: enclave where
  "demo_tree = demo_enclave\<lparr>db := [''a'' \<mapsto> []]\<rparr>"

lemma demo_tree_get: "persist_get_unsafe demo_env ''a'' demo_tree = (SPACEX_SUCCESS, [])"
  using demo_env_ok(5)
  by (simp add: persist_get_unsafe_def inner_ocall_persist_get_def DataBase_get_def demo_tree_def)

lemma demo_file_a:
  "file_status (demo_file ''a'' ''100'') CURRENT_STATUS = FILE_STATUS_VALID" "file_cid (demo_file ''a'' ''100'') = ''a''"
  "jget (demo_file ''a'' ''100'') FILE_HASH = JHash (replicate 32 0)" "ToInt (jget (demo_file ''a'' ''100'') FILE_BLOCK_NUM) = 0"
  by (simp_all add: demo_file_cid demo_plain) (simp_all add: demo_file_def file_status_def get_char_def)

theorem file_verdict_correct_witness:
  "\<exists>v. file_task_check demo_env (demo_file ''a'' ''100'') demo_tree = Some v \<and> \<not> fv_deleted v \<and> \<not> fv_changed v"
proof -
  let ?f = "demo_file ''a'' ''100''"
  have c: "check_blocks demo_env k ?f = []" for k
    by (simp add: check_blocks_def demo_file_a)
  have "\<exists>v. file_task_check demo_env ?f demo_tree = Some v \<and> \<not> fv_deleted v \<and>
    (fv_changed v \<longleftrightarrow>
      (file_status ?f CURRENT_STATUS = FILE_STATUS_VALID \<longleftrightarrow>
       (\<exists>i \<in> set (check_blocks demo_env (length (ocalls demo_tree)) ?f). \<not> block_ok demo_env [] (file_cid ?f) i)))"
    by (rule file_verdict_correct [OF demo_env_ok(1), where r = "replicate 32 0"])
       (simp_all add: c demo_file_a demo_tree_get, simp_all add: demo_env_def demo_sha_def demo_tree_def demo_enclave_def is_in_deleted_file_buffer_def replicate_32)
  then show ?thesis by (simp add: c demo_file_a)
qed

text \<open>C8: the round then writes the new status into the table: it compares the block number of the entry with the one
  that was validated, and overwrites the current status, even when another thread has changed it to deleted in between.\<close>

theorem change_file_overwrites:
  assumes "st_inv s" and "map_of (g_validate_files_m s) cid = Some file" and "file_cid file = cid"
    and "files_of s cid = Some f" and "ToInt (jget f CHAIN_BLOCK_NUMBER) = ToInt (jget file CHAIN_BLOCK_NUMBER)"
    and "file_status file CURRENT_STATUS = FILE_STATUS_VALID"
  shows "(files_of (change_file e cid s) = (files_of s)(cid \<mapsto> flip_entry file FILE_STATUS_LOST f)) \<and>
    (file_status (flip_entry file FILE_STATUS_LOST f) CURRENT_STATUS = FILE_STATUS_LOST)"
proof
  show "files_of (change_file e cid s) = (files_of s)(cid \<mapsto> flip_entry file FILE_STATUS_LOST f)"
    using change_file_spec [OF assms(1-5)] assms(6) by (auto simp: flipped_def)
  have "file_wf f" using files_of_cid [OF assms(4)] assms(1) by (auto simp: st_inv_def wl_inv_def list_all_iff)
  then show "file_status (flip_entry file FILE_STATUS_LOST f) CURRENT_STATUS = FILE_STATUS_LOST"
    by (simp add: flip_entry_wf status_chars_def)
qed

definition demo_race :: enclave where
  "demo_race = demo_enclave\<lparr>sealed_files := [demo_file ''a'' ''300'']\<rparr>"

theorem change_file_overwrites_witness:
  "\<exists>f. files_of demo_race ''a'' = Some (demo_file ''a'' ''300'') \<and>
       files_of (change_file demo_env ''a'' demo_race) ''a'' = Some f \<and> file_status f CURRENT_STATUS = FILE_STATUS_LOST"
proof -
  have p: "status_wf (JString ''300'')" by code_simp
  have "wl_inv demo_race"
    using demo_enclave_ok(1) by (simp add: wl_inv_def demo_race_def files_sorted_def demo_file_wf demo_plain p)
  then have inv: "st_inv demo_race" by (simp add: st_inv_def) (simp add: demo_race_def demo_enclave_def)
  have fo: "files_of demo_race ''a'' = Some (demo_file ''a'' ''300'')"
    by (simp add: files_of_def demo_race_def demo_file_cid demo_plain)
  have m: "map_of (g_validate_files_m demo_race) ''a'' = Some (demo_file ''a'' ''100'')" by (simp add: demo_race_def demo_enclave_def)
  have n: "ToInt (jget (demo_file ''a'' ''300'') CHAIN_BLOCK_NUMBER) = ToInt (jget (demo_file ''a'' ''100'') CHAIN_BLOCK_NUMBER)"
    by (simp add: demo_file_def)
  from change_file_overwrites [OF inv m demo_file_a(2) fo n demo_file_a(1)] fo show ?thesis by simp
qed

text \<open>A file whose stored tree no longer has its root hash is not reported: its status stays as it is.\<close>

theorem wrong_tree_keeps_status:
  assumes "persist_get_unsafe e (file_cid file) s = (SPACEX_SUCCESS, tree)" and "jget file FILE_HASH = JHash r"
    and "take HASH_LENGTH r \<noteq> sgx_sha256_msg e tree"
  shows "file_task_check e file s = Some \<lparr>fv_changed = False, fv_deleted = False, fv_file = file\<rparr>"
  using file_tree_mismatch [OF assms] .

theorem wrong_tree_keeps_status_witness:
  "file_task_check demo_env (jset (demo_file ''a'' ''100'') FILE_HASH (JHash (replicate 32 4))) demo_tree =
     Some \<lparr>fv_changed = False, fv_deleted = False, fv_file = jset (demo_file ''a'' ''100'') FILE_HASH (JHash (replicate 32 4))\<rparr>"
proof (rule wrong_tree_keeps_status)
  have "file_cid (jset (demo_file ''a'' ''100'') FILE_HASH (JHash (replicate 32 4))) = ''a''"
    by (simp add: file_cid_def demo_file_def json_escape_plain demo_plain)
  then show "persist_get_unsafe demo_env (file_cid (jset (demo_file ''a'' ''100'') FILE_HASH (JHash (replicate 32 4)))) demo_tree = (SPACEX_SUCCESS, [])"
    by (simp add: demo_tree_get)
  show "jget (jset (demo_file ''a'' ''100'') FILE_HASH (JHash (replicate 32 4))) FILE_HASH = JHash (replicate 32 4)"
    by (simp add: demo_file_def)
  show "take HASH_LENGTH (replicate 32 4) \<noteq> sgx_sha256_msg demo_env []" by (simp add: demo_env_def demo_sha_def replicate_32)
qed

text \<open>A task on a lost file looks at the block that was lost and at one random block, but when the lost block is the
  first one, with index 0, only at the random block.\<close>

theorem lost_block_is_checked:
  assumes "file_status file CURRENT_STATUS = FILE_STATUS_LOST" and "ToInt (jget file FILE_BLOCK_NUM) = int n" and "n < 2 ^ 63"
    and "ToInt (jget file FILE_LOST_INDEX) = int l" and "l < n"
  shows "set (check_blocks e k file) = (if l = 0 then {unat (rand_u32 e k) mod n} else {l, unat (rand_u32 e k) mod n})"
  using check_blocks_lost [OF assms] .

theorem lost_block_is_checked_witness:
  "0 \<notin> set (check_blocks demo_env 0
     (jset (jset (demo_file ''a'' ''200'') FILE_BLOCK_NUM (JIntegral 5)) FILE_LOST_INDEX (JIntegral 0)))"
proof -
  let ?f = "jset (jset (demo_file ''a'' ''200'') FILE_BLOCK_NUM (JIntegral 5)) FILE_LOST_INDEX (JIntegral 0)"
  have "set (check_blocks demo_env 0 ?f) = (if (0 :: nat) = 0 then {unat (rand_u32 demo_env 0) mod 5} else {0, unat (rand_u32 demo_env 0) mod 5})"
    by (rule lost_block_is_checked) (simp_all add: demo_file_def file_status_def get_char_def)
  moreover have "unat (rand_u32 demo_env 0) = 117901063"
  proof -
    have "replicate 4 (7 :: byte) = [7, 7, 7, 7]" by (simp add: numeral_eq_Suc)
    then show ?thesis by (simp add: rand_u32_def demo_env_def)
  qed
  ultimately show ?thesis by simp
qed


section \<open>The file table\<close>

text \<open>C9: the sorted vector of sealed files refines a map from content identifiers to entries: the search finds exactly the
  keys, adding keeps an entry that is already there, deleting removes exactly the key, both keep the order, and
  deleting what was added gives the table back.\<close>

theorem file_table_refines_map:
  assumes "files_sorted s"
  shows "(fst (is_file_dup_nolock cid s) \<longleftrightarrow> files_of s cid \<noteq> None) \<and>
    (files_of (add_file_nolock f s) = (if files_of s (file_cid f) = None then (files_of s)(file_cid f \<mapsto> f) else files_of s)) \<and>
    (files_of (del_file_nolock cid s) = (files_of s)(cid := None)) \<and>
    files_sorted (add_file_nolock f s) \<and>
    files_sorted (del_file_nolock cid s) \<and>
    (files_of s (file_cid f) = None \<longrightarrow> files_of (del_file_nolock (file_cid f) (add_file_nolock f s)) = files_of s)"
  using assms files.del_add [OF assms, of f]
  by (simp add: files.find_iff files.lookup_add files.lookup_del files.invar_add files.invar_del)

theorem file_table_refines_map_witness:
  "files_of (del_file_nolock ''b'' (add_file_nolock (demo_file ''b'' ''100'') demo_files)) = files_of demo_files \<and>
   fst (is_file_dup_nolock ''c'' demo_files)"
proof
  have srt: "files_sorted demo_files" using demo_files_ok(1) by (simp add: wl_inv_def)
  have f: "files_of demo_files = [''a'' \<mapsto> demo_file ''a'' ''100'', ''c'' \<mapsto> demo_file ''c'' ''333'']"
    by (auto simp: files_of_def demo_files_def demo_file_cid demo_plain)
  show "files_of (del_file_nolock ''b'' (add_file_nolock (demo_file ''b'' ''100'') demo_files)) = files_of demo_files"
    using file_table_refines_map [OF srt, of "''b''" "demo_file ''b'' ''100''"] by (simp add: f demo_file_cid demo_plain)
  show "fst (is_file_dup_nolock ''c'' demo_files)"
    using file_table_refines_map [OF srt, of "''c''" "demo_file ''b'' ''100''"] by (simp add: f)
qed

text \<open>The binary search of the table, with its signed indexes, ends on every table, and on a sorted one it agrees with
  the linear definition: it tells whether the identifier occurs, and its position is the number of smaller identifiers,
  which is where the identifier is or has to be inserted.\<close>

theorem binary_search_correct:
  assumes "files_sorted s"
  shows "(is_file_dup_nolock cid s = (cid \<in> set (cids s), lower_bound cid (cids s))) \<and>
    (cid \<in> set (cids s) \<longrightarrow> file_cid (sealed_files s ! snd (is_file_dup_nolock cid s)) = cid) \<and>
    (file_cid f \<notin> set (cids s) \<longrightarrow>
      files_sorted (s\<lparr>sealed_files := vec_insert (snd (is_file_dup_nolock (file_cid f) s)) f (sealed_files s)\<rparr>))"
  using assms dup_position(2) [OF assms] files_insert(1) [OF assms _ refl, of f] by (simp add: is_file_dup_sorted)

theorem binary_search_correct_witness:
  "is_file_dup_nolock ''b'' demo_files = (False, 1) \<and> is_file_dup_nolock ''c'' demo_files = (True, 1)"
proof -
  have srt: "files_sorted demo_files" using demo_files_ok(1) by (simp add: wl_inv_def)
  have "cids demo_files = [''a'', ''c'']" by (simp add: demo_files_def demo_file_cid demo_plain)
  with binary_search_correct [OF srt, of _ JNull] show ?thesis by (simp add: lower_bound_def)
qed

text \<open>C10: a file can be sealed when it is unknown, or deleted and not counted on the chain; then a pending entry stands for
  it. Otherwise the call says why not (being sealed, being deleted, present) and the table stays as it is.\<close>

theorem seal_start_decides:
  fixes s :: "'a workload_scheme"
  assumes "st_inv s" and "json_plain root" and "upgrade_status s = ENC_UPGRADE_STATUS_NONE"
    and "length (sealed_files s) < FILE_NUMBER_UPPER_LIMIT"
  shows "(\<not> sealable (files_of s root) \<longrightarrow>
      fst (storage_seal_file_start alone root b58 s) = dup_status (files_of s root) \<and>
      files_of (snd (storage_seal_file_start alone root b58 s)) = files_of s) \<and>
    (sealable (files_of s root) \<longrightarrow> FILE_PENDING_LIMIT < length (pending_files_um s) \<longrightarrow>
      fst (storage_seal_file_start alone root b58 s) = SPACEX_FILE_NUMBER_EXCEED \<and>
      files_of (snd (storage_seal_file_start alone root b58 s)) = (files_of s)(root := None)) \<and>
    (sealable (files_of s root) \<longrightarrow> length (pending_files_um s) \<le> FILE_PENDING_LIMIT \<longrightarrow>
      fst (storage_seal_file_start alone root b58 s) = SPACEX_SUCCESS \<and>
      files_of (snd (storage_seal_file_start alone root b58 s)) = (files_of s)(root \<mapsto> pending_entry root) \<and>
      map_of (pending_files_um (snd (storage_seal_file_start alone root b58 s))) =
        (map_of (pending_files_um s))(root \<mapsto> add_block b58 1 (pending_get root s)))"
  using seal_start_spec [OF assms, of b58] by blast

theorem seal_start_decides_witness:
  "fst (storage_seal_file_start alone ''a'' ''x'' demo_files) = SPACEX_STORAGE_FILE_DUP \<and>
   files_of (snd (storage_seal_file_start alone ''b'' ''x'' demo_files)) ''b'' = Some (pending_entry ''b'')"
proof
  have f: "files_of demo_files = [''a'' \<mapsto> demo_file ''a'' ''100'', ''c'' \<mapsto> demo_file ''c'' ''333'']"
    by (auto simp: files_of_def demo_files_def demo_file_cid demo_plain)
  have d: "upgrade_status demo_files = ENC_UPGRADE_STATUS_NONE" "length (sealed_files demo_files) < FILE_NUMBER_UPPER_LIMIT"
    "length (pending_files_um demo_files) \<le> FILE_PENDING_LIMIT"
    by (simp_all add: demo_files_def Workload_init_def)
  note sd = seal_start_decides [OF demo_files_ok(2) _ d(1,2), of _ "''x''"]
  have "file_status (demo_file ''a'' ''100'') CURRENT_STATUS = FILE_STATUS_VALID"
    by (simp add: demo_file_def file_status_def get_char_def)
  then have a: "\<not> sealable (files_of demo_files ''a'')" "dup_status (files_of demo_files ''a'') = SPACEX_STORAGE_FILE_DUP"
    by (simp_all add: f sealable_def dup_status_def)
  show "fst (storage_seal_file_start alone ''a'' ''x'' demo_files) = SPACEX_STORAGE_FILE_DUP"
    using sd [OF demo_plain(1)] a by simp
  have "sealable (files_of demo_files ''b'')" by (simp add: f sealable_def)
  with sd [OF demo_plain(2)] d(3)
  show "files_of (snd (storage_seal_file_start alone ''b'' ''x'' demo_files)) ''b'' = Some (pending_entry ''b'')" by simp
qed

section \<open>Sealing and deleting files\<close>


text \<open>With every block done and the store working, finishing succeeds: the table gets the entry of the file, with the
  status valid and not yet confirmed, and nothing else changes in it.\<close>

theorem seal_end_completes:
  assumes "st_inv s" and "json_plain root" and "pending_has root s"
    and "upgrade_status s = ENC_UPGRADE_STATUS_NONE" and "blocks_done (pending_get root s)"
    and "enc_malloc e 191" and "block_number e fl (chain_block_info e (ocalls s)) = Some n"
    and "ToBytes (jget (jget (pending_get root s) FILE_META) FILE_HASH) = Some hashs"
    and "persist_set_unsafe e root hashs s = (SPACEX_SUCCESS, s1)"
  shows "\<exists>s'. storage_seal_file_end e fl alone root s = Some (SPACEX_SUCCESS, s') \<and>
    files_of s' = (files_of s)(root \<mapsto> sealed_entry root (sgx_sha256_msg e hashs) n (jget (pending_get root s) FILE_META)) \<and>
    st_inv s' \<and> \<not> pending_has root s'"
  by (rule seal_end_success [OF assms]) blast

lemma demo_sealing_facts:
  "pending_has ''b'' demo_sealing" "pending_get ''b'' demo_sealing = demo_pending" "blocks_done demo_pending"
  "upgrade_status demo_sealing = ENC_UPGRADE_STATUS_NONE"
  "ToBytes (jget (jget demo_pending FILE_META) FILE_HASH) = Some (replicate 40 1)"
  "files_of demo_sealing = [''b'' \<mapsto> pending_entry ''b'']"
  "block_number demo_env fl (chain_block_info demo_env ocs) = Some (of_int INT_MAX)"
proof -
  show "pending_has ''b'' demo_sealing" "pending_get ''b'' demo_sealing = demo_pending"
    "upgrade_status demo_sealing = ENC_UPGRADE_STATUS_NONE"
    by (simp_all add: demo_sealing_def pending_has_def pending_get_def map_get_def Workload_init_def)
  show "blocks_done demo_pending" "ToBytes (jget (jget demo_pending FILE_META) FILE_HASH) = Some (replicate 40 1)"
    by (simp_all add: demo_pending_def blocks_done_def ToBytes_def ObjectRange_def)
  show "files_of demo_sealing = [''b'' \<mapsto> pending_entry ''b'']"
    using file_wf_pending_entry [OF demo_plain(2)] by (simp add: demo_sealing_def files_of_def)
  show "block_number demo_env fl (chain_block_info demo_env ocs) = Some (of_int INT_MAX)"
    by (simp add: block_number_def demo_env_def)
qed

lemma demo_set: "fst (persist_set_unsafe demo_env k v s) = SPACEX_SUCCESS"
  by (simp add: persist_set_unsafe_eq DataBase_set_def DataBase_put_def) (simp add: demo_env_def)

theorem seal_end_completes_witness:
  "\<exists>s'. storage_seal_file_end demo_env demo_fl alone ''b'' demo_sealing = Some (SPACEX_SUCCESS, s') \<and>
    files_of s' ''b'' = Some (sealed_entry ''b'' (demo_sha (replicate 40 1)) (of_int INT_MAX) (jget demo_pending FILE_META)) \<and>
    \<not> pending_has ''b'' s'"
proof -
  obtain s1 where "persist_set_unsafe demo_env ''b'' (replicate 40 1) demo_sealing = (SPACEX_SUCCESS, s1)"
    using demo_set by (metis prod.collapse)
  from seal_end_completes [OF demo_sealing_ok demo_plain(2) demo_sealing_facts(1,4), unfolded demo_sealing_facts(2),
      OF demo_sealing_facts(3) demo_env_ok(5) demo_sealing_facts(7,5) this, of demo_fl]
  show ?thesis by (auto simp: demo_env_def)
qed




text \<open>Deleting a file that is being sealed and has all its counters at zero does not delete it: the call of
  \<open>storage_seal_file_end\<close> that is meant to abandon the file finishes it, and the entry is valid again.\<close>

theorem delete_of_complete_pending_file:
  fixes s :: "'a workload_scheme" and e :: env and f :: JSON
  assumes "st_inv s" and "json_plain cid" and "files_of s cid = Some f"
    and "file_status f CURRENT_STATUS = FILE_STATUS_PENDING" and "pending_has cid s"
    and "upgrade_status s = ENC_UPGRADE_STATUS_NONE" and "blocks_done (pending_get cid s)"
    and "enc_malloc e 191" and "\<And>ocs. block_number e fl (chain_block_info e ocs) = Some n"
    and "ToBytes (jget (jget (pending_get cid s) FILE_META) FILE_HASH) = Some hashs"
    and "\<And>t :: 'a workload_scheme. fst (persist_set_unsafe e cid hashs t) = SPACEX_SUCCESS"
  shows "\<exists>s'. storage_delete_file e fl alone cid s = Some (SPACEX_SUCCESS, s') \<and>
    files_of s' cid = Some (sealed_entry cid (sgx_sha256_msg e hashs) n (jget (pending_get cid s) FILE_META)) \<and>
    file_status (the (files_of s' cid)) CURRENT_STATUS = FILE_STATUS_VALID"
proof -
  have p: "pend_wf (pending_get cid s)" by (rule pend_wf_get [OF assms(1)])
  then have "obj_wf (jget (pending_get cid s) FILE_META)" "jget (jget (pending_get cid s) FILE_META) FILE_STATUS = JNull"
    by (simp_all add: pend_wf_def)
  note v = file_wf_sealed_entry(4) [OF assms(2) this, of CURRENT_STATUS "sgx_sha256_msg e hashs" n]
  show ?thesis by (rule delete_file_completes [OF assms]) (use v in auto)
qed

theorem delete_of_complete_pending_file_witness:
  "\<exists>s'. storage_delete_file demo_env demo_fl alone ''b'' demo_sealing = Some (SPACEX_SUCCESS, s') \<and>
    file_status (the (files_of s' ''b'')) CURRENT_STATUS = FILE_STATUS_VALID"
proof -
  have w: "file_wf (pending_entry ''b'')" "file_cid (pending_entry ''b'') = ''b''" "is_pending (Some (pending_entry ''b''))"
    using file_wf_pending_entry [OF demo_plain(2)] by (simp_all add: is_pending_def)
  have f: "files_of demo_sealing ''b'' = Some (pending_entry ''b'')" by (simp add: demo_sealing_facts)
  have p: "file_status (pending_entry ''b'') CURRENT_STATUS = FILE_STATUS_PENDING" using w(3) by (simp add: is_pending_def)
  from delete_of_complete_pending_file [OF demo_sealing_ok demo_plain(2) f p demo_sealing_facts(1,4), unfolded demo_sealing_facts(2),
      OF demo_sealing_facts(3) demo_env_ok(5) demo_sealing_facts(7,5) demo_set]
  show ?thesis by blast
qed

text \<open>The main loop's clean-up removes from the table exactly the queued files whose deletion is settled, keeps the
  other queued ones in the queue, and keeps the invariant.\<close>

theorem deal_deleted_removes_settled:
  assumes "wl_inv s"
  shows "(files_of (deal_deleted_file s) = (\<lambda>c. if c \<in> set (file_del_cid_s s) \<inter> removable_cids s then None else files_of s c)) \<and>
    (set (file_del_cid_s (deal_deleted_file s)) = set (file_del_cid_s s) - removable_cids s) \<and>
    wl_inv (deal_deleted_file s)"
  using deal_deleted_file_spec [OF assms] by blast

theorem deal_deleted_removes_settled_witness:
  "files_of (deal_deleted_file demo_enclave) = [''a'' \<mapsto> demo_file ''a'' ''100''] \<and> file_del_cid_s (deal_deleted_file demo_enclave) = []"
proof
  have f: "files_of demo_enclave = [''a'' \<mapsto> demo_file ''a'' ''100'', ''c'' \<mapsto> demo_file ''c'' ''333'']"
    by (auto simp: files_of_def demo_enclave_def demo_files_def demo_file_cid demo_plain)
  have q: "file_del_cid_s demo_enclave = [''c'']" by (simp add: demo_enclave_def)
  have "json_escape ''333'' = ''333''" by code_simp
  then have "removable (demo_file ''c'' ''333'')" by (simp add: removable_def demo_file_def str_char_def)
  then have r: "''c'' \<in> removable_cids demo_enclave" by (simp add: removable_cids_def f)
  show "files_of (deal_deleted_file demo_enclave) = [''a'' \<mapsto> demo_file ''a'' ''100'']"
    using r deal_deleted_removes_settled [OF demo_enclave_ok(1)] by (auto simp: q f fun_eq_iff)
  show "file_del_cid_s (deal_deleted_file demo_enclave) = []"
    using deal_deleted_removes_settled [OF demo_enclave_ok(1)] r by (simp add: q)
qed

section \<open>Restart and upgrade\<close>

text \<open>C13: what a restart brings back from the stored metadata: the items of random data, the files without the pending ones,
  the keys, the account and the upgrade marker; the restart flag is set, and the report height comes back as 0.\<close>

theorem metadata_survives_restart:
  fixes s :: "'a workload_scheme" and s0 :: "'b workload_scheme"
  assumes "wl_inv s" and "files_rt s" and "length (srd_hashs s) < 2 ^ 61" and "heap_ok e" and "unseal_inverts e"
    and "json_plain (account_id s)" and "\<not> prefix HASH_TAG (account_id s)"
    and "length (fst (id_key_pair s)) = 64" and "length (snd (id_key_pair s)) = 32" and "length (pre_pub_key s) = 64"
    and "id_store_metadata e s = (SPACEX_SUCCESS, s1)" and "upgrade_status s \<noteq> ENC_UPGRADE_STATUS_SUCCESS"
    and "db s0 = db s1" and "\<not> is_set_key_pair s0" and "srd_hashs s0 = []" and "sealed_files s0 = []" and "\<not> upgrade s0"
  shows "\<exists>s2. id_restore_metadata e fl s0 = Some (SPACEX_SUCCESS, s2) \<and> srd_hashs s2 = srd_hashs s \<and>
    sealed_files s2 = filter not_pending (sealed_files s) \<and> id_key_pair s2 = id_key_pair s \<and> account_id s2 = account_id s \<and>
    upgrade s2 = upgrade s \<and> restart_flag s2 = 1 \<and> report_height s2 = 0"
  by (rule metadata_roundtrip [OF assms]) blast

lemma demo_persist_set: "fst (persist_set demo_env k v s) = SPACEX_SUCCESS"
proof -
  have "sgx_seal_data_ex demo_env n d = Some d" "leveldb_ok demo_env i j" for n d i j by (simp_all add: demo_env_def)
  then show ?thesis
    by (simp add: persist_set_eq seal_data_mrenclave_def Sgx_seal_data_ex_def DataBase_set_def DataBase_put_def demo_env_ok)
qed

lemma demo_rt: "files_rt demo_enclave"
proof -
  have "json_rt (demo_file ''a'' ''100'')" "json_rt (demo_file ''c'' ''333'')" by code_simp+
  then show ?thesis
    by (simp add: files_rt_def demo_enclave_def demo_files_def demo_file_cid demo_plain)
qed

lemma demo_not_pending: "filter not_pending (sealed_files demo_enclave) = sealed_files demo_enclave"
  by (simp add: demo_enclave_def demo_files_def not_pending_def demo_file_def file_status_def get_char_def)

lemma demo_upgrade_info:
  obtains sj fj where "get_upgrade_srd_info demo_env s = (SPACEX_SUCCESS, sj)" and "get_upgrade_file_info demo_env s = (SPACEX_SUCCESS, fj)"
  using roots_defined(1) [OF demo_env_ok(1), of "srd_hashs s"]
  by (auto simp: get_upgrade_srd_info_def get_upgrade_file_info_def)

theorem metadata_survives_restart_witness:
  "\<exists>s1 s2. id_store_metadata demo_env demo_enclave = (SPACEX_SUCCESS, s1) \<and>
    id_restore_metadata demo_env demo_fl (Workload_init\<lparr>db := db s1\<rparr>) = Some (SPACEX_SUCCESS, s2) \<and>
    sealed_files s2 = sealed_files demo_enclave \<and> srd_hashs s2 = [replicate 42 9] \<and> account_id s2 = ''acc''"
proof -
  have "fst (id_store_metadata demo_env demo_enclave) = SPACEX_SUCCESS"
    by (simp add: id_store_metadata_def demo_enclave_guards demo_persist_set del: str_bytes_Cons)
  then obtain s1 where s1: "id_store_metadata demo_env demo_enclave = (SPACEX_SUCCESS, s1)" by (metis prod.collapse)
  let ?s0 = "Workload_init\<lparr>db := db s1\<rparr>"
  have d: "account_id demo_enclave = ''acc''" "id_key_pair demo_enclave = (replicate 64 1, replicate 32 2)"
    "pre_pub_key demo_enclave = replicate 64 0" "srd_hashs demo_enclave = [replicate 42 9]" "\<not> prefix HASH_TAG ''acc''"
    by (simp_all add: demo_enclave_def)
  have "\<exists>s2. id_restore_metadata demo_env demo_fl ?s0 = Some (SPACEX_SUCCESS, s2) \<and> srd_hashs s2 = srd_hashs demo_enclave \<and>
    sealed_files s2 = filter not_pending (sealed_files demo_enclave) \<and> id_key_pair s2 = id_key_pair demo_enclave \<and>
    account_id s2 = account_id demo_enclave \<and> upgrade s2 = upgrade demo_enclave \<and> restart_flag s2 = 1 \<and> report_height s2 = 0"
    by (rule metadata_survives_restart [OF demo_enclave_ok(1) demo_rt _ demo_env_ok(1,4) _ _ _ _ _ s1])
       (simp_all add: d demo_plain demo_enclave_guards, simp_all add: Workload_init_def)
  then show ?thesis using s1 demo_not_pending d by auto
qed

text \<open>C14: the upgrade data that one enclave stores and signs, read by a fresh one, passes the verification and moves the whole
  workload: the items of random data and the files, without the pending ones. The new enclave then enters the network.\<close>

theorem upgrade_moves_workload:
  fixes s :: "'a workload_scheme" and s0 :: "'b workload_scheme"
  assumes "wl_inv s" and "files_rt s" and "length (srd_hashs s) < 2 ^ 61" and "sealed_files s = [] \<or> filter not_pending (sealed_files s) \<noteq> []"
    and "heap_ok e" and "sha256_length e" and "sig_sound e (id_key_pair s)"
    and "length (fst (id_key_pair s)) = 64" and "json_plain bh" and "\<not> prefix HASH_TAG bh"
    and "srd_hashs s0 = []" and "sealed_files s0 = []"
    and "get_upgrade_srd_info e s = (SPACEX_SUCCESS, sj)" and "get_upgrade_file_info e s = (SPACEX_SUCCESS, fj)"
    and "sgx_ecdsa_sign e (upgrade_sig_buffer (fst (id_key_pair s)) (nat_to_string n) bh
      (hash_bytes (jget sj WL_SRD_ROOT_HASH)) (hash_bytes (jget fj WL_FILE_ROOT_HASH))) (snd (id_key_pair s)) = Some sig"
  shows "\<exists>s2. id_restore_from_upgrade e fl (dump_vector (double_to_string e)
       (upgrade_json e (fst (id_key_pair s)) (nat_to_string n) bh sj fj sig)) s0 =
         enter_network e (nat_to_string n) bh (fst (id_key_pair s)) s2 \<and>
       srd_hashs s2 = srd_hashs s \<and> sealed_files s2 = filter not_pending (sealed_files s)"
  by (rule upgrade_roundtrip [OF assms]) blast

theorem upgrade_moves_workload_witness:
  "\<exists>sj fj sig s2. get_upgrade_srd_info demo_env demo_enclave = (SPACEX_SUCCESS, sj) \<and>
     id_restore_from_upgrade demo_env demo_fl (dump_vector (double_to_string demo_env)
       (upgrade_json demo_env (replicate 64 1) (nat_to_string 1200) ''ab'' sj fj sig)) Workload_init =
         enter_network demo_env (nat_to_string 1200) ''ab'' (replicate 64 1) s2 \<and>
     srd_hashs s2 = srd_hashs demo_enclave \<and> sealed_files s2 = sealed_files demo_enclave"
proof -
  obtain sj fj where i: "get_upgrade_srd_info demo_env demo_enclave = (SPACEX_SUCCESS, sj)"
    "get_upgrade_file_info demo_env demo_enclave = (SPACEX_SUCCESS, fj)"
    by (rule demo_upgrade_info)
  have k: "id_key_pair demo_enclave = (replicate 64 1, replicate 32 2)" "length (srd_hashs demo_enclave) = 1" "sealed_files demo_enclave \<noteq> []"
    by (simp_all add: demo_enclave_def demo_files_def)
  have b: "json_plain ''ab''" "\<not> prefix HASH_TAG ''ab''" by (code_simp, simp)
  have g: "sig_sound demo_env kp" for kp by (simp add: sig_sound_def demo_env_def)
  have "\<exists>s2. id_restore_from_upgrade demo_env demo_fl (dump_vector (double_to_string demo_env)
       (upgrade_json demo_env (fst (id_key_pair demo_enclave)) (nat_to_string 1200) ''ab'' sj fj (replicate 64 5))) Workload_init =
         enter_network demo_env (nat_to_string 1200) ''ab'' (fst (id_key_pair demo_enclave)) s2 \<and>
       srd_hashs s2 = srd_hashs demo_enclave \<and> sealed_files s2 = filter not_pending (sealed_files demo_enclave)"
    by (rule upgrade_moves_workload [OF demo_enclave_ok(1) demo_rt _ _ demo_env_ok(1,2) g _ b _ _ i])
       (simp_all add: k demo_not_pending demo_outside Workload_init_def)
  then show ?thesis using i(1) k demo_not_pending by auto
qed

text \<open>An upgrade that nothing stands in the way of succeeds for every current block after the end of the slot: the report at
  the last finished slot is made and taken, the data is signed and stored.\<close>

theorem upgrade_succeeds:
  assumes "unat b + REPORT_SLOT < 2 ^ 64" and "report_height s + of_nat REPORT_SLOT < b" and "report_height s < b"
    and "restart_flag s \<le> 0" and "report_files s" and "report_has_validated_proof s"
    and "heap_ok e" and "outside_ok e s" and "\<forall>d k. sgx_ecdsa_sign e d k \<noteq> None"
    and "\<forall>h. ocall_ret e h Ocall_upload_workreport = SPACEX_SUCCESS"
    and "\<forall>h k. \<exists>bh. block_hash_at e h k = (SPACEX_SUCCESS, bh) \<and> HASH_LENGTH * 2 \<le> length bh"
  shows "\<exists>s'. id_gen_upgrade_data e b s = Some (SPACEX_SUCCESS, s')"
  using gen_upgrade_ok [OF assms] .

theorem upgrade_succeeds_witness: "\<exists>s'. id_gen_upgrade_data demo_env 5000 demo_enclave = Some (SPACEX_SUCCESS, s')"
  by (rule upgrade_succeeds) (simp_all add: demo_enclave_guards demo_env_ok demo_outside)

text \<open>The loop that looks for the height of the last report before an upgrade ends, and its result is the last height
  before the current block that is a whole number of slots after the last report.\<close>

theorem upgrade_height_terminates:
  assumes "unat b + REPORT_SLOT < 2 ^ 64" and "h < b"
  shows "\<exists>h' k. era_loop b h = Some h' \<and> unat h' = unat h + k * REPORT_SLOT \<and> h' < b \<and> unat b \<le> unat h' + REPORT_SLOT"
  using era_loop_spec [OF assms] .

theorem upgrade_height_terminates_witness: "\<exists>h' k. era_loop 5000 0 = Some h' \<and> unat h' = k * 1200 \<and> 3800 \<le> unat h' \<and> h' < 5000"
proof -
  have "\<exists>h' k. era_loop 5000 0 = Some h' \<and> unat h' = unat (0 :: size_t) + k * REPORT_SLOT \<and> h' < 5000 \<and>
    unat (5000 :: size_t) \<le> unat h' + REPORT_SLOT"
    by (rule upgrade_height_terminates) simp_all
  then show ?thesis by auto
qed

text \<open>At the first block that the guard of the upgrade lets through, exactly one slot after the last report, the loop does not
  run, the report is asked for at the old height, and the upgrade fails although the slot is over.\<close>

theorem upgrade_at_slot_end_fails:
  assumes "unat (report_height s) + REPORT_SLOT < 2 ^ 64" and "b = report_height s + of_nat REPORT_SLOT"
    and "fst (block_hash_at e (ocalls s) (report_height s)) = SPACEX_SUCCESS"
  shows "\<exists>s'. id_gen_upgrade_data e b s = Some (SPACEX_UPGRADE_GEN_WORKREPORT_FAILED, s')"
  using upgrade_first_block [OF assms] .

theorem upgrade_at_slot_end_fails_witness:
  "\<exists>s'. id_gen_upgrade_data demo_env 1200 demo_enclave = Some (SPACEX_UPGRADE_GEN_WORKREPORT_FAILED, s')"
  by (rule upgrade_at_slot_end_fails) (simp_all add: demo_enclave_guards demo_outside)

text \<open>C15: upgrade data with a signature that does not verify is refused, but only after its workload has been restored: the enclave
  that refused it holds the items and the files of the data.\<close>

theorem unverified_upgrade_keeps_workload:
  fixes s :: "'a workload_scheme" and s0 :: "'b workload_scheme"
  assumes "wl_inv s" and "files_rt s" and "length (srd_hashs s) < 2 ^ 61" and "heap_ok e"
    and "length pub = 64" and "json_plain bh" and "\<not> prefix HASH_TAG bh"
    and "srd_hashs s0 = []" and "sealed_files s0 = []"
    and "get_upgrade_srd_info e s = (SPACEX_SUCCESS, sj)" and "get_upgrade_file_info e s = (SPACEX_SUCCESS, fj)"
    and "length sig = 64" and "\<forall>d. \<not> sgx_ecdsa_verify e d pub sig"
  shows "\<exists>s2. id_restore_from_upgrade e fl (dump_vector (double_to_string e)
       (upgrade_json e pub (nat_to_string n) bh sj fj sig)) s0 = Some (SPACEX_SGX_VERIFY_SIG_FAILED, s2) \<and>
     srd_hashs s2 = srd_hashs s \<and> sealed_files s2 = filter not_pending (sealed_files s)"
  by (rule upgrade_unverified [OF assms]) blast

theorem unverified_upgrade_keeps_workload_witness:
  "\<exists>sj fj s2. get_upgrade_srd_info demo_env demo_enclave = (SPACEX_SUCCESS, sj) \<and>
     id_restore_from_upgrade demo_env demo_fl (dump_vector (double_to_string demo_env)
       (upgrade_json demo_env (replicate 64 1) (nat_to_string 1200) ''ab'' sj fj (replicate 64 6))) Workload_init =
         Some (SPACEX_SGX_VERIFY_SIG_FAILED, s2) \<and>
     srd_hashs s2 = srd_hashs demo_enclave \<and> sealed_files s2 = sealed_files demo_enclave"
proof -
  obtain sj fj where i: "get_upgrade_srd_info demo_env demo_enclave = (SPACEX_SUCCESS, sj)"
    "get_upgrade_file_info demo_env demo_enclave = (SPACEX_SUCCESS, fj)"
    by (rule demo_upgrade_info)
  have k: "length (srd_hashs demo_enclave) = 1" by (simp add: demo_enclave_def)
  have b: "json_plain ''ab''" "\<not> prefix HASH_TAG ''ab''" by (code_simp, simp)
  have v: "\<forall>d. \<not> sgx_ecdsa_verify demo_env d (replicate 64 1) (replicate 64 6)"
    by (simp add: demo_env_def numeral_eq_Suc)
  have "\<exists>s2. id_restore_from_upgrade demo_env demo_fl (dump_vector (double_to_string demo_env)
       (upgrade_json demo_env (replicate 64 1) (nat_to_string 1200) ''ab'' sj fj (replicate 64 6))) Workload_init =
         Some (SPACEX_SGX_VERIFY_SIG_FAILED, s2) \<and>
     srd_hashs s2 = srd_hashs demo_enclave \<and> sealed_files s2 = filter not_pending (sealed_files demo_enclave)"
    by (rule unverified_upgrade_keeps_workload [OF demo_enclave_ok(1) demo_rt _ demo_env_ok(1) _ b _ _ i _ v])
       (simp_all add: k Workload_init_def)
  then show ?thesis using i(1) by (auto simp: demo_not_pending)
qed

section \<open>Blocks and documents\<close>

text \<open>C16: a link block is never sealed: the status that the parser is given is an error already, the parser never clears it, so the
  call fails, writes no path and drops the pending file.\<close>

theorem link_blocks_are_refused:
  assumes "storage_seal_file e fl other root data True s = Some (ret, path, s')" and "data \<noteq> []"
  shows "ret \<noteq> SPACEX_SUCCESS \<and>
    (path = []) \<and>
    \<not> pending_has root s'"
  using seal_link_fails [OF assms] by blast

theorem link_blocks_are_refused_witness:
  "\<exists>ret path s'. storage_seal_file demo_env demo_fl alone ''b'' [0x78] True demo_sealing = Some (ret, path, s') \<and>
     ret \<noteq> SPACEX_SUCCESS \<and> path = [] \<and> \<not> pending_has ''b'' s'"
proof -
  have "bytes_str [0x78] = ''x''" by code_simp
  moreover have "\<exists>j. Load_status demo_env demo_fl SPACEX_UNEXPECTED_ERROR ''x'' = POk (j, SPACEX_JSON_STARTING_ERROR)"
  proof -
    have c: "\<not> is_digit (CHR ''x'')" "\<not> isspace (CHR ''x'')" by code_simp+
    then have "parse_next demo_env demo_fl (Suc 3) SPACEX_UNEXPECTED_ERROR ''x'' = POk (JNull, SPACEX_JSON_STARTING_ERROR, ''x'')"
      by (subst parse_next.simps(2)) (simp add: consume_ws_Cons)
    then show ?thesis by (simp add: Load_status_def)
  qed
  ultimately have "\<exists>ret path s'. storage_seal_file demo_env demo_fl alone ''b'' [0x78] True demo_sealing = Some (ret, path, s')"
    using demo_sealing_facts(1,4) by (auto simp: storage_seal_file_def link_data_def)
  then obtain ret path s' where r: "storage_seal_file demo_env demo_fl alone ''b'' [0x78] True demo_sealing = Some (ret, path, s')"
    by blast
  with link_blocks_are_refused [OF r] show ?thesis by blast
qed

text \<open>C17: the scan of a block finds exactly the hashes of its links, in order, for blocks as IPFS writes them: links with a hash of
  32 bytes and a short name and size, followed by the data.\<close>

theorem block_links_are_read:
  assumes "heap_ok e" and "\<forall>l \<in> set ls. length (fst l) = HASH_LENGTH \<and> length (snd l) < 90"
    and "data \<noteq> []" and "hd data \<noteq> 0x12"
  shows "get_hashs_from_block e (concat (map pb_link ls) @ data) = Some (SPACEX_SUCCESS, map fst ls)"
  using hashs_loop_pb [OF assms, of "[]" "[]"] assms(3) by (simp add: get_hashs_from_block_def)

theorem block_links_are_read_witness:
  "get_hashs_from_block demo_env (pb_link (replicate 32 7, [18, 0, 24, 5]) @ [0x0A, 0]) = Some (SPACEX_SUCCESS, [replicate 32 7])"
  using block_links_are_read [OF demo_env_ok(1), of "[(replicate 32 7, [18, 0, 24, 5])]" "[0x0A, 0]"] by simp

text \<open>On any block in which no five bytes in a row continue a number the scan is defined: it reads inside the block, ends, and gives
  hashes of 32 bytes or runs out of memory.\<close>

theorem block_scan_is_defined:
  assumes "short_varints blk"
  shows "\<exists>st hs. get_hashs_from_block e blk = Some (st, hs) \<and> list_all (\<lambda>h. length h = HASH_LENGTH) hs \<and>
    st \<in> {SPACEX_SUCCESS, SPACEX_MALLOC_FAILED}"
  using hashs_loop_defined [OF assms, of "[]" e 0] by (simp add: get_hashs_from_block_def)

theorem block_scan_is_defined_witness:
  "\<exists>st hs. get_hashs_from_block demo_env [0x12, 0xFF, 0xFF, 3, 9] = Some (st, hs) \<and> list_all (\<lambda>h. length h = HASH_LENGTH) hs"
proof -
  have "short_varints [0x12, 0xFF, 0xFF, 3, 9]"
    unfolding short_varints_def
  proof (intro allI impI)
    fix i assume "i < length [0x12, 0xFF, 0xFF, 3, 9 :: byte]" "i + 5 \<le> length [0x12, 0xFF, 0xFF, 3, 9 :: byte]"
    then show "\<exists>j < 5. [0x12, 0xFF, 0xFF, 3, 9 :: byte] ! (i + j) < 0x80" by (intro exI [of _ 0]) simp
  qed
  from block_scan_is_defined [OF this, of demo_env] show ?thesis by blast
qed



text \<open>C19: the parser ends on every input: it never runs out of the fuel of two steps per character, so every input gives a value with a
  status, an exception, or a read outside the buffer.\<close>

theorem json_load_terminates: "Load e fl inp \<noteq> PFuel"
  by (rule Load_fuel)

section \<open>The boundary of the enclave\<close>

text \<open>Data that leaves the enclave in parts of 4 MB arrives outside as one piece, exactly once, and the pool of half-received
  buffers is as before.\<close>

theorem store_out_delivers:
  assumes "store2_ready e data (rand_key e (length (ocalls s))) s" and "data \<noteq> []"
  shows "safe_ocall_store2 e t data s = (SPACEX_SUCCESS, emit (Ocall_store2 t data) s)"
  using store2_delivers [OF assms] .

theorem store_out_delivers_witness:
  "safe_ocall_store2 demo_env OCALL_STORE_WORKREPORT [1, 2, 3] demo_enclave =
     (SPACEX_SUCCESS, emit (Ocall_store2 OCALL_STORE_WORKREPORT [1, 2, 3]) demo_enclave)"
  by (rule store_out_delivers) (simp_all add: store2_ready_def demo_enclave_guards demo_env_def)

text \<open>C20: upgrade data that comes into the enclave in parts has the effect of one call with the whole data; but the enclave does not
  compare a part with the room that is left, and a part that does not fit is written past the buffer.\<close>

theorem store_in_delivers:
  assumes "g_ecall_buffer_pool s key = None"
  shows "(data \<noteq> [] \<longrightarrow> malloc e 0 (length data) \<longrightarrow> safe_ecall_store2 e fl data key s = store2_in_result e fl data key s) \<and>
    (malloc e 0 tot \<longrightarrow> off < tot \<longrightarrow> tot < off + length part \<longrightarrow> ecall_safe_store2 e fl part tot off key s = None)"
  using safe_ecall_store2_delivers [OF assms] ecall_safe_store2_overrun [OF assms] by blast

theorem store_in_delivers_witness:
  "safe_ecall_store2 demo_env demo_fl [1, 2, 3] 0 demo_enclave = store2_in_result demo_env demo_fl [1, 2, 3] 0 demo_enclave \<and>
   ecall_safe_store2 demo_env demo_fl [1, 2, 3] 2 1 0 demo_enclave = None"
proof -
  have "g_ecall_buffer_pool demo_enclave 0 = None" "malloc demo_env 0 n" for n by (simp_all add: demo_enclave_def demo_env_def)
  with store_in_delivers [of demo_enclave 0] show ?thesis by simp
qed

text \<open>Storing a value in the database in parts of 4 MB has the effect and the status of storing it at once, for every length; the
  sealed variant seals first and stores nothing when sealing fails.\<close>

theorem persist_parts_is_one_put:
  "persist_set_unsafe e key val s = DataBase_set e key val s \<and>
   persist_set e key val s =
     (case seal_data_mrenclave e (db_ops s) val of Inl err \<Rightarrow> (err, s) | Inr c \<Rightarrow> DataBase_set e key c s)"
  using persist_set_unsafe_eq persist_set_eq by blast

text \<open>A value that was stored is read back, sealed or not.\<close>

theorem persist_get_after_set:
  assumes "heap_ok e"
  shows "(persist_set_unsafe e key val s = (SPACEX_SUCCESS, s') \<longrightarrow> persist_get_unsafe e key s' = (SPACEX_SUCCESS, val)) \<and>
    (unseal_inverts e \<longrightarrow> persist_set e key val s = (SPACEX_SUCCESS, s') \<longrightarrow> persist_get e key s' = (SPACEX_SUCCESS, Some val))"
proof -
  have "enc_malloc e n" for n using assms by (simp add: heap_ok_def)
  then show ?thesis using persist_unsafe_roundtrip persist_roundtrip assms by blast
qed

theorem persist_get_after_set_witness:
  "persist_get demo_env ''k'' (snd (persist_set demo_env ''k'' [1, 2] demo_enclave)) = (SPACEX_SUCCESS, Some [1, 2])"
  using persist_get_after_set [OF demo_env_ok(1), of "''k''" "[1, 2]" demo_enclave] demo_env_ok(4) demo_persist_set [of "''k''" "[1, 2]" demo_enclave]
  by (metis prod.collapse)

section \<open>Random data\<close>

text \<open>Making an item of random data adds exactly one item of 42 bytes with the uuid of the disk when it succeeds and none when it
  fails; the invariant holds after it, and the statistics still agree with the items.\<close>

theorem srd_increase_adds_one:
  assumes "srd_increase e uuid s = (st, s')" and "rand_length e" and "sha256_length e"
    and "uuid = plain_hex u" and "length u = UUID_LENGTH" and "heap_ok e"
  shows "(st \<noteq> SPACEX_SUCCESS \<longrightarrow> srd_hashs s' = srd_hashs s) \<and>
    (st = SPACEX_SUCCESS \<longrightarrow> (\<exists>item. srd_hashs s' = srd_hashs s @ [item] \<and> length item = SRD_LENGTH \<and> srd_uuid item = uuid)) \<and>
    (wl_inv s \<longrightarrow> wl_inv s') \<and>
    (srd_consistent s \<longrightarrow> length (srd_hashs s) < 2 ^ 61 \<longrightarrow> srd_consistent s')"
  using srd_increase_spec [OF assms] by blast

theorem srd_increase_adds_one_witness: "wl_inv (snd (srd_increase demo_env ''0102030405060708'' demo_enclave))"
proof -
  have u: "''0102030405060708'' = plain_hex [1, 2, 3, 4, 5, 6, 7, 8]" by code_simp
  obtain st s' where r: "srd_increase demo_env ''0102030405060708'' demo_enclave = (st, s')" by fastforce
  from srd_increase_adds_one [OF r demo_env_ok(3,2) u _ demo_env_ok(1)] demo_enclave_ok(1) r show ?thesis by simp
qed

text \<open>Removing items first drops those marked as deleted, then takes the requested number from the end, or all of them; it
  returns how many it took, and keeps the invariant and the agreement of the statistics.\<close>

theorem srd_decrease_takes_last:
  fixes s :: "'a workload_scheme" and hs :: "bytes list"
  assumes "wl_inv s" and "hs = nths (srd_hashs s) (- set (srd_del_idx_s s))"
  shows "(fst (srd_decrease e change s) = min change (length hs)) \<and>
    (srd_hashs (snd (srd_decrease e change s)) = take (length hs - min change (length hs)) hs) \<and>
    wl_inv (snd (srd_decrease e change s)) \<and>
    (heap_ok e \<longrightarrow> srd_consistent s \<longrightarrow> length (srd_hashs s) < 2 ^ 61 \<longrightarrow> srd_consistent (snd (srd_decrease e change s)))"
  using srd_decrease_spec [OF assms(1), of e change] unfolding assms(2) by blast

theorem srd_decrease_takes_last_witness:
  "fst (srd_decrease demo_env 3 demo_enclave) = 1 \<and> srd_hashs (snd (srd_decrease demo_env 3 demo_enclave)) = []"
proof -
  have "srd_hashs demo_enclave = [replicate 42 9]" "srd_del_idx_s demo_enclave = []" by (simp_all add: demo_enclave_def)
  then have h: "[replicate 42 9] = nths (srd_hashs demo_enclave) (- set (srd_del_idx_s demo_enclave))" by (simp add: nths_singleton)
  from srd_decrease_takes_last [OF demo_enclave_ok(1) h, of demo_env 3] show ?thesis by simp
qed

text \<open>The loop that picks the items to remove from given disks: when every disk has as many items as are to go, it stays inside the
  vector and picks that many, each once; when more is asked for than there are items, the unsigned index wraps below 0 and the
  loop reads outside the vector.\<close>

theorem srd_remove_picks:
  assumes "heap_ok e" and "finite U" and "i < length hs"
  shows "(remove_inv hs U (Suc i) del change \<longrightarrow>
      (\<exists>srds idxs. remove_loop e hs i del change [] [] = Some (srds, idxs) \<and> length srds = nat change \<and>
        length idxs = nat change \<and> distinct idxs \<and> set idxs \<subseteq> {..i})) \<and>
    (int (Suc i) < change \<longrightarrow> remove_loop e hs i del change [] [] = None)"
proof (intro conjI impI)
  show "remove_loop e hs i del change [] [] = None" if "int (Suc i) < change" using that by (rule remove_loop_overrun)
  assume "remove_inv hs U (Suc i) del change"
  from remove_loop_ok [OF assms this, of "[]" "[]"]
  obtain srds idxs where r: "remove_loop e hs i del change [] [] = Some (srds, idxs)" "length srds = nat change"
    "length idxs = nat change" "sorted_wrt (>) idxs" "set idxs \<subseteq> {..i}" by auto
  have "sorted_wrt (<) (rev idxs)" using r(4) by (simp add: sorted_wrt_rev)
  then have "distinct idxs" using strict_sorted_iff [of "rev idxs"] by simp
  with r show "\<exists>srds idxs. remove_loop e hs i del change [] [] = Some (srds, idxs) \<and> length srds = nat change \<and>
        length idxs = nat change \<and> distinct idxs \<and> set idxs \<subseteq> {..i}" by blast
qed

theorem srd_remove_picks_witness:
  "remove_loop demo_env [replicate 42 9] 0 (JObject []) 2 [] [] = None \<and>
   (\<exists>srds. remove_loop demo_env [replicate 42 9] 0 (JObject [(''0909090909090909'', JIntegral 1)]) 1 [] [] = Some (srds, [0]))"
proof
  show "remove_loop demo_env [replicate 42 9] 0 (JObject []) 2 [] [] = None"
    using srd_remove_picks [OF demo_env_ok(1), of "{}" 0 "[replicate 42 9]" "JObject []" 2] by simp
  let ?del = "JObject [(''0909090909090909'', JIntegral 1)]"
  have u: "srd_uuid (replicate 42 9) = ''0909090909090909''" by code_simp
  have g: "jget ?del v = (if v = ''0909090909090909'' then JIntegral 1 else JNull)" for v
    by (simp add: jget_def map_get_def)
  have "remove_inv [replicate 42 9] {''0909090909090909''} (Suc 0) ?del 1"
    using u by (auto simp: remove_inv_def g need_def num_wf_def disk_count_def)
  with srd_remove_picks [OF demo_env_ok(1), of "{''0909090909090909''}" 0 "[replicate 42 9]" ?del 1]
  obtain srds idxs where r: "remove_loop demo_env [replicate 42 9] 0 ?del 1 [] [] = Some (srds, idxs)" "length idxs = 1" "set idxs \<subseteq> {0}"
    by auto
  then have "idxs = [0]" by (cases idxs) auto
  with r(1) show "\<exists>srds. remove_loop demo_env [replicate 42 9] 0 ?del 1 [] [] = Some (srds, [0])" by blast
qed

text \<open>C21: a change of the task: a decrease is taken as it is; an increase is cut so that the items and the task together stay at most
  512000, and the result tells when it was cut. At the end of the range of \<open>long\<close> the sum wraps, the check passes, and
  the task is set far above the limit.\<close>

theorem srd_task_limit:
  fixes s :: "'a srd_scheme"
  shows "(length (srd_hashs s) < 2 ^ 60 \<longrightarrow> \<bar>g_srd_task s\<bar> < 2 ^ 60 \<longrightarrow> \<bar>change\<bar> < 2 ^ 61 \<longrightarrow> change \<le> 0 \<longrightarrow>
      fst (change_srd_task e change s) = SPACEX_SUCCESS \<and> g_srd_task (snd (snd (change_srd_task e change s))) = g_srd_task s + change) \<and>
    (length (srd_hashs s) < 2 ^ 60 \<longrightarrow> \<bar>g_srd_task s\<bar> < 2 ^ 60 \<longrightarrow> \<bar>change\<bar> < 2 ^ 61 \<longrightarrow> 0 < change \<longrightarrow>
      g_srd_task (snd (snd (change_srd_task e change s))) =
        g_srd_task s + max 0 (min change (int SRD_NUMBER_UPPER_LIMIT - (int (length (srd_hashs s)) + g_srd_task s))) \<and>
      (fst (change_srd_task e change s) = SPACEX_SUCCESS \<longleftrightarrow>
        int (length (srd_hashs s)) + g_srd_task s + change \<le> int SRD_NUMBER_UPPER_LIMIT)) \<and>
    (srd_hashs s \<noteq> [] \<longrightarrow> length (srd_hashs s) < SRD_NUMBER_UPPER_LIMIT \<longrightarrow> g_srd_task s = 0 \<longrightarrow>
      fst (change_srd_task e (2 ^ 63 - 1) s) = SPACEX_SUCCESS \<and> g_srd_task (snd (snd (change_srd_task e (2 ^ 63 - 1) s))) = 2 ^ 63 - 1)"
  using change_srd_task_spec [of s change e] change_srd_task_overflow [of s e] by auto

theorem srd_task_limit_witness:
  "g_srd_task (snd (snd (change_srd_task demo_env 600000 demo_enclave))) = 511999 \<and>
   g_srd_task (snd (snd (change_srd_task demo_env (2 ^ 63 - 1) (demo_enclave\<lparr>g_srd_task := 0\<rparr>)))) = 2 ^ 63 - 1"
proof
  have d: "length (srd_hashs demo_enclave) = 1" "g_srd_task demo_enclave = 100" by (simp_all add: demo_enclave_def)
  from srd_task_limit [of demo_enclave 600000 demo_env] d
  show "g_srd_task (snd (snd (change_srd_task demo_env 600000 demo_enclave))) = 511999" by simp
  from srd_task_limit [of "demo_enclave\<lparr>g_srd_task := 0\<rparr>" 0 demo_env] d
  show "g_srd_task (snd (snd (change_srd_task demo_env (2 ^ 63 - 1) (demo_enclave\<lparr>g_srd_task := 0\<rparr>)))) = 2 ^ 63 - 1"
    by force
qed



section \<open>Content identifiers\<close>

text \<open>C23: every hash of 32 bytes has a content identifier: the conversion to base 58 stays inside its buffer and gives 46 characters,
  whose value in base 58 is the prefix and the hash as one number; and two hashes have the same identifier only if they are equal.\<close>

theorem hash_to_cid_correct:
  assumes "length hash = HASH_LENGTH"
  shows "(\<exists>cid. hash_to_cid hash = Some cid \<and> length cid = CID_LENGTH \<and>
      base58_value cid = 4640 * 256 ^ 32 + high_value 256 (map unat hash)) \<and>
    (length hash' = HASH_LENGTH \<longrightarrow> hash_to_cid hash' = hash_to_cid hash \<longrightarrow> hash' = hash)"
proof (intro conjI)
  show "\<exists>cid. hash_to_cid hash = Some cid \<and> length cid = CID_LENGTH \<and>
      base58_value cid = 4640 * 256 ^ 32 + high_value 256 (map unat hash)"
    by (rule hash_to_cid_spec [OF assms]) blast
  show "length hash' = HASH_LENGTH \<longrightarrow> hash_to_cid hash' = hash_to_cid hash \<longrightarrow> hash' = hash"
    using hash_to_cid_inject assms by blast
qed

theorem hash_to_cid_correct_witness:
  "(\<exists>cid. hash_to_cid (replicate 32 0) = Some cid \<and> length cid = CID_LENGTH) \<and>
   hash_to_cid (replicate 32 1) \<noteq> hash_to_cid (replicate 32 0)"
proof -
  have ne: "replicate 32 (1 :: byte) \<noteq> replicate 32 0" by simp
  have l: "length (replicate 32 (0 :: byte)) = HASH_LENGTH" by simp
  show ?thesis using hash_to_cid_correct [OF l, of "replicate 32 1"] ne by auto
qed

section \<open>The application and the enclave\<close>

text \<open>An enclave without files, and an application with one disk of 100 gigabytes under \<open>/d\<close>.\<close>

definition demo_blank :: enclave where
  "demo_blank = demo_enclave\<lparr>sealed_files := [], file_del_cid_s := []\<rparr>"

lemma demo_blank_ok: "st_inv demo_blank" "tracked demo_blank" "ocalls demo_blank = []" "files_of demo_blank cid = None"
  "upgrade_status demo_blank = ENC_UPGRADE_STATUS_NONE" "sealed_files demo_blank = []" "pending_files_um demo_blank = []"
proof -
  have "wl_inv demo_blank"
    using demo_enclave_ok(1) by (simp add: wl_inv_def demo_blank_def files_sorted_def)
  then show "st_inv demo_blank" by (simp add: st_inv_def) (simp add: demo_blank_def demo_enclave_def)
qed (simp_all add: demo_blank_def demo_enclave_def tracked_def pending_has_def files_of_def)

definition demo_os :: os where
  "demo_os =
     \<lparr>statfs_of = (\<lambda>_. Some \<lparr>f_bsize = 2 ^ 20, f_blocks = 2 ^ 20, f_bavail = 100 * 2 ^ 10, f_fsid = [1]\<rparr>),
      mkdir_ok = (\<lambda>_. True), open_ok = (\<lambda>_. True), written = (\<lambda>_ d. d)\<rparr>"

definition demo_app :: app where
  "demo_app =
     \<lparr>enclave_id_info = [], ed_upgrade_data = [], ed_upgrade_status = UPGRADE_STATUS_NONE, sealed_file = [],
      pending_file_size_um = (\<lambda>_. 0), ed_srd_info = JObject [(WL_SRD_DETAIL, JObject [(''0909090909090909'', JIntegral 1)])],
      uuid_to_disk_path = Map.empty(''0909090909090909'' \<mapsto> ''/d''), disk_path_to_uuid = Map.empty(''/d'' \<mapsto> ''0909090909090909''),
      ed_workreport = [], app_tree = \<lparr>ft_dirs = {''/d''}, ft_files = Map.empty(''/d/storage/uuid'' \<mapsto> str_bytes ''0909090909090909'')\<rparr>,
      app_conf = \<lparr>cf_base_path = ''/o'', cf_sys_fsid = ''00'', cf_data_paths = [''/d''], cf_org_data_paths = [''/d'', ''/e'']\<rparr>,
      g_running_srd_task = 0\<rparr>"

text \<open>C24: the list that the application keeps follows the enclave. After any sequence of starting, sealing, finishing, deleting and
  validating files, one operation at a time, replaying the enclave's calls on the application gives a list in which looking a
  file up answers with the type of the enclave's entry, and with nothing for a file that the enclave does not have or has deleted.\<close>

theorem app_lists_enclave_files:
  fixes d0 :: "'b enclave_data_scheme" and s :: "'a validator_scheme"
  assumes "(file_step e fl)\<^sup>*\<^sup>* s s'" and "st_inv s" and "tracked s" and "ed_inv d0"
    and "replay (app_ocall e fl now) [] (ocalls s) d0 = Some d" and "\<forall>cid. listed_as cid d = set_option (shown_type (files_of s cid))"
  shows "\<exists>d'. replay (app_ocall e fl now) [] (ocalls s') d0 = Some d' \<and> (\<forall>cid. find_file_type cid d' = shown_type (files_of s' cid))"
  using assms by (rule mirror_run)

theorem app_lists_enclave_files_witness:
  "\<exists>d'. replay (app_ocall demo_env demo_fl (\<lambda>_. 0)) [] (ocalls (snd (storage_seal_file_start alone ''b'' ''x'' demo_blank))) EnclaveData_init = Some d' \<and>
     find_file_type ''b'' d' = Some FILE_TYPE_PENDING"
proof -
  let ?s' = "snd (storage_seal_file_start alone ''b'' ''x'' demo_blank)"
  have "file_step demo_env demo_fl demo_blank ?s'" by (rule file_step.start) (rule demo_plain(2))
  then have r: "(file_step demo_env demo_fl)\<^sup>*\<^sup>* demo_blank ?s'" by (rule r_into_rtranclp)
  have l: "\<forall>cid. listed_as cid EnclaveData_init = set_option (shown_type (files_of demo_blank cid))"
    by (simp add: demo_blank_ok shown_type_def listed_as_def files_of_type_def EnclaveData_init_def)
  have "replay (app_ocall demo_env demo_fl (\<lambda>_. 0)) [] (ocalls demo_blank) EnclaveData_init = Some EnclaveData_init"
    by (simp add: demo_blank_ok)
  note m = app_lists_enclave_files [OF r demo_blank_ok(1,2) ed_inv_init this l]
  have "files_of ?s' = (files_of demo_blank)(''b'' \<mapsto> pending_entry ''b'')"
    using seal_start_spec(3) [OF demo_blank_ok(1) demo_plain(2) demo_blank_ok(5), of "''x''"] by (simp add: demo_blank_ok sealable_def)
  then have "shown_type (files_of ?s' ''b'') = Some FILE_TYPE_PENDING"
    using file_wf_pending_entry(3) [OF demo_plain(2)] by (simp add: shown_simps)
  with m show ?thesis by metis
qed



text \<open>C26: the application asks for work reports at heights that the enclave takes. Starting with the enclave's height at 0, whatever happens
  during the sleeps as long as nobody else makes reports, every height asked for is the first block of a slot and at least one slot past the one before,
  and the enclave never answers that a height is expired.\<close>

theorem report_heights_advance:
  assumes "report_height (rw_enclave w) = 0" and "\<forall>n s. report_height (meanwhile (g n) s) = report_height s"
    and "\<forall>h. ocall_ret e h Ocall_upload_workreport \<noteq> SPACEX_BLOCK_HEIGHT_EXPIRED" and "\<forall>k j i. keeps_height (other k j i)"
    and "\<forall>bh c. get_block_header e fl web (rw_chain w) = Some (Some bh, c) \<longrightarrow> unat (bh_number bh) < 2 ^ 63"
    and "work_report_loop e fl web g rnd other db_ok n w = Some (l', w')" and "\<forall>p \<in> set (asked l'). unat (fst p) < 2 ^ 63"
  shows "sorted_wrt (\<lambda>a b. a + REPORT_SLOT \<le> b) (map (\<lambda>p. unat (fst p)) (asked l')) \<and>
    (\<forall>(n, st) \<in> set (asked l'). REPORT_SLOT dvd unat n \<and> st \<noteq> Some SPACEX_BLOCK_HEIGHT_EXPIRED)"
proof -
  have "report_inv (l', w')"
    by (rule report_loop_heights [OF assms(1) _ _ _ _ assms(6)]) (use assms(2-5,7) in \<open>auto simp: low_heights_def\<close>)
  then show ?thesis by (fastforce simp: report_inv_def Let_def)
qed

definition demo_world :: "enclave report_world" where
  "demo_world =
     \<lparr>rw_data = EnclaveData_init, rw_chain = (Chain_init ''u'' ''p'' ''b'' True None)\<lparr>offline_block_height := 1190\<rparr>,
      rw_queue = EnclaveQueue_init, rw_enclave = demo_enclave\<rparr>"

abbreviation (input) demo_gate :: "'s gate" where
  "demo_gate \<equiv> \<lparr>gap = (\<lambda>_ q. q), meanwhile = (\<lambda>s. s), edge = SGX_SUCCESS\<rparr>"

abbreviation (input) demo_web :: web where
  "demo_web \<equiv> \<lambda>_ _. \<lparr>result_code = 404, body = []\<rparr>"

lemma demo_ask: "rw_queue w = EnclaveQueue_init \<Longrightarrow> \<exists>r. report_ask demo_gate demo_env hash n w = Some r"
proof -
  assume w: "rw_queue w = EnclaveQueue_init"
  have "task_priority ''Ecall_gen_and_upload_work_report'' = 0" by code_simp
  then obtain k q where "try_get_enclave (\<lambda>_ q. q) ''Ecall_gen_and_upload_work_report'' EnclaveQueue_init = Some (SGX_SUCCESS, k, q)"
    using highest_priority_enters [of "''Ecall_gen_and_upload_work_report''" "\<lambda>_ q. q" EnclaveQueue_init]
    by (auto simp: increase_waiting_queue_def EnclaveQueue_init_def Let_def)
  then show ?thesis
    by (cases "ecall_gen_and_upload_work_report demo_env hash n (rw_enclave w)")
      (simp add: report_ask_def Ecall_gen_and_upload_work_report_def with_enclave_def w)
qed

lemma demo_wait: "rw_data w = EnclaveData_init \<Longrightarrow> wait_and_check_exit (\<lambda>_ w. w) t w = (False, w)"
proof -
  assume w: "rw_data w = EnclaveData_init"
  have "reserve_wait (\<lambda>_ w. w) (\<lambda>w. get_upgrade_status_app (rw_data w) = UPGRADE_STATUS_EXIT) is w = (False, w)" for "is"
    by (induction "is") (simp_all add: w get_upgrade_status_app_def EnclaveData_init_def)
  then show ?thesis by (simp add: wait_and_check_exit_def)
qed

lemma demo_report_run:
  "\<exists>l' w'. work_report_loop demo_env demo_fl demo_web (\<lambda>_. demo_gate) (\<lambda>_. 0) (\<lambda>_ _ _ w. w) (\<lambda>_. True) 2 demo_world = Some (l', w') \<and>
     map fst (asked l') = [1200]"
proof -
  let ?w1 = "demo_world\<lparr>rw_chain := add_offline_block_height True 20 (rw_chain demo_world)\<rparr>"
  have st: "get_upgrade_status_app EnclaveData_init = UPGRADE_STATUS_NONE" by (simp add: get_upgrade_status_app_def EnclaveData_init_def)
  let ?l0 = "\<lparr>target_block_height = 1200, stop_tryout = 30, asked = []\<rparr>"
  have w: "rw_data demo_world = EnclaveData_init" "is_offline (rw_chain demo_world)" "offline_block_height (rw_chain demo_world) = 1190"
    by (simp_all add: demo_world_def Chain_init_def)
  have 1: "report_turn demo_env demo_fl demo_web demo_gate 0 (\<lambda>_ _ w. w) True (?l0, demo_world) = Some (False, ?l0, ?w1)"
    by (simp add: report_turn_def report_try_def get_block_header_def w st demo_wait Let_def)
  have w1: "rw_data ?w1 = EnclaveData_init" "is_offline (rw_chain ?w1)" "offline_block_height (rw_chain ?w1) = 1210" "rw_queue ?w1 = EnclaveQueue_init"
    by (simp_all add: demo_world_def Chain_init_def add_offline_block_height_def)
  obtain st2 w2 where a: "report_ask demo_gate demo_env offline_hash 1200 ?w1 = Some (st2, w2)" using demo_ask [OF w1(4)] by (metis surj_pair)
  then have w2: "rw_data w2 = EnclaveData_init" "rw_chain w2 = rw_chain ?w1" using w1 by (auto simp: report_ask_def)
  have n: "(1210 :: size_t) div 1200 * 1200 = 1200" "\<not> (1210 :: size_t) < 1200" by code_simp+
  have h: "offline_hash \<noteq> replicate 64 (CHR ''0'')" by code_simp
  have hd: "get_block_header demo_env demo_fl demo_web (rw_chain ?w1) = Some (Some \<lparr>bh_number = 1210, bh_hash = offline_hash\<rparr>, rw_chain ?w1)"
    using w1(2,3) by (simp add: get_block_header_def Let_def)
  have gh: "get_block_hash demo_web m (rw_chain ?w1) = (offline_hash, rw_chain ?w1)" for m using w1(2) by (simp add: get_block_hash_def)
  have same: "?w1\<lparr>rw_chain := rw_chain ?w1\<rparr> = ?w1" by simp
  have try2: "report_try demo_env demo_fl demo_web demo_gate 0 (\<lambda>_ w. w) (?l0, ?w1) =
      Some (False, ?l0\<lparr>target_block_height := 2400, asked := [(1200, st2)]\<rparr>, w2)"
    unfolding report_try_def prod.case hd bind.bind_lunit option.case same Let_def demo_wait [OF w1(1)] gh BlockHeader.simps
    using a n h by (simp add: w1(1) st)
  let ?l2 = "?l0\<lparr>target_block_height := 2400, asked := [(1200, st2)]\<rparr>"
  obtain w3 where turn2: "report_turn demo_env demo_fl demo_web demo_gate 0 (\<lambda>_ _ w. w) True (?l0, ?w1) = Some (False, ?l2, w3)"
    unfolding report_turn_def try2 by (simp add: w1(1) w2 st demo_wait)
  have t: "first_target (Some \<lparr>bh_number = 1190, bh_hash = offline_hash\<rparr>) = 1200" by code_simp
  have "get_block_header demo_env demo_fl demo_web (rw_chain demo_world) = Some (Some \<lparr>bh_number = 1190, bh_hash = offline_hash\<rparr>, rw_chain demo_world)"
    using w by (simp add: get_block_header_def Let_def)
  then have "work_report_loop demo_env demo_fl demo_web (\<lambda>_. demo_gate) (\<lambda>_. 0) (\<lambda>_ _ _ w. w) (\<lambda>_. True) 2 demo_world = Some (?l2, w3)"
    unfolding work_report_loop_def numeral_2_eq_2 by (simp add: t 1 turn2)
  then show ?thesis by (intro exI [of _ ?l2] exI [of _ w3]) simp
qed

theorem report_heights_advance_witness:
  "\<exists>l' w'. work_report_loop demo_env demo_fl demo_web (\<lambda>_. demo_gate) (\<lambda>_. 0) (\<lambda>_ _ _ w. w) (\<lambda>_. True) 2 demo_world = Some (l', w') \<and>
     map fst (asked l') = [1200] \<and> (\<forall>(n, st) \<in> set (asked l'). st \<noteq> Some SPACEX_BLOCK_HEIGHT_EXPIRED)"
proof -
  obtain l' w' where r: "work_report_loop demo_env demo_fl demo_web (\<lambda>_. demo_gate) (\<lambda>_. 0) (\<lambda>_ _ _ w. w) (\<lambda>_. True) 2 demo_world = Some (l', w')"
    and a: "map fst (asked l') = [1200]" by (rule exE [OF demo_report_run], elim exE conjE)
  have low: "\<forall>p \<in> set (asked l'). unat (fst p) < 2 ^ 63" using a by auto
  have hd: "\<forall>bh c. get_block_header demo_env demo_fl demo_web (rw_chain demo_world) = Some (Some bh, c) \<longrightarrow> unat (bh_number bh) < 2 ^ 63"
    by (auto simp: get_block_header_def demo_world_def Chain_init_def Let_def)
  have "report_height (rw_enclave demo_world) = 0" by (simp add: demo_world_def demo_enclave_def)
  moreover have "\<forall>n s. report_height (meanwhile ((\<lambda>_. demo_gate) n) s) = report_height s" by simp
  moreover have "\<forall>h. ocall_ret demo_env h Ocall_upload_workreport \<noteq> SPACEX_BLOCK_HEIGHT_EXPIRED" by (simp add: demo_outside)
  moreover have "\<forall>k j i. keeps_height ((\<lambda>_ _ _ w. w) k j i)" by (simp add: keeps_height_def)
  ultimately have "\<forall>(n, st) \<in> set (asked l'). REPORT_SLOT dvd unat n \<and> st \<noteq> Some SPACEX_BLOCK_HEIGHT_EXPIRED"
    by (rule report_heights_advance [OF _ _ _ _ hd r low, THEN conjunct2])
  then have "\<forall>(n, st) \<in> set (asked l'). st \<noteq> Some SPACEX_BLOCK_HEIGHT_EXPIRED" by (simp add: case_prod_beta)
  with r a show ?thesis by (intro exI [of _ l'] exI [of _ w'] conjI)
qed


definition demo_full_os :: os where
  "demo_full_os = demo_os\<lparr>statfs_of := (\<lambda>_. None)\<rparr>"

lemma demo_uuid: "get_uuid ''/d'' demo_app = ''0909090909090909''"
  by (simp add: get_uuid_def demo_app_def)

lemma demo_uuid_plain:
  "dense ''0909090909090909'' \<and> json_plain ''0909090909090909'' \<and> \<not> prefix HASH_TAG ''0909090909090909''"
  by code_simp


text \<open>C28: a sealed block that the application stores for the enclave is found again. A success names a disk by the 16 characters of its identifier, reading the block
  under that name gives the data, the size counted for the file being sealed has grown by the length of the block, and no other file's has changed.\<close>

theorem stored_block_is_found:
  assumes "ocall_save_ipfs_block sys rand behind start path data a = Some (SPACEX_SUCCESS, u, a')"
    and "\<forall>p. written sys p data = data" and "\<forall>d \<in> ft_dirs (app_tree a'). d \<noteq> [] \<and> \<not> suffix path d"
  shows "\<exists>us. u = Some us \<and> length us = UUID_LENGTH * 2 \<and>
      ocall_get_file a' (us @ path) STORE_TYPE_FILE (app_tree a') = Some (SPACEX_SUCCESS, data) \<and>
      pending_file_size_um a' = (pending_file_size_um a)(parent_path path := long_add (pending_file_size_um a (parent_path path)) (int (length data)))"
  using save_ipfs_block_stored [OF assms] by blast

definition demo_block_path :: string where
  "demo_block_path = replicate 44 (CHR ''Q'') @ ''/abc''"

lemma demo_block_run:
  "map_option (\<lambda>(st, u, a'). (st, u, \<forall>d \<in> ft_dirs (app_tree a'). d \<noteq> [] \<and> \<not> suffix demo_block_path d))
     (ocall_save_ipfs_block demo_os (\<lambda>_. []) (\<lambda>_. []) 3 demo_block_path [1, 2] demo_app) = Some (SPACEX_SUCCESS, Some ''0909090909090909'', True)"
  by code_simp

theorem stored_block_is_found_witness:
  "\<exists>a'. ocall_save_ipfs_block demo_os (\<lambda>_. []) (\<lambda>_. []) 3 demo_block_path [1, 2] demo_app = Some (SPACEX_SUCCESS, Some ''0909090909090909'', a') \<and>
     ocall_get_file a' (''0909090909090909'' @ demo_block_path) STORE_TYPE_FILE (app_tree a') = Some (SPACEX_SUCCESS, [1, 2])"
proof -
  obtain a' where r: "ocall_save_ipfs_block demo_os (\<lambda>_. []) (\<lambda>_. []) 3 demo_block_path [1, 2] demo_app = Some (SPACEX_SUCCESS, Some ''0909090909090909'', a')"
    and d: "\<forall>d \<in> ft_dirs (app_tree a'). d \<noteq> [] \<and> \<not> suffix demo_block_path d"
    using demo_block_run by (auto split: prod.splits)
  have "\<forall>p. written demo_os p [1, 2] = [1, 2]" by (simp add: demo_os_def)
  from stored_block_is_found [OF r this d] show ?thesis using r by auto
qed

text \<open>The search for a disk comes to an end. When the disks that the application knows and those of its configuration are there, storing a block under
  a path of ASCII characters returns, with a success or an error, for every file system and every answer of the operating system.\<close>

theorem storing_a_block_returns:
  assumes "disks_there a" and "\<forall>path \<in> set (get_data_paths (app_conf a)). exists_path path (app_tree a) \<and> 1 < length path"
    and "CHR ''/'' \<in> set path" and "\<forall>c \<in> set path. of_char c < (128::int)"
  shows "\<exists>st u a'. ocall_save_ipfs_block sys rand behind start path data a = Some (st, u, a')"
  using assms by (rule save_ipfs_block_returns)

theorem storing_a_block_returns_witness:
  "\<exists>st u a'. ocall_save_ipfs_block demo_os (\<lambda>_. []) (\<lambda>_. []) 3 demo_block_path [1, 2] demo_app = Some (st, u, a')"
proof (rule storing_a_block_returns)
  show "disks_there demo_app" by (auto simp: disks_there_def demo_app_def exists_path_def split: if_splits)
  show "\<forall>path \<in> set (get_data_paths (app_conf demo_app)). exists_path path (app_tree demo_app) \<and> 1 < length path"
    by (simp add: get_data_paths_def demo_app_def exists_path_def)
  show "CHR ''/'' \<in> set demo_block_path" "\<forall>c \<in> set demo_block_path. of_char c < (128::int)" by code_simp+
qed

text \<open>The number of the current block reaches the enclave. What the application reads from the chain, writes as a document without blanks and hands over is
  read by the enclave as the same number.\<close>

theorem block_number_arrives:
  assumes "heap_ok e" and "get_block_header e fl web c = Some (Some bh, c')" and "0 \<le> sint (bh_number bh)"
    and "dense (bh_hash bh)" and "json_plain (bh_hash bh)" and "\<not> prefix HASH_TAG (bh_hash bh)" and "length (block_info_text e bh) \<le> data_size"
  shows "\<exists>n data. ocall_chain_get_block_info e fl web data_size c = Some (SPACEX_SUCCESS, n, data, c') \<and>
    block_number e fl (SPACEX_SUCCESS, data) = Some (bh_number bh)"
  using assms by (rule block_info_reads_back)

theorem block_number_arrives_witness:
  "\<exists>n data c'. ocall_chain_get_block_info demo_env demo_fl demo_web 1024 (rw_chain demo_world) = Some (SPACEX_SUCCESS, n, data, c') \<and>
     block_number demo_env demo_fl (SPACEX_SUCCESS, data) = Some 1190"
proof -
  let ?bh = "\<lparr>bh_number = 1190, bh_hash = offline_hash\<rparr>"
  have h: "get_block_header demo_env demo_fl demo_web (rw_chain demo_world) = Some (Some ?bh, rw_chain demo_world)"
    by (simp add: get_block_header_def demo_world_def Chain_init_def Let_def)
  have b: "0 \<le> sint (bh_number ?bh)" "dense (bh_hash ?bh)" "json_plain (bh_hash ?bh)" "\<not> prefix HASH_TAG (bh_hash ?bh)"
    "length (block_info_text demo_env ?bh) \<le> 1024" by code_simp+
  from block_number_arrives [OF demo_env_ok(1) h b] show ?thesis by auto
qed

text \<open>How a report is posted. All attempts send the same request, which is the report with the backup of the account added. There are at most twenty; before the
  last, each answer was an error after which a retry makes sense; the call succeeds exactly when the last answer is a success, and it fails only after
  twenty attempts or an error that the chain will not take back.\<close>

theorem report_post_retries:
  assumes "Load_string e fl report = POk (obj, SPACEX_SUCCESS)" and "\<not> is_offline c"
    and "post_sworker_work_report e fl web report c = Some (ok, c')" and "r = post_request e ''/storage/workreport'' obj c"
    and "reply = (\<lambda>i. web (requests c @ replicate i r) r)"
  shows "\<exists>k \<le> 20. c' = c\<lparr>requests := requests c @ replicate k r\<rparr> \<and>
    (\<forall>i. Suc i < k \<longrightarrow> \<not> http_ok (reply i) \<and> final_refusal e fl (reply i) = Some False) \<and>
    (if ok then 0 < k \<and> http_ok (reply (k - 1))
     else (0 < k \<longrightarrow> \<not> http_ok (reply (k - 1))) \<and> (k = 20 \<or> 0 < k \<and> final_refusal e fl (reply (k - 1)) = Some True))"
  using post_report_loop_spec [OF assms(1), of web 20 c ok c'] assms(2,3) unfolding assms(4,5) by (simp add: post_sworker_work_report_def)

abbreviation (input) demo_reply :: string where
  "demo_reply \<equiv> ''{'' @ quoted ''number'' @ '':12,'' @ quoted ''isSyncing'' @ '':false}''"

abbreviation (input) demo_up :: web where
  "demo_up \<equiv> \<lambda>_ _. \<lparr>result_code = 200, body = demo_reply\<rparr>"

definition demo_chain :: chain where
  "demo_chain = Chain_init ''u'' ''p'' ''b'' False None"

theorem report_post_retries_witness:
  "\<exists>k r. k \<le> 20 \<and> post_sworker_work_report demo_env demo_fl demo_up ''{}'' demo_chain = Some (True, demo_chain\<lparr>requests := replicate k r\<rparr>)"
proof -
  have l: "Load_string demo_env demo_fl ''{}'' = POk (JObject [], SPACEX_SUCCESS)" by code_simp
  let ?r = "post_request demo_env ''/storage/workreport'' (JObject []) demo_chain"
  have off: "\<not> is_offline demo_chain" by (simp add: demo_chain_def Chain_init_def)
  have run: "post_sworker_work_report demo_env demo_fl demo_up ''{}'' demo_chain = Some (True, demo_chain\<lparr>requests := requests demo_chain @ [?r]\<rparr>)"
    using off by (simp add: post_sworker_work_report_def numeral_eq_Suc l http_do_def)
  obtain k where k: "k \<le> 20" "demo_chain\<lparr>requests := requests demo_chain @ [?r]\<rparr> = demo_chain\<lparr>requests := requests demo_chain @ replicate k ?r\<rparr>"
    using report_post_retries [OF l off run refl refl] by blast
  have e: "requests demo_chain = []" by (simp add: demo_chain_def Chain_init_def)
  from run k(2) have "post_sworker_work_report demo_env demo_fl demo_up ''{}'' demo_chain = Some (True, demo_chain\<lparr>requests := replicate k ?r\<rparr>)"
    unfolding e append_Nil by (rule trans [OF _ arg_cong [of _ _ "\<lambda>c. Some (True, c)"]])
  with k(1) show ?thesis by blast
qed

text \<open>C29: the wait for the chain ends. When the answers can be parsed and from some request on the chain answers, has a height of ten at least and is not
  synchronising, \<open>wait_for_running\<close> returns, whatever was answered before.\<close>

theorem chain_wait_ends:
  assumes "readable e fl web" and "is_offline c \<or> chain_up e fl web (ch_url c) n"
  shows "\<exists>c'. wait_for_running e fl web c = Some (True, c')"
  using assms by (rule wait_for_running_ends)

theorem chain_wait_ends_witness: "\<exists>c'. wait_for_running demo_env demo_fl demo_up demo_chain = Some (True, c')"
proof -
  have l: "Load_unsafe demo_env demo_fl demo_reply = Some (JObject [(''isSyncing'', JBoolean False), (''number'', JIntegral 12)])" by code_simp
  have "readable demo_env demo_fl demo_up" using l by (simp add: readable_def)
  moreover have "chain_up demo_env demo_fl demo_up (ch_url demo_chain) 0"
    using l by (simp add: chain_up_def jget_def map_get_def ToBool_def)
  ultimately show ?thesis by (intro chain_wait_ends [of _ _ _ _ 0] disjI2)
qed

text \<open>C30: the queue in front of the enclave counts exactly, in every interleaving of the threads. In every state reached from the empty queue the number of running
  tasks is the number of threads that hold a place, the waiting counters of every priority and name are the numbers of threads that wait, the
  counters by name are the threads listed, never more than 32 threads hold a place, and one place is kept free for the highest priority.\<close>

theorem queue_counts: "queue_step\<^sup>*\<^sup>* (EnclaveQueue_init, []) c \<Longrightarrow> queue_inv c"
  by (rule queue_reachable_inv)

theorem queue_counts_witness:
  "queue_inv (increase_waiting_queue ''Ecall_seal_file'' EnclaveQueue_init, [(''Ecall_seal_file'', Checking [] 0)])"
proof (rule queue_counts)
  have "block_tasks_um ''Ecall_seal_file'' = []" by code_simp
  then have "queue_step (EnclaveQueue_init, []) (increase_waiting_queue ''Ecall_seal_file'' EnclaveQueue_init, [(''Ecall_seal_file'', Checking [] 0)])"
    using queue_step.call [of EnclaveQueue_init "[]" "''Ecall_seal_file''"] by simp
  then show "queue_step\<^sup>*\<^sup>* (EnclaveQueue_init, []) (increase_waiting_queue ''Ecall_seal_file'' EnclaveQueue_init, [(''Ecall_seal_file'', Checking [] 0)])"
    by (rule r_into_rtranclp)
qed

text \<open>C31: a place taken is given back. A call into the enclave that returns, with a success, with a refusal of the queue or with an error of the bridge,
  leaves every counter of the queue as it found it when no other thread interferes.\<close>

theorem call_gives_place_back:
  assumes "with_enclave g name f (q, s) = Some (ret, r, q', s')" and "gap g = (\<lambda>_ q. q)" and "queue_ok q"
  shows "same_queue q q'"
  using assms by (rule with_enclave_alone)

theorem call_gives_place_back_witness:
  "\<exists>ret r q' s'. Ecall_srd_increase demo_gate demo_env ''0909090909090909'' (EnclaveQueue_init, demo_enclave) = Some (ret, r, q', s') \<and>
     same_queue EnclaveQueue_init q'"
proof -
  have p: "ENC_PRIO_TIMEOUT_THRESHOLD < task_priority ''Ecall_srd_increase''" by code_simp
  obtain ret r q' s' where c: "Ecall_srd_increase demo_gate demo_env ''0909090909090909'' (EnclaveQueue_init, demo_enclave) = Some (ret, r, q', s')"
    using with_enclave_returns [OF p, of "\<lambda>s. Some (ecall_srd_increase demo_env ''0909090909090909'' s)" demo_gate "(EnclaveQueue_init, demo_enclave)"]
    unfolding Ecall_srd_increase_def by (auto simp only: not_None_eq option.simps split_paired_Ex)
  have "same_queue EnclaveQueue_init q'"
    by (rule call_gives_place_back [OF c [unfolded Ecall_srd_increase_def]]) (simp_all add: queue_inv_ok [OF queue_init_inv])
  with c show ?thesis by blast
qed

text \<open>A call of the lowest priority never waits for ever. Whatever other threads do to the queue between its steps, asking for a place ends,
  with a place or with a timeout.\<close>

theorem low_priority_call_returns:
  "ENC_PRIO_TIMEOUT_THRESHOLD < task_priority name \<Longrightarrow> \<exists>r. try_get_enclave other name q = Some r"
  by (rule lowest_priority_returns)

theorem low_priority_call_returns_witness:
  "\<exists>r. try_get_enclave (\<lambda>_ q. q\<lparr>running_task_num := 32\<rparr>) ''Ecall_id_get_info'' EnclaveQueue_init = Some r"
  by (rule low_priority_call_returns) code_simp

text \<open>When \<open>create_directory\<close> returns. It returns exactly when going up from the path reaches a directory that exists before what is left is a single
  character; otherwise its loop never ends, whatever the operating system answers.\<close>

theorem create_directory_ends:
  "path \<noteq> [] \<Longrightarrow> (\<exists>r. create_directory sys path t = Some r) \<longleftrightarrow> grounded path t"
  by (rule create_directory_returns_iff)

theorem create_directory_ends_witness: "\<not> (\<exists>r. create_directory demo_os ''/new'' \<lparr>ft_dirs = {''/''}, ft_files = Map.empty\<rparr> = Some r)"
proof -
  have "\<not> grounded (''/'' @ ''new'') \<lparr>ft_dirs = {''/''}, ft_files = Map.empty\<rparr>"
    by (rule not_grounded_root) (simp_all add: exists_path_def)
  then show ?thesis using create_directory_ends [of "''/new''" demo_os] by simp
qed

text \<open>The data paths that the configuration uses. Of the configured paths, exactly one is taken per file system that can be reached, except that a path on the
  file system of the program itself is taken only when there is no other file system.\<close>

theorem data_paths_per_disk:
  fixes c :: "'a config_scheme" and sys :: os
  assumes "[] \<notin> set (cf_org_data_paths c)" and "ps = set (cf_org_data_paths c)" and "new = set (cf_data_paths (refresh_data_paths sys c))"
  shows "new \<subseteq> ps \<and> inj_on (fsid_of sys) new \<and> None \<notin> fsid_of sys ` new \<and>
    (\<forall>x. x \<noteq> cf_sys_fsid c \<longrightarrow> Some x \<in> fsid_of sys ` ps \<longrightarrow> Some x \<in> fsid_of sys ` new) \<and>
    (Some (cf_sys_fsid c) \<in> fsid_of sys ` new \<longleftrightarrow>
       Some (cf_sys_fsid c) \<in> fsid_of sys ` ps \<and> (\<forall>x. Some x \<in> fsid_of sys ` ps \<longrightarrow> x = cf_sys_fsid c))"
  using refresh_data_paths_spec [where sys = sys, OF assms(1)] unfolding assms(2,3) by blast

theorem data_paths_per_disk_witness:
  "inj_on (fsid_of demo_os) (set (cf_data_paths (refresh_data_paths demo_os (app_conf demo_app)))) \<and>
     set (cf_data_paths (refresh_data_paths demo_os (app_conf demo_app))) \<subseteq> {''/d'', ''/e''}"
  using data_paths_per_disk [of "app_conf demo_app", OF _ refl refl, of demo_os] by (simp add: demo_app_def)


lemma demo_share_run:
  "map_option fst (get_increase_srd_info demo_os (\<lambda>_. []) (\<lambda>_. []) 7 demo_app) = Some 0"
  by code_simp


section \<open>The whole node\<close>

text \<open>A node with an enclave, the chain at block 3000, an old version that answers every request with 200, and no other threads.\<close>

definition demo_node :: node where
  "demo_node =
     \<lparr>nd_app = demo_app\<lparr>ed_upgrade_status := UPGRADE_STATUS_END\<rparr>, nd_chain = (Chain_init ''u'' ''p'' ''b'' True None)\<lparr>offline_block_height := 3000\<rparr>, nd_queue = EnclaveQueue_init,
      nd_enclave = demo_enclave, change_srd_num = 0, nd_debug = False\<rparr>"

definition demo_site :: site where
  "demo_site =
     \<lparr>s_env = demo_env, s_fl = demo_fl,
      s_web = (\<lambda>_ _. \<lparr>result_code = 200, body = []\<rparr>),
      s_sys = demo_os, s_rand = (\<lambda>_. []), s_behind = (\<lambda>_. []), s_now = (\<lambda>_. 0), s_gate = (\<lambda>_. demo_gate), s_other = (\<lambda>_ s. s),
      s_elsewhere = (\<lambda>_ n. n), s_sgx_code = (\<lambda>_. 0), base_url = ''http://127.0.0.1:12222/api/v0'', chain_address = ''c'',
      config_file_path = ''/config''\<rparr>"

lemma demo_site_fields [simp]:
  "s_env demo_site = demo_env" "s_fl demo_site = demo_fl" "s_gate demo_site i = demo_gate" "s_other demo_site i s = s"
  "s_elsewhere demo_site i n = n"
  by (simp_all add: demo_site_def)

lemma demo_site_base: "base (get_url_end_point (base_url demo_site)) = ''/api/v0''"
  by code_simp

lemma demo_quiet: "quiet demo_site" "undisturbed demo_site"
  by (simp_all add: quiet_def idle_def same_work_refl undisturbed_def)

lemma demo_header: "node_block_header demo_site demo_node = Some (Some \<lparr>bh_number = 3000, bh_hash = offline_hash\<rparr>, demo_node)"
  by (simp add: node_block_header_def get_block_header_def demo_node_def Chain_init_def)

lemma demo_due: "upgrade_due demo_site 3000 demo_node"
proof -
  have "task_priority ''Ecall_gen_upgrade_data'' = 0" by code_simp
  then obtain k q where "try_get_enclave (\<lambda>_ q. q) ''Ecall_gen_upgrade_data'' EnclaveQueue_init = Some (SGX_SUCCESS, k, q)"
    using highest_priority_enters [of "''Ecall_gen_upgrade_data''" "\<lambda>_ q. q" EnclaveQueue_init]
    by (auto simp: increase_waiting_queue_def EnclaveQueue_init_def Let_def)
  then show ?thesis
    by (simp add: upgrade_due_def demo_node_def demo_enclave_guards demo_env_ok demo_outside)
qed

lemma demo_movable: "movable demo_env demo_enclave"
proof -
  have "length (srd_hashs demo_enclave) = 1" "id_key_pair demo_enclave = (replicate 64 1, replicate 32 2)" "sealed_files demo_enclave \<noteq> []"
    by (simp_all add: demo_enclave_def demo_files_def)
  moreover have "sig_sound demo_env kp" for kp by (simp add: sig_sound_def demo_env_def)
  ultimately show ?thesis
    by (simp add: movable_def demo_enclave_ok demo_rt demo_env_ok demo_not_pending)
qed



text \<open>C34: which requests an upgrade closes. A node that is about to exit answers every request with 400 or 501 and does nothing; while an upgrade runs, changing the
  random data, deleting files and starting to seal files are answered with 501 and change nothing.\<close>

theorem upgrade_closes_requests:
  assumes "site_base x = CHR ''/'' # b" and "CHR ''?'' \<notin> set b"
  shows "(\<forall>req r n'. node_status n = UPGRADE_STATUS_EXIT \<and> http_handler x req n = Some (r, n') \<longrightarrow> n' = n \<and> result_code r \<in> {400, 501}) \<and>
    (\<forall>tag data. node_status n \<in> {UPGRADE_STATUS_PROCESS, UPGRADE_STATUS_END, UPGRADE_STATUS_COMPLETE} \<and>
       tag \<in> {''/srd/change'', ''/storage/delete'', ''/storage/seal_start''} \<and> str_find (site_base x @ tag) ''..'' 0 = None \<longrightarrow>
       (\<exists>r. http_handler x \<lparr>req_method = POST, req_target = site_base x @ tag, req_body = data\<rparr> n = Some (r, n) \<and> result_code r = 501))"
proof (intro conjI allI impI)
  fix req r n' assume "node_status n = UPGRADE_STATUS_EXIT \<and> http_handler x req n = Some (r, n')"
  then have st: "node_status n = UPGRADE_STATUS_EXIT" and h: "http_handler x req n = Some (r, n')" by simp_all
  show "n' = n" "result_code r \<in> {400, 501}"
    using h by (cases rule: http_handler_cases; use st in simp)+
next
  fix tag data
  assume *: "node_status n \<in> {UPGRADE_STATUS_PROCESS, UPGRADE_STATUS_END, UPGRADE_STATUS_COMPLETE} \<and>
       tag \<in> {''/srd/change'', ''/storage/delete'', ''/storage/seal_start''} \<and> str_find (site_base x @ tag) ''..'' 0 = None"
  have q: "CHR ''?'' \<notin> set (site_base x)" using assms by simp
  show "\<exists>r. http_handler x \<lparr>req_method = POST, req_target = site_base x @ tag, req_body = data\<rparr> n = Some (r, n) \<and> result_code r = 501"
    using closed_route_refused [OF _ _ q assms(1), of n tag data] * by (auto simp: upgrade_block_s_def answer_def)
qed

theorem upgrade_closes_requests_witness:
  "\<exists>r. http_handler demo_site \<lparr>req_method = POST, req_target = ''/api/v0/srd/change'', req_body = []\<rparr> demo_node = Some (r, demo_node) \<and> result_code r = 501"
proof -
  have b: "site_base demo_site = CHR ''/'' # ''api/v0''" by (simp add: demo_site_base)
  have q: "CHR ''?'' \<notin> set ''api/v0''" and f: "str_find (site_base demo_site @ ''/srd/change'') ''..'' 0 = None" by code_simp+
  have st: "node_status demo_node = UPGRADE_STATUS_END" by (simp add: demo_node_def get_upgrade_status_app_def)
  from upgrade_closes_requests [OF b q, of demo_node, THEN conjunct2, rule_format, of "''/srd/change''" "[]"] st f
  show ?thesis by (simp add: demo_site_base)
qed

text \<open>C35: a period of upgrade ends. As long as no request changes the status, the loop of the main thread comes back to the normal
  status within one turn more than there are turns left, 721 turns of 15 seconds after a start, unless the process ends before.\<close>

theorem upgrade_gives_up:
  assumes "process_turns x p k s = Some (False, s')" and "undisturbed x" and "upgrade_tryout s < int k" and "0 \<le> upgrade_tryout s"
  shows "\<exists>j t. 0 < j \<and> j \<le> k \<and> process_turns x p j s = Some (False, t) \<and> node_status (pr_node t) = UPGRADE_STATUS_NONE"
  by (rule upgrade_ends [OF assms])

definition demo_run_env :: run_env where
  "demo_run_env =
     \<lparr>r_sgx_supported = True, r_create_enclave = (\<lambda>_. True), r_web_ok = True, r_db_ok = (\<lambda>_. True),
      r_entry_network = (\<lambda>_ n. (SPACEX_SUCCESS, n)), r_ended = (\<lambda>_ ts. ts), r_buffer_key = 0, r_account_id = ''acc'',
      r_backup = ''b'', r_offline = False\<rparr>"

text \<open>A node whose upgrade is complete, with no turns left.\<close>

definition demo_process :: process where
  "demo_process =
     \<lparr>pr_node = demo_node\<lparr>nd_app := demo_app\<lparr>ed_upgrade_status := UPGRADE_STATUS_COMPLETE\<rparr>\<rparr>,
      pr_tasks = [(Start_webservice, True), (Main_loop, True)], upgrade_tryout = 0\<rparr>"

lemma demo_sleep: "\<not> may_exit s \<Longrightarrow> reserve_wait (second demo_site demo_run_env) may_exit is s = (False, s)"
proof (induction "is" arbitrary: s)
  case (Cons i "is")
  have "second demo_site demo_run_env i s = s" by (simp add: second_def demo_run_env_def)
  with Cons show ?case by simp
qed simp

lemma demo_turn:
  "\<exists>s. process_turn demo_site demo_run_env demo_process = Some (False, s) \<and> node_status (pr_node s) = UPGRADE_STATUS_NONE"
proof -
  let ?n = "pr_node demo_process" and ?a = "demo_app\<lparr>ed_upgrade_status := UPGRADE_STATUS_NONE\<rparr>"
  have st: "node_status ?n = UPGRADE_STATUS_COMPLETE" by (simp add: demo_process_def get_upgrade_status_app_def)
  have "task_priority ''Ecall_disable_upgrade'' = 0" by code_simp
  then obtain k q where q: "try_get_enclave (\<lambda>_ q. q) ''Ecall_disable_upgrade'' EnclaveQueue_init = Some (SGX_SUCCESS, k, q)"
    using highest_priority_enters [of "''Ecall_disable_upgrade''" "\<lambda>_ q. q" EnclaveQueue_init]
    by (auto simp: increase_waiting_queue_def EnclaveQueue_init_def Let_def)
  have "\<exists>m. set_node_status demo_site UPGRADE_STATUS_NONE ?n = Some m"
    using q by (simp add: set_node_status_def set_upgrade_status_app_def demo_process_def demo_node_def get_upgrade_status_app_def
        node_call_def Ecall_disable_upgrade_def with_enclave_def ecall_disable_upgrade_def set_upgrade_status_def)
  then obtain m where m: "set_node_status demo_site UPGRADE_STATUS_NONE ?n = Some m" "node_status m = UPGRADE_STATUS_NONE"
    using set_node_status_status by blast
  let ?s = "demo_process\<lparr>pr_node := m, upgrade_tryout := upgrade_tryouts\<rparr>"
  have "\<not> may_exit ?s" by (simp add: may_exit_def m(2))
  from demo_sleep [OF this] have "process_turn demo_site demo_run_env demo_process = Some (False, ?s)"
    using st m by (simp add: process_turn_def upgrade_drained_def upgrade_collect_def check_tryout_def demo_process_def del: upt.simps reserve_wait.simps)
  with m(2) show ?thesis by fastforce
qed

theorem upgrade_gives_up_witness:
  "\<exists>t. process_turns demo_site demo_run_env 1 demo_process = Some (False, t) \<and> node_status (pr_node t) = UPGRADE_STATUS_NONE"
proof -
  obtain s where "process_turns demo_site demo_run_env 1 demo_process = Some (False, s)"
    using demo_turn by auto
  from upgrade_gives_up [OF this demo_quiet(2)] obtain j t where "0 < j" "j \<le> 1"
    "process_turns demo_site demo_run_env j demo_process = Some (False, t)" "node_status (pr_node t) = UPGRADE_STATUS_NONE"
    by (auto simp: demo_process_def)
  moreover from this have "j = 1" by simp
  ultimately show ?thesis by blast
qed




definition demo_success :: bytes where
  "demo_success = str_bytes ([CHR ''{'', CHR 0x22] @ ''success'' @ [CHR 0x22] @ '':true}'')"


text \<open>C38: how much random data a request changes. For numbers that are far from the end of their range the amount that is asked of the enclave has the
  sign of the request and is the smaller one of the request and the room: what the disks have left besides the tasks, or all items and tasks there are;
  without room the request is refused.\<close>

theorem srd_change_stays_in_room:
  fixes wl_info :: JSON and change :: int
  assumes "\<forall>k. moderate (ToInt (jget (jget wl_info WL_SRD) k))" and "moderate running" and "- (2 ^ 63) < change" and "change < 2 ^ 63" and "change \<noteq> 0"
    and "room = (if change > 0
      then max (ToInt (jget (jget wl_info WL_SRD) WL_DISK_AVAILABLE_FOR_SRD) - running) 0 - ToInt (jget (jget wl_info WL_SRD) WL_SRD_REMAINING_TASK)
      else ToInt (jget (jget wl_info WL_SRD) WL_SRD_COMPLETE) + ToInt (jget (jget wl_info WL_SRD) WL_SRD_REMAINING_TASK) + running)"
  shows "srd_change_amount wl_info running change = Some (if room \<le> 0 then None else Some (sgn change * min \<bar>change\<bar> room))"
  unfolding assms(6) by (rule srd_change_amount_bounds [OF assms(1-5)])

definition demo_overview :: JSON where
  "demo_overview = JObject [(WL_SRD, JObject [(WL_DISK_AVAILABLE_FOR_SRD, JIntegral 30), (WL_SRD_COMPLETE, JIntegral 8), (WL_SRD_REMAINING_TASK, JIntegral 10)])]"

theorem srd_change_stays_in_room_witness:
  "srd_change_amount demo_overview 5 100 = Some (Some 15) \<and> srd_change_amount demo_overview 5 (- 100) = Some (Some (- 23))"
proof -
  have v: "jget demo_overview WL_SRD = JObject [(WL_DISK_AVAILABLE_FOR_SRD, JIntegral 30), (WL_SRD_COMPLETE, JIntegral 8), (WL_SRD_REMAINING_TASK, JIntegral 10)]"
    by (simp add: demo_overview_def jget_def map_get_def)
  have m: "\<forall>k. moderate (ToInt (jget (jget demo_overview WL_SRD) k))" "moderate 5"
    unfolding v by (simp_all add: jget_def map_get_def moderate_def)
  show ?thesis
    using srd_change_stays_in_room [OF m, of 100, OF _ _ _ refl] srd_change_stays_in_room [OF m, of "- 100", OF _ _ _ refl]
    unfolding v by (simp add: jget_def map_get_def)
qed

text \<open>C39: the parameters of a request arrive. From a path without question mark and parameters whose names have no ampersand and no equals sign and whose
  values have no ampersand, \<open>get_params\<close> reads back the path as the route and every parameter, the last one of a name winning; a parameter
  called \<open>req_route\<close> replaces the route.\<close>

theorem request_parameters_arrive:
  assumes "CHR ''?'' \<notin> set path" and "list_all clean_param ps"
  shows "get_params (path @ ''?'' @ query ps) = [''req_route'' \<mapsto> path] ++ map_of (rev ps)"
  by (rule get_params_query [OF assms])

theorem request_parameters_arrive_witness:
  "get_params ''/api/v0/storage/seal?cid=Qm&new_block=true'' = [''req_route'' \<mapsto> ''/api/v0/storage/seal''] ++ map_of [(''new_block'', ''true''), (''cid'', ''Qm'')]"
proof -
  have "list_all clean_param [(''cid'', ''Qm''), (''new_block'', ''true'')]" "CHR ''?'' \<notin> set ''/api/v0/storage/seal''"
    by (simp_all add: clean_param_def)
  from request_parameters_arrive [OF this(2,1)] show ?thesis by (simp add: query_def)
qed

text \<open>C40: the correction of an illegal transfer is not closed by an upgrade. A node whose upgrade data is complete, and waits to be fetched, serves a request to
  recover files, and the confirmed status of a file in the enclave is not the one in the data any more.\<close>

definition demo_complete :: node where
  "demo_complete = demo_node\<lparr>nd_app := demo_app\<lparr>ed_upgrade_status := UPGRADE_STATUS_COMPLETE\<rparr>,
     nd_enclave := demo_enclave\<lparr>upgrade_status := ENC_UPGRADE_STATUS_SUCCESS\<rparr>\<rparr>"

definition demo_recover :: bytes where
  "demo_recover = str_bytes ([CHR ''{'', CHR 0x22] @ ''added_files'' @ [CHR 0x22, CHR '':'', CHR ''['', CHR 0x22, CHR ''a'', CHR 0x22] @ '']}'')"

lemma demo_recovered:
  "\<exists>s. recover_illegal_file demo_env demo_fl demo_recover (nd_enclave demo_complete) = Some (SPACEX_SUCCESS, s) \<and>
     sealed_files s = [demo_file ''a'' ''101'', demo_file ''c'' ''333''] \<and> ocalls s = []"
proof -
  have "map_option (\<lambda>(st, s). (st, sealed_files s, ocalls s)) (recover_illegal_file demo_env demo_fl demo_recover (nd_enclave demo_complete)) =
      Some (SPACEX_SUCCESS, [demo_file ''a'' ''101'', demo_file ''c'' ''333''], [])"
    by code_simp
  then show ?thesis by auto
qed

lemma demo_recover_load:
  "\<exists>j. Load demo_env demo_fl (bytes_str demo_recover) = POk (j, SPACEX_SUCCESS) \<and> recover_request_ok j"
proof -
  have "(case Load demo_env demo_fl (bytes_str demo_recover) of POk (j, st) \<Rightarrow> st = SPACEX_SUCCESS \<and> recover_request_ok j | _ \<Rightarrow> False)"
    by code_simp
  then show ?thesis by (auto split: presult.splits)
qed


end
